(* ===== verification/Pyvalue.thy ===== *)
theory Pyvalue
  imports Prelude "HOL-Library.AList" Complex_Main
begin

section \<open>Python values, dicts and their texts\<close>

text \<open>
  The values the harness stores and compares: what \<open>json.loads\<close> returns.
  \<^item> A \<open>str\<close> is its UTF-8 encoding (a \<open>string\<close>, one \<open>char\<close> per byte), so \<open>length\<close> is
    \<open>len(s.encode("utf-8"))\<close>, byte order is code point order, and \<open>utf8_length\<close>, \<open>utf8_take\<close>
    count code points. Lone surrogates are outside the model.
  \<^item> An \<open>int\<close> is unbounded. A \<open>float\<close> is a \<open>pyfloat\<close>: an exact rational, an infinity or NaN;
    binary64 rounding is not modelled. \<open>Fin\<close> compares with an \<open>int\<close> exactly, as Python does.
  \<^item> A \<open>dict\<close> with string keys is an association list in insertion order (\<open>pydict\<close>): \<open>dget\<close> is
    \<open>d.get(k)\<close>, \<open>dget_or\<close> is \<open>d.get(k, fallback)\<close>, \<open>dput\<close> is \<open>d[k] = v\<close>, which keeps the place of a key already there.
  \<^item> \<open>py_eq\<close> is \<open>==\<close>: dicts compare without order, and \<open>True == 1 == 1.0\<close>.
  \<^item> \<open>json_dumps\<close> is \<open>json.dumps\<close> for the separators and the \<open>ensure_ascii\<close> the code passes;
    \<open>py_repr\<close> and \<open>py_str\<close> are \<open>repr\<close> and \<open>str\<close>. Floats print in positional notation.
\<close>

subsection \<open>Numbers\<close>

datatype pyfloat = Fin rat | PosInf | NegInf | NaN

fun pf_le :: "pyfloat \<Rightarrow> pyfloat \<Rightarrow> bool" where
  "pf_le NaN _ = False"
| "pf_le _ NaN = False"
| "pf_le NegInf _ = True"
| "pf_le _ PosInf = True"
| "pf_le (Fin a) (Fin b) = (a \<le> b)"
| "pf_le _ _ = False"

fun pf_lt :: "pyfloat \<Rightarrow> pyfloat \<Rightarrow> bool" where
  "pf_lt NaN _ = False"
| "pf_lt _ NaN = False"
| "pf_lt (Fin a) (Fin b) = (a < b)"
| "pf_lt NegInf b = (b \<noteq> NegInf)"
| "pf_lt PosInf _ = False"
| "pf_lt (Fin a) b = (b = PosInf)"

fun pf_add :: "pyfloat \<Rightarrow> pyfloat \<Rightarrow> pyfloat" where
  "pf_add (Fin a) (Fin b) = Fin (a + b)"
| "pf_add NaN _ = NaN"
| "pf_add _ NaN = NaN"
| "pf_add PosInf NegInf = NaN"
| "pf_add NegInf PosInf = NaN"
| "pf_add PosInf _ = PosInf"
| "pf_add NegInf _ = NegInf"
| "pf_add _ PosInf = PosInf"
| "pf_add _ NegInf = NegInf"

text \<open>\<open>max(a, b)\<close> keeps its first argument unless the second is greater; \<open>min\<close> unless the
  second is smaller. With NaN the first argument stays.\<close>

definition pf_max :: "pyfloat \<Rightarrow> pyfloat \<Rightarrow> pyfloat" where
  "pf_max a b = (if pf_lt a b then b else a)"

definition pf_min :: "pyfloat \<Rightarrow> pyfloat \<Rightarrow> pyfloat" where
  "pf_min a b = (if pf_lt b a then b else a)"

fun pf_eq :: "pyfloat \<Rightarrow> pyfloat \<Rightarrow> bool" where
  "pf_eq NaN _ = False"
| "pf_eq _ NaN = False"
| "pf_eq a b = (a = b)"

text \<open>\<open>int(x)\<close> of a finite float: truncation toward zero.\<close>

definition rat_trunc :: "rat \<Rightarrow> int" where
  "rat_trunc x = (if 0 \<le> x then \<lfloor>x\<rfloor> else \<lceil>x\<rceil>)"

definition rat_is_integer :: "rat \<Rightarrow> bool" where
  "rat_is_integer x = (of_int \<lfloor>x\<rfloor> = x)"

lemma rat_trunc_of_int [simp]: "rat_trunc (of_int i) = i"
  by (simp add: rat_trunc_def)

lemma rat_trunc_numeral [simp]:
  "rat_trunc 0 = 0" "rat_trunc 1 = 1" "rat_trunc (numeral n) = numeral n"
  by (simp_all add: rat_trunc_def)

lemma rat_trunc_le: "0 \<le> x \<Longrightarrow> of_int (rat_trunc x) \<le> x"
  by (simp add: rat_trunc_def)

lemma rat_trunc_less: "0 \<le> x \<Longrightarrow> x < of_int (rat_trunc x) + 1"
  using floor_correct [of x] by (simp add: rat_trunc_def)

lemma rat_trunc_add_int:
  "0 \<le> x \<Longrightarrow> 0 \<le> x + of_int i \<Longrightarrow> rat_trunc (x + of_int i) = rat_trunc x + i"
  by (simp add: rat_trunc_def)

lemma rat_trunc_mono: "x \<le> y \<Longrightarrow> rat_trunc x \<le> rat_trunc y"
proof -
  assume le: "x \<le> y"
  have "\<lceil>x\<rceil> \<le> \<lfloor>y\<rfloor>" if "\<not> 0 \<le> x" "0 \<le> y"
    using that by (meson ceiling_le_zero dual_order.trans linear zero_le_floor)
  with le show ?thesis
    by (auto simp: rat_trunc_def intro: floor_mono ceiling_mono)
qed

lemma rat_is_integerD: "rat_is_integer x \<Longrightarrow> \<exists>i. x = of_int i"
  unfolding rat_is_integer_def by metis

text \<open>Round to the nearest integer, ties to even, and \<open>f"{x:.4f}"\<close>.\<close>

definition round_half_even :: "rat \<Rightarrow> int" where
  "round_half_even x =
     (let f = \<lfloor>x\<rfloor>; r = x - of_int f
      in if r < 1 / 2 then f else if 1 / 2 < r then f + 1 else if even f then f else f + 1)"

fun fmt4 :: "pyfloat \<Rightarrow> string" where
  "fmt4 NaN = ''nan''"
| "fmt4 PosInf = ''inf''"
| "fmt4 NegInf = ''-inf''"
| "fmt4 (Fin q) =
     (let n = nat (round_half_even (\<bar>q\<bar> * 10000)); f = n mod 10000
      in (if q < 0 then ''-'' else []) @ show_nat (n div 10000) @ ''.''
         @ map digit_char [f div 1000, f div 100 mod 10, f div 10 mod 10, f mod 10])"

subsection \<open>JSON values\<close>

datatype json =
    JNull
  | JBool bool
  | JInt int
  | JFloat pyfloat
  | JStr string
  | JList "json list"
  | JDict "(string \<times> json) list"

type_synonym pydict = "(string \<times> json) list"

definition dget :: "pydict \<Rightarrow> string \<Rightarrow> json" where
  "dget d k = (case map_of d k of None \<Rightarrow> JNull | Some v \<Rightarrow> v)"

definition dget_or :: "pydict \<Rightarrow> string \<Rightarrow> json \<Rightarrow> json" where
  "dget_or d k fallback = (case map_of d k of None \<Rightarrow> fallback | Some v \<Rightarrow> v)"

definition dput :: "string \<Rightarrow> json \<Rightarrow> pydict \<Rightarrow> pydict" where
  "dput k v d = AList.update k v d"

text \<open>\<open>isinstance\<close> tests, as the value they let the code use.\<close>

fun as_str :: "json \<Rightarrow> string option" where
  "as_str (JStr s) = Some s" | "as_str _ = None"

fun as_list :: "json \<Rightarrow> json list option" where
  "as_list (JList xs) = Some xs" | "as_list _ = None"

fun as_dict :: "json \<Rightarrow> pydict option" where
  "as_dict (JDict d) = Some d" | "as_dict _ = None"

text \<open>\<open>isinstance(x, (int, float)) and not isinstance(x, bool)\<close>\<close>

fun as_num :: "json \<Rightarrow> pyfloat option" where
  "as_num (JInt i) = Some (Fin (of_int i))"
| "as_num (JFloat f) = Some f"
| "as_num _ = None"

text \<open>\<open>isinstance(x, int) and not isinstance(x, bool)\<close>\<close>

fun as_int :: "json \<Rightarrow> int option" where
  "as_int (JInt i) = Some i" | "as_int _ = None"

text \<open>Python's truth value of a JSON value (the operand of \<open>or\<close>).\<close>

fun truthy :: "json \<Rightarrow> bool" where
  "truthy JNull = False"
| "truthy (JBool b) = b"
| "truthy (JInt i) = (i \<noteq> 0)"
| "truthy (JFloat f) = (f \<noteq> Fin 0)"
| "truthy (JStr s) = (s \<noteq> [])"
| "truthy (JList xs) = (xs \<noteq> [])"
| "truthy (JDict d) = (d \<noteq> [])"

text \<open>The dict entries of a list, \<open>[x for x in xs if isinstance(x, dict)]\<close>; none of a value that
  is not a list.\<close>

definition dicts_of :: "json list \<Rightarrow> pydict list" where
  "dicts_of xs = List.map_filter as_dict xs"

definition strs_of :: "json list \<Rightarrow> string list" where
  "strs_of xs = List.map_filter as_str xs"

lemma dicts_of_JDict [simp]: "dicts_of (map JDict ds) = ds"
  by (induction ds) (auto simp: dicts_of_def List.map_filter_def)

lemma strs_of_JStr [simp]: "strs_of (map JStr ss) = ss"
  by (induction ss) (auto simp: strs_of_def List.map_filter_def)

lemma dicts_of_append [simp]: "dicts_of (xs @ ys) = dicts_of xs @ dicts_of ys"
  by (simp add: dicts_of_def List.map_filter_def)

lemma map_of_dput [simp]: "map_of (dput k v d) = (map_of d)(k \<mapsto> v)"
  by (simp add: dput_def update_conv')

lemma dget_dput: "dget (dput k v d) k' = (if k' = k then v else dget d k')"
  by (simp add: dget_def)

lemma dget_dput_same [simp]: "dget (dput k v d) k = v"
  by (simp add: dget_dput)

lemma dget_dput_other [simp]: "k' \<noteq> k \<Longrightarrow> dget (dput k v d) k' = dget d k'"
  by (simp add: dget_dput)

lemma distinct_dput: "distinct (map fst d) \<Longrightarrow> distinct (map fst (dput k v d))"
  by (simp add: dput_def distinct_update)

lemma dput_present: "k \<in> fst ` set d \<Longrightarrow> map fst (dput k v d) = map fst d"
  by (simp add: dput_def update_keys)

lemma dput_dput_same [simp]: "dput k v (dput k w d) = dput k v d"
  by (simp add: dput_def)

lemma dget_Nil [simp]: "dget [] k = JNull"
  by (simp add: dget_def)

lemma dget_Cons: "dget ((k', v) # d) k = (if k = k' then v else dget d k)"
  by (simp add: dget_def)

lemma as_str_eq_Some [simp]: "as_str v = Some s \<longleftrightarrow> v = JStr s"
  by (cases v) auto

lemma as_dict_eq_Some [simp]: "as_dict v = Some d \<longleftrightarrow> v = JDict d"
  by (cases v) auto

lemma as_list_eq_Some [simp]: "as_list v = Some xs \<longleftrightarrow> v = JList xs"
  by (cases v) auto

lemma as_int_eq_Some [simp]: "as_int v = Some i \<longleftrightarrow> v = JInt i"
  by (cases v) auto

text \<open>\<open>int(x)\<close> and \<open>float(x)\<close> of a number, with the exceptions they raise given by the caller:
  \<open>int\<close> refuses NaN and infinities, \<open>float\<close> an \<open>int\<close> that rounds past the largest binary64 value.\<close>

definition float_limit :: int where
  "float_limit = 2 ^ 1024 - 2 ^ 970"

definition int_overflows :: "json \<Rightarrow> bool" where
  "int_overflows v = (case v of JInt i \<Rightarrow> float_limit \<le> \<bar>i\<bar> | _ \<Rightarrow> False)"

subsection \<open>Equality\<close>

fun num_value :: "json \<Rightarrow> pyfloat option" where
  "num_value (JBool b) = Some (Fin (if b then 1 else 0))"
| "num_value (JInt i) = Some (Fin (of_int i))"
| "num_value (JFloat f) = Some f"
| "num_value _ = None"

fun py_eq :: "json \<Rightarrow> json \<Rightarrow> bool"
  and py_eq_list :: "json list \<Rightarrow> json list \<Rightarrow> bool"
  and py_eq_items :: "(string \<times> json) list \<Rightarrow> pydict \<Rightarrow> bool" where
  "py_eq JNull w = (w = JNull)"
| "py_eq (JStr s) w = (w = JStr s)"
| "py_eq (JList xs) w = (case w of JList ys \<Rightarrow> py_eq_list xs ys | _ \<Rightarrow> False)"
| "py_eq (JDict d) w =
     (case w of JDict e \<Rightarrow> length d = length e \<and> py_eq_items d e | _ \<Rightarrow> False)"
| "py_eq v w =
     (case (num_value v, num_value w) of (Some a, Some b) \<Rightarrow> pf_eq a b | _ \<Rightarrow> False)"
| "py_eq_list [] ys = (ys = [])"
| "py_eq_list (x # xs) ys = (case ys of [] \<Rightarrow> False | y # ys' \<Rightarrow> py_eq x y \<and> py_eq_list xs ys')"
| "py_eq_items [] e = True"
| "py_eq_items ((k, v) # d) e =
     ((case map_of e k of None \<Rightarrow> False | Some w \<Rightarrow> py_eq v w) \<and> py_eq_items d e)"

subsection \<open>Text\<close>

definition byte_of :: "char \<Rightarrow> nat" where
  "byte_of c = of_char c"

definition is_continuation :: "char \<Rightarrow> bool" where
  "is_continuation c = (byte_of c div 64 = 2)"

definition utf8_length :: "string \<Rightarrow> nat" where
  "utf8_length s = length (filter (\<lambda>c. \<not> is_continuation c) s)"

fun utf8_take :: "nat \<Rightarrow> string \<Rightarrow> string" where
  "utf8_take n [] = []"
| "utf8_take n (c # s) =
     (if is_continuation c then c # utf8_take n s
      else case n of 0 \<Rightarrow> [] | Suc m \<Rightarrow> c # utf8_take m s)"

definition hex_digit :: "nat \<Rightarrow> char" where
  "hex_digit d = char_of (if d < 10 then 48 + d else 87 + d)"

definition hex2 :: "nat \<Rightarrow> string" where
  "hex2 n = [hex_digit (n div 16 mod 16), hex_digit (n mod 16)]"

definition hex4 :: "nat \<Rightarrow> string" where
  "hex4 n = hex2 (n div 256) @ hex2 (n mod 256)"

abbreviation quote_char :: char where "quote_char \<equiv> CHR 0x22"
abbreviation backslash :: char where "backslash \<equiv> CHR 0x5C"

text \<open>The escapes of one byte below 128 in a JSON string.\<close>

definition json_escape :: "char \<Rightarrow> string" where
  "json_escape c =
     (if c = quote_char then [backslash, quote_char]
      else if c = backslash then [backslash, backslash]
      else if c = CHR 0x0A then [backslash, CHR ''n'']
      else if c = CHR 0x0D then [backslash, CHR ''r'']
      else if c = CHR 0x09 then [backslash, CHR ''t'']
      else if c = CHR 0x08 then [backslash, CHR ''b'']
      else if c = CHR 0x0C then [backslash, CHR ''f'']
      else if byte_of c < 32 then [backslash, CHR ''u''] @ hex4 (byte_of c)
      else [c])"

definition json_u :: "nat \<Rightarrow> string" where
  "json_u cp =
     (if cp < 65536 then [backslash, CHR ''u''] @ hex4 cp
      else [backslash, CHR ''u''] @ hex4 (55296 + (cp - 65536) div 1024)
           @ [backslash, CHR ''u''] @ hex4 (56320 + (cp - 65536) mod 1024))"

text \<open>\<open>ensure_ascii=True\<close>: DEL and every non-ASCII code point as \<open>\uXXXX\<close>, by surrogate pairs
  beyond the basic plane.\<close>

fun escape_ascii :: "string \<Rightarrow> string" where
  "escape_ascii [] = []"
| "escape_ascii [a] = (if byte_of a < 127 then json_escape a else json_u (byte_of a))"
| "escape_ascii [a, b] =
     (if byte_of a < 127 then json_escape a @ escape_ascii [b]
      else if byte_of a < 192 then json_u (byte_of a) @ escape_ascii [b]
      else json_u (byte_of a mod 32 * 64 + byte_of b mod 64))"
| "escape_ascii [a, b, c] =
     (if byte_of a < 127 then json_escape a @ escape_ascii [b, c]
      else if byte_of a < 192 then json_u (byte_of a) @ escape_ascii [b, c]
      else if byte_of a < 224 then json_u (byte_of a mod 32 * 64 + byte_of b mod 64) @ escape_ascii [c]
      else json_u (byte_of a mod 16 * 4096 + byte_of b mod 64 * 64 + byte_of c mod 64))"
| "escape_ascii (a # b # c # d # s) =
     (if byte_of a < 127 then json_escape a @ escape_ascii (b # c # d # s)
      else if byte_of a < 192 then json_u (byte_of a) @ escape_ascii (b # c # d # s)
      else if byte_of a < 224
        then json_u (byte_of a mod 32 * 64 + byte_of b mod 64) @ escape_ascii (c # d # s)
      else if byte_of a < 240
        then json_u (byte_of a mod 16 * 4096 + byte_of b mod 64 * 64 + byte_of c mod 64)
             @ escape_ascii (d # s)
      else json_u (byte_of a mod 8 * 262144 + byte_of b mod 64 * 4096 + byte_of c mod 64 * 64
                   + byte_of d mod 64) @ escape_ascii s)"

definition json_string :: "bool \<Rightarrow> string \<Rightarrow> string" where
  "json_string ascii s =
     [quote_char] @ (if ascii then escape_ascii s else concat (map json_escape s)) @ [quote_char]"

fun fraction_digits :: "nat \<Rightarrow> rat \<Rightarrow> string" where
  "fraction_digits 0 r = []"
| "fraction_digits (Suc n) r =
     (let d = \<lfloor>10 * r\<rfloor>; r' = 10 * r - of_int d
      in digit_char (nat d) # (if r' = 0 then [] else fraction_digits n r'))"

fun float_repr :: "pyfloat \<Rightarrow> string" where
  "float_repr NaN = ''nan''"
| "float_repr PosInf = ''inf''"
| "float_repr NegInf = ''-inf''"
| "float_repr (Fin q) =
     (let a = \<bar>q\<bar>; i = \<lfloor>a\<rfloor>
      in (if q < 0 then ''-'' else []) @ show_int i @ ''.'' @ fraction_digits 17 (a - of_int i))"

fun float_json :: "pyfloat \<Rightarrow> string" where
  "float_json NaN = ''NaN''"
| "float_json PosInf = ''Infinity''"
| "float_json NegInf = ''-Infinity''"
| "float_json f = float_repr f"

text \<open>\<open>json_dumps ascii isep ksep\<close> is \<open>json.dumps(v, ensure_ascii=ascii, separators=(isep, ksep))\<close>.\<close>

fun json_dumps :: "bool \<Rightarrow> string \<Rightarrow> string \<Rightarrow> json \<Rightarrow> string" where
  "json_dumps ascii isep ksep JNull = ''null''"
| "json_dumps ascii isep ksep (JBool b) = (if b then ''true'' else ''false'')"
| "json_dumps ascii isep ksep (JInt i) = show_int i"
| "json_dumps ascii isep ksep (JFloat f) = float_json f"
| "json_dumps ascii isep ksep (JStr s) = json_string ascii s"
| "json_dumps ascii isep ksep (JList xs) =
     ''['' @ join_with isep (map (json_dumps ascii isep ksep) xs) @ '']''"
| "json_dumps ascii isep ksep (JDict d) =
     ''{'' @ join_with isep
        (map (\<lambda>kv. json_string ascii (fst kv) @ ksep @ json_dumps ascii isep ksep (snd kv)) d)
      @ ''}''"

text \<open>\<open>json.dumps(v)\<close> with its defaults.\<close>

definition json_dumps_default :: "json \<Rightarrow> string" where
  "json_dumps_default v = json_dumps True '', '' '': '' v"

definition repr_escape :: "char \<Rightarrow> char \<Rightarrow> string" where
  "repr_escape q c =
     (if c = q \<or> c = backslash then [backslash, c]
      else if c = CHR 0x0A then [backslash, CHR ''n'']
      else if c = CHR 0x0D then [backslash, CHR ''r'']
      else if c = CHR 0x09 then [backslash, CHR ''t'']
      else if byte_of c < 32 \<or> byte_of c = 127 then [backslash, CHR ''x''] @ hex2 (byte_of c)
      else [c])"

definition str_repr :: "string \<Rightarrow> string" where
  "str_repr s =
     (let q = (if CHR 0x27 \<in> set s \<and> quote_char \<notin> set s then quote_char else CHR 0x27)
      in [q] @ concat (map (repr_escape q) s) @ [q])"

fun py_repr :: "json \<Rightarrow> string" where
  "py_repr JNull = ''None''"
| "py_repr (JBool b) = (if b then ''True'' else ''False'')"
| "py_repr (JInt i) = show_int i"
| "py_repr (JFloat f) = float_repr f"
| "py_repr (JStr s) = str_repr s"
| "py_repr (JList xs) = ''['' @ join_with '', '' (map py_repr xs) @ '']''"
| "py_repr (JDict d) =
     ''{'' @ join_with '', '' (map (\<lambda>kv. str_repr (fst kv) @ '': '' @ py_repr (snd kv)) d) @ ''}''"

definition py_str :: "json \<Rightarrow> string" where
  "py_str v = (case v of JStr s \<Rightarrow> s | _ \<Rightarrow> py_repr v)"

lemma py_str_JStr [simp]: "py_str (JStr s) = s"
  by (simp add: py_str_def)

end
