(* ===== verification/Errors.thy ===== *)
theory Errors
  imports Pyvalue
begin

section \<open>Failures and their codes\<close>

text \<open>
  \<open>errors.py\<close>: the stable codes, the exception class and one factory per failure, with the
  source's messages. \<open>exn\<close> is every exception the modelled code raises or lets pass: a
  \<open>HarnessError\<close>, the exceptions of \<open>address_index.py\<close> and \<open>registration.py\<close>, Python's built-in
  ones, and \<open>OtherErr\<close> for what a caller's own code (a tool, a client, a listener) raises.
\<close>

datatype error_code =
    SESSION_LOCKED
  | UNSAFE_STATE_CONFIGURATION
  | UNKNOWN_STORE_DRIVER
  | TOOL_NOT_AVAILABLE
  | RUN_NOT_PERMITTED
  | MODEL_STEP_FAILED
  | UNMAPPABLE_CONTENT
  | NO_AGENT_RUNTIME
  | MODE_NOT_CONFIGURED
  | MODE_MALFORMED
  | UNSAFE_AUTHORIZATION_CONFIGURATION
  | CALL_NOT_AUTHORIZED
  | SKILL_PATH_REFUSED
  | DUPLICATE_TASK_ID
  | TASK_IDENTIFIER_BLANK
  | TASK_NOT_FOUND
  | TASK_ALREADY_TERMINAL
  | TASK_LEASE_NOT_HELD
  | TASK_OUTCOME_INVALID
  | TASK_LEASE_INVALID
  | ATTACHMENT_BY_REFERENCE
  | ATTACHMENT_NOT_MEDIA
  | ATTACHMENT_EMPTY
  | ATTACHMENT_WITHOUT_PROMPT
  | STRUCTURED_UNREADABLE
  | STRUCTURED_SCHEMA_VIOLATION

fun code_value :: "error_code \<Rightarrow> string" where
  "code_value SESSION_LOCKED = ''session_locked''"
| "code_value UNSAFE_STATE_CONFIGURATION = ''unsafe_state_configuration''"
| "code_value UNKNOWN_STORE_DRIVER = ''unknown_store_driver''"
| "code_value TOOL_NOT_AVAILABLE = ''tool_not_available''"
| "code_value RUN_NOT_PERMITTED = ''run_not_permitted''"
| "code_value MODEL_STEP_FAILED = ''model_step_failed''"
| "code_value UNMAPPABLE_CONTENT = ''unmappable_content''"
| "code_value NO_AGENT_RUNTIME = ''no_agent_runtime''"
| "code_value MODE_NOT_CONFIGURED = ''mode_not_configured''"
| "code_value MODE_MALFORMED = ''mode_malformed''"
| "code_value UNSAFE_AUTHORIZATION_CONFIGURATION = ''unsafe_authorization_configuration''"
| "code_value CALL_NOT_AUTHORIZED = ''call_not_authorized''"
| "code_value SKILL_PATH_REFUSED = ''skill_path_refused''"
| "code_value DUPLICATE_TASK_ID = ''duplicate_task_id''"
| "code_value TASK_IDENTIFIER_BLANK = ''task_identifier_blank''"
| "code_value TASK_NOT_FOUND = ''task_not_found''"
| "code_value TASK_ALREADY_TERMINAL = ''task_already_terminal''"
| "code_value TASK_LEASE_NOT_HELD = ''task_lease_not_held''"
| "code_value TASK_OUTCOME_INVALID = ''task_outcome_invalid''"
| "code_value TASK_LEASE_INVALID = ''task_lease_invalid''"
| "code_value ATTACHMENT_BY_REFERENCE = ''attachment_by_reference''"
| "code_value ATTACHMENT_NOT_MEDIA = ''attachment_not_media''"
| "code_value ATTACHMENT_EMPTY = ''attachment_empty''"
| "code_value ATTACHMENT_WITHOUT_PROMPT = ''attachment_without_prompt''"
| "code_value STRUCTURED_UNREADABLE = ''structured_unreadable''"
| "code_value STRUCTURED_SCHEMA_VIOLATION = ''structured_schema_violation''"

record harness_error =
  he_code :: string
  he_message :: string
  he_document :: "string option"
  he_problems :: "string list"
  he_finish_reason :: "string option"

datatype exn =
    HarnessErr harness_error
  | ValueErr string
  | TypeErr string
  | OverflowErr string
  | AttributeErr string
  | KeyErr string
  | RegistrationCollision string
  | IndexLockScopeUnsupported
  | IndexRecoveryRequired
  | AddressLimitExceeded
  | AssertionErr
  | OtherErr string

type_synonym 'a pyres = "exn + 'a"
type_synonym ('s, 'a) py = "('s, exn, 'a) act"

text \<open>\<open>HarnessError.__init__\<close> for a code and a message, the other fields at their defaults.\<close>

definition harness_err :: "error_code \<Rightarrow> string \<Rightarrow> exn" where
  "harness_err c m = HarnessErr
     \<lparr> he_code = code_value c, he_message = m, he_document = None, he_problems = [],
       he_finish_reason = None \<rparr>"

text \<open>\<open>error.code\<close> of a \<open>HarnessError\<close>; no other exception of the model is a \<open>HarnessError\<close>.\<close>

fun exn_code :: "exn \<Rightarrow> string option" where
  "exn_code (HarnessErr e) = Some (he_code e)"
| "exn_code _ = None"

definition is_code :: "exn \<Rightarrow> error_code \<Rightarrow> bool" where
  "is_code e c = (exn_code e = Some (code_value c))"

text \<open>\<open>str(error)\<close>.\<close>

fun exn_str :: "exn \<Rightarrow> string" where
  "exn_str (HarnessErr e) = he_message e"
| "exn_str (ValueErr m) = m"
| "exn_str (TypeErr m) = m"
| "exn_str (OverflowErr m) = m"
| "exn_str (AttributeErr m) = m"
| "exn_str (KeyErr m) = str_repr m"
| "exn_str (RegistrationCollision m) = m"
| "exn_str IndexLockScopeUnsupported =
     ''Indexed namespaces require declared sharing and lock scopes, with the lock covering the sharing scope.''"
| "exn_str IndexRecoveryRequired =
     ''Recover the interrupted address append before reading a complete index or planning erasure.''"
| "exn_str AddressLimitExceeded =
     ''The configured max_addresses_per_participant limit was reached; no resource was written.''"
| "exn_str AssertionErr = []"
| "exn_str (OtherErr m) = m"

subsection \<open>Factories\<close>

definition session_locked :: "string \<Rightarrow> string \<Rightarrow> exn" where
  "session_locked key wait_seconds = harness_err SESSION_LOCKED
     (''Could not acquire the lock on session ['' @ key @ ''] within '' @ wait_seconds @ ''s. '' @
      ''Another worker is holding it; the callback was NOT run.'')"

definition volatile_durable_store :: "string \<Rightarrow> string \<Rightarrow> exn" where
  "volatile_durable_store slot driver = harness_err UNSAFE_STATE_CONFIGURATION
     (''The ['' @ slot @ ''] slot is configured with the ['' @ driver @ ''] driver, which reports itself '' @
      ''VOLATILE. Durable state (threads, pending tool approvals) must survive a deploy. '' @
      ''Either point this slot at a durable driver, or -- if this store really does persist '' @
      ''-- declare it durable when you register it. That declaration is an assertion about '' @
      ''your infrastructure, not a preference.'')"

definition unknown_store_driver :: "string \<Rightarrow> string \<Rightarrow> exn" where
  "unknown_store_driver slot driver = harness_err UNKNOWN_STORE_DRIVER
     (''The ['' @ slot @ ''] slot names the driver ['' @ driver @ ''], which is not registered.'')"

definition tool_not_available :: "string \<Rightarrow> string list \<Rightarrow> exn" where
  "tool_not_available name available = harness_err TOOL_NOT_AVAILABLE
     (''The tool ['' @ name @ ''] is not available to this session (has: '' @
      (let j = join_with '', '' available in if j = [] then ''none'' else j) @ '').'')"

definition run_not_permitted :: "string \<Rightarrow> exn" where
  "run_not_permitted reason = harness_err RUN_NOT_PERMITTED reason"

definition model_step_failed :: "string \<Rightarrow> exn" where
  "model_step_failed finish_reason =
     (if finish_reason \<noteq> ''error'' \<and> finish_reason \<noteq> ''unknown''
      then ValueErr ''Model step finish reason must be error or unknown''
      else HarnessErr
        \<lparr> he_code = code_value MODEL_STEP_FAILED,
          he_message = ''Model step failed: '' @ finish_reason @ ''.'',
          he_document = None, he_problems = [], he_finish_reason = Some finish_reason \<rparr>)"

definition unmappable_content :: "string \<Rightarrow> exn" where
  "unmappable_content description = harness_err UNMAPPABLE_CONTENT
     (''Could not rebuild stored content: '' @ description @ ''.'')"

definition mode_not_configured :: "string \<Rightarrow> exn" where
  "mode_not_configured name = harness_err MODE_NOT_CONFIGURED
     (''Harness mode ['' @ name @ ''] is not configured.'')"

definition mode_malformed :: "string \<Rightarrow> string \<Rightarrow> exn" where
  "mode_malformed name detail = harness_err MODE_MALFORMED
     (''Harness mode ['' @ name @ ''] is malformed: '' @ detail @ ''.'')"

definition policy_defined_but_disabled :: exn where
  "policy_defined_but_disabled = harness_err UNSAFE_AUTHORIZATION_CONFIGURATION
     (''A tool authorization policy was supplied, but the authorizer is disabled, so that '' @
      ''policy is never consulted and every registered tool is offered to every run. Either '' @
      ''enable the authorizer, or remove the policy so nothing suggests tool access is being '' @
      ''restricted.'')"

definition call_not_authorized :: "string \<Rightarrow> exn" where
  "call_not_authorized tool = harness_err CALL_NOT_AUTHORIZED
     (''This call to ['' @ tool @ ''] was refused by the tool authorization policy.'')"

definition skill_path_refused :: "string \<Rightarrow> exn" where
  "skill_path_refused detail = harness_err SKILL_PATH_REFUSED
     (''Refused to read a skill file: '' @ detail @ ''.'')"

definition volatile_task_source :: "string \<Rightarrow> exn" where
  "volatile_task_source driver = harness_err UNSAFE_STATE_CONFIGURATION
     (''A task source was pointed at the ['' @ driver @ ''] store, which reports itself VOLATILE. '' @
      ''A task list is durable state: a half-finished list that vanishes on a deploy is '' @
      ''indistinguishable from a finished one, so losing it is a correctness failure rather '' @
      ''than a cache miss. Point the source at a durable store -- or, if this one really '' @
      ''does persist, declare it durable when you register it.'')"

definition duplicate_task_id :: "string \<Rightarrow> exn" where
  "duplicate_task_id task_id = harness_err DUPLICATE_TASK_ID
     (''This source already holds a task with the id ['' @ task_id @ '']. Ids must be unique '' @
      ''within a source, because a claim, a release and a lease all address a task by it.'')"

definition task_identifier_blank :: "string \<Rightarrow> exn" where
  "task_identifier_blank kind = harness_err TASK_IDENTIFIER_BLANK
     (''A '' @ kind @ '' identifier was the empty string. It is refused rather than stored: an '' @
      ''empty string is FALSY in PHP, so a blank owner reads as 'unclaimed' to any '' @
      ''implementation testing the field for truth -- a task that is held and looks free.'')"

definition task_not_found :: "string \<Rightarrow> exn" where
  "task_not_found task_id = harness_err TASK_NOT_FOUND
     (''This source holds no task with the id ['' @ task_id @ ''].'')"

definition task_already_terminal :: "string \<Rightarrow> string \<Rightarrow> exn" where
  "task_already_terminal task_id state = harness_err TASK_ALREADY_TERMINAL
     (''Task ['' @ task_id @ ''] is already ['' @ state @ ''], which is terminal. Releasing it again is '' @
      ''refused rather than ignored: a silent no-op discards whatever the second caller '' @
      ''had to report. An application that wants the task run again re-queues it.'')"

definition task_lease_not_held :: "string \<Rightarrow> string \<Rightarrow> exn" where
  "task_lease_not_held task_id detail = harness_err TASK_LEASE_NOT_HELD
     (''Task ['' @ task_id @ ''] cannot be acted on by this worker: '' @ detail @ ''. Another worker may '' @
      ''already be doing it, so a report from a lapsed holder is refused.'')"

definition task_outcome_invalid :: "json \<Rightarrow> exn" where
  "task_outcome_invalid value = harness_err TASK_OUTCOME_INVALID
     (''['' @ py_repr value @ ''] is not a task outcome. It must be exactly 'done' or 'failed' -- not '' @
      ''a different casing, not a synonym, and not absent. A value that cannot be read as '' @
      ''one of the two is refused rather than resolved to either, because resolving it '' @
      ''would always mean choosing an outcome the caller did not ask for.'')"

definition task_outcome_not_supplied :: exn where
  "task_outcome_not_supplied = harness_err TASK_OUTCOME_INVALID
     (''No task outcome was supplied. It must be stated explicitly as 'done' or 'failed'; '' @
      ''an absent outcome is not a request to complete the task. Inferring the more '' @
      ''privileged answer from silence is the same escalation as coercing an unreadable '' @
      ''one into it.'')"

definition task_lease_invalid :: "json \<Rightarrow> exn" where
  "task_lease_invalid seconds = harness_err TASK_LEASE_INVALID
     (''['' @ py_repr seconds @ ''] is not a usable lease. It must be a finite number of seconds '' @
      ''greater than zero. It is refused rather than clamped to something workable: a '' @
      ''lease that expires the moment it is granted leaves the claim it should protect '' @
      ''open to the next caller, and silently substituting a different number would hide '' @
      ''that rather than report it.'')"

definition attachment_by_reference :: "nat \<Rightarrow> string \<Rightarrow> exn" where
  "attachment_by_reference index what = harness_err ATTACHMENT_BY_REFERENCE
     (''Attachment ['' @ show_nat index @ ''] was built from '' @ what @ ''. A turn sends media as its bytes or as '' @
      ''a provider file id, never as a URL or path for someone else to resolve. Read the '' @
      ''content yourself and attach the bytes.'')"

definition attachment_not_media :: "nat \<Rightarrow> string \<Rightarrow> exn" where
  "attachment_not_media index kind = harness_err ATTACHMENT_NOT_MEDIA
     (''Attachment ['' @ show_nat index @ ''] is '' @ kind @ '', not an image, document, audio or video. A '' @
      ''turn's text belongs in the prompt.'')"

definition attachment_empty :: "nat \<Rightarrow> exn" where
  "attachment_empty index = harness_err ATTACHMENT_EMPTY
     (''Attachment ['' @ show_nat index @ ''] carries nothing to send: no bytes, no file id and no chunks.'')"

definition attachment_without_prompt :: exn where
  "attachment_without_prompt = harness_err ATTACHMENT_WITHOUT_PROMPT
     (''Attachments need a prompt to travel with. An empty prompt resumes a paused run and '' @
      ''sends no user message, so these attachments would be dropped without a word.'')"

definition no_agent_runtime :: "string \<Rightarrow> exn" where
  "no_agent_runtime action = harness_err NO_AGENT_RUNTIME
     (''This session cannot '' @ action @ '': it was built without an agent runtime.'')"

definition structured_unreadable :: "string \<Rightarrow> exn" where
  "structured_unreadable document = HarnessErr
     \<lparr> he_code = code_value STRUCTURED_UNREADABLE,
       he_message = ''The model returned no readable document for a structured turn. Its text is on this '' @
                    ''error as document.'',
       he_document = Some document, he_problems = [], he_finish_reason = None \<rparr>"

definition structured_schema_violation :: "string \<Rightarrow> string list \<Rightarrow> exn" where
  "structured_schema_violation document problems = HarnessErr
     \<lparr> he_code = code_value STRUCTURED_SCHEMA_VIOLATION,
       he_message = ''The model returned a document that does not satisfy the schema: '' @ join_with '' '' problems,
       he_document = Some document, he_problems = problems, he_finish_reason = None \<rparr>"

subsection \<open>Codes identify failures\<close>

named_theorems code_simps \<open>the code each factory raises\<close>

lemma code_value_inj [simp]: "code_value a = code_value b \<longleftrightarrow> a = b"
  by (cases a; cases b) simp_all

lemma exn_code_harness_err [simp]: "exn_code (harness_err c m) = Some (code_value c)"
  by (simp add: harness_err_def)

lemma is_code_harness_err [simp]: "is_code (harness_err c m) c' \<longleftrightarrow> c = c'"
  by (simp add: is_code_def)

lemma factory_codes [code_simps]:
  "is_code (session_locked key w) c \<longleftrightarrow> c = SESSION_LOCKED"
  "is_code (volatile_durable_store slot d) c \<longleftrightarrow> c = UNSAFE_STATE_CONFIGURATION"
  "is_code (unknown_store_driver slot d) c \<longleftrightarrow> c = UNKNOWN_STORE_DRIVER"
  "is_code (tool_not_available n av) c \<longleftrightarrow> c = TOOL_NOT_AVAILABLE"
  "is_code (run_not_permitted r) c \<longleftrightarrow> c = RUN_NOT_PERMITTED"
  "is_code (unmappable_content x) c \<longleftrightarrow> c = UNMAPPABLE_CONTENT"
  "is_code (call_not_authorized t) c \<longleftrightarrow> c = CALL_NOT_AUTHORIZED"
  "is_code (mode_malformed n x) c \<longleftrightarrow> c = MODE_MALFORMED"
  "is_code (mode_not_configured n) c \<longleftrightarrow> c = MODE_NOT_CONFIGURED"
  "is_code (duplicate_task_id t) c \<longleftrightarrow> c = DUPLICATE_TASK_ID"
  "is_code (task_identifier_blank k) c \<longleftrightarrow> c = TASK_IDENTIFIER_BLANK"
  "is_code (task_not_found t) c \<longleftrightarrow> c = TASK_NOT_FOUND"
  "is_code (task_already_terminal t st) c \<longleftrightarrow> c = TASK_ALREADY_TERMINAL"
  "is_code (task_lease_not_held t x) c \<longleftrightarrow> c = TASK_LEASE_NOT_HELD"
  "is_code (task_outcome_invalid v) c \<longleftrightarrow> c = TASK_OUTCOME_INVALID"
  "is_code task_outcome_not_supplied c \<longleftrightarrow> c = TASK_OUTCOME_INVALID"
  "is_code (task_lease_invalid v) c \<longleftrightarrow> c = TASK_LEASE_INVALID"
  "is_code (volatile_task_source d) c \<longleftrightarrow> c = UNSAFE_STATE_CONFIGURATION"
  by (auto simp: session_locked_def volatile_durable_store_def unknown_store_driver_def
      tool_not_available_def run_not_permitted_def unmappable_content_def call_not_authorized_def
      mode_malformed_def mode_not_configured_def duplicate_task_id_def task_identifier_blank_def
      task_not_found_def task_already_terminal_def task_lease_not_held_def task_outcome_invalid_def
      task_outcome_not_supplied_def task_lease_invalid_def volatile_task_source_def)

end
