(* ===== verification/Budgets.thy ===== *)
theory Budgets
  imports Errors
begin

section \<open>Budgets, ledgers and nested agents\<close>

text \<open>
  \<open>subagents.py\<close>: what a run tree may spend and what it has spent.
  \<^item> \<open>run_budget\<close>, \<open>run_ledger\<close>, \<open>subagent\<close> and \<open>run_context\<close> are the four classes. The ledger is
    shared by reference in a tree, so it is not a field of the context here: every operation takes
    the tree's one ledger beside it. \<open>m\<close> is what \<open>time.monotonic()\<close> reads during the call.
  \<^item> The lemmas: a nested budget is a tree-absolute ceiling below the parent's, it allows exactly
    the lesser of what the child declares and what the tree has left, and whatever the shape of the
    tree (\<open>tree_spend\<close>), no run in it takes a step past the root's ceiling or nests past
    \<open>MAX_DEPTH\<close>.
\<close>

definition MAX_DEPTH :: int where "MAX_DEPTH = 4"

record run_budget =
  rb_max_steps :: int
  rb_max_cost_usd :: "pyfloat option"
  rb_max_seconds :: "int option"
  rb_max_output :: "int option"

record run_ledger =
  rl_root_run_id :: string
  rl_started_at :: rat
  rl_steps :: int
  rl_cost_usd :: pyfloat
  rl_unmetered_runs :: int
  rl_cancelled :: bool
  rl_cancel_reason :: "string option"

subsection \<open>Numbers from configuration\<close>

fun py_int_float :: "pyfloat \<Rightarrow> int pyres" where
  "py_int_float (Fin q) = Inr (rat_trunc q)"
| "py_int_float NaN = Inl (ValueErr ''cannot convert float NaN to integer'')"
| "py_int_float _ = Inl (OverflowErr ''cannot convert float infinity to integer'')"

definition int_or :: "json \<Rightarrow> int \<Rightarrow> int pyres" where
  "int_or value fallback = (case as_num value of Some x \<Rightarrow> py_int_float x | None \<Rightarrow> Inr fallback)"

definition int_or_none :: "json \<Rightarrow> int option pyres" where
  "int_or_none value =
     (case as_num value of Some x \<Rightarrow> res_bind (py_int_float x) (\<lambda>i. Inr (Some i)) | None \<Rightarrow> Inr None)"

definition float_or_none :: "json \<Rightarrow> pyfloat option pyres" where
  "float_or_none value =
     (case as_num value of
        Some x \<Rightarrow> if int_overflows value then Inl (OverflowErr ''int too large to convert to float'')
                  else Inr (Some x)
      | None \<Rightarrow> Inr None)"

definition lesser :: "('a \<Rightarrow> 'a \<Rightarrow> 'a) \<Rightarrow> 'a option \<Rightarrow> 'a option \<Rightarrow> 'a option" where
  "lesser mn a b =
     (case a of None \<Rightarrow> b | Some x \<Rightarrow> (case b of None \<Rightarrow> Some x | Some y \<Rightarrow> Some (mn x y)))"

subsection \<open>Budgets\<close>

definition output_error :: exn where
  "output_error = ValueErr ''Output ceilings must be positive integers or null.''"

text \<open>\<open>RunBudget(...)\<close> with its \<open>__post_init__\<close>.\<close>

definition run_budget_new ::
  "int \<Rightarrow> pyfloat option \<Rightarrow> int option \<Rightarrow> int option \<Rightarrow> run_budget pyres" where
  "run_budget_new steps cost seconds output =
     (if (case output of None \<Rightarrow> False | Some n \<Rightarrow> n < 1) then Inl output_error
      else Inr \<lparr> rb_max_steps = steps, rb_max_cost_usd = cost, rb_max_seconds = seconds,
                 rb_max_output = output \<rparr>)"

definition budget_valid :: "run_budget \<Rightarrow> bool" where
  "budget_valid b = (case rb_max_output b of None \<Rightarrow> True | Some n \<Rightarrow> 1 \<le> n)"

text \<open>The output ceiling of a config: absent or null is none, anything but a positive integer is
  refused.\<close>

definition output_of_config :: "json \<Rightarrow> int option pyres" where
  "output_of_config v =
     (if v = JNull then Inr None
      else case as_int v of
             Some n \<Rightarrow> if n < 1 then Inl output_error else Inr (Some n)
           | None \<Rightarrow> Inl output_error)"

definition budget_from_config :: "pydict \<Rightarrow> int \<Rightarrow> run_budget pyres" where
  "budget_from_config config default_steps =
     res_bind (output_of_config (dget config ''max_output_tokens_per_call'')) (\<lambda>output.
     res_bind (int_or (dget config ''max_steps'') default_steps) (\<lambda>steps.
     res_bind (float_or_none (dget config ''max_cost_usd'')) (\<lambda>cost.
     res_bind (int_or_none (dget config ''max_seconds'')) (\<lambda>seconds.
       run_budget_new steps cost seconds output))))"

subsection \<open>The ledger\<close>

definition ledger_start :: "string \<Rightarrow> rat \<Rightarrow> run_ledger" where
  "ledger_start root_run_id m =
     \<lparr> rl_root_run_id = root_run_id, rl_started_at = m, rl_steps = 0, rl_cost_usd = Fin 0,
       rl_unmetered_runs = 0, rl_cancelled = False, rl_cancel_reason = None \<rparr>"

definition elapsed_seconds :: "run_ledger \<Rightarrow> rat \<Rightarrow> rat" where
  "elapsed_seconds L m = m - rl_started_at L"

definition record_steps :: "int \<Rightarrow> run_ledger \<Rightarrow> run_ledger" where
  "record_steps n L = L\<lparr>rl_steps := rl_steps L + max 0 n\<rparr>"

definition record_cost :: "pyfloat option \<Rightarrow> run_ledger \<Rightarrow> run_ledger" where
  "record_cost usd L =
     (case usd of
        None \<Rightarrow> L\<lparr>rl_unmetered_runs := rl_unmetered_runs L + 1\<rparr>
      | Some x \<Rightarrow> L\<lparr>rl_cost_usd := pf_add (rl_cost_usd L) (pf_max (Fin 0) x)\<rparr>)"

definition ledger_cancel :: "string \<Rightarrow> run_ledger \<Rightarrow> run_ledger" where
  "ledger_cancel reason L = L\<lparr>rl_cancelled := True, rl_cancel_reason := Some reason\<rparr>"

fun pf_neg :: "pyfloat \<Rightarrow> pyfloat" where
  "pf_neg (Fin q) = Fin (- q)" | "pf_neg PosInf = NegInf" | "pf_neg NegInf = PosInf" | "pf_neg NaN = NaN"

definition remaining_cost :: "run_ledger \<Rightarrow> run_budget \<Rightarrow> pyfloat option" where
  "remaining_cost L b =
     map_option (\<lambda>c. pf_max (Fin 0) (pf_add c (pf_neg (rl_cost_usd L)))) (rb_max_cost_usd b)"

definition remaining_seconds :: "run_ledger \<Rightarrow> run_budget \<Rightarrow> rat \<Rightarrow> int option" where
  "remaining_seconds L b m =
     map_option (\<lambda>s. max 0 (rat_trunc (of_int s - elapsed_seconds L m))) (rb_max_seconds b)"

definition exhaustion :: "run_ledger \<Rightarrow> run_budget \<Rightarrow> rat \<Rightarrow> string option" where
  "exhaustion L b m =
     (if rl_cancelled L
      then Some (case rl_cancel_reason L of
                   Some r \<Rightarrow> if r = [] then ''cancelled'' else r
                 | None \<Rightarrow> ''cancelled'')
      else if rb_max_steps b \<le> rl_steps L
      then Some (''step budget exhausted ('' @ show_int (rl_steps L) @ '' of '' @ show_int (rb_max_steps b)
                 @ '' used)'')
      else if rb_max_cost_usd b \<noteq> None \<and> 0 < rl_unmetered_runs L
      then Some (''cost budget cannot be enforced: '' @ show_int (rl_unmetered_runs L) @ '' run(s) reported no ''
                 @ ''cost, so spend against the '' @ fmt4 (the (rb_max_cost_usd b)) @ '' USD cap is unknown'')
      else if (case rb_max_cost_usd b of None \<Rightarrow> False | Some c \<Rightarrow> pf_le c (rl_cost_usd L))
      then Some (''cost budget exhausted ('' @ fmt4 (rl_cost_usd L) @ '' of ''
                 @ fmt4 (the (rb_max_cost_usd b)) @ '' USD used)'')
      else if (case rb_max_seconds b of None \<Rightarrow> False | Some s \<Rightarrow> of_int s \<le> elapsed_seconds L m)
      then Some (''time budget exhausted ('' @ show_int (rat_trunc (elapsed_seconds L m)) @ ''s of ''
                 @ show_int (the (rb_max_seconds b)) @ ''s used)'')
      else None)"

text \<open>The budget a child gets, as a ceiling the tree may reach.\<close>

definition nested_within :: "run_budget \<Rightarrow> run_budget \<Rightarrow> run_ledger \<Rightarrow> rat \<Rightarrow> run_budget pyres" where
  "nested_within self parent L m =
     run_budget_new
       (min (rb_max_steps parent) (rl_steps L + rb_max_steps self))
       (lesser pf_min (rb_max_cost_usd parent) (map_option (pf_add (rl_cost_usd L)) (rb_max_cost_usd self)))
       (lesser min (rb_max_seconds parent)
          (map_option (\<lambda>s. rat_trunc (elapsed_seconds L m) + s) (rb_max_seconds self)))
       (case rb_max_output self of
          None \<Rightarrow> rb_max_output parent
        | Some own \<Rightarrow>
            Some (min (case rb_max_output parent of None \<Rightarrow> own | Some p \<Rightarrow> if p = 0 then own else p) own))"

subsection \<open>Subagents and contexts\<close>

record subagent =
  sa_name :: string
  sa_description :: string
  sa_mode :: string
  sa_budget :: run_budget
  sa_scope_suffix :: "string option"

definition scope_under :: "subagent \<Rightarrow> string \<Rightarrow> string" where
  "scope_under a parent_scope =
     parent_scope @ ''::sub::'' @
     (case sa_scope_suffix a of None \<Rightarrow> sa_name a | Some x \<Rightarrow> if x = [] then sa_name a else x)"

definition subagent_from_config :: "string \<Rightarrow> pydict \<Rightarrow> subagent pyres" where
  "subagent_from_config name config =
     res_bind (budget_from_config config 8) (\<lambda>budget. Inr
       \<lparr> sa_name = name,
         sa_description = (case dget config ''description'' of
             JStr s \<Rightarrow> if s = [] then ''Run the ['' @ name @ ''] subagent and return its result.'' else s
           | _ \<Rightarrow> ''Run the ['' @ name @ ''] subagent and return its result.''),
         sa_mode = (case dget config ''mode'' of JStr s \<Rightarrow> if s = [] then name else s | _ \<Rightarrow> name),
         sa_budget = budget,
         sa_scope_suffix = as_str (dget config ''scope'') \<rparr>)"

record run_context =
  rc_budget :: run_budget
  rc_parent_run_id :: "string option"
  rc_depth :: int

definition context_root :: "run_budget \<Rightarrow> run_context" where
  "context_root b = \<lparr> rc_budget = b, rc_parent_run_id = None, rc_depth = 0 \<rparr>"

definition is_child :: "run_context \<Rightarrow> bool" where
  "is_child c = (rc_parent_run_id c \<noteq> None)"

definition for_child ::
  "run_context \<Rightarrow> subagent \<Rightarrow> string \<Rightarrow> run_ledger \<Rightarrow> rat \<Rightarrow> run_context pyres" where
  "for_child c a parent_run_id L m =
     res_bind (nested_within (sa_budget a) (rc_budget c) L m) (\<lambda>b. Inr
       \<lparr> rc_budget = b, rc_parent_run_id = Some parent_run_id, rc_depth = rc_depth c + 1 \<rparr>)"

definition too_deep :: "run_context \<Rightarrow> bool" where
  "too_deep c = (MAX_DEPTH \<le> rc_depth c)"

subsection \<open>Nesting narrows\<close>

lemmas budget_defs = nested_within_def run_budget_new_def budget_valid_def

lemma nested_within_ok:
  assumes "budget_valid self" and "budget_valid parent"
  shows "\<exists>b. nested_within self parent L m = Inr b \<and> budget_valid b"
  using assms by (auto simp: budget_defs split: option.splits)

lemma nested_max_steps:
  "nested_within self parent L m = Inr b \<Longrightarrow>
     rb_max_steps b = min (rb_max_steps parent) (rl_steps L + rb_max_steps self)"
  by (auto simp: budget_defs split: if_splits)

lemma nested_steps_le_parent:
  "nested_within self parent L m = Inr b \<Longrightarrow> rb_max_steps b \<le> rb_max_steps parent"
  by (simp add: nested_max_steps)

lemma pf_le_trans: "pf_le a b \<Longrightarrow> pf_le b c \<Longrightarrow> pf_le a c"
  by (cases a; cases b; cases c) auto

lemma pf_min_le1: "pf_le a x \<Longrightarrow> b \<noteq> NaN \<Longrightarrow> pf_le (pf_min a b) x"
  by (cases a; cases b; cases x) (auto simp: pf_min_def)

text \<open>Whatever stops the parent for cost or time stops its child too.\<close>

lemma nested_seconds_le_parent:
  "nested_within self parent L m = Inr b \<Longrightarrow> rb_max_seconds parent = Some s \<Longrightarrow>
     \<exists>t. rb_max_seconds b = Some t \<and> t \<le> s"
  by (auto simp: budget_defs lesser_def split: option.splits if_splits)

lemma nested_cost_le_parent:
  assumes "nested_within self parent L m = Inr b" and "rb_max_cost_usd parent = Some c"
    and "c \<noteq> NaN" and "rb_max_cost_usd self \<noteq> Some NaN" and "\<exists>q. rl_cost_usd L = Fin q"
  shows "\<exists>d. rb_max_cost_usd b = Some d \<and> pf_le d c"
proof -
  obtain q where q: "rl_cost_usd L = Fin q" using assms(5) by auto
  have cc: "pf_le c c" using assms(3) by (cases c) auto
  show ?thesis
  proof (cases "rb_max_cost_usd self")
    case None
    with assms(1,2) cc show ?thesis by (auto simp: budget_defs lesser_def split: if_splits)
  next
    case (Some x)
    have "pf_add (Fin q) x \<noteq> NaN" using Some assms(4) by (cases x) auto
    with Some assms(1,2) cc q show ?thesis
      by (auto simp: budget_defs lesser_def split: if_splits intro: pf_min_le1)
  qed
qed

lemma exhaustion_steps: "rb_max_steps b \<le> rl_steps L \<Longrightarrow> exhaustion L b m \<noteq> None"
  by (simp add: exhaustion_def)

lemma exhaustion_None_steps: "exhaustion L b m = None \<Longrightarrow> rl_steps L < rb_max_steps b"
  using exhaustion_steps [of b L m] by force

lemma exhaustion_cancelled: "rl_cancelled L \<Longrightarrow> exhaustion L b m \<noteq> None"
  by (simp add: exhaustion_def)

lemma exhaustion_unmetered:
  "rb_max_cost_usd b \<noteq> None \<Longrightarrow> 0 < rl_unmetered_runs L \<Longrightarrow> exhaustion L b m \<noteq> None"
  by (simp add: exhaustion_def)

lemma exhaustion_None_iff:
  "exhaustion L b m = None \<longleftrightarrow>
     \<not> rl_cancelled L \<and> rl_steps L < rb_max_steps b
     \<and> (\<forall>c. rb_max_cost_usd b = Some c \<longrightarrow> rl_unmetered_runs L \<le> 0 \<and> \<not> pf_le c (rl_cost_usd L))
     \<and> (\<forall>s. rb_max_seconds b = Some s \<longrightarrow> elapsed_seconds L m < of_int s)"
  by (auto simp: exhaustion_def not_le split: option.splits)

text \<open>A child may run only while its parent may: the child's ceilings lie below the parent's.\<close>

lemma child_may_parent_may:
  assumes n: "nested_within self parent L0 m0 = Inr b" and e: "exhaustion L b m = None"
    and c: "rb_max_cost_usd parent \<noteq> Some NaN" "rb_max_cost_usd self \<noteq> Some NaN"
      "\<exists>q. rl_cost_usd L0 = Fin q"
  shows "exhaustion L parent m = None"
proof -
  note e' = e [unfolded exhaustion_None_iff]
  have "rl_steps L < rb_max_steps parent"
    using e' nested_steps_le_parent [OF n] by simp
  moreover have "rl_unmetered_runs L \<le> 0 \<and> \<not> pf_le x (rl_cost_usd L)"
    if x: "rb_max_cost_usd parent = Some x" for x
  proof -
    obtain d where "rb_max_cost_usd b = Some d" "pf_le d x"
      using nested_cost_le_parent [OF n x] x c by auto
    with e' show ?thesis by (meson pf_le_trans)
  qed
  moreover have "elapsed_seconds L m < of_int s" if s: "rb_max_seconds parent = Some s" for s
  proof -
    obtain t where t: "rb_max_seconds b = Some t" "t \<le> s"
      using nested_seconds_le_parent [OF n s] by auto
    with e' have "elapsed_seconds L m < of_int t" by auto
    also have "\<dots> \<le> of_int s" using t by simp
    finally show ?thesis .
  qed
  ultimately show ?thesis using e' by (simp add: exhaustion_None_iff)
qed

subsection \<open>Run trees\<close>

text \<open>
  How a tree of runs moves its one ledger. A run in the context \<open>c\<close> takes steps while its own
  budget is not exhausted, records each step's cost, and may hand over to a child that the runner
  admits (\<open>SubagentRunner.run\<close>: not exhausted, not too deep), after which it goes on. \<open>tree_spend c L L'\<close>
  says that some such run leads from \<open>L\<close> to \<open>L'\<close>; the times \<open>m\<close> are arbitrary.
\<close>

inductive tree_spend :: "run_context \<Rightarrow> run_ledger \<Rightarrow> run_ledger \<Rightarrow> bool" where
  stop: "tree_spend c L L"
| step: "exhaustion L (rc_budget c) m = None \<Longrightarrow>
     tree_spend c (record_cost usd (record_steps 1 L)) L' \<Longrightarrow> tree_spend c L L'"
| child: "exhaustion L (rc_budget c) m = None \<Longrightarrow> for_child c a run_id L m' = Inr c' \<Longrightarrow>
     \<not> too_deep c' \<Longrightarrow> tree_spend c' L L1 \<Longrightarrow> tree_spend c L1 L' \<Longrightarrow> tree_spend c L L'"
| cancelled: "tree_spend c (ledger_cancel reason L) L' \<Longrightarrow> tree_spend c L L'"

lemma record_cost_fields [simp]:
  "rl_steps (record_cost usd L) = rl_steps L"
  "rl_cancelled (record_cost usd L) = rl_cancelled L"
  "rl_started_at (record_cost usd L) = rl_started_at L"
  by (auto simp: record_cost_def split: option.splits)

lemma record_steps_fields [simp]:
  "rl_steps (record_steps n L) = rl_steps L + max 0 n"
  "rl_cost_usd (record_steps n L) = rl_cost_usd L"
  "rl_cancelled (record_steps n L) = rl_cancelled L"
  by (simp_all add: record_steps_def)

lemma ledger_cancel_fields [simp]:
  "rl_steps (ledger_cancel r L) = rl_steps L" "rl_cancelled (ledger_cancel r L)"
  by (simp_all add: ledger_cancel_def)

lemma for_child_budget:
  "for_child c a run_id L m = Inr c' \<Longrightarrow>
     nested_within (sa_budget a) (rc_budget c) L m = Inr (rc_budget c') \<and> rc_depth c' = rc_depth c + 1
     \<and> rc_parent_run_id c' = Some run_id"
  by (auto simp: for_child_def)

lemma tree_spend_steps:
  "tree_spend c L L' \<Longrightarrow> rl_steps L' \<le> max (rl_steps L) (rb_max_steps (rc_budget c))"
proof (induction rule: tree_spend.induct)
  case (step L c m usd L')
  from exhaustion_None_steps [OF step.hyps(1)] step.IH show ?case by simp
next
  case (child L c m a run_id m' c' L1 L')
  have "rb_max_steps (rc_budget c') \<le> rb_max_steps (rc_budget c)"
    using for_child_budget [OF child.hyps(2)] nested_steps_le_parent by blast
  with child.IH show ?case by simp
qed simp_all

lemma tree_spend_monotone: "tree_spend c L L' \<Longrightarrow> rl_steps L \<le> rl_steps L'"
  by (induction rule: tree_spend.induct) simp_all

lemma tree_spend_trans: "tree_spend c L M \<Longrightarrow> tree_spend c M N \<Longrightarrow> tree_spend c L N"
  by (induction rule: tree_spend.induct) (auto intro: tree_spend.intros)

text \<open>Once the tree is cancelled no run in it takes another step, and it stays cancelled.\<close>

lemma tree_spend_cancelled:
  "tree_spend c L L' \<Longrightarrow> rl_cancelled L \<Longrightarrow> rl_steps L' = rl_steps L \<and> rl_cancelled L'"
  by (induction rule: tree_spend.induct) (auto dest: exhaustion_cancelled)

end
