(* ===== verification/Stores.thy ===== *)
theory Stores
  imports Errors
begin

section \<open>The store contract, the in-memory driver and the slot manager\<close>

text \<open>
  \<^item> \<open>session_store\<close> is the protocol \<open>SessionStore\<close> of \<open>stores/base.py\<close> (with the optional
    \<open>lock_scope\<close>, \<open>sharing_scope\<close> members) as a record of operations over a store state \<open>'s\<close>.
    \<open>with_lock\<close> runs the callback between \<open>ss_acquire\<close> and \<open>ss_release\<close>, which is how both drivers
    implement it. A caller that waits for a lock nobody else can release in the meantime gets the
    refusal a timeout gives; who waits for whom across processes is the subject of \<open>OwnerLock\<close>.
  \<^item> The locale \<open>session_store_laws\<close> is what the rest of the package relies on: a read returns what
    was last written to the same place, a put changes nothing else, a held lock refuses with
    \<open>session_locked\<close>. \<open>locked_update\<close> is the one way the components use a store, a locked
    read-compute-write; \<open>locked_update_run\<close> says it acts as one function on the stored document.
  \<^item> \<open>MemorySessionStore\<close> (\<open>stores/memory.py\<close>) with its expiring entries, interpreted in the locale.
  \<^item> \<open>SessionStoreManager\<close> (\<open>stores/manager.py\<close>) and its refusal of a volatile durable slot.
\<close>

subsection \<open>The contract\<close>

datatype durability = VOLATILE | DURABLE

fun is_durable :: "durability \<Rightarrow> bool" where
  "is_durable DURABLE = True"
| "is_durable VOLATILE = False"

fun durability_value :: "durability \<Rightarrow> string" where
  "durability_value VOLATILE = ''volatile''"
| "durability_value DURABLE = ''durable''"

record 's session_store =
  ss_get :: "string \<Rightarrow> ('s, pydict option) py"
  ss_put :: "string \<Rightarrow> pydict \<Rightarrow> pyfloat option \<Rightarrow> ('s, unit) py"
  ss_forget :: "string \<Rightarrow> ('s, unit) py"
  ss_acquire :: "string \<Rightarrow> json \<Rightarrow> json \<Rightarrow> ('s, unit) py"
  ss_release :: "string \<Rightarrow> ('s, unit) py"
  ss_durability :: durability
  ss_lock_scope :: "string option"
  ss_sharing_scope :: "string option"
  ss_driver :: string

definition with_lock ::
  "'s session_store \<Rightarrow> string \<Rightarrow> ('s, 'a) py \<Rightarrow> json \<Rightarrow> json \<Rightarrow> ('s, 'a) py" where
  "with_lock S key callback ttl_seconds wait_seconds =
     act_bind (ss_acquire S key ttl_seconds wait_seconds)
       (\<lambda>_. act_finally callback (ss_release S key))"

text \<open>\<open>math.isfinite(ttl) and math.isfinite(wait) and wait >= 0\<close>, what the file lock asks of its
  durations.\<close>

definition finite_num :: "json \<Rightarrow> bool" where
  "finite_num v = (case as_num v of Some (Fin _) \<Rightarrow> True | _ \<Rightarrow> False)"

definition lock_args_ok :: "json \<Rightarrow> json \<Rightarrow> bool" where
  "lock_args_ok ttl wait =
     (finite_num ttl \<and> finite_num wait \<and> (case as_num wait of Some w \<Rightarrow> pf_le (Fin 0) w | None \<Rightarrow> False))"

text \<open>Read a document, compute from it an outcome and maybe a document to write back, all inside
  one lock: the shape of every mutation of a thread or a task list. A body that raises has written
  nothing.\<close>

definition read_compute_write ::
  "'s session_store \<Rightarrow> string \<Rightarrow> (pydict option \<Rightarrow> 'a pyres \<times> pydict option) \<Rightarrow> ('s, 'a) py" where
  "read_compute_write S key body =
     act_bind (ss_get S key) (\<lambda>stored.
       case body stored of
         (r, None) \<Rightarrow> act_lift r
       | (r, Some d) \<Rightarrow> act_bind (ss_put S key d None) (\<lambda>_. act_lift r))"

definition locked_update ::
  "'s session_store \<Rightarrow> string \<Rightarrow> json \<Rightarrow> json
     \<Rightarrow> (pydict option \<Rightarrow> 'a pyres \<times> pydict option) \<Rightarrow> ('s, 'a) py" where
  "locked_update S key ttl wait body = with_lock S key (read_compute_write S key body) ttl wait"

text \<open>What a body does to the document it was given.\<close>

definition body_doc :: "(pydict option \<Rightarrow> 'a pyres \<times> pydict option) \<Rightarrow> pydict option \<Rightarrow> pydict option" where
  "body_doc body d = (case snd (body d) of None \<Rightarrow> d | Some d' \<Rightarrow> Some d')"

locale session_store_laws =
  fixes S :: "'s session_store"
    and loc :: "string \<Rightarrow> 'p"
    and view :: "'s \<Rightarrow> 'p \<Rightarrow> pydict option"
    and held :: "'s \<Rightarrow> 'p set"
    and inv :: "'s \<Rightarrow> bool"
  assumes get_law: "inv s \<Longrightarrow>
      \<exists>t. ss_get S k s = (Inr (view s (loc k)), t) \<and> inv t \<and> view t = view s \<and> held t = held s"
    and put_law: "inv s \<Longrightarrow>
      \<exists>t. ss_put S k d None s = (Inr (), t) \<and> inv t \<and> view t = (view s)(loc k \<mapsto> d) \<and> held t = held s"
    and forget_law: "inv s \<Longrightarrow>
      \<exists>t. ss_forget S k s = (Inr (), t) \<and> inv t \<and> view t = (view s)(loc k := None) \<and> held t = held s"
    and acquire_free: "inv s \<Longrightarrow> lock_args_ok ttl wait \<Longrightarrow> loc k \<notin> held s \<Longrightarrow>
      \<exists>t. ss_acquire S k ttl wait s = (Inr (), t) \<and> inv t \<and> view t = view s
          \<and> held t = insert (loc k) (held s)"
    and acquire_held: "inv s \<Longrightarrow> lock_args_ok ttl wait \<Longrightarrow> loc k \<in> held s \<Longrightarrow>
      \<exists>e t. ss_acquire S k ttl wait s = (Inl e, t) \<and> is_code e SESSION_LOCKED \<and> inv t
          \<and> view t = view s \<and> held t = held s"
    and release_law: "inv s \<Longrightarrow> loc k \<in> held s \<Longrightarrow>
      \<exists>t. ss_release S k s = (Inr (), t) \<and> inv t \<and> view t = view s \<and> held t = held s - {loc k}"
begin

lemma get_after_put:
  assumes "inv s" and "ss_put S k d None s = (Inr (), t)"
  shows "\<exists>u. ss_get S k t = (Inr (Some d), u)"
proof -
  from put_law [OF assms(1), of k d] assms(2)
  have "inv t" and "view t = (view s)(loc k \<mapsto> d)" by auto
  with get_law [of t k] show ?thesis by auto
qed

lemma read_compute_write_run:
  assumes "inv s"
  shows "\<exists>t. read_compute_write S key body s = (fst (body (view s (loc key))), t) \<and> inv t
           \<and> view t = (view s)(loc key := body_doc body (view s (loc key))) \<and> held t = held s"
proof -
  obtain t where g: "ss_get S key s = (Inr (view s (loc key)), t)" and t: "inv t" "view t = view s"
    "held t = held s" using get_law [OF assms, of key] by auto
  obtain r w where b: "body (view s (loc key)) = (r, w)" by (cases "body (view s (loc key))")
  show ?thesis
  proof (cases w)
    case None
    with g b have "read_compute_write S key body s = (r, t)"
      by (simp add: read_compute_write_def run_simps)
    with t b None show ?thesis by (auto simp: body_doc_def)
  next
    case (Some d)
    obtain u where p: "ss_put S key d None t = (Inr (), u)" and u: "inv u" "held u = held t"
      "view u = (view t)(loc key \<mapsto> d)" using put_law [OF t(1), of key d] by auto
    with g b Some have "read_compute_write S key body s = (r, u)"
      by (simp add: read_compute_write_def run_simps)
    with t u b Some show ?thesis by (auto simp: body_doc_def)
  qed
qed

text \<open>A locked update of a free lock acts as one function on the stored document and leaves the
  lock as it found it.\<close>

lemma locked_update_run:
  assumes "inv s" and "lock_args_ok ttl wait" and "loc key \<notin> held s"
  shows "\<exists>t. locked_update S key ttl wait body s = (fst (body (view s (loc key))), t) \<and> inv t
           \<and> view t = (view s)(loc key := body_doc body (view s (loc key))) \<and> held t = held s"
proof -
  obtain t where a: "ss_acquire S key ttl wait s = (Inr (), t)" and t: "inv t" "view t = view s"
    "held t = insert (loc key) (held s)" using acquire_free [OF assms] by auto
  obtain u where c: "read_compute_write S key body t = (fst (body (view t (loc key))), u)"
    and u: "inv u" "view u = (view t)(loc key := body_doc body (view t (loc key)))" "held u = held t"
    using read_compute_write_run [OF t(1), of key body] by auto
  have "loc key \<in> held u" using u t by simp
  then obtain v where r: "ss_release S key u = (Inr (), v)" and v: "inv v" "view v = view u"
    "held v = held u - {loc key}" using release_law [OF u(1)] by auto
  have "locked_update S key ttl wait body s = (fst (body (view s (loc key))), v)"
    using a c r t unfolding locked_update_def with_lock_def by (simp add: run_simps)
  moreover have "held v = held s" using v u t assms(3) by simp
  ultimately show ?thesis using t u v by auto
qed

lemma locked_update_refused:
  assumes "inv s" and "lock_args_ok ttl wait" and "loc key \<in> held s"
  shows "\<exists>e t. locked_update S key ttl wait body s = (Inl e, t) \<and> is_code e SESSION_LOCKED \<and> inv t
           \<and> view t = view s \<and> held t = held s"
proof -
  obtain e t where "ss_acquire S key ttl wait s = (Inl e, t)" "is_code e SESSION_LOCKED" "inv t"
    "view t = view s" "held t = held s" using acquire_held [OF assms] by auto
  then show ?thesis unfolding locked_update_def with_lock_def by (auto simp: run_simps)
qed

end

subsection \<open>The in-memory driver\<close>

record mem_entry =
  me_payload :: pydict
  me_expires_at :: "pyfloat option"

text \<open>\<open>ms_locks\<close> holds the keys whose \<open>threading.Lock\<close> is taken; \<open>ms_now\<close> is what
  \<open>time.monotonic()\<close> reads during the operation.\<close>

record mem_state =
  ms_entries :: "(string \<times> mem_entry) list"
  ms_locks :: "string set"
  ms_now :: rat

definition mem_expired :: "rat \<Rightarrow> mem_entry \<Rightarrow> bool" where
  "mem_expired now e = (case me_expires_at e of None \<Rightarrow> False | Some x \<Rightarrow> pf_le x (Fin now))"

definition mem_get :: "string \<Rightarrow> (mem_state, pydict option) py" where
  "mem_get key s =
     (case map_of (ms_entries s) key of
        None \<Rightarrow> (Inr None, s)
      | Some e \<Rightarrow>
          if mem_expired (ms_now s) e
          then (Inr None, s\<lparr>ms_entries := AList.delete key (ms_entries s)\<rparr>)
          else (Inr (Some (me_payload e)), s))"

definition mem_put :: "string \<Rightarrow> pydict \<Rightarrow> pyfloat option \<Rightarrow> (mem_state, unit) py" where
  "mem_put key payload ttl_seconds s =
     (Inr (), s\<lparr>ms_entries := AList.update key
        \<lparr> me_payload = payload,
          me_expires_at = map_option (\<lambda>ttl. pf_add (Fin (ms_now s)) ttl) ttl_seconds \<rparr>
        (ms_entries s)\<rparr>)"

definition mem_forget :: "string \<Rightarrow> (mem_state, unit) py" where
  "mem_forget key s = (Inr (), s\<lparr>ms_entries := AList.delete key (ms_entries s)\<rparr>)"

definition mem_acquire :: "string \<Rightarrow> json \<Rightarrow> json \<Rightarrow> (mem_state, unit) py" where
  "mem_acquire key ttl_seconds wait_seconds s =
     (if key \<in> ms_locks s then (Inl (session_locked key (py_str wait_seconds)), s)
      else (Inr (), s\<lparr>ms_locks := insert key (ms_locks s)\<rparr>))"

definition mem_release :: "string \<Rightarrow> (mem_state, unit) py" where
  "mem_release key s = (Inr (), s\<lparr>ms_locks := ms_locks s - {key}\<rparr>)"

definition memory_store :: "mem_state session_store" where
  "memory_store =
     \<lparr> ss_get = mem_get, ss_put = mem_put, ss_forget = mem_forget, ss_acquire = mem_acquire,
       ss_release = mem_release, ss_durability = VOLATILE, ss_lock_scope = Some ''process'',
       ss_sharing_scope = Some ''process'', ss_driver = ''MemorySessionStore'' \<rparr>"

text \<open>What the store holds at its clock: the payloads that have not expired.\<close>

definition mem_view :: "mem_state \<Rightarrow> string \<Rightarrow> pydict option" where
  "mem_view s k =
     (case map_of (ms_entries s) k of
        None \<Rightarrow> None
      | Some e \<Rightarrow> if mem_expired (ms_now s) e then None else Some (me_payload e))"

lemma mem_view_delete:
  "mem_view (s\<lparr>ms_entries := AList.delete k (ms_entries s)\<rparr>) = (mem_view s)(k := None)"
  by (auto simp: mem_view_def delete_conv' fun_eq_iff split: option.split)

lemma mem_view_locks [simp]: "mem_view (s\<lparr>ms_locks := L\<rparr>) = mem_view s"
  by (auto simp: mem_view_def fun_eq_iff split: option.split)

lemma mem_get_run:
  "\<exists>t. mem_get k s = (Inr (mem_view s k), t) \<and> mem_view t = mem_view s \<and> ms_locks t = ms_locks s"
proof (cases "map_of (ms_entries s) k")
  case None
  then show ?thesis by (simp add: mem_get_def mem_view_def)
next
  case (Some e)
  show ?thesis
  proof (cases "mem_expired (ms_now s) e")
    case True
    with Some have "mem_view s k = None" by (simp add: mem_view_def)
    then have "(mem_view s)(k := None) = mem_view s" by (simp add: fun_upd_idem)
    with True Some \<open>mem_view s k = None\<close> show ?thesis
      by (simp add: mem_get_def mem_view_delete)
  next
    case False
    with Some show ?thesis by (simp add: mem_get_def mem_view_def)
  qed
qed

lemma mem_put_run:
  "mem_put k d None s = (Inr (), t) \<Longrightarrow> mem_view t = (mem_view s)(k \<mapsto> d) \<and> ms_locks t = ms_locks s"
  by (auto simp: mem_put_def mem_view_def update_conv' mem_expired_def fun_eq_iff split: option.splits if_splits)

interpretation mem: session_store_laws memory_store "\<lambda>k. k" mem_view ms_locks "\<lambda>_. True"
proof (unfold_locales, goal_cases)
  case (1 s k)
  then show ?case using mem_get_run [of k s] by (auto simp: memory_store_def)
next
  case (2 s k d)
  then show ?case using mem_put_run [of k d s] by (auto simp: memory_store_def mem_put_def)
next
  case (3 s k)
  then show ?case by (simp add: memory_store_def mem_forget_def mem_view_delete)
next
  case (4 s ttl wait k)
  then show ?case by (simp add: memory_store_def mem_acquire_def)
next
  case (5 s ttl wait k)
  then show ?case by (simp add: memory_store_def mem_acquire_def code_simps)
next
  case (6 s k)
  then show ?case by (simp add: memory_store_def mem_release_def)
qed

text \<open>A store that also keeps documents with a time to live: one whose time is not over at once is there to
  be read.\<close>

definition outlives_put :: "pyfloat option \<Rightarrow> bool" where
  "outlives_put ttl = (case ttl of None \<Rightarrow> True | Some x \<Rightarrow> \<not> pf_le x (Fin 0))"

locale timed_store_laws = session_store_laws +
  assumes timed_put_law: "inv s \<Longrightarrow> outlives_put ttl \<Longrightarrow>
      \<exists>t. ss_put S k d ttl s = (Inr (), t) \<and> inv t \<and> view t = (view s)(loc k \<mapsto> d) \<and> held t = held s"

lemma outlives_put_expiry: "outlives_put (Some x) \<Longrightarrow> \<not> pf_le (pf_add (Fin now) x) (Fin now)"
  by (cases x) (simp_all add: outlives_put_def)

interpretation mem_timed: timed_store_laws memory_store "\<lambda>k. k" mem_view ms_locks "\<lambda>_. True"
proof (unfold_locales, goal_cases)
  case (1 s ttl k d)
  then show ?case
    using outlives_put_expiry
    by (cases ttl) (auto simp: memory_store_def mem_put_def mem_view_def update_conv' mem_expired_def fun_eq_iff
        split: option.splits)
qed

text \<open>A put with a time to live is readable until the clock reaches its expiry, and not from then
  on: the entry is over at its expiry.\<close>

lemma mem_put_ttl_view:
  assumes "mem_put k d (Some (Fin ttl)) s = (Inr (), t)"
  shows "mem_view (t\<lparr>ms_now := later\<rparr>) k = (if later < ms_now s + ttl then Some d else None)"
  using assms by (auto simp: mem_put_def mem_view_def update_conv' mem_expired_def)

subsection \<open>The slot manager\<close>

text \<open>\<open>mg_drivers\<close> maps a driver name to the store its factory returns.\<close>

record 's store_manager =
  mg_drivers :: "string \<rightharpoonup> 's session_store"
  mg_slots :: "string \<rightharpoonup> string"
  mg_resolved :: "string \<rightharpoonup> 's session_store"

definition SLOT_EPHEMERAL :: string where "SLOT_EPHEMERAL = ''ephemeral''"
definition SLOT_DURABLE :: string where "SLOT_DURABLE = ''durable''"

definition store_manager_init ::
  "(string \<rightharpoonup> 's session_store) \<Rightarrow> (string \<rightharpoonup> string) \<Rightarrow> 's store_manager" where
  "store_manager_init drivers stores =
     \<lparr> mg_drivers = drivers,
       mg_slots = [SLOT_EPHEMERAL \<mapsto> (case stores SLOT_EPHEMERAL of None \<Rightarrow> ''default'' | Some n \<Rightarrow> n),
                   SLOT_DURABLE \<mapsto> (case stores SLOT_DURABLE of None \<Rightarrow> ''default'' | Some n \<Rightarrow> n)],
       mg_resolved = Map.empty \<rparr>"

definition manager_slot :: "string \<Rightarrow> ('s store_manager, 's session_store) py" where
  "manager_slot slot m =
     (case mg_resolved m slot of
        Some cached \<Rightarrow> (Inr cached, m)
      | None \<Rightarrow>
          (let name = (case mg_slots m slot of None \<Rightarrow> ''default'' | Some n \<Rightarrow> n)
           in case mg_drivers m name of
                None \<Rightarrow> (Inl (unknown_store_driver slot name), m)
              | Some store \<Rightarrow>
                  if slot = SLOT_DURABLE \<and> \<not> is_durable (ss_durability store)
                  then (Inl (volatile_durable_store slot name), m)
                  else (Inr store, m\<lparr>mg_resolved := (mg_resolved m)(slot \<mapsto> store)\<rparr>)))"

text \<open>What resolving keeps true: a resolved durable slot is durable.\<close>

definition manager_inv :: "'s store_manager \<Rightarrow> bool" where
  "manager_inv m = (\<forall>store. mg_resolved m SLOT_DURABLE = Some store \<longrightarrow> is_durable (ss_durability store))"

lemma manager_inv_init: "manager_inv (store_manager_init drivers stores)"
  by (simp add: manager_inv_def store_manager_init_def)

lemma manager_slot_inv: "manager_inv m \<Longrightarrow> manager_inv (snd (manager_slot slot m))"
  by (auto simp: manager_inv_def manager_slot_def Let_def split: option.splits)

lemma manager_slot_durable:
  "manager_inv m \<Longrightarrow> fst (manager_slot SLOT_DURABLE m) = Inr store \<Longrightarrow> is_durable (ss_durability store)"
  by (auto simp: manager_inv_def manager_slot_def Let_def split: option.splits if_splits)

lemma manager_slot_cached:
  "manager_slot slot m = (Inr store, m') \<Longrightarrow> manager_slot slot m' = (Inr store, m')"
  by (auto simp: manager_slot_def Let_def split: option.splits if_splits)

lemma manager_slot_error_unchanged: "manager_slot slot m = (Inl e, m') \<Longrightarrow> m' = m"
  by (auto simp: manager_slot_def Let_def split: option.splits if_splits)

end
