(* ===== verification/Tasks.thy ===== *)
theory Tasks
  imports Stores Budgets
begin

section \<open>Agent task lists\<close>

text \<open>
  \<open>tasks.py\<close>: the stored task list, its claims and its leases.
  \<^item> \<open>task_state\<close>, \<open>task_outcome\<close>, \<open>stored_task\<close> are the enums and the snapshot class. An
    \<open>agent_task\<close> is what the protocol \<open>AgentTask\<close> shows of a task, with \<open>claimed_by\<close> present or not.
  \<^item> A stored record is the dict the code keeps, malformed ones included: \<open>state_of\<close> and \<open>to_task\<close>
    raise where the code does. \<open>tasks_read\<close> and \<open>tasks_write\<close> are \<open>_read\<close> and \<open>_write\<close>.
  \<^item> \<open>take_body\<close>, \<open>settle_body\<close>, \<open>hold_body\<close> and \<open>append_body\<close> are the callbacks that \<open>claim\<close>,
    \<open>release\<close>, \<open>extend_lease\<close> and \<open>add_many\<close> run inside the store's lock: from the document read to
    the outcome and the document written, none when nothing is written. \<open>now\<close> is the one reading
    of the source's clock that each makes.
\<close>

subsection \<open>States and outcomes\<close>

datatype task_state = TODO | CLAIMED | DONE | FAILED

fun state_value :: "task_state \<Rightarrow> string" where
  "state_value TODO = ''todo''"
| "state_value CLAIMED = ''claimed''"
| "state_value DONE = ''done''"
| "state_value FAILED = ''failed''"

definition is_terminal :: "task_state \<Rightarrow> bool" where
  "is_terminal s = (s = DONE \<or> s = FAILED)"

text \<open>\<open>TaskState(value)\<close>; \<open>None\<close> is its \<open>ValueError\<close>.\<close>

definition task_state_of :: "json \<Rightarrow> task_state option" where
  "task_state_of v =
     (if v = JStr ''todo'' then Some TODO
      else if v = JStr ''claimed'' then Some CLAIMED
      else if v = JStr ''done'' then Some DONE
      else if v = JStr ''failed'' then Some FAILED
      else None)"

datatype task_outcome = OUTCOME_DONE | OUTCOME_FAILED

fun outcome_value :: "task_outcome \<Rightarrow> string" where
  "outcome_value OUTCOME_DONE = ''done''"
| "outcome_value OUTCOME_FAILED = ''failed''"

fun outcome_state :: "task_outcome \<Rightarrow> task_state" where
  "outcome_state OUTCOME_DONE = DONE"
| "outcome_state OUTCOME_FAILED = FAILED"

text \<open>What a caller passes as an outcome: a \<open>TaskOutcome\<close> or anything else.\<close>

datatype outcome_arg = IsOutcome task_outcome | AnyValue json

fun outcome_parse :: "outcome_arg \<Rightarrow> task_outcome pyres" where
  "outcome_parse (IsOutcome o') = Inr o'"
| "outcome_parse (AnyValue v) =
     (if v = JStr (outcome_value OUTCOME_DONE) then Inr OUTCOME_DONE
      else if v = JStr (outcome_value OUTCOME_FAILED) then Inr OUTCOME_FAILED
      else Inl (task_outcome_invalid v))"

subsection \<open>Tasks and their records\<close>

text \<open>A task's state attribute: a \<open>TaskState\<close>, or the raw value a consumer's record hands back.\<close>

datatype state_attr = IsState task_state | RawState json

record agent_task =
  at_id :: string
  at_instruction :: string
  at_state :: state_attr
  at_claimed_by :: "json option"

record stored_task =
  st_id :: string
  st_instruction :: string
  st_state :: task_state
  st_claimed_by :: "string option"
  st_claimed_until :: "int option"

definition stored_as_agent :: "stored_task \<Rightarrow> agent_task" where
  "stored_as_agent t =
     \<lparr> at_id = st_id t, at_instruction = st_instruction t, at_state = IsState (st_state t),
       at_claimed_by = Some (case st_claimed_by t of None \<Rightarrow> JNull | Some w \<Rightarrow> JStr w) \<rparr>"

definition opt_str :: "string option \<Rightarrow> json" where
  "opt_str x = (case x of None \<Rightarrow> JNull | Some s \<Rightarrow> JStr s)"

definition opt_int :: "int option \<Rightarrow> json" where
  "opt_int x = (case x of None \<Rightarrow> JNull | Some i \<Rightarrow> JInt i)"

definition state_word :: "state_attr \<Rightarrow> string pyres" where
  "state_word a =
     (case a of
        IsState s \<Rightarrow> Inr (state_value s)
      | RawState v \<Rightarrow>
          (case task_state_of v of
             Some s \<Rightarrow> Inr (state_value s)
           | None \<Rightarrow> Inl (ValueErr (py_repr v @ '' is not a valid TaskState''))))"

definition task_record :: "agent_task \<Rightarrow> string option \<Rightarrow> int option \<Rightarrow> pydict pyres" where
  "task_record t claimed_by claimed_until =
     res_bind (state_word (at_state t)) (\<lambda>w. Inr
       [(''claimed_by'', opt_str claimed_by), (''claimed_until'', opt_int claimed_until),
        (''id'', JStr (at_id t)), (''instruction'', JStr (at_instruction t)), (''state'', JStr w)])"

text \<open>The keys above are in sorted order, so \<open>sort_keys\<close> changes nothing.\<close>

definition canonical_task_json :: "agent_task \<Rightarrow> string option \<Rightarrow> int option \<Rightarrow> string pyres" where
  "canonical_task_json t claimed_by claimed_until =
     res_bind (task_record t claimed_by claimed_until) (\<lambda>d. Inr (json_dumps False '','' '':'' (JDict d)))"

definition to_dict :: "stored_task \<Rightarrow> pydict pyres" where
  "to_dict t = task_record (stored_as_agent t) (st_claimed_by t) (st_claimed_until t)"

definition to_canonical_json :: "stored_task \<Rightarrow> string pyres" where
  "to_canonical_json t = canonical_task_json (stored_as_agent t) (st_claimed_by t) (st_claimed_until t)"

definition state_of :: "pydict \<Rightarrow> task_state pyres" where
  "state_of r =
     (case task_state_of (dget r ''state'') of
        Some s \<Rightarrow> Inr s
      | None \<Rightarrow> Inl (unmappable_content
          (''the stored task ['' @ py_str (dget r ''id'') @ ''] is in the state ['' @
           py_repr (dget r ''state'') @ ''], which is not one of '' @
           join_with '', '' (map state_value [TODO, CLAIMED, DONE, FAILED]))))"

definition to_task :: "pydict \<Rightarrow> stored_task pyres" where
  "to_task r =
     res_bind (state_of r) (\<lambda>s.
     res_bind (int_or_none (dget r ''claimed_until'')) (\<lambda>until. Inr
       \<lparr> st_id = py_str (dget_or r ''id'' (JStr [])),
         st_instruction = py_str (dget_or r ''instruction'' (JStr [])),
         st_state = s,
         st_claimed_by = as_str (dget r ''claimed_by''),
         st_claimed_until = until \<rparr>))"

text \<open>\<open>AgentTaskMixin\<close>: a consumer's record with three hooks, of which a class may have left out some. The contract's
  attributes are what the hooks return; a hook that is not there raises.\<close>

record task_hooks =
  hook_id :: "string option"
  hook_instruction :: "string option"
  hook_state :: "state_attr option"

definition hook_missing :: "string \<Rightarrow> string \<Rightarrow> string \<Rightarrow> exn" where
  "hook_missing class hook advice =
     OtherErr (class @ '' mixes in AgentTaskMixin but does not implement '' @ hook @ ''(). '' @ advice)"

definition agent_task_id :: "string \<Rightarrow> task_hooks \<Rightarrow> string pyres" where
  "agent_task_id class h =
     (case hook_id h of
        None \<Rightarrow> Inl (hook_missing class ''agent_task_id''
          ''It must return an id that is stable and unique within its source.'')
      | Some i \<Rightarrow> Inr i)"

definition agent_task_instruction :: "string \<Rightarrow> task_hooks \<Rightarrow> string pyres" where
  "agent_task_instruction class h =
     (case hook_instruction h of
        None \<Rightarrow> Inl (hook_missing class ''agent_task_instruction''
          ''It must return what the model is asked to do.'')
      | Some x \<Rightarrow> Inr x)"

definition agent_task_state :: "string \<Rightarrow> task_hooks \<Rightarrow> state_attr pyres" where
  "agent_task_state class h =
     (case hook_state h of
        None \<Rightarrow> Inl (hook_missing class ''agent_task_state''
          (''Map your own column onto one of the four states -- '' @
           ''TaskState(value) does it when the column already stores the same words.''))
      | Some a \<Rightarrow> Inr a)"

text \<open>The three properties together; the holder is an attribute of the consumer's own, if it has one.\<close>

definition mixin_task :: "string \<Rightarrow> task_hooks \<Rightarrow> json option \<Rightarrow> agent_task pyres" where
  "mixin_task class h holder =
     res_bind (agent_task_id class h) (\<lambda>i.
     res_bind (agent_task_instruction class h) (\<lambda>x.
     res_bind (agent_task_state class h) (\<lambda>a. Inr
       \<lparr> at_id = i, at_instruction = x, at_state = a, at_claimed_by = holder \<rparr>)))"

text \<open>A record that hands back what a stored task says conforms as well as it: one canonical form.\<close>

lemma mixin_conforms:
  assumes "hook_id h = Some (st_id t)" "hook_instruction h = Some (st_instruction t)"
    and "hook_state h = Some a" "a = IsState (st_state t) \<or> a = RawState (JStr (state_value (st_state t)))"
  shows "res_bind (mixin_task class h holder) (\<lambda>m. task_record m (st_claimed_by t) (st_claimed_until t)) = to_dict t"
proof -
  have "state_word a = Inr (state_value (st_state t))" using assms(4) by (cases "st_state t") (auto simp: state_word_def task_state_of_def)
  with assms(1-3) show ?thesis
    by (simp add: mixin_task_def agent_task_id_def agent_task_instruction_def agent_task_state_def task_record_def to_dict_def
        stored_as_agent_def state_word_def)
qed

subsection \<open>Leases and identifiers\<close>

definition DEFAULT_LEASE_SECONDS :: int where "DEFAULT_LEASE_SECONDS = 300"

text \<open>\<open>math.isfinite\<close> takes a bool for the number it is; a value it cannot read, or an integer too
  large for a float, is refused like any other.\<close>

definition require_lease :: "json \<Rightarrow> rat pyres" where
  "require_lease seconds =
     (case num_value seconds of
        Some (Fin q) \<Rightarrow>
          if int_overflows seconds \<or> q \<le> 0 \<or> \<not> rat_is_integer q then Inl (task_lease_invalid seconds)
          else Inr q
      | _ \<Rightarrow> Inl (task_lease_invalid seconds))"

definition require_identifier :: "string \<Rightarrow> string \<Rightarrow> unit pyres" where
  "require_identifier value kind = (if value = [] then Inl (task_identifier_blank kind) else Inr ())"

definition timestamp :: "rat \<Rightarrow> int" where
  "timestamp x = rat_trunc x"

subsection \<open>Reading, expiring, locating\<close>

definition tasks_read :: "pydict option \<Rightarrow> pydict \<times> pydict list" where
  "tasks_read document =
     (let stored = (case document of None \<Rightarrow> [] | Some d \<Rightarrow> d)
      in (stored, case dget stored ''tasks'' of JList entries \<Rightarrow> dicts_of entries | _ \<Rightarrow> []))"

definition tasks_write :: "pydict \<Rightarrow> pydict list \<Rightarrow> pydict" where
  "tasks_write stored records = dput ''tasks'' (JList (map JDict records)) stored"

definition lapsed :: "rat \<Rightarrow> pydict \<Rightarrow> bool" where
  "lapsed now r =
     (dget r ''state'' = JStr (state_value CLAIMED)
      \<and> (case as_num (dget r ''claimed_until'') of None \<Rightarrow> False | Some until \<Rightarrow> pf_le until (Fin now)))"

definition back_to_todo :: "pydict \<Rightarrow> pydict" where
  "back_to_todo r =
     dput ''claimed_until'' JNull (dput ''claimed_by'' JNull (dput ''state'' (JStr (state_value TODO)) r))"

text \<open>\<open>_expire\<close>: the records after it, and whether anything moved.\<close>

fun expire :: "pydict list \<Rightarrow> rat \<Rightarrow> pydict list \<times> bool" where
  "expire [] now = ([], False)"
| "expire (r # rs) now =
     (let (rs', moved) = expire rs now
      in if lapsed now r then (back_to_todo r # rs', True) else (r # rs', moved))"

definition is_todo :: "pydict \<Rightarrow> bool" where
  "is_todo r = (dget r ''state'' = JStr (state_value TODO))"

definition has_id :: "string \<Rightarrow> pydict \<Rightarrow> bool" where
  "has_id task_id r = (dget r ''id'' = JStr task_id)"

definition locate :: "pydict list \<Rightarrow> string \<Rightarrow> pydict pyres" where
  "locate records task_id =
     (case find (has_id task_id) records of None \<Rightarrow> Inl (task_not_found task_id) | Some r \<Rightarrow> Inr r)"

subsection \<open>The source\<close>

record task_source =
  ts_key :: string
  ts_lease_seconds :: rat
  ts_wait_seconds :: json

definition task_source_new ::
  "'s session_store \<Rightarrow> string \<Rightarrow> json \<Rightarrow> json \<Rightarrow> task_source pyres" where
  "task_source_new S key lease_seconds wait_seconds =
     (if \<not> is_durable (ss_durability S) then Inl (volatile_task_source (ss_driver S))
      else res_bind (require_lease lease_seconds) (\<lambda>lease. Inr
        \<lparr> ts_key = key, ts_lease_seconds = lease, ts_wait_seconds = wait_seconds \<rparr>))"

text \<open>\<open>self._locked\<close>: \<open>with_lock\<close> with the default time to live of ten seconds.\<close>

definition source_locked ::
  "'s session_store \<Rightarrow> task_source
     \<Rightarrow> (pydict option \<Rightarrow> 'a pyres \<times> pydict option) \<Rightarrow> ('s, 'a) py" where
  "source_locked S src body = locked_update S (ts_key src) (JInt 10) (ts_wait_seconds src) body"

definition lease_of :: "task_source \<Rightarrow> json \<Rightarrow> rat pyres" where
  "lease_of src lease_seconds =
     (if lease_seconds = JNull then Inr (ts_lease_seconds src) else require_lease lease_seconds)"

subsubsection \<open>Adding\<close>

definition new_record :: "string \<Rightarrow> string \<Rightarrow> pydict" where
  "new_record task_id instruction =
     [(''claimed_by'', JNull), (''claimed_until'', JNull), (''id'', JStr task_id),
      (''instruction'', JStr instruction), (''state'', JStr (state_value TODO))]"

text \<open>The loop of \<open>append\<close>: the records so far, the snapshots so far, and the instructions left with
  their ids, \<open>None\<close> for an id the source makes up.\<close>

fun append_loop ::
  "pydict list \<Rightarrow> stored_task list \<Rightarrow> (string \<times> string option) list
     \<Rightarrow> (pydict list \<times> stored_task list) pyres" where
  "append_loop records added [] = Inr (records, added)"
| "append_loop records added ((instruction, given) # rest) =
     (let task_id = (case given of Some i \<Rightarrow> i | None \<Rightarrow> ''t-'' @ show_nat (length records + 1))
      in res_bind (require_identifier task_id ''task'') (\<lambda>_.
           if list_ex (has_id task_id) records then Inl (duplicate_task_id task_id)
           else res_bind (to_task (new_record task_id instruction)) (\<lambda>t.
             append_loop (records @ [new_record task_id instruction]) (added @ [t]) rest)))"

definition append_body ::
  "(string \<times> string option) list \<Rightarrow> pydict option \<Rightarrow> stored_task list pyres \<times> pydict option" where
  "append_body items document =
     (let (stored, records) = tasks_read document
      in case append_loop records [] items of
           Inl e \<Rightarrow> (Inl e, None)
         | Inr (records', added) \<Rightarrow> (Inr added, Some (tasks_write stored records')))"

definition add_many ::
  "'s session_store \<Rightarrow> task_source \<Rightarrow> string list \<Rightarrow> string list option
     \<Rightarrow> ('s, stored_task list) py" where
  "add_many S src instructions task_ids =
     (case task_ids of
        None \<Rightarrow> source_locked S src (append_body (map (\<lambda>i. (i, None)) instructions))
      | Some ids \<Rightarrow>
          if length ids \<noteq> length instructions
          then act_raise (ValueErr (show_nat (length instructions) @ '' instruction(s) were given '' @
                                    show_nat (length ids) @ '' id(s).''))
          else source_locked S src (append_body (zip instructions (map Some ids))))"

definition add :: "'s session_store \<Rightarrow> task_source \<Rightarrow> string \<Rightarrow> string option \<Rightarrow> ('s, stored_task) py" where
  "add S src instruction task_id =
     act_bind (add_many S src [instruction] (map_option (\<lambda>i. [i]) task_id)) (\<lambda>added.
       case added of t # _ \<Rightarrow> act_return t | [] \<Rightarrow> act_raise (OtherErr ''list index out of range''))"

subsubsection \<open>Claiming\<close>

definition claimed_record :: "string \<Rightarrow> int \<Rightarrow> pydict \<Rightarrow> pydict" where
  "claimed_record worker until r =
     dput ''claimed_until'' (JInt until)
       (dput ''claimed_by'' (JStr worker) (dput ''state'' (JStr (state_value CLAIMED)) r))"

definition take_body ::
  "string \<Rightarrow> rat \<Rightarrow> rat \<Rightarrow> pydict option \<Rightarrow> stored_task option pyres \<times> pydict option" where
  "take_body worker lease now document =
     (let (stored, records) = tasks_read document;
          (records, expired) = expire records now
      in case find is_todo records of
           None \<Rightarrow> (Inr None, if expired then Some (tasks_write stored records) else None)
         | Some target \<Rightarrow>
             (let target = claimed_record worker (timestamp (now + lease)) target
              in (res_bind (to_task target) (\<lambda>t. Inr (Some t)),
                  Some (tasks_write stored (update_first is_todo (\<lambda>_. target) records)))))"

definition claim ::
  "'s session_store \<Rightarrow> task_source \<Rightarrow> string \<Rightarrow> json \<Rightarrow> rat \<Rightarrow> ('s, stored_task option) py" where
  "claim S src worker lease_seconds now =
     act_bind (act_lift (require_identifier worker ''worker'')) (\<lambda>_.
     act_bind (act_lift (lease_of src lease_seconds)) (\<lambda>lease.
       source_locked S src (take_body worker lease now)))"

subsubsection \<open>Releasing and extending\<close>

text \<open>What \<open>release\<close> and \<open>extend_lease\<close> check alike inside the lock, after the expiry: the record
  exists, is in one of the four states, is not terminal, is claimed, and is held by the worker.
  They differ in the message for a task that is not claimed.\<close>

definition held_record :: "string \<Rightarrow> string \<Rightarrow> string \<Rightarrow> pydict list \<Rightarrow> pydict pyres" where
  "held_record unclaimed_detail task_id worker records =
     res_bind (locate records task_id) (\<lambda>r.
     res_bind (state_of r) (\<lambda>s.
       if is_terminal s then Inl (task_already_terminal task_id (state_value s))
       else if s \<noteq> CLAIMED then Inl (task_lease_not_held task_id unclaimed_detail)
       else if dget r ''claimed_by'' \<noteq> JStr worker
       then Inl (task_lease_not_held task_id
              (''it is held by ['' @ py_str (dget r ''claimed_by'') @ ''], not by ['' @ worker @ '']''))
       else Inr r))"

definition settle_record :: "task_outcome \<Rightarrow> pydict \<Rightarrow> pydict" where
  "settle_record outcome r =
     dput ''claimed_until'' JNull
       (dput ''claimed_by'' JNull (dput ''state'' (JStr (state_value (outcome_state outcome))) r))"

text \<open>The two details, for \<open>release\<close> and for \<open>extend_lease\<close>.\<close>

definition not_claimed_detail :: string where
  "not_claimed_detail =
     ''it is not claimed -- either it was never claimed, or the lease expired and '' @
     ''the task returned to todo''"

definition lease_expired_detail :: string where
  "lease_expired_detail = ''the lease expired and the task returned to todo''"

definition settle_body ::
  "string \<Rightarrow> string \<Rightarrow> task_outcome \<Rightarrow> rat \<Rightarrow> pydict option \<Rightarrow> unit pyres \<times> pydict option" where
  "settle_body task_id worker outcome now document =
     (let (stored, records) = tasks_read document;
          (records, _) = expire records now
      in case held_record not_claimed_detail task_id worker records of
           Inl e \<Rightarrow> (Inl e, None)
         | Inr r \<Rightarrow> (Inr (), Some (tasks_write stored
                      (update_first (has_id task_id) (settle_record outcome) records))))"

definition release ::
  "'s session_store \<Rightarrow> task_source \<Rightarrow> agent_task \<Rightarrow> string \<Rightarrow> outcome_arg \<Rightarrow> rat \<Rightarrow> ('s, unit) py" where
  "release S src task worker outcome now =
     act_bind (act_lift (require_identifier worker ''worker'')) (\<lambda>_.
     act_bind (act_lift (outcome_parse outcome)) (\<lambda>o'.
       source_locked S src (settle_body (at_id task) worker o' now)))"

definition hold_body ::
  "string \<Rightarrow> string \<Rightarrow> rat \<Rightarrow> rat \<Rightarrow> pydict option \<Rightarrow> stored_task pyres \<times> pydict option" where
  "hold_body task_id worker granted now document =
     (let (stored, records) = tasks_read document;
          (records, _) = expire records now
      in case held_record lease_expired_detail task_id worker records of
           Inl e \<Rightarrow> (Inl e, None)
         | Inr r \<Rightarrow>
             (let r = dput ''claimed_until'' (JInt (timestamp (now + granted))) r
              in (to_task r, Some (tasks_write stored
                    (update_first (has_id task_id) (\<lambda>_. r) records)))))"

text \<open>The lease \<open>extend_lease\<close> may grant, bounded by the run. \<open>m1\<close> and \<open>m2\<close> are the monotonic
  clock during \<open>exhaustion\<close> and during \<open>remaining_seconds\<close>.\<close>

definition granted_lease ::
  "string \<Rightarrow> rat \<Rightarrow> run_ledger \<Rightarrow> run_budget \<Rightarrow> rat \<Rightarrow> rat \<Rightarrow> rat pyres" where
  "granted_lease task_id lease ledger budget m1 m2 =
     (case exhaustion ledger budget m1 of
        Some exhausted \<Rightarrow> Inl (run_not_permitted
          (''The lease on task ['' @ task_id @ ''] cannot be extended: '' @ exhausted @ ''. The lease is '' @
           ''bounded by the run, and a run that may not spend again may not keep holding '' @
           ''the task either.''))
      | None \<Rightarrow>
          (case remaining_seconds ledger budget m2 of
             None \<Rightarrow> Inr lease
           | Some remaining \<Rightarrow>
               if remaining \<le> 0
               then Inl (run_not_permitted
                 (''The lease on task ['' @ task_id @ ''] cannot be extended: the run's wall-clock budget '' @
                  ''of '' @ show_int (the (rb_max_seconds budget)) @ ''s has nothing left. The lease is bounded by the run, so '' @
                  ''a run that must stop cannot keep holding the task.''))
               else Inr (min lease (of_int remaining))))"

definition extend_lease ::
  "'s session_store \<Rightarrow> task_source \<Rightarrow> agent_task \<Rightarrow> string \<Rightarrow> run_ledger \<Rightarrow> run_budget \<Rightarrow> json
     \<Rightarrow> rat \<Rightarrow> rat \<Rightarrow> rat \<Rightarrow> ('s, stored_task) py" where
  "extend_lease S src task worker ledger budget lease_seconds m1 m2 now =
     act_bind (act_lift (require_identifier worker ''worker'')) (\<lambda>_.
     act_bind (act_lift (lease_of src lease_seconds)) (\<lambda>lease.
     act_bind (act_lift (granted_lease (at_id task) lease ledger budget m1 m2)) (\<lambda>granted.
       source_locked S src (hold_body (at_id task) worker granted now))))"

subsubsection \<open>Looking\<close>

definition pending_count :: "rat \<Rightarrow> pydict option \<Rightarrow> nat" where
  "pending_count now document = length (filter is_todo (fst (expire (snd (tasks_read document)) now)))"

definition pending :: "'s session_store \<Rightarrow> task_source \<Rightarrow> rat \<Rightarrow> ('s, nat) py" where
  "pending S src now =
     act_bind (ss_get S (ts_key src)) (\<lambda>document. act_return (pending_count now document))"

definition snapshot :: "rat \<Rightarrow> pydict option \<Rightarrow> stored_task list pyres" where
  "snapshot now document = res_map to_task (fst (expire (snd (tasks_read document)) now))"

definition task_records :: "'s session_store \<Rightarrow> task_source \<Rightarrow> rat \<Rightarrow> ('s, stored_task list) py" where
  "task_records S src now = act_bind (ss_get S (ts_key src)) (\<lambda>document. act_lift (snapshot now document))"

definition find_task ::
  "'s session_store \<Rightarrow> task_source \<Rightarrow> string \<Rightarrow> rat \<Rightarrow> ('s, stored_task option) py" where
  "find_task S src task_id now =
     act_bind (task_records S src now) (\<lambda>ts. act_return (find (\<lambda>t. st_id t = task_id) ts))"

subsection \<open>The completion tool\<close>

text \<open>The part of the protocol \<open>AgentTaskSource\<close> that the tool calls, over any source.\<close>

record 's agent_source =
  src_find :: "string \<Rightarrow> ('s, agent_task option) py"
  src_release :: "agent_task \<Rightarrow> string \<Rightarrow> task_outcome \<Rightarrow> ('s, unit) py"

text \<open>The source of this package, read at one moment of its clock.\<close>

definition store_task_source :: "'s session_store \<Rightarrow> task_source \<Rightarrow> rat \<Rightarrow> 's agent_source" where
  "store_task_source S src now =
     \<lparr> src_find = (\<lambda>i. act_bind (find_task S src i now) (\<lambda>t. act_return (map_option stored_as_agent t))),
       src_release = (\<lambda>t w o'. release S src t w (IsOutcome o') now) \<rparr>"

definition completion_outcome :: "pydict \<Rightarrow> task_outcome pyres" where
  "completion_outcome args =
     (case map_of args ''outcome'' of
        None \<Rightarrow> Inl task_outcome_not_supplied
      | Some supplied \<Rightarrow> outcome_parse (AnyValue supplied))"

text \<open>\<open>task.state is not TaskState.CLAIMED or self._holder_of(task) != self._worker\<close>: a raw state is
  not the enum member, and a holder that cannot be read equals no worker.\<close>

definition holder_of :: "agent_task \<Rightarrow> json option" where
  "holder_of t = at_claimed_by t"

definition holds_claim :: "string \<Rightarrow> agent_task \<Rightarrow> bool" where
  "holds_claim worker t = (at_state t = IsState CLAIMED \<and> holder_of t = Some (JStr worker))"

text \<open>The tool is its source and its worker, which must not be blank.\<close>

definition completion_tool_new :: "'s agent_source \<Rightarrow> string \<Rightarrow> ('s agent_source \<times> string) pyres" where
  "completion_tool_new source worker = res_bind (require_identifier worker ''worker'') (\<lambda>_. Inr (source, worker))"

definition completion_tool_name :: string where "completion_tool_name = ''complete_task''"

definition completion_handle :: "'s agent_source \<Rightarrow> string \<Rightarrow> pydict \<Rightarrow> ('s, pydict) py" where
  "completion_handle source worker args =
     (case dget args ''task_id'' of
        JStr task_id \<Rightarrow>
          act_bind (act_lift (require_identifier task_id ''task'')) (\<lambda>_.
          act_bind (src_find source task_id) (\<lambda>found.
            case found of
              None \<Rightarrow> act_raise (task_not_found task_id)
            | Some task \<Rightarrow>
                if \<not> holds_claim worker task
                then act_raise (task_lease_not_held task_id ''this agent is not holding it'')
                else act_bind (act_lift (completion_outcome args)) (\<lambda>outcome.
                     act_bind (src_release source task worker outcome) (\<lambda>_.
                       act_return [(''task_id'', JStr task_id),
                                   (''state'', JStr (state_value (outcome_state outcome)))]))))
      | _ \<Rightarrow> act_raise (task_identifier_blank ''task''))"

end
