(* ===== verification/Threads.thy ===== *)
theory Threads
  imports Stores
begin

section \<open>Threads and their rows\<close>

text \<open>
  \<open>thread.py\<close>: the stored conversation. \<open>thread_record\<close>, \<open>thread_messages\<close> and \<open>thread_clear\<close> are the
  methods of \<open>Thread\<close> over a store and a key; \<open>record_body\<close> and \<open>clear_body\<close> are their callbacks
  inside the lock. \<open>thread_rows.py\<close>: the rows a run writes (\<open>assistant_row\<close>, \<open>tool_result_row\<close>), the
  conversation as the model is shown it (\<open>thread_view\<close>), and the approval authority stored in it
  (\<open>approval_tool_scope\<close>).
\<close>

subsection \<open>The stored conversation\<close>

record thread_message =
  tm_position :: int
  tm_message :: pydict
  tm_run_id :: "string option"
  tm_recorded_at :: string

text \<open>\<open>isinstance(position, int)\<close>, which a bool is.\<close>

fun position_of :: "json \<Rightarrow> int" where
  "position_of (JInt i) = i"
| "position_of (JBool b) = (if b then 1 else 0)"
| "position_of _ = 0"

definition to_message :: "pydict \<Rightarrow> thread_message pyres" where
  "to_message entry =
     (case dget entry ''message'' of
        JDict message \<Rightarrow> Inr
          \<lparr> tm_position = position_of (dget entry ''position''), tm_message = message,
            tm_run_id = as_str (dget entry ''run_id''),
            tm_recorded_at = (case dget entry ''recorded_at'' of JStr s \<Rightarrow> s | _ \<Rightarrow> []) \<rparr>
      | _ \<Rightarrow> Inl (unmappable_content
          (''a stored thread entry has no message object (position '' @ py_str (dget entry ''position'')
           @ '')'')))"

definition document_messages :: "pydict option \<Rightarrow> thread_message list pyres" where
  "document_messages document =
     (case document of
        None \<Rightarrow> Inr []
      | Some stored \<Rightarrow>
          (case dget stored ''messages'' of JList entries \<Rightarrow> res_map to_message (dicts_of entries) | _ \<Rightarrow> Inr []))"

definition thread_messages :: "'s session_store \<Rightarrow> string \<Rightarrow> ('s, thread_message list) py" where
  "thread_messages S key = act_bind (ss_get S key) (\<lambda>document. act_lift (document_messages document))"

definition thread_exists :: "'s session_store \<Rightarrow> string \<Rightarrow> ('s, bool) py" where
  "thread_exists S key = act_bind (ss_get S key) (\<lambda>document. act_return (document \<noteq> None))"

definition thread_count :: "'s session_store \<Rightarrow> string \<Rightarrow> ('s, nat) py" where
  "thread_count S key = act_bind (thread_messages S key) (\<lambda>ms. act_return (length ms))"

text \<open>The dict entries of \<open>stored.get("messages") or []\<close>: a falsy value counts as no entries, a string
  or a dict has none that are dicts, any other value cannot be iterated.\<close>

definition existing_entries :: "json \<Rightarrow> pydict list pyres" where
  "existing_entries v =
     (if \<not> truthy v then Inr []
      else case v of
             JList xs \<Rightarrow> Inr (dicts_of xs)
           | JStr _ \<Rightarrow> Inr []
           | JDict _ \<Rightarrow> Inr []
           | JInt _ \<Rightarrow> Inl (TypeErr ''cannot iterate: int object is not iterable'')
           | JBool _ \<Rightarrow> Inl (TypeErr ''cannot iterate: bool object is not iterable'')
           | _ \<Rightarrow> Inl (TypeErr ''cannot iterate: float object is not iterable''))"

definition thread_entry :: "nat \<Rightarrow> pydict \<Rightarrow> string option \<Rightarrow> string \<Rightarrow> pydict" where
  "thread_entry position message run_id recorded_at =
     [(''position'', JInt (int position)), (''message'', JDict message),
      (''run_id'', case run_id of None \<Rightarrow> JNull | Some r \<Rightarrow> JStr r), (''recorded_at'', JStr recorded_at)]"

text \<open>The entries of \<open>append\<close>: \<open>enumerate(messages)\<close> from the count of the existing ones.\<close>

definition new_entries :: "nat \<Rightarrow> pydict list \<Rightarrow> string option \<Rightarrow> string \<Rightarrow> pydict list" where
  "new_entries n messages run_id recorded_at =
     map (\<lambda>(index, message). thread_entry (n + index + 1) message run_id recorded_at)
       (enumerate 0 messages)"

definition record_body ::
  "pydict list \<Rightarrow> string option \<Rightarrow> string \<Rightarrow> pydict option \<Rightarrow> thread_message list pyres \<times> pydict option" where
  "record_body messages run_id recorded_at document =
     (let stored = (case document of None \<Rightarrow> [] | Some d \<Rightarrow> d)
      in case existing_entries (dget stored ''messages'') of
           Inl e \<Rightarrow> (Inl e, None)
         | Inr existing \<Rightarrow>
             (let appended = new_entries (length existing) messages run_id recorded_at
              in (res_map to_message appended,
                  Some (dput ''messages'' (JList (map JDict (existing @ appended))) stored))))"

text \<open>\<open>record\<close>, with the lock's default durations: ten seconds to live, five to wait.\<close>

definition thread_record ::
  "'s session_store \<Rightarrow> string \<Rightarrow> pydict list \<Rightarrow> string option \<Rightarrow> string \<Rightarrow> ('s, thread_message list) py" where
  "thread_record S key messages run_id recorded_at =
     (if messages = [] then act_return []
      else locked_update S key (JInt 10) (JInt 5) (record_body messages run_id recorded_at))"

definition clear_body :: "pydict option \<Rightarrow> unit pyres \<times> pydict option" where
  "clear_body document =
     (Inr (), Some (dput ''messages'' (JList []) (case document of None \<Rightarrow> [] | Some d \<Rightarrow> d)))"

definition thread_clear :: "'s session_store \<Rightarrow> string \<Rightarrow> ('s, unit) py" where
  "thread_clear S key = locked_update S key (JInt 10) (JInt 5) clear_body"

subsection \<open>Rows\<close>

definition text_of :: "json \<Rightarrow> string" where
  "text_of v = (case v of JStr s \<Rightarrow> s | JNull \<Rightarrow> [] | _ \<Rightarrow> json_dumps_default v)"

definition nullable_text :: "json \<Rightarrow> string option" where
  "nullable_text v = as_str v"

definition dicts_in :: "json \<Rightarrow> pydict list" where
  "dicts_in v = (case v of JList xs \<Rightarrow> dicts_of xs | _ \<Rightarrow> [])"

definition dict_or_empty :: "json \<Rightarrow> pydict" where
  "dict_or_empty v = (case v of JDict d \<Rightarrow> d | _ \<Rightarrow> [])"

definition null_or_str :: "string option \<Rightarrow> json" where
  "null_or_str x = (case x of None \<Rightarrow> JNull | Some s \<Rightarrow> JStr s)"

record tool_call_input =
  tc_id :: string
  tc_name :: string
  tc_arguments :: pydict
  tc_result_id :: "string option"
  tc_reasoning_id :: "string option"
  tc_reasoning_summary :: "json list option"

definition call_row :: "tool_call_input \<Rightarrow> pydict" where
  "call_row c =
     [(''id'', JStr (tc_id c)), (''name'', JStr (tc_name c)), (''arguments'', JDict (tc_arguments c)),
      (''result_id'', null_or_str (tc_result_id c)), (''reasoning_id'', null_or_str (tc_reasoning_id c)),
      (''reasoning_summary'', case tc_reasoning_summary c of None \<Rightarrow> JNull | Some xs \<Rightarrow> JList xs)]"

definition assistant_row :: "string \<Rightarrow> tool_call_input list \<Rightarrow> pydict \<Rightarrow> pydict list \<Rightarrow> pydict" where
  "assistant_row content calls additional requests =
     [(''type'', JStr ''assistant''), (''content'', JStr content),
      (''tool_calls'', JList (map (\<lambda>c. JDict (call_row c)) calls)),
      (''additional_content'', JDict additional),
      (''tool_approval_requests'', JList (map JDict requests))]"

definition result_entry ::
  "string \<Rightarrow> string \<Rightarrow> pydict \<Rightarrow> string \<Rightarrow> string option \<Rightarrow> json list \<Rightarrow> pydict" where
  "result_entry i n args result result_id artifacts =
     [(''tool_call_id'', JStr i), (''tool_name'', JStr n), (''args'', JDict args), (''result'', JStr result),
      (''tool_call_result_id'', null_or_str result_id), (''artifacts'', JList artifacts)]"

definition tool_result_entry :: "tool_call_input \<Rightarrow> string \<Rightarrow> pydict" where
  "tool_result_entry c result = result_entry (tc_id c) (tc_name c) (tc_arguments c) result (tc_result_id c) []"

definition tool_result_row :: "pydict list \<Rightarrow> pydict list \<Rightarrow> pydict" where
  "tool_result_row results decisions =
     [(''type'', JStr ''tool_result''), (''tool_results'', JList (map JDict results)),
      (''tool_approval_responses'', JList (map JDict decisions))]"

definition decision_row :: "string \<Rightarrow> bool \<Rightarrow> string option \<Rightarrow> pydict" where
  "decision_row approval_id approved reason =
     [(''approval_id'', JStr approval_id), (''approved'', JBool approved), (''reason'', null_or_str reason)]"

definition decision_of :: "pydict \<Rightarrow> pydict" where
  "decision_of v =
     decision_row (text_of (dget v ''approval_id'')) (dget v ''approved'' = JBool True)
       (nullable_text (dget v ''reason''))"

definition request_row :: "string \<Rightarrow> string \<Rightarrow> pydict" where
  "request_row approval_id call_id = [(''approval_id'', JStr approval_id), (''tool_call_id'', JStr call_id)]"

subsection \<open>The conversation as the model sees it\<close>

definition call_of :: "pydict \<Rightarrow> tool_call_input" where
  "call_of c =
     \<lparr> tc_id = text_of (dget c ''id''), tc_name = text_of (dget c ''name''),
       tc_arguments = dict_or_empty (dget c ''arguments''),
       tc_result_id = nullable_text (dget c ''result_id''),
       tc_reasoning_id = nullable_text (dget c ''reasoning_id''),
       tc_reasoning_summary = as_list (dget c ''reasoning_summary'') \<rparr>"

definition normal_assistant :: "pydict \<Rightarrow> pydict" where
  "normal_assistant row =
     assistant_row (case dget row ''content'' of JStr s \<Rightarrow> s | _ \<Rightarrow> [])
       (map call_of (dicts_in (dget row ''tool_calls'')))
       (dict_or_empty (dget row ''additional_content''))
       (map (\<lambda>r. request_row (text_of (dget r ''approval_id'')) (text_of (dget r ''tool_call_id'')))
          (dicts_in (dget row ''tool_approval_requests'')))"

definition normal_entry :: "pydict \<Rightarrow> pydict" where
  "normal_entry e =
     result_entry (text_of (dget e ''tool_call_id'')) (text_of (dget e ''tool_name''))
       (dict_or_empty (dget e ''args'')) (text_of (dget e ''result''))
       (nullable_text (dget e ''tool_call_result_id''))
       (case dget e ''artifacts'' of JList xs \<Rightarrow> xs | _ \<Rightarrow> [])"

definition normal_result :: "pydict \<Rightarrow> pydict" where
  "normal_result row =
     (if as_list (dget row ''tool_results'') \<noteq> None \<or> as_list (dget row ''tool_approval_responses'') \<noteq> None
      then tool_result_row (map normal_entry (dicts_in (dget row ''tool_results'')))
             (map decision_of (dicts_in (dget row ''tool_approval_responses'')))
      else tool_result_row
             [result_entry (text_of (dget row ''tool_call_id'')) (text_of (dget row ''name'')) []
                (text_of (dget row ''result'')) None []] [])"

definition is_type :: "string \<Rightarrow> pydict \<Rightarrow> bool" where
  "is_type kind row = (dget row ''type'' = JStr kind)"

text \<open>The requests of an old row, appended to the last assistant turn of the view.\<close>

definition add_requests :: "pydict list \<Rightarrow> pydict \<Rightarrow> pydict" where
  "add_requests approvals assistant =
     dput ''tool_approval_requests''
       (JList ((case dget assistant ''tool_approval_requests'' of JList xs \<Rightarrow> xs | _ \<Rightarrow> [])
               @ map (\<lambda>a. JDict (request_row (text_of (dget a ''id'')) (text_of (dget a ''id'')))) approvals))
       assistant"

text \<open>\<open>_normalise\<close>: the row to show, if any, and the view it leaves.\<close>

definition normalise :: "pydict \<Rightarrow> pydict list \<Rightarrow> pydict option \<times> pydict list" where
  "normalise row view =
     (if is_type ''assistant'' row then (Some (normal_assistant row), view)
      else if is_type ''tool_result'' row then (Some (normal_result row), view)
      else if is_type ''tool_approval_request'' row
      then (None, rev (update_first (is_type ''assistant'')
                    (add_requests (dicts_in (dget row ''approvals''))) (rev view)))
      else if is_type ''tool_approval_response'' row then (Some (tool_result_row [] [decision_of row]), view)
      else (Some row, view))"

text \<open>A dict filled by \<open>d[key(x)] = x\<close>, then \<open>list(d.values())\<close>.\<close>

definition keyed :: "string \<Rightarrow> pydict list \<Rightarrow> pydict list" where
  "keyed k entries =
     map snd (fold (\<lambda>e acc. AList.update (dget e k) e acc) entries [])"

definition fold_rows :: "pydict \<Rightarrow> pydict \<Rightarrow> pydict" where
  "fold_rows earlier later =
     tool_result_row
       (keyed ''tool_call_id'' (dicts_in (dget earlier ''tool_results'') @ dicts_in (dget later ''tool_results'')))
       (keyed ''approval_id'' (dicts_in (dget earlier ''tool_approval_responses'')
                               @ dicts_in (dget later ''tool_approval_responses'')))"

text \<open>The loop of \<open>thread_view\<close>. A row without a type raises \<open>KeyError\<close> where its type is read.\<close>

fun view_loop :: "pydict list \<Rightarrow> pydict list \<Rightarrow> pydict list pyres" where
  "view_loop view [] = Inr view"
| "view_loop view (row # rows) =
     (case normalise row view of
        (None, view) \<Rightarrow> view_loop view rows
      | (Some n, view) \<Rightarrow>
          (case map_of n ''type'' of
             None \<Rightarrow> Inl (KeyErr ''type'')
           | Some kind \<Rightarrow>
               if kind = JStr ''tool_result'' \<and> view \<noteq> [] \<and> is_type ''tool_result'' (last view)
               then view_loop (butlast view @ [fold_rows (last view) n]) rows
               else view_loop (view @ [n]) rows))"

definition thread_view :: "pydict list \<Rightarrow> pydict list pyres" where
  "thread_view rows = view_loop [] rows"

subsection \<open>Stored approval authority\<close>

text \<open>\<open>list(dict.fromkeys(xs))\<close>: each value once, in the order of its first occurrence.\<close>

definition dedup :: "'a list \<Rightarrow> 'a list" where
  "dedup xs = rev (remdups (rev xs))"

definition is_tool_name :: "json \<Rightarrow> bool" where
  "is_tool_name v = (case v of JStr n \<Rightarrow> n \<noteq> [] \<and> n \<noteq> ''*'' | _ \<Rightarrow> False)"

definition is_stored_candidate :: "string list \<Rightarrow> nat \<Rightarrow> pydict \<Rightarrow> bool" where
  "is_stored_candidate ids n candidate =
     (is_type ''assistant'' candidate
      \<and> (case dget candidate ''tool_approval_requests'' of
           JList xs \<Rightarrow> length xs = n
             \<and> list_all (\<lambda>x. case x of
                   JDict r \<Rightarrow> (case dget r ''approval_id'' of JStr i \<Rightarrow> i \<in> set ids | _ \<Rightarrow> False)
                 | _ \<Rightarrow> False) xs
         | _ \<Rightarrow> False))"

text \<open>\<open>decisions.setdefault(...)\<close> for each response with a string id: the first one stays.\<close>

definition note_decisions :: "pydict list \<Rightarrow> (string \<rightharpoonup> bool) \<Rightarrow> (string \<rightharpoonup> bool)" where
  "note_decisions responses decisions =
     fold (\<lambda>r m. case dget r ''approval_id'' of
              JStr i \<Rightarrow> if m i = None then m(i \<mapsto> (dget r ''approved'' = JBool True)) else m
            | _ \<Rightarrow> m) responses decisions"

definition str_of :: "json \<Rightarrow> string" where
  "str_of v = (case v of JStr s \<Rightarrow> s | _ \<Rightarrow> [])"

definition approved_names :: "pydict \<Rightarrow> pydict list \<Rightarrow> (string \<rightharpoonup> bool) \<Rightarrow> string list" where
  "approved_names row requests decisions =
     (let approved_calls = map (\<lambda>r. dget r ''tool_call_id'')
            (filter (\<lambda>r. decisions (str_of (dget r ''approval_id'')) = Some True) requests)
      in map (\<lambda>c. str_of (dget c ''name''))
           (filter (\<lambda>c. dget c ''id'' \<in> set approved_calls \<and> is_tool_name (dget c ''name''))
             (dicts_in (dget row ''tool_calls''))))"

text \<open>The scope of the assistant row that asked, \<open>requests\<close> being its requests: the names stored with
  it, or the names of the calls that were approved. The flag tells the second case.\<close>

definition row_scope ::
  "pydict list \<Rightarrow> pydict \<Rightarrow> pydict list \<Rightarrow> (string \<rightharpoonup> bool) \<Rightarrow> string list \<times> bool" where
  "row_scope rows row requests decisions =
     (let ids = map (\<lambda>r. str_of (dget r ''approval_id'')) requests;
          stored = find (is_stored_candidate ids (length requests)) (rev rows);
          scope = (case stored of None \<Rightarrow> JNull | Some c \<Rightarrow> dget c ''harness_tool_names'')
      in case scope of
           JList names \<Rightarrow>
             if list_all is_tool_name names then (dedup (map str_of names), False)
             else (dedup (approved_names row requests decisions), True)
         | _ \<Rightarrow> (dedup (approved_names row requests decisions), True))"

fun scope_loop ::
  "pydict list \<Rightarrow> (string \<rightharpoonup> bool) \<Rightarrow> pydict list \<Rightarrow> (string list \<times> bool) option" where
  "scope_loop rows decisions [] = None"
| "scope_loop rows decisions (row # rest) =
     (if is_type ''tool_result'' row
      then scope_loop rows (note_decisions (dicts_in (dget row ''tool_approval_responses'')) decisions) rest
      else if is_type ''user'' row then None
      else if \<not> is_type ''assistant'' row then scope_loop rows decisions rest
      else (let requests = dicts_in (dget row ''tool_approval_requests'')
            in if requests = [] then None else Some (row_scope rows row requests decisions)))"

definition approval_tool_scope :: "pydict list \<Rightarrow> (string list \<times> bool) option pyres" where
  "approval_tool_scope rows = res_bind (thread_view rows) (\<lambda>view. Inr (scope_loop rows Map.empty (rev view)))"

end
