(* ===== verification/JsonText.thy ===== *)
theory JsonText
  imports Pyvalue
begin

section \<open>JSON text can be read back\<close>

text \<open>
  The texts that \<open>json.dumps(..., ensure_ascii=False)\<close> writes for strings are prefix-free: a quoted
  string ends where its own closing quote stands, whatever follows. So a JSON list of strings and
  nulls determines its items, which is what the keys of \<open>address.py\<close> rest on.
\<close>

subsection \<open>One escaped byte\<close>

fun unhex :: "char \<Rightarrow> nat" where
  "unhex c = (let n = byte_of c in if n < 58 then n - 48 else n - 87)"

text \<open>The first byte of an escaped text and what follows it.\<close>

fun unescape :: "string \<Rightarrow> (char \<times> string) option" where
  "unescape [] = None"
| "unescape [c] = (if c = backslash then None else Some (c, []))"
| "unescape (c # d # s) =
     (if c \<noteq> backslash then Some (c, d # s)
      else if d = CHR ''n'' then Some (CHR 0x0A, s)
      else if d = CHR ''r'' then Some (CHR 0x0D, s)
      else if d = CHR ''t'' then Some (CHR 0x09, s)
      else if d = CHR ''b'' then Some (CHR 0x08, s)
      else if d = CHR ''f'' then Some (CHR 0x0C, s)
      else if d = CHR ''u''
      then (case s of _ # _ # x # y # r \<Rightarrow> Some (char_of (unhex x * 16 + unhex y), r) | _ \<Rightarrow> None)
      else Some (d, s))"

lemma unhex_digit: "d < 16 \<Longrightarrow> unhex (hex_digit d) = d"
  by (simp add: hex_digit_def byte_of_def)

lemma hex_small: "n < 32 \<Longrightarrow> unhex (hex_digit (n div 16 mod 16)) * 16 + unhex (hex_digit (n mod 16)) = n"
  by (simp add: unhex_digit del: unhex.simps)

declare unhex.simps [simp del]

lemma char_of_byte_of [simp]: "char_of (byte_of c) = c"
  by (simp add: byte_of_def)

lemma unescape_escape: "unescape (json_escape c @ r) = Some (c, r)"
proof (cases "c \<in> {quote_char, backslash, CHR 0x0A, CHR 0x0D, CHR 0x09, CHR 0x08, CHR 0x0C}")
  case True
  then show ?thesis by (auto simp: json_escape_def)
next
  case False
  show ?thesis
  proof (cases "byte_of c < 32")
    case True
    with False show ?thesis
      using hex_small [OF True] by (simp add: json_escape_def hex4_def hex2_def)
  next
    case big: False
    with False have "json_escape c = [c]" "c \<noteq> backslash" by (simp_all add: json_escape_def)
    then show ?thesis by (cases r) simp_all
  qed
qed

lemma json_escape_head: "json_escape c \<noteq> [] \<and> hd (json_escape c) \<noteq> quote_char"
proof (cases "c \<in> {quote_char, backslash, CHR 0x0A, CHR 0x0D, CHR 0x09, CHR 0x08, CHR 0x0C}")
  case True
  then show ?thesis by (auto simp: json_escape_def)
next
  case False
  then show ?thesis by (cases "byte_of c < 32") (simp_all add: json_escape_def)
qed

lemma json_escape_Cons: obtains x xs where "json_escape c = x # xs" "x \<noteq> quote_char"
  using json_escape_head [of c] that by (metis list.exhaust_sel)

lemma escape_inj: "json_escape c @ r = json_escape d @ s \<Longrightarrow> c = d \<and> r = s"
  by (metis unescape_escape option.inject prod.inject)

subsection \<open>Strings and items\<close>

lemma escaped_text_inj:
  "concat (map json_escape s) @ quote_char # r = concat (map json_escape t) @ quote_char # u \<Longrightarrow> s = t \<and> r = u"
proof (induction s arbitrary: t)
  case Nil
  then show ?case by (cases t; cases "hd t" rule: json_escape_Cons) auto
next
  case (Cons c s)
  show ?case
  proof (cases t)
    case Nil
    obtain x xs where "json_escape c = x # xs" "x \<noteq> quote_char" by (rule json_escape_Cons)
    with Nil Cons.prems show ?thesis by simp
  next
    case (Cons d t')
    with Cons.prems have "json_escape c @ (concat (map json_escape s) @ quote_char # r)
        = json_escape d @ (concat (map json_escape t') @ quote_char # u)" by simp
    from escape_inj [OF this] have "c = d"
      "concat (map json_escape s) @ quote_char # r = concat (map json_escape t') @ quote_char # u" by auto
    with Cons Cons.IH [of t'] show ?thesis by simp
  qed
qed

lemma json_string_prefix: "json_string False s @ r = json_string False t @ u \<Longrightarrow> s = t \<and> r = u"
  using escaped_text_inj [of s r t u] by (simp add: json_string_def)

text \<open>An item of the lists that keys are made of: a string or null.\<close>

definition opt_json :: "string option \<Rightarrow> json" where
  "opt_json x = (case x of None \<Rightarrow> JNull | Some s \<Rightarrow> JStr s)"

abbreviation item_text :: "string option \<Rightarrow> string" where
  "item_text x \<equiv> json_dumps False '','' '':'' (opt_json x)"

lemma json_string_Cons: obtains xs where "json_string ascii s = quote_char # xs"
  by (simp add: json_string_def)

lemma item_text_prefix: "item_text x @ r = item_text y @ u \<Longrightarrow> x = y \<and> r = u"
proof (cases x; cases y)
  fix a assume "item_text x @ r = item_text y @ u" "x = None" "y = Some a"
  then show ?thesis by (cases rule: json_string_Cons [of False a]) (simp add: opt_json_def)
next
  fix a assume "item_text x @ r = item_text y @ u" "x = Some a" "y = None"
  then show ?thesis by (cases rule: json_string_Cons [of False a]) (simp add: opt_json_def)
next
  fix a b assume "item_text x @ r = item_text y @ u" "x = Some a" "y = Some b"
  then show ?thesis using json_string_prefix [of a r b u] by (simp add: opt_json_def)
qed (simp add: opt_json_def)

lemma items_text_inj:
  "length xs = length ys \<Longrightarrow> join_with '','' (map item_text xs) @ '']'' = join_with '','' (map item_text ys) @ '']''
     \<Longrightarrow> xs = ys"
proof (induction xs arbitrary: ys)
  case Nil
  then show ?case by simp
next
  case (Cons x xs)
  then obtain y ys' where ys: "ys = y # ys'" "length xs = length ys'" by (cases ys) auto
  show ?case
  proof (cases xs)
    case Nil
    with ys Cons.prems(2) item_text_prefix [of x "'']''" y "'']''"] show ?thesis by simp
  next
    case (Cons x' xs')
    with ys obtain y' ys'' where y': "ys' = y' # ys''" by (cases ys') auto
    with Cons ys Cons.prems(2) have "item_text x @ ('','' @ join_with '','' (map item_text xs) @ '']'')
        = item_text y @ ('','' @ join_with '','' (map item_text ys') @ '']'')" by simp
    from item_text_prefix [OF this] have "x = y"
      "join_with '','' (map item_text xs) @ '']'' = join_with '','' (map item_text ys') @ '']''" by simp_all
    with Cons.IH [OF ys(2)] ys show ?thesis by simp
  qed
qed

lemma list_text_inj:
  "length xs = length ys \<Longrightarrow>
     json_dumps False '','' '':'' (JList (map opt_json xs)) = json_dumps False '','' '':'' (JList (map opt_json ys))
     \<Longrightarrow> xs = ys"
  using items_text_inj [of xs ys] by (simp add: comp_def)

end
