(* ===== verification/Addresses.thy ===== *)
theory Addresses
  imports Errors JsonText
begin

section \<open>Addresses and their keys\<close>

text \<open>
  \<open>address.py\<close>: agent names, participant references and their actors, and the keys that a session,
  a thread and the index are stored under. \<open>sha1\<close> and \<open>sha256\<close> are the digests of \<open>hashlib\<close>, from
  bytes to hexadecimal text: parameters of every key. The lemmas say what the keys rest on: the text
  that is hashed determines the domain and the address, and what differs for addresses without an
  agent, whose session key is not hashed as a whole.
\<close>

type_synonym digest = "string \<Rightarrow> string"

subsection \<open>Agents and participants\<close>

definition lower_alpha :: "char \<Rightarrow> bool" where
  "lower_alpha c = (97 \<le> byte_of c \<and> byte_of c \<le> 122)"

definition agent_char :: "char \<Rightarrow> bool" where
  "agent_char c = (lower_alpha c \<or> (48 \<le> byte_of c \<and> byte_of c \<le> 57) \<or> c = CHR ''_'' \<or> c = CHR ''-'')"

text \<open>\<open>re.fullmatch("[a-z][a-z0-9_-]{0,63}", agent)\<close>\<close>

fun agent_name :: "string \<Rightarrow> bool" where
  "agent_name [] = False"
| "agent_name (c # s) = (lower_alpha c \<and> length s \<le> 63 \<and> list_all agent_char s)"

definition agent_message :: string where
  "agent_message = ''Harness namespace must be a configured lowercase identifier of 1'' @ [CHR 0xE2, CHR 0x80, CHR 0x93]
     @ ''64 ASCII bytes.''"

definition validate_agent :: "string option \<Rightarrow> unit pyres" where
  "validate_agent agent =
     (case agent of None \<Rightarrow> Inr ()
      | Some a \<Rightarrow> if agent_name a then Inr () else Inl (ValueErr agent_message))"

record participant_ref =
  pr_type :: string
  pr_id :: string

text \<open>\<open>isinstance(id, (str, int)) and not isinstance(id, bool)\<close>\<close>

fun id_ok :: "json \<Rightarrow> bool" where
  "id_ok (JStr s) = True"
| "id_ok (JInt i) = True"
| "id_ok v = False"

definition ref_part_ok :: "string \<Rightarrow> bool" where
  "ref_part_ok s = (s \<noteq> [] \<and> length s \<le> 255)"

definition participant_ref_new :: "string \<Rightarrow> json \<Rightarrow> participant_ref pyres" where
  "participant_ref_new type i =
     (if \<not> id_ok i then Inl (TypeErr ''Participant references require string types and string or integer ids.'')
      else if \<not> (ref_part_ok type \<and> ref_part_ok (py_str i))
      then Inl (ValueErr ''Participant references require non-empty UTF-8 type and id, at most 255 bytes each.'')
      else Inr \<lparr> pr_type = type, pr_id = py_str i \<rparr>)"

text \<open>Who an address belongs to: a reference, or any object with a type and an id.\<close>

datatype participant = Ref participant_ref | Plain string json

fun participant_type :: "participant \<Rightarrow> string" where
  "participant_type (Ref r) = pr_type r"
| "participant_type (Plain t i) = t"

fun participant_id :: "participant \<Rightarrow> json" where
  "participant_id (Ref r) = JStr (pr_id r)"
| "participant_id (Plain t i) = i"

fun is_ref :: "participant \<Rightarrow> bool" where
  "is_ref (Ref r) = True"
| "is_ref (Plain t i) = False"

text \<open>\<open>ParticipantAdapters\<close>: the resolvers by type; a resolver answers \<open>None\<close> or an actor.\<close>

type_synonym 'a adapters = "string \<rightharpoonup> (participant_ref \<Rightarrow> 'a option)"

definition adapters_register ::
  "string \<Rightarrow> (participant_ref \<Rightarrow> 'a option) \<Rightarrow> 'a adapters \<Rightarrow> 'a adapters pyres" where
  "adapters_register type actor adapters =
     res_bind (participant_ref_new type (JStr ''validation'')) (\<lambda>_.
       if adapters type \<noteq> None then Inl (ValueErr ''A participant adapter is already registered for this type.'')
       else Inr (adapters(type \<mapsto> actor)))"

definition adapters_actor :: "'a adapters \<Rightarrow> participant_ref \<Rightarrow> 'a option \<Rightarrow> 'a pyres" where
  "adapters_actor adapters r inherited =
     (case adapters (pr_type r) of
        None \<Rightarrow> Inl (ValueErr ''No participant actor adapter is registered for this type.'')
      | Some resolve \<Rightarrow>
          (case (if inherited = None then resolve r else inherited) of
             None \<Rightarrow> Inl (ValueErr ''Participant actor adapter must return an actor object.'')
           | Some a \<Rightarrow> Inr a))"

subsection \<open>Addresses\<close>

record session_address =
  ad_type :: "string option"
  ad_id :: "string option"
  ad_scope :: string
  ad_agent :: "string option"

definition session_address_new ::
  "participant option \<Rightarrow> string \<Rightarrow> string option \<Rightarrow> session_address pyres" where
  "session_address_new p scope agent =
     res_bind (validate_agent agent) (\<lambda>_.
       if (agent \<noteq> None \<or> (case p of None \<Rightarrow> False | Some q \<Rightarrow> is_ref q))
          \<and> (case p of None \<Rightarrow> False | Some q \<Rightarrow> \<not> id_ok (participant_id q))
       then Inl (ValueErr ''Harness addresses require UTF-8 types and integer or string ids.'')
       else Inr \<lparr> ad_type = map_option participant_type p, ad_id = map_option (\<lambda>q. py_str (participant_id q)) p,
                  ad_scope = scope, ad_agent = agent \<rparr>)"

text \<open>The text \<open>_digest\<close> hashes.\<close>

definition address_text :: "string \<Rightarrow> session_address \<Rightarrow> string" where
  "address_text domain a =
     json_dumps False '','' '':''
       (JList (map opt_json [Some domain, ad_agent a, ad_type a, ad_id a, Some (ad_scope a)]))"

definition address_digest :: "digest \<Rightarrow> string \<Rightarrow> session_address \<Rightarrow> string" where
  "address_digest sha256 domain a = sha256 (address_text domain a)"

definition session_key :: "digest \<Rightarrow> digest \<Rightarrow> session_address \<Rightarrow> string pyres" where
  "session_key sha1 sha256 a =
     (case (ad_type a, ad_id a) of
        (Some t, Some i) \<Rightarrow>
          (if ad_agent a = None
           then Inr (''session:'' @ take 12 (sha1 t) @ '':'' @ i @ '':'' @ ad_scope a)
           else Inr (''session:'' @ address_digest sha256 ''prism-harness.session.v1'' a))
      | _ \<Rightarrow> Inl (ValueErr ''A session requires a participant.''))"

text \<open>\<open>.replace("/", "\\/")\<close>\<close>

definition escape_slashes :: "string \<Rightarrow> string" where
  "escape_slashes s = concat (map (\<lambda>c. if c = CHR ''/'' then [backslash, CHR ''/''] else [c]) s)"

definition thread_key :: "digest \<Rightarrow> session_address \<Rightarrow> string" where
  "thread_key sha256 a =
     (if ad_agent a \<noteq> None then address_digest sha256 ''prism-harness.thread.v1'' a
      else sha256 (escape_slashes (json_dumps True '','' '':''
             (JList (map opt_json [ad_type a, ad_id a, Some (ad_scope a)])))))"

definition index_key :: "digest \<Rightarrow> session_address \<Rightarrow> string" where
  "index_key sha256 a = address_digest sha256 ''prism-harness.address.v1'' a"

subsection \<open>The hashed text determines the address\<close>

lemma address_text_inj: "address_text d a = address_text e b \<Longrightarrow> d = e \<and> a = b"
proof -
  assume "address_text d a = address_text e b"
  then have "[Some d, ad_agent a, ad_type a, ad_id a, Some (ad_scope a)]
      = [Some e, ad_agent b, ad_type b, ad_id b, Some (ad_scope b)]"
    unfolding address_text_def by (rule list_text_inj [rotated]) simp
  then show ?thesis by (cases a; cases b) simp
qed

lemma address_text_eq [simp]: "address_text d a = address_text e b \<longleftrightarrow> d = e \<and> a = b"
  using address_text_inj by blast

text \<open>No collision among the texts in use: what is asked of the digest.\<close>

definition collision_free :: "digest \<Rightarrow> string set \<Rightarrow> bool" where
  "collision_free sha256 texts = inj_on sha256 texts"

lemma address_digest_eq:
  assumes "collision_free sha256 T" and "address_text d a \<in> T" and "address_text e b \<in> T"
  shows "address_digest sha256 d a = address_digest sha256 e b \<longleftrightarrow> d = e \<and> a = b"
  using assms by (auto simp: address_digest_def collision_free_def inj_on_eq_iff)

subsection \<open>The properties\<close>

text \<open>C25: keys of named addresses never collide. As long as the digest has no collision among the texts
  hashed, two addresses with an agent have the same session key, the same thread key or the same
  index key only if they are the same address, and a thread key is never another address's index key:
  no choice of agent, participant type, id or scope (quotes, commas and brackets included) can pass
  for another address.\<close>

theorem named_keys_identify_address:
  assumes "collision_free sha256 T"
    and "\<forall>d \<in> {''prism-harness.session.v1'', ''prism-harness.thread.v1'', ''prism-harness.address.v1''}.
           \<forall>c \<in> {a, b}. address_text d c \<in> T"
    and "ad_agent a \<noteq> None" "ad_agent b \<noteq> None"
  shows "(thread_key sha256 a = thread_key sha256 b \<longleftrightarrow> a = b)
       \<and> (index_key sha256 a = index_key sha256 b \<longleftrightarrow> a = b)
       \<and> (\<forall>k. session_key sha1 sha256 a = Inr k \<longrightarrow> session_key sha1 sha256 b = Inr k \<longrightarrow> a = b)
       \<and> thread_key sha256 a \<noteq> index_key sha256 b"
proof -
  have e: "address_digest sha256 d a = address_digest sha256 e b \<longleftrightarrow> d = e \<and> a = b"
    if "d \<in> {''prism-harness.session.v1'', ''prism-harness.thread.v1'', ''prism-harness.address.v1''}"
      "e \<in> {''prism-harness.session.v1'', ''prism-harness.thread.v1'', ''prism-harness.address.v1''}" for d e
    using assms(2) that by (intro address_digest_eq [OF assms(1)]) blast+
  have t: "thread_key sha256 a = thread_key sha256 b \<longleftrightarrow> a = b"
    using e [of "''prism-harness.thread.v1''" "''prism-harness.thread.v1''"] assms(3,4) by (simp add: thread_key_def)
  have i: "index_key sha256 a = index_key sha256 b \<longleftrightarrow> a = b"
    using e [of "''prism-harness.address.v1''" "''prism-harness.address.v1''"] by (simp add: index_key_def)
  have s: "a = b" if "session_key sha1 sha256 a = Inr k" "session_key sha1 sha256 b = Inr k" for k
    using e [of "''prism-harness.session.v1''" "''prism-harness.session.v1''"] that assms(3,4)
    unfolding session_key_def by (clarsimp split: option.splits)
  have x: "thread_key sha256 a \<noteq> index_key sha256 b"
    using e [of "''prism-harness.thread.v1''" "''prism-harness.address.v1''"] assms(3)
    by (simp add: thread_key_def index_key_def)
  show ?thesis using t i s x by blast
qed

theorem named_keys_identify_address_witness:
  "thread_key (\<lambda>s. s) \<lparr>ad_type = Some ''user'', ad_id = Some ''1'', ad_scope = ''a'', ad_agent = Some ''x''\<rparr>
     \<noteq> thread_key (\<lambda>s. s) \<lparr>ad_type = Some ''user'', ad_id = Some ''1,'', ad_scope = ''a'', ad_agent = Some ''x''\<rparr>"
  using named_keys_identify_address [of "\<lambda>s. s" UNIV
      "\<lparr>ad_type = Some ''user'', ad_id = Some ''1'', ad_scope = ''a'', ad_agent = Some ''x''\<rparr>"
      "\<lparr>ad_type = Some ''user'', ad_id = Some ''1,'', ad_scope = ''a'', ad_agent = Some ''x''\<rparr>"]
  by (simp add: collision_free_def)

text \<open>Without an agent the id and the scope stand in the key as they are, around a colon: two different
  participants of one type share a session key whatever the digest is.\<close>

lemma legacy_session_keys_collide:
  "session_key sha1 sha256 \<lparr>ad_type = Some t, ad_id = Some ''7:a'', ad_scope = ''b'', ad_agent = None\<rparr>
     = session_key sha1 sha256 \<lparr>ad_type = Some t, ad_id = Some ''7'', ad_scope = ''a:b'', ad_agent = None\<rparr>"
  by (simp add: session_key_def)

text \<open>The alphabet of agent names, written out.\<close>

definition agent_letters :: string where
  "agent_letters = ''abcdefghijklmnopqrstuvwxyz''"

definition agent_alphabet :: string where
  "agent_alphabet = ''abcdefghijklmnopqrstuvwxyz0123456789_-''"

lemma byte_of_eq [simp]: "byte_of c = byte_of d \<longleftrightarrow> c = d"
  by (simp add: byte_of_def)

lemma byte_in_iff: "map byte_of cs = bs \<Longrightarrow> c \<in> set cs \<longleftrightarrow> byte_of c \<in> set bs"
  by auto

lemma lower_alpha_iff: "lower_alpha c \<longleftrightarrow> c \<in> set agent_letters"
proof -
  have "map byte_of agent_letters = [97 ..< 123]" unfolding agent_letters_def by code_simp
  then have "c \<in> set agent_letters \<longleftrightarrow> byte_of c \<in> set [97 ..< 123]" by (rule byte_in_iff)
  then show ?thesis unfolding lower_alpha_def set_upt atLeastLessThan_iff by linarith
qed

lemma agent_char_iff: "agent_char c \<longleftrightarrow> c \<in> set agent_alphabet"
proof -
  have "map byte_of agent_alphabet = [97 ..< 123] @ [48 ..< 58] @ [byte_of (CHR ''_''), byte_of (CHR ''-'')]"
    unfolding agent_alphabet_def by code_simp
  then have "c \<in> set agent_alphabet \<longleftrightarrow>
      byte_of c \<in> set ([97 ..< 123] @ [48 ..< 58] @ [byte_of (CHR ''_''), byte_of (CHR ''-'')])"
    by (rule byte_in_iff)
  also have "\<dots> \<longleftrightarrow> byte_of c \<in> {97 ..< 123} \<or> byte_of c \<in> {48 ..< 58} \<or> c = CHR ''_'' \<or> c = CHR ''-''"
    by (simp only: set_append set_upt Un_iff list.set insert_iff empty_iff byte_of_eq simp_thms)
  finally show ?thesis unfolding agent_char_def lower_alpha_def atLeastLessThan_iff by linarith
qed

lemma agent_name_iff:
  "agent_name n \<longleftrightarrow> 1 \<le> length n \<and> length n \<le> 64 \<and> hd n \<in> set agent_letters \<and> set n \<subseteq> set agent_alphabet"
proof (cases n)
  case (Cons c s)
  have "agent_char d" if "lower_alpha d" for d using that by (simp add: agent_char_def)
  with Cons show ?thesis
    by (auto simp: list_all_iff simp flip: lower_alpha_iff agent_char_iff)
qed simp

text \<open>C26: an address is built exactly from what its contract allows. The agent is absent, or a name of
  1 to 64 characters over \<open>a-z\<close>, \<open>0-9\<close>, \<open>_\<close> and \<open>-\<close> (each one ASCII byte) that starts with one of
  \<open>a-z\<close>; the id of a participant under an agent, or of a reference, is a string or an integer and
  never a bool or anything else; and the parts of the address are the ones given, the id as its text.
  A participant reference is built exactly from a type and such an id, each of 1 to 255 bytes as
  text. Anything else is refused.\<close>

theorem address_parts_valid:
  "(session_address_new p scope agent = Inr a \<longleftrightarrow>
      a = \<lparr> ad_type = map_option participant_type p, ad_id = map_option (\<lambda>q. py_str (participant_id q)) p,
            ad_scope = scope, ad_agent = agent \<rparr>
      \<and> (\<forall>n. agent = Some n \<longrightarrow> 1 \<le> length n \<and> length n \<le> 64
            \<and> hd n \<in> set ''abcdefghijklmnopqrstuvwxyz''
            \<and> set n \<subseteq> set ''abcdefghijklmnopqrstuvwxyz0123456789_-'')
      \<and> (\<forall>q. p = Some q \<longrightarrow> agent \<noteq> None \<or> (\<exists>r. q = Ref r) \<longrightarrow>
            (\<exists>x. participant_id q = JStr x) \<or> (\<exists>k. participant_id q = JInt k)))
   \<and> (participant_ref_new type i = Inr r \<longleftrightarrow>
      r = \<lparr> pr_type = type, pr_id = py_str i \<rparr>
      \<and> ((\<exists>x. i = JStr x) \<or> (\<exists>k. i = JInt k))
      \<and> 1 \<le> length type \<and> length type \<le> 255 \<and> 1 \<le> length (py_str i) \<and> length (py_str i) \<le> 255)"
proof -
  have i: "id_ok v \<longleftrightarrow> (\<exists>x. v = JStr x) \<or> (\<exists>k. v = JInt k)" for v by (cases v) auto
  have l: "ref_part_ok x \<longleftrightarrow> 1 \<le> length x \<and> length x \<le> 255" for x
    by (cases x) (auto simp: ref_part_ok_def)
  have r: "is_ref q \<longleftrightarrow> (\<exists>r. q = Ref r)" for q by (cases q) auto
  note n = agent_name_iff [unfolded agent_letters_def agent_alphabet_def]
  have "session_address_new p scope agent = Inr a \<longleftrightarrow>
      a = \<lparr> ad_type = map_option participant_type p, ad_id = map_option (\<lambda>q. py_str (participant_id q)) p,
            ad_scope = scope, ad_agent = agent \<rparr>
      \<and> (\<forall>n. agent = Some n \<longrightarrow> agent_name n)
      \<and> (\<forall>q. p = Some q \<longrightarrow> agent \<noteq> None \<or> is_ref q \<longrightarrow> id_ok (participant_id q))"
    by (auto simp: session_address_new_def validate_agent_def split: option.splits if_splits)
  moreover have "participant_ref_new type i = Inr r \<longleftrightarrow>
      r = \<lparr> pr_type = type, pr_id = py_str i \<rparr> \<and> id_ok i \<and> ref_part_ok type \<and> ref_part_ok (py_str i)"
    by (auto simp: participant_ref_new_def)
  ultimately show ?thesis unfolding n i l r by blast
qed

theorem address_parts_valid_witness:
  "session_address_new (Some (Plain ''user'' (JStr ''7''))) ''s'' (Some ''a-1'')
     = Inr \<lparr>ad_type = Some ''user'', ad_id = Some ''7'', ad_scope = ''s'', ad_agent = Some ''a-1''\<rparr>
   \<and> session_address_new None ''s'' (Some ''a/1'') \<noteq> Inr \<lparr>ad_type = None, ad_id = None, ad_scope = ''s'', ad_agent = Some ''a/1''\<rparr>"
  by (simp add: address_parts_valid [THEN conjunct1])

end
