(* ===== verification/AddressIndex.thy ===== *)
theory AddressIndex
  imports Addresses Stores
begin

section \<open>The index of addresses\<close>

text \<open>
  \<open>address_index.py\<close>: per participant, a head document with a count, pages of 100 hashes, one entry
  per address, and a journal in the head that an interrupted append is recovered from.
  \<open>index_recover\<close>, \<open>index_write\<close>, \<open>index_record\<close>, \<open>index_page\<close> are \<open>_recover\<close>, the callback of \<open>record\<close>,
  \<open>record\<close> and \<open>page\<close>, over any store; \<open>indexed_store\<close> is \<open>IndexedSessionStore\<close>, a store like any
  other whose writes are announced to the index first.
\<close>

subsection \<open>Configuration\<close>

definition scope_rank :: "string \<Rightarrow> nat option" where
  "scope_rank s =
     (if s = ''process'' then Some 0 else if s = ''host'' then Some 1
      else if s = ''distributed'' then Some 2 else None)"

definition store_lock_rank :: "'s session_store \<Rightarrow> nat pyres" where
  "store_lock_rank S =
     (case (ss_sharing_scope S, ss_lock_scope S) of
        (Some shared, Some locked) \<Rightarrow>
          (case (scope_rank shared, scope_rank locked) of
             (Some a, Some b) \<Rightarrow> if b < a then Inl IndexLockScopeUnsupported else Inr b
           | _ \<Rightarrow> Inl IndexLockScopeUnsupported)
      | _ \<Rightarrow> Inl IndexLockScopeUnsupported)"

definition address_limit :: "json \<Rightarrow> int option pyres" where
  "address_limit v =
     (case v of
        JNull \<Rightarrow> Inr None
      | JInt i \<Rightarrow> if i < 1 then Inl (ValueErr ''max_addresses_per_participant must be a positive integer or null.'')
                else Inr (Some i)
      | _ \<Rightarrow> Inl (TypeErr ''max_addresses_per_participant must be a positive integer or null.''))"

record address_index =
  ix_sha256 :: digest
  ix_max :: "int option"

definition address_index_new :: "digest \<Rightarrow> 's session_store \<Rightarrow> json \<Rightarrow> address_index pyres" where
  "address_index_new sha256 S limit =
     (if ss_durability S \<noteq> DURABLE
      then Inl (harness_err UNSAFE_STATE_CONFIGURATION ''The address index requires a durable store.'')
      else res_bind (store_lock_rank S) (\<lambda>_.
           res_bind (address_limit limit) (\<lambda>m. Inr \<lparr> ix_sha256 = sha256, ix_max = m \<rparr>)))"

subsection \<open>Documents\<close>

definition PAGE_SIZE :: nat where "PAGE_SIZE = 100"

definition index_root :: "digest \<Rightarrow> string option \<Rightarrow> string option \<Rightarrow> string" where
  "index_root sha256 t i =
     ''harness-address-index:v1:'' @ sha256 (json_dumps False '','' '':'' (JList (map opt_json [t, i])))"

definition head_key :: "string \<Rightarrow> string" where "head_key rt = rt @ '':head''"
definition page_key :: "string \<Rightarrow> nat \<Rightarrow> string" where "page_key rt n = rt @ '':page:'' @ show_nat n"
definition entry_key :: "string \<Rightarrow> string \<Rightarrow> string" where "entry_key rt h = rt @ '':entry:'' @ h"

text \<open>\<open>re.fullmatch("[a-f0-9]{64}", id)\<close>\<close>

definition hex64 :: "string \<Rightarrow> bool" where
  "hex64 s = (length s = 64 \<and> list_all (\<lambda>c. (97 \<le> byte_of c \<and> byte_of c \<le> 102) \<or> (48 \<le> byte_of c \<and> byte_of c \<le> 57)) s)"

definition is_one :: "json \<Rightarrow> bool" where "is_one v = py_eq v (JInt 1)"

definition fresh_head :: pydict where
  "fresh_head = [(''version'', JInt 1), (''count'', JInt 0), (''pages'', JInt 0), (''pending'', JNull)]"

definition head_count :: "pydict \<Rightarrow> nat" where
  "head_count h = (case dget h ''count'' of JInt i \<Rightarrow> nat i | _ \<Rightarrow> 0)"

definition index_head :: "pydict option \<Rightarrow> pydict pyres" where
  "index_head value =
     (case value of
        None \<Rightarrow> Inr fresh_head
      | Some h \<Rightarrow>
          (let bad = Inl (ValueErr ''Invalid harness address index head.'')
           in case dget h ''count'' of
                JInt i \<Rightarrow>
                  if \<not> is_one (dget h ''version'') \<or> i < 0
                     \<or> \<not> py_eq (dget h ''pages'') (JInt ((i + int PAGE_SIZE - 1) div int PAGE_SIZE))
                     \<or> (dget h ''pending'' \<noteq> JNull \<and> as_dict (dget h ''pending'') = None)
                     \<or> map_of h ''pending'' = None
                  then bad else Inr h
              | _ \<Rightarrow> bad))"

definition page_ids_of :: "pydict option \<Rightarrow> string list pyres" where
  "page_ids_of page =
     (case page of
        None \<Rightarrow> Inr []
      | Some p \<Rightarrow>
          (let bad = Inl (ValueErr ''Invalid harness address index page.'')
           in case dget p ''ids'' of
                JList ids \<Rightarrow>
                  if \<not> is_one (dget p ''version'') \<or> PAGE_SIZE < length ids
                     \<or> \<not> list_all (\<lambda>v. case v of JStr s \<Rightarrow> hex64 s | _ \<Rightarrow> False) ids
                  then bad else Inr (strs_of ids)
              | _ \<Rightarrow> bad))"

definition page_doc :: "string list \<Rightarrow> pydict" where
  "page_doc ids = [(''version'', JInt 1), (''ids'', JList (map JStr ids))]"

definition committed_head :: "nat \<Rightarrow> pydict" where
  "committed_head n =
     [(''version'', JInt 1), (''count'', JInt (int n + 1)), (''pages'', JInt (int (n div PAGE_SIZE) + 1)),
      (''pending'', JNull)]"

definition page_ids :: "'s session_store \<Rightarrow> string \<Rightarrow> nat \<Rightarrow> ('s, string list) py" where
  "page_ids S rt n = act_bind (ss_get S (page_key rt n)) (\<lambda>p. act_lift (page_ids_of p))"

text \<open>The checks of the journal: its hash and its entry.\<close>

definition journal_of :: "pydict \<Rightarrow> (string \<times> pydict) pyres" where
  "journal_of head =
     (let bad = Inl (ValueErr ''Invalid harness address append journal.''); n = JInt (int (head_count head))
      in case dget head ''pending'' of
           JDict pending \<Rightarrow>
             (case (dget pending ''hash'', dget pending ''entry'') of
                (JStr h, JDict entry) \<Rightarrow>
                  if hex64 h \<and> py_eq (dget pending ''position'') n \<and> py_eq (dget entry ''position'') n
                  then Inr (h, entry) else bad
              | _ \<Rightarrow> bad)
         | _ \<Rightarrow> bad)"

subsection \<open>Recovering and recording\<close>

text \<open>The writes of \<open>_recover\<close>, once the page of the journal's position is read: the page unless it has the
  hash already, the entry, the commit.\<close>

definition recover_writes ::
  "'s session_store \<Rightarrow> string \<Rightarrow> nat \<Rightarrow> string \<Rightarrow> pydict \<Rightarrow> string list \<Rightarrow> ('s, pydict) py" where
  "recover_writes S rt n h entry ids =
     (let number = n div PAGE_SIZE; offset = n mod PAGE_SIZE
      in act_bind
           (if length ids = offset
            then ss_put S (page_key rt number) (page_doc (ids @ [h])) None
            else if length ids \<noteq> offset + 1 \<or> ids ! offset \<noteq> h
            then act_raise (ValueErr ''Conflicting harness address append journal.'')
            else act_return ()) (\<lambda>_.
         act_bind (ss_put S (entry_key rt h) entry None) (\<lambda>_.
         act_bind (ss_put S (head_key rt) (committed_head n) None) (\<lambda>_.
           act_return (committed_head n)))))"

definition index_recover :: "'s session_store \<Rightarrow> string \<Rightarrow> pydict \<Rightarrow> ('s, pydict) py" where
  "index_recover S rt head =
     (if dget head ''pending'' = JNull then act_return head
      else act_bind (act_lift (journal_of head)) (\<lambda>(h, entry).
        act_bind (page_ids S rt (head_count head div PAGE_SIZE))
          (recover_writes S rt (head_count head) h entry)))"

definition read_head :: "'s session_store \<Rightarrow> string \<Rightarrow> ('s, pydict) py" where
  "read_head S rt = act_bind (ss_get S (head_key rt)) (\<lambda>v. act_lift (index_head v))"

definition identity_doc :: "session_address \<Rightarrow> pydict" where
  "identity_doc a =
     [(''agent'', opt_json (ad_agent a)), (''participant_type'', opt_json (ad_type a)),
      (''participant_id'', opt_json (ad_id a)), (''scope'', JStr (ad_scope a))]"

definition resource_doc :: "string \<Rightarrow> string \<Rightarrow> string \<Rightarrow> pydict" where
  "resource_doc slot kind key = [(''slot'', JStr slot), (''kind'', JStr kind), (''key'', JStr key)]"

text \<open>The checks of an existing entry: its position and its resources.\<close>

definition entry_of :: "session_address \<Rightarrow> nat \<Rightarrow> pydict \<Rightarrow> (nat \<times> json list) pyres" where
  "entry_of a count existing =
     (let bad = Inl (ValueErr ''Invalid harness address index entry.'')
      in case (dget existing ''position'', dget existing ''resources'') of
           (JInt i, JList resources) \<Rightarrow>
             if \<not> py_eq (dget existing ''address'') (JDict (identity_doc a)) \<or> i < 0 \<or> int count \<le> i
             then bad else Inr (nat i, resources)
         | _ \<Rightarrow> bad)"

definition entry_doc :: "session_address \<Rightarrow> json list \<Rightarrow> nat \<Rightarrow> pydict" where
  "entry_doc a resources position =
     [(''address'', JDict (identity_doc a)), (''resources'', JList resources), (''position'', JInt (int position))]"

definition journal_head :: "string \<Rightarrow> pydict \<Rightarrow> pydict \<Rightarrow> pydict" where
  "journal_head h entry head =
     dput ''pending'' (JDict [(''hash'', JStr h), (''position'', JInt (int (head_count head))), (''entry'', JDict entry)])
       head"

text \<open>The rest of the callback of \<open>record\<close> once the head is recovered: for an address the index has, and
  for a new one, which goes through the journal.\<close>

definition index_update ::
  "'s session_store \<Rightarrow> string \<Rightarrow> string \<Rightarrow> session_address \<Rightarrow> pydict \<Rightarrow> pydict \<Rightarrow> pydict \<Rightarrow> ('s, unit) py" where
  "index_update S rt h a resource head e =
     act_bind (act_lift (entry_of a (head_count head) e)) (\<lambda>(position, resources).
     act_bind (page_ids S rt (position div PAGE_SIZE)) (\<lambda>ids.
       if length ids \<le> position mod PAGE_SIZE \<or> ids ! (position mod PAGE_SIZE) \<noteq> h
       then act_raise (ValueErr ''Unlinked harness address index entry.'')
       else if list_ex (\<lambda>r. py_eq r (JDict resource)) resources then act_return ()
       else ss_put S (entry_key rt h) (entry_doc a (resources @ [JDict resource]) position) None))"

definition index_append ::
  "address_index \<Rightarrow> 's session_store \<Rightarrow> string \<Rightarrow> string \<Rightarrow> session_address \<Rightarrow> pydict \<Rightarrow> pydict \<Rightarrow> ('s, unit) py" where
  "index_append ix S rt h a resource head =
     (if (case ix_max ix of None \<Rightarrow> False | Some m \<Rightarrow> m \<le> int (head_count head))
      then act_raise AddressLimitExceeded
      else (let entry = entry_doc a [JDict resource] (head_count head);
                prepared = journal_head h entry head
            in act_bind (ss_put S (head_key rt) prepared None) (\<lambda>_.
               act_bind (index_recover S rt prepared) (\<lambda>_. act_return ()))))"

text \<open>The callback of \<open>record\<close>.\<close>

definition index_write ::
  "address_index \<Rightarrow> 's session_store \<Rightarrow> string \<Rightarrow> session_address \<Rightarrow> pydict \<Rightarrow> ('s, unit) py" where
  "index_write ix S rt a resource =
     act_bind (read_head S rt) (\<lambda>head0.
     act_bind (index_recover S rt head0) (\<lambda>head.
       (let h = index_key (ix_sha256 ix) a
        in act_bind (ss_get S (entry_key rt h)) (\<lambda>existing.
             case existing of
               Some e \<Rightarrow> index_update S rt h a resource head e
             | None \<Rightarrow> index_append ix S rt h a resource head))))"

definition known_resource :: "string \<Rightarrow> string \<Rightarrow> bool" where
  "known_resource slot kind =
     (slot \<in> {''ephemeral'', ''durable''} \<and> kind \<in> {''state'', ''lock'', ''tasks'', ''thread''})"

definition index_record ::
  "address_index \<Rightarrow> 's session_store \<Rightarrow> session_address \<Rightarrow> string \<Rightarrow> string \<Rightarrow> string \<Rightarrow> ('s, unit) py" where
  "index_record ix S a slot kind key =
     (if \<not> known_resource slot kind then act_raise (ValueErr ''Unknown harness resource slot or kind.'')
      else (let rt = index_root (ix_sha256 ix) (ad_type a) (ad_id a)
            in with_lock S rt (index_write ix S rt a (resource_doc slot kind key)) (JInt 10) (JInt 5)))"

definition participant_root :: "address_index \<Rightarrow> participant option \<Rightarrow> string" where
  "participant_root ix p =
     index_root (ix_sha256 ix) (map_option participant_type p) (map_option (\<lambda>q. py_str (participant_id q)) p)"

definition index_recover_all :: "address_index \<Rightarrow> 's session_store \<Rightarrow> participant option \<Rightarrow> ('s, unit) py" where
  "index_recover_all ix S p =
     (let rt = participant_root ix p
      in with_lock S rt
           (act_bind (read_head S rt) (\<lambda>h. act_bind (index_recover S rt h) (\<lambda>_. act_return ())))
           (JInt 10) (JInt 5))"

subsection \<open>Pages\<close>

text \<open>The loop of \<open>page\<close> over the positions left; \<open>held\<close> is the page number and ids it keeps.\<close>

fun page_loop ::
  "'s session_store \<Rightarrow> string \<Rightarrow> (nat \<times> string list) option \<Rightarrow> pydict list \<Rightarrow> nat list \<Rightarrow> ('s, pydict list) py" where
  "page_loop S rt held entries [] = act_return entries"
| "page_loop S rt held entries (position # rest) =
     (let number = position div PAGE_SIZE; offset = position mod PAGE_SIZE
      in act_bind
           (case held of
              Some (k, ids) \<Rightarrow> if k = number then act_return ids else page_ids S rt number
            | None \<Rightarrow> page_ids S rt number) (\<lambda>ids.
         if length ids \<le> offset then act_raise (ValueErr ''Missing committed harness address page member.'')
         else act_bind (ss_get S (entry_key rt (ids ! offset))) (\<lambda>entry.
           case entry of
             None \<Rightarrow> act_raise (ValueErr ''Missing committed harness address index entry.'')
           | Some e \<Rightarrow>
               if \<not> py_eq (dget e ''position'') (JInt (int position))
               then act_raise (ValueErr ''Missing committed harness address index entry.'')
               else page_loop S rt (Some (number, ids))
                      (entries @ [foldl (\<lambda>d (k, v). dput k v d) [(''address_key'', JStr (ids ! offset))] e]) rest)))"

definition index_page ::
  "address_index \<Rightarrow> 's session_store \<Rightarrow> participant option \<Rightarrow> json \<Rightarrow> json
     \<Rightarrow> ('s, pydict list \<times> nat option) py" where
  "index_page ix S p cursor limit =
     (case (cursor, limit) of
        (JInt c, JInt l) \<Rightarrow>
          if c < 0 \<or> l < 1 \<or> 100 < l then act_raise (ValueErr ''Invalid address index page cursor or limit.'')
          else (let rt = participant_root ix p
                in act_bind (read_head S rt) (\<lambda>head.
                   if dget head ''pending'' \<noteq> JNull then act_raise IndexRecoveryRequired
                   else (let stop = min (nat c + nat l) (head_count head)
                         in act_bind (page_loop S rt None [] [nat c..<stop]) (\<lambda>entries.
                            act_return (entries, if stop < head_count head then Some stop else None)))))
      | _ \<Rightarrow> act_raise (ValueErr ''Invalid address index page cursor or limit.''))"

subsection \<open>The announcing store\<close>

text \<open>\<open>inner\<close> and the index's store \<open>IS\<close> share the state \<open>'s\<close>: both may write to it.\<close>

definition indexed_store ::
  "address_index \<Rightarrow> 's session_store \<Rightarrow> session_address \<Rightarrow> string \<Rightarrow> string \<Rightarrow> 's session_store \<Rightarrow> 's session_store" where
  "indexed_store ix IS a slot kind inner =
     inner\<lparr> ss_put := (\<lambda>key d ttl. act_bind (index_record ix IS a slot kind key) (\<lambda>_. ss_put inner key d ttl)),
            ss_acquire := (\<lambda>key ttl wait.
              act_bind (index_record ix IS a slot ''lock'' key) (\<lambda>_. ss_acquire inner key ttl wait)),
            ss_lock_scope := Some (case ss_lock_scope inner of None \<Rightarrow> ''unsupported'' | Some s \<Rightarrow> s),
            ss_sharing_scope := Some (case ss_sharing_scope inner of None \<Rightarrow> ''unsupported'' | Some s \<Rightarrow> s),
            ss_driver := ''IndexedSessionStore'' \<rparr>"

end
