(* ===== verification/Sessions.thy ===== *)
theory Sessions
  imports Tasks Threads AddressIndex
begin

section \<open>Sessions\<close>

text \<open>
  \<open>session.py\<close>. A \<open>session\<close> holds what a \<open>Session\<close> object holds for good: its participant and address,
  its stores as they are after wrapping, its mode of resolution. What changes while it is used is in
  \<open>live\<close>: the state cached by the object whose methods run (\<open>_cached_state\<close>), the state of the stores, and
  how often a clock or a random source was read. The methods work on any extension of \<open>live\<close>, so that
  the runtime runs them in its larger state. \<open>env\<close> holds the functions of the host: the digests of
  \<open>hashlib\<close>, and the readings of \<open>time.monotonic\<close>, of the UTC clock as ISO text and of \<open>uuid4\<close>, each a
  function of the number of readings so far.
\<close>

record env =
  ev_sha1 :: digest
  ev_sha256 :: digest
  ev_monotonic :: "nat \<Rightarrow> rat"
  ev_now :: "nat \<Rightarrow> string"
  ev_uuid :: "nat \<Rightarrow> string"

record 's live =
  lv_cached :: "pydict option"
  lv_store :: 's
  lv_reads :: nat

subsection \<open>Effects of a session\<close>

definition on_store :: "('s, 'a) py \<Rightarrow> (('s, 'z) live_scheme, 'a) py" where
  "on_store m w = (case m (lv_store w) of (r, t) \<Rightarrow> (r, w\<lparr>lv_store := t\<rparr>))"

definition read_env :: "(nat \<Rightarrow> 'a) \<Rightarrow> (('s, 'z) live_scheme, 'a) py" where
  "read_env f w = (Inr (f (lv_reads w)), w\<lparr>lv_reads := Suc (lv_reads w)\<rparr>)"

definition set_cached :: "pydict option \<Rightarrow> (('s, 'z) live_scheme, unit) py" where
  "set_cached d w = (Inr (), w\<lparr>lv_cached := d\<rparr>)"

definition get_cached :: "(('s, 'z) live_scheme, pydict option) py" where
  "get_cached w = (Inr (lv_cached w), w)"

text \<open>Run a method of another session object: its cache is its own.\<close>

definition in_session :: "pydict option \<Rightarrow> (('s, 'z) live_scheme, 'a) py \<Rightarrow> (('s, 'z) live_scheme, 'a) py" where
  "in_session cache m w =
     (case m (w\<lparr>lv_cached := cache\<rparr>) of (r, t) \<Rightarrow> (r, t\<lparr>lv_cached := lv_cached w\<rparr>))"

subsection \<open>The object\<close>

text \<open>The authorization actor: the participant itself, or an object of the host.\<close>

datatype actor = TheParticipant participant | HostActor nat

record 's session =
  se_participant :: participant
  se_scope :: string
  se_legacy :: bool
  se_address :: session_address
  se_actor :: actor
  se_index :: "(address_index \<times> 's session_store) option"
  se_raw_durable :: "'s session_store"
  se_ephemeral :: "'s session_store"
  se_durable :: "'s session_store"
  se_lock_store :: "'s session_store"
  se_ttl :: "pyfloat option"
  se_resolution_only :: bool
  se_resolved_mode :: "string option"

definition wrapped ::
  "(address_index \<times> 's session_store) option \<Rightarrow> session_address \<Rightarrow> string \<Rightarrow> string
     \<Rightarrow> 's session_store \<Rightarrow> 's session_store" where
  "wrapped index a slot kind inner =
     (case index of None \<Rightarrow> inner | Some (ix, IS) \<Rightarrow> indexed_store ix IS a slot kind inner)"

definition session_new ::
  "env \<Rightarrow> participant \<Rightarrow> string \<Rightarrow> 's session_store \<Rightarrow> 's session_store \<Rightarrow> pyfloat option \<Rightarrow> string option
     \<Rightarrow> actor option \<Rightarrow> (address_index \<times> 's session_store) option \<Rightarrow> json \<Rightarrow> 's session pyres" where
  "session_new E p scope ephemeral durable ttl agent actor index max_addresses =
     (if is_ref p \<and> actor = None
      then Inl (ValueErr ''Typed participants require an explicit authorization actor.'')
      else res_bind (session_address_new (Some p) scope agent) (\<lambda>a.
        res_bind
          (if index = None \<and> (agent \<noteq> None \<or> is_ref p)
           then res_bind (address_index_new (ev_sha256 E) durable max_addresses) (\<lambda>ix. Inr (Some (ix, durable)))
           else Inr index) (\<lambda>index.
        let eph = wrapped index a ''ephemeral'' ''state'' ephemeral;
            dur = wrapped index a ''durable'' ''state'' durable
        in res_bind
             (if index = None then Inr False
              else res_bind (store_lock_rank durable) (\<lambda>d.
                   res_bind (store_lock_rank ephemeral) (\<lambda>e. Inr (e < d)))) (\<lambda>stronger. Inr
           \<lparr> se_participant = p, se_scope = scope, se_legacy = (agent = None \<and> \<not> is_ref p),
             se_address = a, se_actor = (case actor of None \<Rightarrow> TheParticipant p | Some x \<Rightarrow> x),
             se_index = index, se_raw_durable = durable, se_ephemeral = eph, se_durable = dur,
             se_lock_store = (if stronger then dur else eph), se_ttl = ttl,
             se_resolution_only = False, se_resolved_mode = None \<rparr>))))"

definition se_agent :: "'s session \<Rightarrow> string option" where
  "se_agent se = ad_agent (se_address se)"

text \<open>\<open>session.address\<close>, \<open>session.scope\<close> and \<open>session.key()\<close>; the address of a legacy session follows its
  participant and scope, which its setters may replace.\<close>

definition current_address :: "'s session \<Rightarrow> session_address pyres" where
  "current_address se =
     (if se_legacy se then session_address_new (Some (se_participant se)) (se_scope se) None
      else Inr (se_address se))"

definition current_scope :: "'s session \<Rightarrow> string" where
  "current_scope se = (if se_legacy se then se_scope se else ad_scope (se_address se))"

definition set_participant :: "participant \<Rightarrow> 's session \<Rightarrow> 's session pyres" where
  "set_participant p se =
     (if \<not> se_legacy se \<or> is_ref p
      then Inl (AttributeErr ''Named and ParticipantRef session identity is immutable'')
      else Inr (se\<lparr>se_participant := p\<rparr>))"

definition set_scope :: "string \<Rightarrow> 's session \<Rightarrow> 's session pyres" where
  "set_scope scope se =
     (if \<not> se_legacy se
      then Inl (AttributeErr ''Named and ParticipantRef session identity is immutable'')
      else Inr (se\<lparr>se_scope := scope\<rparr>))"

definition current_key :: "env \<Rightarrow> 's session \<Rightarrow> string pyres" where
  "current_key E se = res_bind (current_address se) (session_key (ev_sha1 E) (ev_sha256 E))"

definition ephemeral_key :: "env \<Rightarrow> 's session \<Rightarrow> string pyres" where
  "ephemeral_key E se = res_bind (current_key E se) (\<lambda>k. Inr (k @ '':ephemeral''))"

definition durable_key :: "env \<Rightarrow> 's session \<Rightarrow> string pyres" where
  "durable_key E se = res_bind (current_key E se) (\<lambda>k. Inr (k @ '':durable''))"

definition assert_writable :: "'s session \<Rightarrow> unit pyres" where
  "assert_writable se =
     (if se_resolution_only se then Inl (ValueErr ''Harness tool resolution is read-only.'') else Inr ())"

subsection \<open>The ephemeral half\<close>

definition session_state :: "env \<Rightarrow> 's session \<Rightarrow> (('s, 'z) live_scheme, pydict) py" where
  "session_state E se =
     act_bind get_cached (\<lambda>cached. case cached of
        Some d \<Rightarrow> act_return d
      | None \<Rightarrow>
          act_bind (act_lift (ephemeral_key E se)) (\<lambda>k.
          act_bind (on_store (ss_get (se_ephemeral se) k)) (\<lambda>v.
            let d = (case v of None \<Rightarrow> [] | Some d \<Rightarrow> d)
            in act_bind (set_cached (Some d)) (\<lambda>_. act_return d))))"

definition read_str :: "env \<Rightarrow> 's session \<Rightarrow> string \<Rightarrow> (('s, 'z) live_scheme, string option) py" where
  "read_str E se key = act_bind (session_state E se) (\<lambda>d. act_return (as_str (dget d key)))"

text \<open>\<open>_write\<close>: nothing is cached unless the put returned.\<close>

definition session_write :: "env \<Rightarrow> 's session \<Rightarrow> string \<Rightarrow> json \<Rightarrow> (('s, 'z) live_scheme, unit) py" where
  "session_write E se key v =
     act_bind (act_lift (assert_writable se)) (\<lambda>_.
     act_bind (session_state E se) (\<lambda>d.
     act_bind (act_lift (ephemeral_key E se)) (\<lambda>k.
     act_bind (on_store (ss_put (se_ephemeral se) k (dput key v d) (se_ttl se))) (\<lambda>_.
       set_cached (Some (dput key v d))))))"

definition session_mode :: "env \<Rightarrow> 's session \<Rightarrow> (('s, 'z) live_scheme, string option) py" where
  "session_mode E se =
     (case se_resolved_mode se of Some m \<Rightarrow> act_return (Some m) | None \<Rightarrow> read_str E se ''mode'')"

definition using_mode :: "env \<Rightarrow> 's session \<Rightarrow> string \<Rightarrow> (('s, 'z) live_scheme, unit) py" where
  "using_mode E se mode = session_write E se ''mode'' (JStr mode)"

definition session_model :: "env \<Rightarrow> 's session \<Rightarrow> (('s, 'z) live_scheme, string option) py" where
  "session_model E se = read_str E se ''model''"

definition using_model :: "env \<Rightarrow> 's session \<Rightarrow> string \<Rightarrow> (('s, 'z) live_scheme, unit) py" where
  "using_model E se model = session_write E se ''model'' (JStr model)"

definition session_provider :: "env \<Rightarrow> 's session \<Rightarrow> (('s, 'z) live_scheme, string option) py" where
  "session_provider E se = read_str E se ''provider''"

definition using_provider :: "env \<Rightarrow> 's session \<Rightarrow> string \<Rightarrow> (('s, 'z) live_scheme, unit) py" where
  "using_provider E se provider = session_write E se ''provider'' (JStr provider)"

definition session_forget :: "env \<Rightarrow> 's session \<Rightarrow> (('s, 'z) live_scheme, unit) py" where
  "session_forget E se =
     act_bind (act_lift (assert_writable se)) (\<lambda>_.
     act_bind (act_lift (ephemeral_key E se)) (\<lambda>k.
     act_bind (on_store (ss_forget (se_ephemeral se) k)) (\<lambda>_. set_cached None)))"

subsection \<open>The durable half\<close>

text \<open>A thread or a task list of the session: the store to use and the key.\<close>

definition session_thread :: "env \<Rightarrow> 's session \<Rightarrow> ('s session_store \<times> string) pyres" where
  "session_thread E se =
     res_bind (assert_writable se) (\<lambda>_.
     res_bind (if se_index se = None then Inr (se_durable se)
               else res_bind (current_address se) (\<lambda>a.
                    Inr (wrapped (se_index se) a ''durable'' ''thread'' (se_raw_durable se)))) (\<lambda>S.
     res_bind (current_key E se) (\<lambda>k. Inr (S, k @ '':thread''))))"

definition find_thread :: "env \<Rightarrow> 's session \<Rightarrow> (('s, 'z) live_scheme, ('s session_store \<times> string) option) py" where
  "find_thread E se =
     act_bind (act_lift (session_thread E se)) (\<lambda>(S, k).
     act_bind (on_store (thread_exists S k)) (\<lambda>there. act_return (if there then Some (S, k) else None)))"

definition session_tasks :: "env \<Rightarrow> 's session \<Rightarrow> json \<Rightarrow> ('s session_store \<times> task_source) pyres" where
  "session_tasks E se lease_seconds =
     res_bind (assert_writable se) (\<lambda>_.
     res_bind (if se_index se = None then Inr (se_durable se)
               else res_bind (current_address se) (\<lambda>a.
                    Inr (wrapped (se_index se) a ''durable'' ''tasks'' (se_raw_durable se)))) (\<lambda>S.
     res_bind (current_key E se) (\<lambda>k.
     res_bind (task_source_new S (k @ '':tasks'') lease_seconds (JInt 5)) (\<lambda>src. Inr (S, src)))))"

definition capabilities_of :: "pydict \<Rightarrow> pydict" where
  "capabilities_of stored = (case dget stored ''capabilities'' of JDict d \<Rightarrow> d | _ \<Rightarrow> [])"

definition session_capability :: "env \<Rightarrow> 's session \<Rightarrow> string \<Rightarrow> (('s, 'z) live_scheme, pydict option) py" where
  "session_capability E se name =
     act_bind (act_lift (durable_key E se)) (\<lambda>k.
     act_bind (on_store (ss_get (se_durable se) k)) (\<lambda>v.
       act_return (as_dict (dget (capabilities_of (case v of None \<Rightarrow> [] | Some d \<Rightarrow> d)) name))))"

definition write_capabilities :: "env \<Rightarrow> 's session \<Rightarrow> (pydict \<Rightarrow> pydict) \<Rightarrow> (('s, 'z) live_scheme, unit) py" where
  "write_capabilities E se mutate =
     act_bind (act_lift (assert_writable se)) (\<lambda>_.
     act_bind (act_lift (durable_key E se)) (\<lambda>k.
     act_bind (on_store (ss_get (se_durable se) k)) (\<lambda>v.
       let stored = (case v of None \<Rightarrow> [] | Some d \<Rightarrow> d)
       in on_store (ss_put (se_durable se) k
            (dput ''capabilities'' (JDict (mutate (capabilities_of stored))) stored) None))))"

definition using_capability :: "env \<Rightarrow> 's session \<Rightarrow> string \<Rightarrow> pydict \<Rightarrow> (('s, 'z) live_scheme, unit) py" where
  "using_capability E se name state = write_capabilities E se (dput name (JDict state))"

definition forget_capability :: "env \<Rightarrow> 's session \<Rightarrow> string \<Rightarrow> (('s, 'z) live_scheme, unit) py" where
  "forget_capability E se name = write_capabilities E se (filter (\<lambda>kv. fst kv \<noteq> name))"

subsection \<open>Runs\<close>

definition run_of :: "pydict \<Rightarrow> pydict option" where
  "run_of state =
     (case dget state ''run'' of
        JDict r \<Rightarrow> if as_str (dget r ''id'') \<noteq> None then Some r else None
      | _ \<Rightarrow> None)"

definition session_run :: "env \<Rightarrow> 's session \<Rightarrow> (('s, 'z) live_scheme, pydict option) py" where
  "session_run E se = act_bind (session_state E se) (\<lambda>d. act_return (run_of d))"

definition begin_run ::
  "env \<Rightarrow> 's session \<Rightarrow> string \<Rightarrow> string \<Rightarrow> string \<Rightarrow> string \<Rightarrow> (('s, 'z) live_scheme, unit) py" where
  "begin_run E se run_id mode provider model =
     act_bind (read_env (ev_now E)) (\<lambda>started.
       session_write E se ''run''
         (JDict [(''id'', JStr run_id), (''status'', JStr ''running''), (''mode'', JStr mode),
                 (''provider'', JStr provider), (''model'', JStr model), (''started_at'', JStr started)]))"

text \<open>\<open>{**(current or {"id": run_id}), ...}\<close>\<close>

definition finished_run :: "pydict option \<Rightarrow> string \<Rightarrow> string \<Rightarrow> string \<Rightarrow> pydict \<Rightarrow> pydict" where
  "finished_run current run_id status finished extra =
     foldl (\<lambda>d (k, v). dput k v d)
       (case current of None \<Rightarrow> [(''id'', JStr run_id)] | Some r \<Rightarrow> r)
       ([(''id'', JStr run_id), (''status'', JStr status), (''finished_at'', JStr finished)] @ extra)"

definition finish_run ::
  "env \<Rightarrow> 's session \<Rightarrow> string \<Rightarrow> string \<Rightarrow> pydict \<Rightarrow> (('s, 'z) live_scheme, unit) py" where
  "finish_run E se run_id status extra =
     act_bind (session_run E se) (\<lambda>current.
       if (case current of None \<Rightarrow> False | Some r \<Rightarrow> dget r ''id'' \<noteq> JStr run_id) then act_return ()
       else act_bind (read_env (ev_now E)) (\<lambda>finished.
              session_write E se ''run'' (JDict (finished_run current run_id status finished extra))))"

definition complete_run ::
  "env \<Rightarrow> 's session \<Rightarrow> string \<Rightarrow> string \<Rightarrow> string list \<Rightarrow> (('s, 'z) live_scheme, unit) py" where
  "complete_run E se run_id finish_reason tool_calls =
     finish_run E se run_id ''completed''
       [(''finish_reason'', JStr finish_reason), (''tool_calls'', JList (map JStr tool_calls))]"

definition fail_run :: "env \<Rightarrow> 's session \<Rightarrow> string \<Rightarrow> string \<Rightarrow> (('s, 'z) live_scheme, unit) py" where
  "fail_run E se run_id failure = finish_run E se run_id ''failed'' [(''failure'', JStr failure)]"

subsection \<open>Locking and read-only resolution\<close>

definition session_lock ::
  "env \<Rightarrow> 's session \<Rightarrow> (('s, 'z) live_scheme, 'a) py \<Rightarrow> json \<Rightarrow> json \<Rightarrow> (('s, 'z) live_scheme, 'a) py" where
  "session_lock E se callback ttl wait =
     act_bind (act_lift (assert_writable se)) (\<lambda>_.
     act_bind (act_lift (current_key E se)) (\<lambda>k.
     act_bind (on_store (ss_acquire (se_lock_store se) k ttl wait)) (\<lambda>_.
       act_finally (act_bind (set_cached None) (\<lambda>_. callback)) (on_store (ss_release (se_lock_store se) k)))))"

text \<open>\<open>resolve_read_only\<close>: the callback runs on a copy of the session that refuses every write and has its
  own cache; afterwards the copy may write again (\<open>writable_view\<close>).\<close>

definition read_only_view :: "string \<Rightarrow> 's session \<Rightarrow> 's session" where
  "read_only_view mode se = se\<lparr>se_resolution_only := True, se_resolved_mode := Some mode\<rparr>"

definition writable_view :: "'s session \<Rightarrow> 's session" where
  "writable_view view = view\<lparr>se_resolution_only := False\<rparr>"

definition resolve_read_only ::
  "'s session \<Rightarrow> string \<Rightarrow> ('s session \<Rightarrow> (('s, 'z) live_scheme, 'a) py) \<Rightarrow> (('s, 'z) live_scheme, 'a) py" where
  "resolve_read_only se mode resolve = in_session None (resolve (read_only_view mode se))"

end
