(* ===== verification/Tools.thy ===== *)
theory Tools
  imports Sessions "HOL-Library.List_Lexorder" "HOL-Library.Char_ord"
begin

section \<open>Tools: registration, resolution, authorization\<close>

text \<open>
  \<open>registration.py\<close> and \<open>tools.py\<close>. A tool is any object with a name and a handler; a factory, a provider
  and a policy are functions of the host. All of them run in the state \<open>'w\<close> of their caller, may change
  it and may raise. \<open>registry\<close> is one \<open>ToolRegistry\<close>; \<open>registries\<close> is a root with the registries of its
  agents. The order of tools and factories never shows, since names are sorted; providers are asked in
  the order of their first registration, which the association list keeps.
\<close>

record 'w tool =
  tl_name :: string
  tl_handle :: "pydict \<Rightarrow> ('w, json) py"

type_synonym ('s, 'w) tool_factory = "'s session \<Rightarrow> ('w, 'w tool) py"
type_synonym ('s, 'w) tool_provider = "'s session \<Rightarrow> ('w, 'w tool list) py"
type_synonym ('s, 'w) offer_policy = "'s session \<Rightarrow> 'w tool \<Rightarrow> ('w, bool) py"
type_synonym ('s, 'w) call_policy = "'s session \<Rightarrow> 'w tool \<Rightarrow> pydict \<Rightarrow> ('w, bool) py"

subsection \<open>Owners\<close>

definition control_char :: "char \<Rightarrow> bool" where
  "control_char c = (byte_of c < 32 \<or> byte_of c = 127)"

definition owner_ok :: "string \<Rightarrow> bool" where
  "owner_ok label = (label \<noteq> [] \<and> length label \<le> 128 \<and> \<not> list_ex control_char label)"

definition registration_owner :: "string option \<Rightarrow> string option \<Rightarrow> string pyres" where
  "registration_owner owner agent =
     (let bad = Inl (ValueErr (''A named registration requires a non-empty UTF-8 owner label of at most 128 bytes ''
                  @ ''without control characters.''))
      in case (case owner of Some x \<Rightarrow> Some x | None \<Rightarrow> if agent = None then Some ''legacy'' else None) of
           None \<Rightarrow> bad
         | Some label \<Rightarrow> if owner_ok label then Inr label else bad)"

definition collision :: "string option \<Rightarrow> string \<Rightarrow> string \<Rightarrow> string \<Rightarrow> exn" where
  "collision agent name previous incoming = RegistrationCollision
     (''Harness registry collision: agent ['' @ (case agent of None \<Rightarrow> ''legacy'' | Some a \<Rightarrow> a) @ ''], name ['' @ name
      @ ''], owners ['' @ previous @ ''] and ['' @ incoming @ '']. Use replace naming predecessor owner [''
      @ previous @ ''].'')"

subsection \<open>One registry\<close>

record ('s, 'w) registry =
  tr_agent :: "string option"
  tr_refuse_duplicates :: bool
  tr_tools :: "(string \<times> 'w tool) list"
  tr_factories :: "(string \<times> ('s, 'w) tool_factory) list"
  tr_metadata :: "(string \<times> string \<times> string) list"
  tr_static_owners :: "(string \<times> string) list"
  tr_factory_owners :: "(string \<times> string) list"
  tr_providers :: "(string \<times> ('s, 'w) tool_provider \<times> string) list"

definition registry_new :: "string option \<Rightarrow> bool \<Rightarrow> ('s, 'w) registry pyres" where
  "registry_new agent refuse =
     res_bind (validate_agent agent) (\<lambda>_. Inr
       \<lparr> tr_agent = agent, tr_refuse_duplicates = refuse, tr_tools = [], tr_factories = [], tr_metadata = [],
         tr_static_owners = [], tr_factory_owners = [], tr_providers = [] \<rparr>)"

definition strict :: "('s, 'w) registry \<Rightarrow> bool" where
  "strict R = (tr_agent R \<noteq> None \<or> tr_refuse_duplicates R)"

definition replacement_error :: exn where
  "replacement_error = ValueErr ''Replacement must name the registered predecessor owner.''"

definition claim_name ::
  "string \<Rightarrow> string option \<Rightarrow> string \<Rightarrow> string option \<Rightarrow> ('s, 'w) registry \<Rightarrow> ('s, 'w) registry pyres" where
  "claim_name name owner source predecessor R =
     res_bind (registration_owner owner (tr_agent R)) (\<lambda>label.
       let previous = map_of (tr_metadata R) name;
           cleared = R\<lparr>tr_tools := AList.delete name (tr_tools R), tr_factories := AList.delete name (tr_factories R),
                       tr_static_owners := AList.delete name (tr_static_owners R),
                       tr_factory_owners := AList.delete name (tr_factory_owners R)\<rparr>;
           marked = (\<lambda>R'. R'\<lparr>tr_metadata := AList.update name (label, source) (tr_metadata R')\<rparr>)
       in case predecessor of
            Some old \<Rightarrow>
              (if map_option fst previous \<noteq> Some old then Inl replacement_error else Inr (marked cleared))
          | None \<Rightarrow>
              (case previous of
                 Some (p, _) \<Rightarrow> if strict R then Inl (collision (tr_agent R) name p label) else Inr (marked R)
               | None \<Rightarrow> Inr (marked (if strict R then cleared else R))))"

text \<open>\<open>register\<close> and \<open>replace\<close>, which differ in the predecessor they name; likewise for factories.\<close>

definition put_tool ::
  "'w tool \<Rightarrow> string option \<Rightarrow> string option \<Rightarrow> ('s, 'w) registry \<Rightarrow> ('s, 'w) registry pyres" where
  "put_tool t owner predecessor R =
     res_bind (claim_name (tl_name t) owner ''static'' predecessor R) (\<lambda>R.
     res_bind (registration_owner owner (tr_agent R)) (\<lambda>label. Inr
       (R\<lparr>tr_tools := AList.update (tl_name t) t (tr_tools R),
          tr_static_owners := AList.update (tl_name t) label (tr_static_owners R)\<rparr>)))"

definition put_factory ::
  "string \<Rightarrow> ('s, 'w) tool_factory \<Rightarrow> string option \<Rightarrow> string option \<Rightarrow> ('s, 'w) registry
     \<Rightarrow> ('s, 'w) registry pyres" where
  "put_factory name factory owner predecessor R =
     res_bind (claim_name name owner ''factory'' predecessor R) (\<lambda>R.
     res_bind (registration_owner owner (tr_agent R)) (\<lambda>label. Inr
       (R\<lparr>tr_factories := AList.update name factory (tr_factories R),
          tr_factory_owners := AList.update name label (tr_factory_owners R)\<rparr>)))"

definition register :: "'w tool \<Rightarrow> string option \<Rightarrow> ('s, 'w) registry \<Rightarrow> ('s, 'w) registry pyres" where
  "register t owner R = put_tool t owner None R"

definition replace :: "'w tool \<Rightarrow> string \<Rightarrow> string option \<Rightarrow> ('s, 'w) registry \<Rightarrow> ('s, 'w) registry pyres" where
  "replace t predecessor_owner owner R = put_tool t owner (Some predecessor_owner) R"

definition register_factory ::
  "string \<Rightarrow> ('s, 'w) tool_factory \<Rightarrow> string option \<Rightarrow> ('s, 'w) registry \<Rightarrow> ('s, 'w) registry pyres" where
  "register_factory name factory owner R = put_factory name factory owner None R"

definition replace_factory ::
  "string \<Rightarrow> ('s, 'w) tool_factory \<Rightarrow> string \<Rightarrow> string option \<Rightarrow> ('s, 'w) registry \<Rightarrow> ('s, 'w) registry pyres" where
  "replace_factory name factory predecessor_owner owner R = put_factory name factory owner (Some predecessor_owner) R"

text \<open>\<open>register_many\<close>: what was registered before a refusal stays, so the registry is part of the answer.\<close>

fun register_many ::
  "'w tool list \<Rightarrow> string option \<Rightarrow> ('s, 'w) registry \<Rightarrow> unit pyres \<times> ('s, 'w) registry" where
  "register_many [] owner R = (Inr (), R)"
| "register_many (t # ts) owner R =
     (case register t owner R of Inl e \<Rightarrow> (Inl e, R) | Inr R' \<Rightarrow> register_many ts owner R')"

definition register_provider ::
  "('s, 'w) tool_provider \<Rightarrow> string option \<Rightarrow> string option \<Rightarrow> ('s, 'w) registry \<Rightarrow> ('s, 'w) registry pyres" where
  "register_provider provider owner name R =
     res_bind (registration_owner owner (tr_agent R)) (\<lambda>label.
       let i = (case name of
                  Some n \<Rightarrow> n
                | None \<Rightarrow> if tr_agent R = None then ''provider:'' @ show_nat (length (tr_providers R)) else [])
       in if i = [] then Inl (ValueErr ''A named provider requires a registration name.'')
          else case map_of (tr_providers R) i of
                 Some (_, p) \<Rightarrow>
                   if strict R then Inl (collision (tr_agent R) i p label)
                   else Inr (R\<lparr>tr_providers := AList.update i (provider, label) (tr_providers R)\<rparr>)
               | None \<Rightarrow> Inr (R\<lparr>tr_providers := AList.update i (provider, label) (tr_providers R)\<rparr>))"

definition replace_provider ::
  "string \<Rightarrow> ('s, 'w) tool_provider \<Rightarrow> string \<Rightarrow> string option \<Rightarrow> ('s, 'w) registry \<Rightarrow> ('s, 'w) registry pyres" where
  "replace_provider name provider predecessor_owner owner R =
     res_bind (registration_owner owner (tr_agent R)) (\<lambda>label.
       if map_option snd (map_of (tr_providers R) name) \<noteq> Some predecessor_owner then Inl replacement_error
       else Inr (R\<lparr>tr_providers := AList.update name (provider, label) (tr_providers R)\<rparr>))"

definition sorted_names :: "string list \<Rightarrow> string list" where
  "sorted_names xs = sort (remdups xs)"

definition registry_names :: "('s, 'w) registry \<Rightarrow> string list" where
  "registry_names R = sorted_names (map fst (tr_tools R) @ map fst (tr_factories R))"

subsection \<open>Resolution\<close>

record 'w resolved_tool =
  rt_tool :: "'w tool"
  rt_owner :: string
  rt_source :: string

type_synonym 'w provided = "(string \<times> 'w tool) list \<times> (string \<times> string \<times> string) list"

text \<open>The tools of one provider, recorded with their owner.\<close>

fun take_provided ::
  "('s, 'w) registry \<Rightarrow> string \<Rightarrow> 'w tool list \<Rightarrow> 'w provided \<Rightarrow> 'w provided pyres" where
  "take_provided R owner [] acc = Inr acc"
| "take_provided R owner (t # ts) (provided, metadata) =
     (case map_of metadata (tl_name t) of
        Some (p, _) \<Rightarrow>
          if strict R then Inl (collision (tr_agent R) (tl_name t) p owner)
          else take_provided R owner ts
                 (AList.update (tl_name t) t provided, AList.update (tl_name t) (owner, ''provider'') metadata)
      | None \<Rightarrow> take_provided R owner ts
                 (AList.update (tl_name t) t provided, AList.update (tl_name t) (owner, ''provider'') metadata))"

fun ask_providers ::
  "('s, 'w) registry \<Rightarrow> 's session \<Rightarrow> (string \<times> ('s, 'w) tool_provider \<times> string) list \<Rightarrow> 'w provided
     \<Rightarrow> ('w, 'w provided) py" where
  "ask_providers R se [] acc = act_return acc"
| "ask_providers R se ((_, provider, owner) # ps) acc =
     act_bind (provider se) (\<lambda>ts.
     act_bind (act_lift (take_provided R owner ts acc)) (ask_providers R se ps))"

text \<open>The loop over the selected names. A static tool or a provided one is there; a factory builds one.\<close>

definition rename_metadata ::
  "string \<Rightarrow> string \<Rightarrow> (string \<times> string \<times> string) list \<Rightarrow> (string \<times> string \<times> string) list pyres" where
  "rename_metadata name built metadata =
     (case map_of metadata name of None \<Rightarrow> Inl (KeyErr name) | Some m \<Rightarrow> Inr (AList.update built m metadata))"

fun resolve_names ::
  "('s, 'w) registry \<Rightarrow> 's session option \<Rightarrow> string list \<Rightarrow> (string \<times> 'w tool) list
     \<Rightarrow> (string \<times> string \<times> string) list \<Rightarrow> string list \<Rightarrow> (string \<times> 'w resolved_tool) list
     \<Rightarrow> ('w, (string \<times> 'w resolved_tool) list) py" where
  "resolve_names R se available provided metadata [] acc = act_return acc"
| "resolve_names R se available provided metadata (name # names) acc =
     (case map_of (tr_tools R) name of
        Some t \<Rightarrow>
          (case map_of (tr_static_owners R) name of
             None \<Rightarrow> act_raise (KeyErr name)
           | Some owner \<Rightarrow> resolve_names R se available provided metadata names
               (AList.update name \<lparr>rt_tool = t, rt_owner = owner, rt_source = ''static''\<rparr> acc))
      | None \<Rightarrow>
     (case map_of provided name of
        Some t \<Rightarrow>
          (case map_of metadata name of
             None \<Rightarrow> act_raise (KeyErr name)
           | Some (owner, source) \<Rightarrow> resolve_names R se available provided metadata names
               (AList.update name \<lparr>rt_tool = t, rt_owner = owner, rt_source = source\<rparr> acc))
      | None \<Rightarrow>
     (case map_of (tr_factories R) name of
        None \<Rightarrow> act_raise (tool_not_available name available)
      | Some factory \<Rightarrow>
     (case se of
        None \<Rightarrow> act_raise (tool_not_available (name @ '' (needs a session to build)'') available)
      | Some s \<Rightarrow>
          act_bind (factory s) (\<lambda>built.
            if strict R \<and> tl_name built \<noteq> name
            then act_raise (ValueErr (''Session-bound tool factory ['' @ name @ ''] returned ['' @ tl_name built @ ''].''))
            else act_bind (act_lift (if tl_name built = name then Inr metadata else rename_metadata name (tl_name built) metadata))
                   (\<lambda>metadata. case map_of (tr_factory_owners R) name of
                      None \<Rightarrow> act_raise (KeyErr name)
                    | Some owner \<Rightarrow> resolve_names R se available provided metadata names
                        (AList.update name \<lparr>rt_tool = built, rt_owner = owner, rt_source = ''factory''\<rparr> acc)))))))"

text \<open>\<open>resolve_detailed\<close> of a registry whose agent is the session's, or without a session.\<close>

definition resolve_here ::
  "('s, 'w) registry \<Rightarrow> string list \<Rightarrow> 's session option \<Rightarrow> ('w, (string \<times> 'w resolved_tool) list) py" where
  "resolve_here R names se =
     act_bind (case se of
                 None \<Rightarrow> act_return ([], tr_metadata R)
               | Some s \<Rightarrow> ask_providers R s (tr_providers R) ([], tr_metadata R)) (\<lambda>(provided, metadata).
       let available = sorted_names (map fst (tr_tools R) @ map fst (tr_factories R) @ map fst provided)
       in resolve_names R se available provided metadata
            (if ''*'' \<in> set names then available else names) [])"

subsection \<open>The registries of a root\<close>

record ('s, 'w) registries =
  rs_root :: "('s, 'w) registry"
  rs_agents :: "string \<rightharpoonup> ('s, 'w) registry"

text \<open>\<open>for_agent\<close>: the registry of an agent is made on first use, with the root's rule for duplicates.\<close>

definition registry_for :: "string option \<Rightarrow> ('s, 'w) registries \<Rightarrow> ('s, 'w) registry pyres" where
  "registry_for agent Rs =
     res_bind (validate_agent agent) (\<lambda>_.
       case agent of
         None \<Rightarrow> Inr (rs_root Rs)
       | Some a \<Rightarrow> (case rs_agents Rs a of
                     Some R \<Rightarrow> Inr R
                   | None \<Rightarrow> registry_new (Some a) (tr_refuse_duplicates (rs_root Rs))))"

text \<open>One call on the registry of an agent.\<close>

definition in_registry ::
  "string option \<Rightarrow> (('s, 'w) registry \<Rightarrow> ('s, 'w) registry pyres) \<Rightarrow> ('s, 'w) registries \<Rightarrow> ('s, 'w) registries pyres" where
  "in_registry agent f Rs =
     res_bind (registry_for agent Rs) (\<lambda>R. res_bind (f R) (\<lambda>R'. Inr
       (case agent of None \<Rightarrow> Rs\<lparr>rs_root := R'\<rparr> | Some a \<Rightarrow> Rs\<lparr>rs_agents := (rs_agents Rs)(a \<mapsto> R')\<rparr>)))"

definition resolve_detailed ::
  "('s, 'w) registries \<Rightarrow> string option \<Rightarrow> string list \<Rightarrow> 's session option
     \<Rightarrow> ('w, (string \<times> 'w resolved_tool) list) py" where
  "resolve_detailed Rs agent names se =
     act_bind (act_lift (registry_for agent Rs)) (\<lambda>R.
       case se of
         None \<Rightarrow> resolve_here R names None
       | Some s \<Rightarrow>
           if se_agent s = agent then resolve_here R names se
           else if agent \<noteq> None then act_raise (ValueErr ''Harness registry/session agent mismatch.'')
           else act_bind (act_lift (registry_for (se_agent s) Rs)) (\<lambda>R'. resolve_here R' names se))"

definition resolve_tools ::
  "('s, 'w) registries \<Rightarrow> string option \<Rightarrow> string list \<Rightarrow> 's session option \<Rightarrow> ('w, (string \<times> 'w tool) list) py" where
  "resolve_tools Rs agent names se =
     act_bind (resolve_detailed Rs agent names se) (\<lambda>rs. act_return (map (\<lambda>(n, r). (n, rt_tool r)) rs))"

subsection \<open>Authorization\<close>

text \<open>The options of an agent: absent, or given; a policy that is given may be null.\<close>

record ('s, 'w) auth_options =
  ao_enabled :: "json option"
  ao_offer :: "('s, 'w) offer_policy option option"
  ao_call :: "('s, 'w) call_policy option option"

record ('s, 'w) authorizer =
  au_enabled :: bool
  au_offer :: "('s, 'w) offer_policy option"
  au_call :: "('s, 'w) call_policy option"
  au_agent :: "string option"
  au_agents :: "(string \<times> ('s, 'w) auth_options) list"

definition authorizer_new ::
  "bool \<Rightarrow> ('s, 'w) offer_policy option \<Rightarrow> ('s, 'w) call_policy option \<Rightarrow> (string \<times> ('s, 'w) auth_options) list
     \<Rightarrow> string option \<Rightarrow> ('s, 'w) authorizer pyres" where
  "authorizer_new enabled offer call agents agent =
     res_bind (validate_agent agent) (\<lambda>_.
     res_bind (res_map (\<lambda>(a, _). validate_agent (Some a)) agents) (\<lambda>_.
       if \<not> enabled \<and> (offer \<noteq> None \<or> call \<noteq> None) then Inl policy_defined_but_disabled
       else Inr \<lparr> au_enabled = enabled, au_offer = offer, au_call = call, au_agent = agent, au_agents = agents \<rparr>))"

definition authorizer_for :: "string option \<Rightarrow> ('s, 'w) authorizer \<Rightarrow> ('s, 'w) authorizer pyres" where
  "authorizer_for agent A =
     res_bind (validate_agent agent) (\<lambda>_.
       case agent of
         None \<Rightarrow> Inr A
       | Some a \<Rightarrow>
           (let options = (case map_of (au_agents A) a of
                  None \<Rightarrow> \<lparr>ao_enabled = None, ao_offer = None, ao_call = None\<rparr> | Some x \<Rightarrow> x);
                offer = (case ao_offer options of None \<Rightarrow> au_offer A | Some p \<Rightarrow> p);
                call = (case ao_call options of None \<Rightarrow> au_call A | Some p \<Rightarrow> p)
            in case (case ao_enabled options of None \<Rightarrow> JBool (au_enabled A) | Some v \<Rightarrow> v) of
                 JBool enabled \<Rightarrow> authorizer_new enabled offer call [] (Some a)
               | _ \<Rightarrow> Inl (TypeErr ''Malformed agent tool authorization options.'')))"

text \<open>The authorizer that answers for a session: the one of its agent, reached from the root only.\<close>

definition authorizer_of :: "('s, 'w) authorizer \<Rightarrow> 's session \<Rightarrow> ('s, 'w) authorizer pyres" where
  "authorizer_of A se =
     (if se_agent se = au_agent A then Inr A
      else if au_agent A \<noteq> None then Inl (ValueErr ''Harness authorizer/session agent mismatch.'')
      else authorizer_for (se_agent se) A)"

definition allows_call ::
  "('s, 'w) authorizer \<Rightarrow> 's session \<Rightarrow> 'w tool \<Rightarrow> pydict \<Rightarrow> ('w, bool) py" where
  "allows_call A se t args =
     act_bind (act_lift (authorizer_of A se)) (\<lambda>A.
       case au_call A of
         None \<Rightarrow> act_return True
       | Some policy \<Rightarrow> if \<not> au_enabled A then act_return True else policy se t args)"

definition authorized_tool :: "('s, 'w) authorizer \<Rightarrow> 's session \<Rightarrow> 'w tool \<Rightarrow> 'w tool" where
  "authorized_tool A se t =
     \<lparr> tl_name = tl_name t,
       tl_handle = (\<lambda>args. act_bind (allows_call A se t args) (\<lambda>ok.
          if \<not> ok then act_raise (call_not_authorized (tl_name t)) else tl_handle t args)) \<rparr>"

fun offer_loop ::
  "('s, 'w) authorizer \<Rightarrow> 's session \<Rightarrow> 's session \<Rightarrow> 'w tool list \<Rightarrow> ('w, 'w tool list) py" where
  "offer_loop A se caller [] = act_return []"
| "offer_loop A se caller (t # ts) =
     act_bind (case au_offer A of None \<Rightarrow> act_return True | Some policy \<Rightarrow> policy se t) (\<lambda>ok.
     act_bind (offer_loop A se caller ts) (\<lambda>rest.
       act_return (if ok then authorized_tool A caller t # rest else rest)))"

text \<open>\<open>allowed\<close>: the policy is asked about \<open>se\<close>; a tool that is handed out asks about \<open>caller\<close> later, which is
  the same object, by then writable again.\<close>

definition allowed_tools ::
  "('s, 'w) authorizer \<Rightarrow> 's session \<Rightarrow> 's session \<Rightarrow> (string \<times> 'w tool) list \<Rightarrow> ('w, 'w tool list) py" where
  "allowed_tools A se caller tools =
     act_bind (act_lift (authorizer_of A se)) (\<lambda>A.
       if \<not> au_enabled A then act_return (map snd tools) else offer_loop A se caller (map snd tools))"

end
