(* ===== verification/Modes.thy ===== *)
theory Modes
  imports Budgets Tools
begin

section \<open>Modes\<close>

text \<open>
  \<open>modes.py\<close>. A \<open>mode_registry\<close> is a \<open>ModeRegistry\<close>: its configuration (a JSON object) and the owner of each
  mode; \<open>mode_registries\<close> is a root with the registries of its agents. \<open>resolve_mode\<close> is \<open>resolve\<close>: every
  part of a mode is checked when the mode is resolved, its subagents included.
\<close>

record agent_mode =
  am_name :: string
  am_system_prompt :: string
  am_tools :: "string list"
  am_skills :: "string list"
  am_max_steps :: int
  am_subagents :: "(string \<times> subagent) list"
  am_requires_approval :: "string list"
  am_provider_options :: pydict

definition needs_approval :: "agent_mode \<Rightarrow> string \<Rightarrow> bool" where
  "needs_approval m tool = (''*'' \<in> set (am_requires_approval m) \<or> tool \<in> set (am_requires_approval m))"

record mode_registry =
  mr_agent :: "string option"
  mr_refuse_duplicates :: bool
  mr_config :: pydict
  mr_owners :: "(string \<times> string) list"

definition modes_dict :: "pydict \<Rightarrow> pydict option" where
  "modes_dict config = as_dict (dget config ''modes'')"

definition mode_names :: "pydict \<Rightarrow> string list" where
  "mode_names config = (case modes_dict config of None \<Rightarrow> [] | Some modes \<Rightarrow> map fst modes)"

definition default_mode :: "pydict \<Rightarrow> string" where
  "default_mode config =
     (case dget config ''default'' of JStr s \<Rightarrow> if s = [] then ''chat'' else s | _ \<Rightarrow> ''chat'')"

text \<open>\<open>registration_owner\<close> of a value from the configuration.\<close>

definition config_owner :: "json \<Rightarrow> string option \<Rightarrow> string pyres" where
  "config_owner v agent =
     (case v of
        JNull \<Rightarrow> registration_owner None agent
      | JStr s \<Rightarrow> registration_owner (Some s) agent
      | _ \<Rightarrow> registration_owner (Some []) agent)"

definition mode_registry_new :: "pydict \<Rightarrow> string option \<Rightarrow> bool \<Rightarrow> mode_registry pyres" where
  "mode_registry_new config agent refuse =
     res_bind (validate_agent agent) (\<lambda>_.
     res_bind (res_map (\<lambda>name. res_bind (config_owner (dget config ''owner'') agent) (\<lambda>o'. Inr (name, o')))
                (mode_names config)) (\<lambda>owners. Inr
       \<lparr> mr_agent = agent, mr_refuse_duplicates = refuse, mr_config = config, mr_owners = owners \<rparr>))"

record mode_registries =
  ms_root :: mode_registry
  ms_agents :: "string \<rightharpoonup> mode_registry"

definition agent_config :: "pydict \<Rightarrow> string \<Rightarrow> pydict pyres" where
  "agent_config config agent =
     (let bad = Inl (ValueErr ''Agent modes must be configured as a mapping.'')
      in case (case map_of config ''agents'' of None \<Rightarrow> JDict [] | Some v \<Rightarrow> v) of
           JDict agents \<Rightarrow>
             (case (case map_of agents agent of None \<Rightarrow> JDict [] | Some v \<Rightarrow> v) of JDict c \<Rightarrow> Inr c | _ \<Rightarrow> bad)
         | _ \<Rightarrow> bad)"

definition set_default_key :: "string \<Rightarrow> json \<Rightarrow> pydict \<Rightarrow> pydict" where
  "set_default_key k v d = (if map_of d k = None then dput k v d else d)"

definition modes_for :: "string option \<Rightarrow> mode_registries \<Rightarrow> mode_registry pyres" where
  "modes_for agent Ms =
     res_bind (validate_agent agent) (\<lambda>_.
       case agent of
         None \<Rightarrow> Inr (ms_root Ms)
       | Some a \<Rightarrow>
           (case ms_agents Ms a of
              Some M \<Rightarrow> Inr M
            | None \<Rightarrow>
                res_bind (agent_config (mr_config (ms_root Ms)) a) (\<lambda>c.
                  mode_registry_new
                    (set_default_key ''default'' (JStr (default_mode (mr_config (ms_root Ms)))) c)
                    (Some a) (mr_refuse_duplicates (ms_root Ms)))))"

definition set_mode :: "string \<Rightarrow> pydict \<Rightarrow> string \<Rightarrow> mode_registry \<Rightarrow> mode_registry pyres" where
  "set_mode name mode owner M =
     (let config = set_default_key ''modes'' (JDict []) (mr_config M)
      in case dget config ''modes'' of
           JDict modes \<Rightarrow> Inr (M\<lparr>mr_config := dput ''modes'' (JDict (dput name (JDict mode) modes)) config,
                               mr_owners := AList.update name owner (mr_owners M)\<rparr>)
         | _ \<Rightarrow> Inl (TypeErr ''Modes must be configured as a mapping.''))"

definition register_mode :: "string \<Rightarrow> pydict \<Rightarrow> string option \<Rightarrow> mode_registry \<Rightarrow> mode_registry pyres" where
  "register_mode name mode owner M =
     res_bind (registration_owner owner (mr_agent M)) (\<lambda>label.
       case map_of (mr_owners M) name of
         Some p \<Rightarrow> if mr_agent M \<noteq> None \<or> mr_refuse_duplicates M then Inl (collision (mr_agent M) name p label)
                   else set_mode name mode label M
       | None \<Rightarrow> set_mode name mode label M)"

definition replace_mode ::
  "string \<Rightarrow> pydict \<Rightarrow> string \<Rightarrow> string option \<Rightarrow> mode_registry \<Rightarrow> mode_registry pyres" where
  "replace_mode name mode predecessor_owner owner M =
     res_bind (registration_owner owner (mr_agent M)) (\<lambda>label.
       if map_of (mr_owners M) name \<noteq> Some predecessor_owner then Inl replacement_error
       else set_mode name mode label M)"

subsection \<open>Resolving\<close>

definition strings_in :: "json \<Rightarrow> string list" where
  "strings_in v = (case v of JList xs \<Rightarrow> strs_of xs | _ \<Rightarrow> [])"

definition provider_options_of :: "string \<Rightarrow> json \<Rightarrow> pydict pyres" where
  "provider_options_of name declared =
     (case declared of
        JNull \<Rightarrow> Inr []
      | JDict d \<Rightarrow> Inr d
      | _ \<Rightarrow> Inl (mode_malformed name ''provider_options must be a map of option names to values''))"

definition subagent_entry ::
  "pydict \<Rightarrow> string \<Rightarrow> string \<times> json \<Rightarrow> (string \<times> subagent) pyres" where
  "subagent_entry config name entry =
     (case entry of
        (key, JDict c) \<Rightarrow>
          res_bind (subagent_from_config key c) (\<lambda>a.
            case modes_dict config of
              None \<Rightarrow> Inl (mode_malformed name (''it declares subagent ['' @ key @ ''], whose mode ['' @ sa_mode a
                        @ ''] is not configured''))
            | Some modes \<Rightarrow>
                (case dget modes (sa_mode a) of
                   JDict _ \<Rightarrow> Inr (key, a)
                 | _ \<Rightarrow> Inl (mode_malformed name (''it declares subagent ['' @ key @ ''], whose mode ['' @ sa_mode a
                        @ ''] is not configured''))))
      | (key, _) \<Rightarrow> Inl (mode_malformed name (''subagent ['' @ key @ ''] is not an object'')))"

definition subagents_for :: "pydict \<Rightarrow> string \<Rightarrow> pydict \<Rightarrow> (string \<times> subagent) list pyres" where
  "subagents_for config name mode =
     (let declared = dget mode ''subagents''
      in if \<not> truthy declared then Inr []
         else case declared of
                JDict d \<Rightarrow> res_map (subagent_entry config name) d
              | _ \<Rightarrow> Inl (mode_malformed name ''its subagent list is not a mapping''))"

definition resolve_mode :: "mode_registry \<Rightarrow> string option \<Rightarrow> agent_mode pyres" where
  "resolve_mode M name =
     (let wanted = (case name of Some n \<Rightarrow> n | None \<Rightarrow> default_mode (mr_config M))
      in case (case modes_dict (mr_config M) of None \<Rightarrow> JNull | Some modes \<Rightarrow> dget modes wanted) of
           JDict mode \<Rightarrow>
             (case (dget_or mode ''system_prompt'' (JStr []), dget_or mode ''max_steps'' (JInt 8)) of
                (JStr prompt, JInt steps) \<Rightarrow>
                  if steps < 1
                  then Inl (mode_malformed wanted ''system_prompt must be a string and max_steps a positive integer'')
                  else res_bind (subagents_for (mr_config M) wanted mode) (\<lambda>subagents.
                       res_bind (provider_options_of wanted (dget mode ''provider_options'')) (\<lambda>options. Inr
                         \<lparr> am_name = wanted, am_system_prompt = prompt, am_tools = strings_in (dget mode ''tools''),
                           am_skills = strings_in (dget mode ''skills''), am_max_steps = steps,
                           am_subagents = subagents,
                           am_requires_approval = strings_in (dget mode ''requires_approval''),
                           am_provider_options = options \<rparr>))
              | _ \<Rightarrow> Inl (mode_malformed wanted ''system_prompt must be a string and max_steps a positive integer''))
         | _ \<Rightarrow> Inl (mode_not_configured wanted))"

definition set_default_mode :: "string \<Rightarrow> mode_registry \<Rightarrow> mode_registry pyres" where
  "set_default_mode name M =
     res_bind (resolve_mode M (Some name)) (\<lambda>_. Inr (M\<lparr>mr_config := dput ''default'' (JStr name) (mr_config M)\<rparr>))"

definition all_modes :: "mode_registry \<Rightarrow> (string \<times> agent_mode) list pyres" where
  "all_modes M =
     res_map (\<lambda>name. res_bind (resolve_mode M (Some name)) (\<lambda>m. Inr (name, m))) (mode_names (mr_config M))"

end
