(* ===== verification/Doctor.thy ===== *)
theory Doctor
  imports Modes
begin

section \<open>The doctor\<close>

text \<open>
  \<open>doctor.py\<close>: the configuration checked before a run. The checks resolve every mode, the default one
  and both store slots, and report what a run would have raised. Resolving a slot caches it in the
  manager, so \<open>diagnose\<close> runs in the manager's state, where one is given.
\<close>

record doctor_finding =
  df_check :: string
  df_ok :: bool
  df_detail :: string

definition report_problems :: "doctor_finding list \<Rightarrow> nat" where
  "report_problems fs = length (filter (\<lambda>f. \<not> df_ok f) fs)"

definition report_ok :: "doctor_finding list \<Rightarrow> bool" where
  "report_ok fs = (report_problems fs = 0)"

definition finding_line :: "doctor_finding \<Rightarrow> string" where
  "finding_line f = ''  '' @ (if df_ok f then ''ok  '' else ''FAIL'') @ '' '' @ df_check f @ '': '' @ df_detail f"

definition report_summary :: "doctor_finding list \<Rightarrow> string" where
  "report_summary fs =
     join_with [CHR 0x0A]
       ((if report_ok fs then ''Harness configuration is consistent.''
         else show_nat (report_problems fs) @ '' problem(s) found in the harness configuration.'')
        # map finding_line fs)"

definition check_stores :: "('s store_manager, doctor_finding) py" where
  "check_stores =
     act_catch
       (act_bind (manager_slot SLOT_DURABLE) (\<lambda>durable.
        act_bind (manager_slot SLOT_EPHEMERAL) (\<lambda>_. act_return
          \<lparr>df_check = ''stores'', df_ok = True,
           df_detail = ''durable slot is '' @ durability_value (ss_durability durable)\<rparr>)))
       (\<lambda>e. act_return \<lparr>df_check = ''stores'', df_ok = False, df_detail = exn_str e\<rparr>)"

definition check_authorizer :: "('s, 'w) authorizer \<Rightarrow> doctor_finding" where
  "check_authorizer A =
     \<lparr>df_check = ''authorizer'', df_ok = True,
      df_detail = (if au_enabled A then ''enabled -- tools are filtered per run and per call''
                   else ''DISABLED -- every registered tool is offered to every run'')\<rparr>"

definition missing_tools :: "string list option \<Rightarrow> agent_mode \<Rightarrow> string list" where
  "missing_tools known m =
     (case known of
        None \<Rightarrow> []
      | Some names \<Rightarrow> if ''*'' \<in> set (am_tools m) then [] else filter (\<lambda>t. t \<notin> set names) (am_tools m))"

definition mode_detail :: "agent_mode \<Rightarrow> string" where
  "mode_detail m =
     join_with '', ''
       ([show_nat (length (am_tools m)) @ '' tool(s)'', show_int (am_max_steps m) @ '' step(s)'',
         show_nat (length (am_subagents m)) @ '' subagent(s)'']
        @ (if am_requires_approval m = [] then [] else [''approval: '' @ join_with '', '' (am_requires_approval m)]))"

definition check_mode :: "mode_registry \<Rightarrow> string list option \<Rightarrow> string \<Rightarrow> doctor_finding" where
  "check_mode M known name =
     (case resolve_mode M (Some name) of
        Inl e \<Rightarrow> \<lparr>df_check = ''mode:'' @ name, df_ok = False, df_detail = exn_str e\<rparr>
      | Inr m \<Rightarrow>
          (let missing = missing_tools known m
           in if missing \<noteq> []
              then \<lparr>df_check = ''mode:'' @ name, df_ok = False,
                    df_detail = ''names '' @ show_nat (length missing) @ '' tool(s) the registry cannot produce: ''
                      @ join_with '', '' missing\<rparr>
              else \<lparr>df_check = ''mode:'' @ name, df_ok = True, df_detail = mode_detail m\<rparr>))"

definition check_default :: "mode_registry \<Rightarrow> doctor_finding" where
  "check_default M =
     (case resolve_mode M None of
        Inl e \<Rightarrow> \<lparr>df_check = ''default mode'', df_ok = False, df_detail = exn_str e\<rparr>
      | Inr _ \<Rightarrow> \<lparr>df_check = ''default mode'', df_ok = True, df_detail = default_mode (mr_config M)\<rparr>)"

definition check_modes :: "mode_registry \<Rightarrow> ('s, 'w) registry option \<Rightarrow> doctor_finding list" where
  "check_modes M tools =
     (let names = mode_names (mr_config M); known = map_option registry_names tools
      in if names = [] then [\<lparr>df_check = ''modes'', df_ok = False, df_detail = ''no modes are configured''\<rparr>]
         else map (check_mode M known) names @ [check_default M])"

definition diagnose ::
  "mode_registry option \<Rightarrow> ('s, 'w) registry option \<Rightarrow> ('s, 'w) authorizer option \<Rightarrow> bool
     \<Rightarrow> ('s store_manager, doctor_finding list) py" where
  "diagnose modes tools authorizer has_stores =
     act_bind (if has_stores then act_bind check_stores (\<lambda>f. act_return [f]) else act_return []) (\<lambda>stores.
       act_return (stores
         @ (case authorizer of None \<Rightarrow> [] | Some A \<Rightarrow> [check_authorizer A])
         @ (case modes of None \<Rightarrow> [] | Some M \<Rightarrow> check_modes M tools)))"

end
