(* ===== verification/JsonParse.thy ===== *)
theory JsonParse
  imports JsonText
begin

section \<open>Reading JSON text\<close>

text \<open>
  \<open>json.loads\<close> and the UTF-8 decoding in front of it, as the stores use them, on the bytes of the text.
  \<open>json_pairs\<close> keeps every member of an object, in order and with repeated names (what an
  \<open>object_pairs_hook\<close> is given); \<open>json_loads\<close> makes the dicts of them. A lone surrogate escape reads as
  its three bytes; integers have no length limit; a float is the exact value of its literal.
  The main lemma: \<open>json_loads\<close> inverts \<open>json_dumps\<close> on every storable value (\<open>storable\<close>), with and
  without \<open>ensure_ascii\<close>.
\<close>

subsection \<open>UTF-8\<close>

definition is_scalar :: "nat \<Rightarrow> bool" where
  "is_scalar cp = (cp < 1114112 \<and> \<not> (55296 \<le> cp \<and> cp < 57344))"

definition tail_byte :: "nat \<Rightarrow> char" where
  "tail_byte n = char_of (128 + n mod 64)"

definition utf8_encode :: "nat \<Rightarrow> string" where
  "utf8_encode cp =
     (if cp < 128 then [char_of cp]
      else if cp < 2048 then [char_of (192 + cp div 64), tail_byte cp]
      else if cp < 65536 then [char_of (224 + cp div 4096), tail_byte (cp div 64), tail_byte cp]
      else [char_of (240 + cp div 262144), tail_byte (cp div 4096), tail_byte (cp div 64), tail_byte cp])"

text \<open>The first code point of a text and the bytes after it, and the whole text: \<open>bytes.decode("utf-8")\<close> with
  its strict checks (no overlong form, no surrogate, nothing beyond the last plane).\<close>

definition tail_value :: "char \<Rightarrow> nat option" where
  "tail_value c = (if is_continuation c then Some (byte_of c mod 64) else None)"

definition utf8_next :: "string \<Rightarrow> (nat \<times> string) option" where
  "utf8_next s =
     (case s of [] \<Rightarrow> None
      | a # r \<Rightarrow>
          if byte_of a < 128 then Some (byte_of a, r)
          else if 194 \<le> byte_of a \<and> byte_of a < 224
          then (case r of b # r' \<Rightarrow>
                  (case tail_value b of Some y \<Rightarrow> Some (byte_of a mod 32 * 64 + y, r') | _ \<Rightarrow> None)
                | _ \<Rightarrow> None)
          else if 224 \<le> byte_of a \<and> byte_of a < 240
          then (case r of b # c # r' \<Rightarrow>
                  (case (tail_value b, tail_value c) of
                     (Some y, Some z) \<Rightarrow>
                       (let cp = byte_of a mod 16 * 4096 + y * 64 + z
                        in if 2048 \<le> cp \<and> is_scalar cp then Some (cp, r') else None)
                   | _ \<Rightarrow> None)
                | _ \<Rightarrow> None)
          else if 240 \<le> byte_of a \<and> byte_of a < 245
          then (case r of b # c # d # r' \<Rightarrow>
                  (case (tail_value b, tail_value c, tail_value d) of
                     (Some x, Some y, Some z) \<Rightarrow>
                       (let cp = byte_of a mod 8 * 262144 + x * 4096 + y * 64 + z
                        in if 65536 \<le> cp \<and> is_scalar cp then Some (cp, r') else None)
                   | _ \<Rightarrow> None)
                | _ \<Rightarrow> None)
          else None)"

lemma utf8_next_shorter [termination_simp]: "utf8_next s = Some (cp, r) \<Longrightarrow> length r < length s"
  by (auto simp: utf8_next_def Let_def split: list.splits if_splits option.splits)

fun utf8_ok :: "string \<Rightarrow> bool" where
  "utf8_ok s = (s = [] \<or> (case utf8_next s of None \<Rightarrow> False | Some (cp, r) \<Rightarrow> utf8_ok r))"

declare utf8_ok.simps [simp del]

lemma utf8_ok_Nil [simp]: "utf8_ok []"
  by (simp add: utf8_ok.simps)

lemma byte_of_char_of: "n < 256 \<Longrightarrow> byte_of (char_of n) = n"
  by (simp add: byte_of_def)

lemma tail_byte_value: "byte_of (tail_byte n) = 128 + n mod 64"
proof -
  have "n mod 64 < 64" by simp
  then show ?thesis unfolding tail_byte_def by (intro byte_of_char_of) linarith
qed

lemma offset_div_mod: "m < 64 \<Longrightarrow> (128 + m) div 64 = 2 \<and> (128 + m) mod 64 = (m :: nat)"
  using div_mult_self2 [of 64 m 2] mod_mult_self2 [of m 64 2] by (simp add: add.commute)

lemma tail_value_byte [simp]: "tail_value (tail_byte n) = Some (n mod 64)"
  using offset_div_mod [of "n mod 64"] by (simp add: tail_value_def is_continuation_def tail_byte_value)

text \<open>The text of a code point, by the length of its encoding: what its bytes are.\<close>

lemma two_bytes: "cp < 2048 \<Longrightarrow> cp = cp div 64 * 64 + cp mod (64 :: nat)"
  by simp

lemma three_bytes: "cp div 4096 * 4096 + cp div 64 mod 64 * 64 + cp mod (64 :: nat) = cp"
proof -
  have "cp div 64 div 64 = cp div 4096" by (simp add: div_mult2_eq [symmetric])
  with div_mult_mod_eq [of "cp div 64" 64] have q: "cp div 4096 * 64 + cp div 64 mod 64 = cp div 64" by simp
  have "cp div 4096 * 4096 + cp div 64 mod 64 * 64 = (cp div 4096 * 64 + cp div 64 mod 64) * 64" by simp
  also have "\<dots> + cp mod 64 = cp" unfolding q by (rule div_mult_mod_eq)
  finally show ?thesis .
qed

lemma four_bytes:
  "cp div 262144 * 262144 + cp div 4096 mod 64 * 4096 + cp div 64 mod 64 * 64 + cp mod (64 :: nat) = cp"
proof -
  have "cp div 4096 div 64 = cp div 262144" by (simp add: div_mult2_eq [symmetric])
  with div_mult_mod_eq [of "cp div 4096" 64] have q: "cp div 262144 * 64 + cp div 4096 mod 64 = cp div 4096" by simp
  have "cp div 262144 * 262144 + cp div 4096 mod 64 * 4096 = (cp div 262144 * 64 + cp div 4096 mod 64) * 4096" by simp
  also have "\<dots> + cp div 64 mod 64 * 64 + cp mod 64 = cp" unfolding q by (rule three_bytes)
  finally show ?thesis .
qed

lemma head_bits: "q < 32 \<Longrightarrow> (192 + q) mod 32 = (q :: nat)" "q < 16 \<Longrightarrow> (224 + q) mod 16 = q" "q < 8 \<Longrightarrow> (240 + q) mod 8 = q"
  using mod_mult_self2 [of q 32 6] mod_mult_self2 [of q 16 14] mod_mult_self2 [of q 8 30] by (simp_all add: add.commute)

lemma head_byte2:
  assumes "128 \<le> cp" "cp < 2048"
  shows "byte_of (char_of (192 + cp div 64)) = 192 + cp div 64 \<and> cp div 64 < 32 \<and> 2 \<le> cp div 64
     \<and> (192 + cp div 64) mod 32 = cp div 64"
proof -
  from assms have "cp div 64 < 32" "2 \<le> cp div 64" by linarith+
  then show ?thesis by (simp add: byte_of_char_of head_bits)
qed

lemma head_byte3:
  assumes "cp < 65536"
  shows "byte_of (char_of (224 + cp div 4096)) = 224 + cp div 4096 \<and> cp div 4096 < 16
     \<and> (224 + cp div 4096) mod 16 = cp div 4096"
proof -
  from assms have "cp div 4096 < 16" by linarith
  then show ?thesis by (simp add: byte_of_char_of head_bits)
qed

lemma head_byte4:
  assumes "cp < 1114112"
  shows "byte_of (char_of (240 + cp div 262144)) = 240 + cp div 262144 \<and> cp div 262144 < 5
     \<and> (240 + cp div 262144) mod 8 = cp div 262144"
proof -
  from assms have "cp div 262144 < 5" by linarith
  then show ?thesis by (simp add: byte_of_char_of head_bits)
qed

lemma utf8_next_encode:
  assumes "is_scalar cp"
  shows "utf8_next (utf8_encode cp @ r) = Some (cp, r)"
proof -
  from assms have cp: "cp < 1114112" by (simp add: is_scalar_def)
  consider "cp < 128" | "128 \<le> cp" "cp < 2048" | "2048 \<le> cp" "cp < 65536" | "65536 \<le> cp" by linarith
  then show ?thesis
  proof cases
    case 1
    then show ?thesis by (simp add: utf8_encode_def utf8_next_def byte_of_char_of)
  next
    case 2
    with head_byte2 [OF 2] show ?thesis by (simp add: utf8_encode_def utf8_next_def)
  next
    case 3
    with head_byte3 [OF 3(2)] assms show ?thesis
      using three_bytes [of cp] by (simp add: utf8_encode_def utf8_next_def Let_def)
  next
    case 4
    with head_byte4 [OF cp] assms show ?thesis
      using four_bytes [of cp] by (simp add: utf8_encode_def utf8_next_def Let_def)
  qed
qed

subsection \<open>Strings\<close>

fun hex_val :: "char \<Rightarrow> nat option" where
  "hex_val c =
     (let n = byte_of c
      in if 48 \<le> n \<and> n < 58 then Some (n - 48)
         else if 65 \<le> n \<and> n < 71 then Some (n - 55)
         else if 97 \<le> n \<and> n < 103 then Some (n - 87) else None)"

fun hex4_val :: "string \<Rightarrow> (nat \<times> string) option" where
  "hex4_val (a # b # c # d # r) =
     (case (hex_val a, hex_val b, hex_val c, hex_val d) of
        (Some w, Some x, Some y, Some z) \<Rightarrow> Some (w * 4096 + x * 256 + y * 16 + z, r)
      | _ \<Rightarrow> None)"
| "hex4_val _ = None"

text \<open>What follows \<open>\u\<close>: a high surrogate takes the escape of a low one behind it.\<close>

definition low_surrogate :: "string \<Rightarrow> (nat \<times> string) option" where
  "low_surrogate s =
     (case s of b # c # r \<Rightarrow>
        if b = backslash \<and> c = CHR ''u''
        then (case hex4_val r of Some (v, r') \<Rightarrow> if 56320 \<le> v \<and> v < 57344 then Some (v, r') else None | None \<Rightarrow> None)
        else None
      | _ \<Rightarrow> None)"

definition unescape_u :: "string \<Rightarrow> (string \<times> string) option" where
  "unescape_u s =
     (case hex4_val s of None \<Rightarrow> None
      | Some (u, r) \<Rightarrow>
          if 55296 \<le> u \<and> u < 56320
          then (case low_surrogate r of
                  Some (v, r') \<Rightarrow> Some (utf8_encode (65536 + (u - 55296) * 1024 + (v - 56320)), r')
                | None \<Rightarrow> Some (utf8_encode u, r))
          else Some (utf8_encode u, r))"

definition unescape_one :: "string \<Rightarrow> (string \<times> string) option" where
  "unescape_one s =
     (case s of [] \<Rightarrow> None
      | c # r \<Rightarrow>
          if c = quote_char \<or> c = backslash \<or> c = CHR ''/'' then Some ([c], r)
          else if c = CHR ''b'' then Some ([CHR 0x08], r)
          else if c = CHR ''f'' then Some ([CHR 0x0C], r)
          else if c = CHR ''n'' then Some ([CHR 0x0A], r)
          else if c = CHR ''r'' then Some ([CHR 0x0D], r)
          else if c = CHR ''t'' then Some ([CHR 0x09], r)
          else if c = CHR ''u'' then unescape_u r
          else None)"

lemma hex4_val_shorter: "hex4_val s = Some (u, r) \<Longrightarrow> length r < length s"
  by (cases s rule: hex4_val.cases) (auto split: option.splits)

lemma low_surrogate_shorter: "low_surrogate s = Some (v, r) \<Longrightarrow> length r < length s"
  by (auto simp: low_surrogate_def split: list.splits if_splits option.splits dest!: hex4_val_shorter)

lemma unescape_one_shorter [termination_simp]: "unescape_one s = Some (t, r) \<Longrightarrow> length r < length s"
  by (auto simp: unescape_one_def unescape_u_def split: list.splits if_splits option.splits
      dest!: hex4_val_shorter low_surrogate_shorter)

text \<open>A string from behind its opening quote.\<close>

fun scan_string :: "string \<Rightarrow> (string \<times> string) option" where
  "scan_string [] = None"
| "scan_string (c # s) =
     (if c = quote_char then Some ([], s)
      else if c = backslash
      then (case unescape_one s of None \<Rightarrow> None
            | Some (t, r) \<Rightarrow> (case scan_string r of None \<Rightarrow> None | Some (u, r') \<Rightarrow> Some (t @ u, r')))
      else if byte_of c < 32 then None
      else (case scan_string s of None \<Rightarrow> None | Some (u, r) \<Rightarrow> Some (c # u, r)))"

lemma scan_string_shorter: "scan_string s = Some (t, r) \<Longrightarrow> length r < length s"
  by (induction s arbitrary: t rule: scan_string.induct)
    (fastforce split: if_splits option.splits dest: unescape_one_shorter)+

lemma hex_val_digit [simp]: "d < 16 \<Longrightarrow> hex_val (hex_digit d) = Some d"
  by (simp add: hex_digit_def byte_of_def Let_def)

declare hex_val.simps [simp del]

lemma byte_digits: "m < 256 \<Longrightarrow> m div 16 mod 16 * 16 + m mod 16 = (m :: nat)"
proof -
  assume "m < 256"
  then have "m div 16 < 16" by linarith
  then show ?thesis by simp
qed

lemma hex4_digits:
  assumes "n < 65536"
  shows "n div 256 div 16 mod 16 * 4096 + n div 256 mod 16 * 256 + n mod 256 div 16 mod 16 * 16 + n mod 256 mod 16 = (n :: nat)"
proof -
  have q: "n div 256 < 256" using assms by (simp add: div_less_iff_less_mult)
  have high: "a * 4096 + b * 256 + c + d = (a * 16 + b) * 256 + (c + d)" for a b c d :: nat by simp
  have r: "n mod 256 < 256" by simp
  show ?thesis unfolding high byte_digits [OF q] byte_digits [OF r] by (rule div_mult_mod_eq)
qed

lemma hex4_val_hex4: "n < 65536 \<Longrightarrow> hex4_val (hex4 n @ r) = Some (n, r)"
  using hex4_digits [of n] by (simp add: hex4_def hex2_def)

lemma surrogate_pair:
  assumes "65536 \<le> cp" "cp < 1114112"
  shows "(cp - 65536) div 1024 < 1024 \<and> (cp - 65536) mod 1024 < 1024
    \<and> 65536 + (cp - 65536) div 1024 * 1024 + (cp - 65536) mod 1024 = (cp :: nat)"
proof -
  from assms have "(cp - 65536) div 1024 < 1024" by linarith
  then show ?thesis using div_mult_mod_eq [of "cp - 65536" 1024] assms by simp
qed

lemma scan_unicode:
  assumes "is_scalar cp"
  shows "scan_string (json_u cp @ s) = (case scan_string s of None \<Rightarrow> None | Some (u, r) \<Rightarrow> Some (utf8_encode cp @ u, r))"
proof (cases "cp < 65536")
  case True
  from assms have "\<not> (55296 \<le> cp \<and> cp < 56320)" by (auto simp: is_scalar_def)
  with True have "unescape_u (hex4 cp @ s) = Some (utf8_encode cp, s)" by (auto simp: unescape_u_def hex4_val_hex4)
  with True show ?thesis by (simp add: json_u_def unescape_one_def split: option.split)
next
  case False
  with assms have cp: "65536 \<le> cp" "cp < 1114112" by (simp_all add: is_scalar_def)
  let ?h = "55296 + (cp - 65536) div 1024" and ?l = "56320 + (cp - 65536) mod 1024"
  from surrogate_pair [OF cp] have hl: "?h < 56320" "?l < 57344"
    "65536 + (?h - 55296) * 1024 + (?l - 56320) = cp" by simp_all
  then have "low_surrogate ([backslash, CHR ''u''] @ hex4 ?l @ s) = Some (?l, s)"
    by (simp add: low_surrogate_def hex4_val_hex4)
  with hl have "unescape_u (hex4 ?h @ [backslash, CHR ''u''] @ hex4 ?l @ s) = Some (utf8_encode cp, s)"
    by (simp add: unescape_u_def hex4_val_hex4)
  with False show ?thesis by (simp add: json_u_def unescape_one_def split: option.split)
qed

lemma scan_escape:
  "scan_string (json_escape c @ s) = (case scan_string s of None \<Rightarrow> None | Some (u, r) \<Rightarrow> Some (c # u, r))"
proof (cases "c \<in> {quote_char, backslash, CHR 0x0A, CHR 0x0D, CHR 0x09, CHR 0x08, CHR 0x0C}")
  case True
  then show ?thesis by (auto simp: json_escape_def unescape_one_def split: option.split)
next
  case no: False
  show ?thesis
  proof (cases "byte_of c < 32")
    case True
    with no have "json_escape c = json_u (byte_of c)" by (simp add: json_escape_def json_u_def)
    moreover from True have "utf8_encode (byte_of c) = [c]" by (simp add: utf8_encode_def)
    moreover from True have "is_scalar (byte_of c)" by (simp add: is_scalar_def)
    ultimately show ?thesis using scan_unicode [of "byte_of c" s] by (simp split: option.split)
  next
    case False
    with no show ?thesis by (simp add: json_escape_def)
  qed
qed

lemma scan_raw: "scan_string (concat (map json_escape s) @ quote_char # r) = Some (s, r)"
  by (induction s) (simp_all add: scan_escape)

text \<open>The ASCII form, code point by code point.\<close>

lemma escape_ascii_one:
  "byte_of a < 127 \<Longrightarrow> escape_ascii (a # s) = json_escape a @ escape_ascii s"
  "127 \<le> byte_of a \<Longrightarrow> byte_of a < 192 \<Longrightarrow> escape_ascii (a # s) = json_u (byte_of a) @ escape_ascii s"
  by (cases s rule: escape_ascii.cases; simp)+

lemma escape_ascii_two:
  "192 \<le> byte_of a \<Longrightarrow> byte_of a < 224 \<Longrightarrow>
     escape_ascii (a # b # s) = json_u (byte_of a mod 32 * 64 + byte_of b mod 64) @ escape_ascii s"
  by (cases s rule: escape_ascii.cases; simp)

lemma escape_ascii_three:
  "224 \<le> byte_of a \<Longrightarrow> byte_of a < 240 \<Longrightarrow>
     escape_ascii (a # b # c # s)
       = json_u (byte_of a mod 16 * 4096 + byte_of b mod 64 * 64 + byte_of c mod 64) @ escape_ascii s"
  by (cases s rule: escape_ascii.cases; simp)

lemma escape_ascii_four:
  "240 \<le> byte_of a \<Longrightarrow>
     escape_ascii (a # b # c # d # s)
       = json_u (byte_of a mod 8 * 262144 + byte_of b mod 64 * 4096 + byte_of c mod 64 * 64 + byte_of d mod 64)
         @ escape_ascii s"
  by simp

lemma tail_byte_mod: "byte_of (tail_byte n) mod 64 = n mod 64"
  using offset_div_mod [of "n mod 64"] by (simp add: tail_byte_value)

lemma escape_ascii_encode:
  assumes "is_scalar cp"
  shows "escape_ascii (utf8_encode cp @ s)
     = (if cp < 127 then json_escape (char_of cp) else json_u cp) @ escape_ascii s"
proof -
  from assms have cp: "cp < 1114112" by (simp add: is_scalar_def)
  consider "cp < 128" | "128 \<le> cp" "cp < 2048" | "2048 \<le> cp" "cp < 65536" | "65536 \<le> cp" by linarith
  then show ?thesis
  proof cases
    case 1
    then show ?thesis by (cases "cp < 127") (simp_all add: utf8_encode_def escape_ascii_one byte_of_char_of)
  next
    case 2
    with head_byte2 [OF 2] show ?thesis
      by (simp add: utf8_encode_def escape_ascii_two tail_byte_mod)
  next
    case 3
    with head_byte3 [OF 3(2)] three_bytes [of cp] show ?thesis
      by (simp add: utf8_encode_def escape_ascii_three tail_byte_mod)
  next
    case 4
    with head_byte4 [OF cp] four_bytes [of cp] show ?thesis
      by (simp add: utf8_encode_def escape_ascii_four tail_byte_mod del: escape_ascii.simps)
  qed
qed

text \<open>What \<open>utf8_next\<close> takes off is the encoding of what it returns.\<close>

lemma char_of_eq: "byte_of c = n \<Longrightarrow> c = char_of n"
  by (auto simp: byte_of_def)

lemma tail_value_Some:
  assumes "tail_value c = Some y"
  shows "y < 64 \<and> (\<forall>n. n mod 64 = y \<longrightarrow> c = tail_byte n)"
proof -
  from assms have "byte_of c div 64 = 2" "y = byte_of c mod 64"
    by (auto simp: tail_value_def is_continuation_def split: if_splits)
  with div_mult_mod_eq [of "byte_of c" 64] have "byte_of c = 128 + y" by simp
  then have "c = char_of (128 + y)" by (rule char_of_eq)
  with \<open>y = _\<close> show ?thesis by (auto simp: tail_byte_def)
qed

lemma digits64:
  assumes "y < 64" "z < (64 :: nat)"
  shows "(q * 4096 + y * 64 + z) div 4096 = q" "(q * 4096 + y * 64 + z) div 64 mod 64 = y"
    "(q * 4096 + y * 64 + z) mod 64 = z" "(q * 64 + z) div 64 = q" "(q * 64 + z) mod 64 = z"
    "(q * 4096 + y * 64 + z) div 64 = q * 64 + y"
proof -
  show d: "(q * 64 + z) div 64 = q" "(q * 64 + z) mod 64 = z" for q
    using assms(2) by (simp_all add: div_mult_self3 add.commute)
  have e: "q * 4096 + y * 64 + z = (q * 64 + y) * 64 + z" by simp
  show f: "(q * 4096 + y * 64 + z) div 64 = q * 64 + y" unfolding e by (rule d)
  then show "(q * 4096 + y * 64 + z) div 64 mod 64 = y" using assms(1) by simp
  show "(q * 4096 + y * 64 + z) mod 64 = z" unfolding e by (rule d)
  have "(q * 4096 + y * 64 + z) div 64 div 64 = q" unfolding f using assms(1) by simp
  then show "(q * 4096 + y * 64 + z) div 4096 = q" by (simp add: div_mult2_eq [symmetric])
qed

lemma utf8_next_decode:
  assumes "utf8_next s = Some (cp, r)"
  shows "is_scalar cp \<and> s = utf8_encode cp @ r"
proof (cases s)
  case Nil
  with assms show ?thesis by (simp add: utf8_next_def)
next
  case (Cons a t)
  let ?a = "byte_of a"
  consider "?a < 128" | "194 \<le> ?a" "?a < 224" | "224 \<le> ?a" "?a < 240" | "240 \<le> ?a" "?a < 245"
    using assms Cons by (fastforce simp: utf8_next_def split: if_splits)
  then show ?thesis
  proof cases
    case 1
    with assms Cons char_of_eq [of a ?a] show ?thesis
      by (auto simp: utf8_next_def utf8_encode_def is_scalar_def)
  next
    case 2
    define q where "q = ?a - 192"
    with 2 have q: "?a = 192 + q" "2 \<le> q" "q < 32" by simp_all
    from assms Cons 2 obtain b y where t: "t = b # r" "tail_value b = Some y" "cp = ?a mod 32 * 64 + y"
      by (auto simp: utf8_next_def split: list.splits option.splits)
    with q head_bits(1) have cp: "cp = q * 64 + y" by simp
    from tail_value_Some [OF t(2)] have y: "y < 64" "\<And>n. n mod 64 = y \<Longrightarrow> b = tail_byte n" by auto
    with q cp have "128 \<le> cp" "cp < 2048" by linarith+
    with y(1) y(2) [of cp] q(1) t(1) Cons char_of_eq [OF q(1)] digits64(4,5) [OF y(1) y(1)] cp show ?thesis
      by (simp add: utf8_encode_def is_scalar_def)
  next
    case 3
    define q where "q = ?a - 224"
    with 3 have q: "?a = 224 + q" "q < 16" by simp_all
    from assms Cons 3 obtain b c y z where t: "t = b # c # r" "tail_value b = Some y" "tail_value c = Some z"
      "cp = ?a mod 16 * 4096 + y * 64 + z" "2048 \<le> cp" "is_scalar cp"
      by (auto simp: utf8_next_def Let_def split: list.splits option.splits if_splits)
    with q head_bits(2) have cp: "cp = q * 4096 + y * 64 + z" by simp
    from tail_value_Some [OF t(2)] tail_value_Some [OF t(3)]
    have y: "y < 64" "\<And>n. n mod 64 = y \<Longrightarrow> b = tail_byte n" and z: "z < 64" "\<And>n. n mod 64 = z \<Longrightarrow> c = tail_byte n" by auto
    with q cp have "cp < 65536" by linarith
    with y(1) z(1) y(2) [of "cp div 64"] z(2) [of cp] t(1,5,6) Cons char_of_eq [OF q(1)] digits64 [OF y(1) z(1), of q] cp
    show ?thesis by (simp add: utf8_encode_def)
  next
    case 4
    define q where "q = ?a - 240"
    with 4 have q: "?a = 240 + q" "q < 5" by simp_all
    from assms Cons 4 obtain b c d x y z where t: "t = b # c # d # r" "tail_value b = Some x" "tail_value c = Some y"
      "tail_value d = Some z" "cp = ?a mod 8 * 262144 + x * 4096 + y * 64 + z" "65536 \<le> cp" "is_scalar cp"
      by (auto simp: utf8_next_def Let_def split: list.splits option.splits if_splits)
    with q head_bits(3) have cp: "cp = (q * 64 + x) * 4096 + y * 64 + z" by simp
    from tail_value_Some [OF t(2)] tail_value_Some [OF t(3)] tail_value_Some [OF t(4)]
    have x: "x < 64" "\<And>n. n mod 64 = x \<Longrightarrow> b = tail_byte n" and y: "y < 64" "\<And>n. n mod 64 = y \<Longrightarrow> c = tail_byte n"
      and z: "z < 64" "\<And>n. n mod 64 = z \<Longrightarrow> d = tail_byte n" by auto
    have d: "cp div 4096 = q * 64 + x" "cp div 64 mod 64 = y" "cp mod 64 = z"
      unfolding cp using digits64 [OF y(1) z(1), of "q * 64 + x"] by simp_all
    have "cp div 262144 = cp div 4096 div 64" by (simp add: div_mult2_eq [symmetric])
    with d(1) digits64(4) [OF x(1) x(1), of q] have e: "cp div 262144 = q" by simp
    from d(1) x(1) have "cp div 4096 mod 64 = x" by simp
    with x(2) [of "cp div 4096"] y(2) [of "cp div 64"] z(2) [of cp] d e t(1,6,7) Cons char_of_eq [OF q(1)]
    show ?thesis by (simp add: utf8_encode_def)
  qed
qed

lemma utf8_ok_Cons: "s \<noteq> [] \<Longrightarrow> utf8_ok s \<Longrightarrow> \<exists>cp r. utf8_next s = Some (cp, r) \<and> s = utf8_encode cp @ r \<and> is_scalar cp \<and> utf8_ok r"
  using utf8_next_decode [of s] by (subst (asm) utf8_ok.simps) (auto split: option.splits)

lemma utf8_ok_encode: "is_scalar cp \<Longrightarrow> utf8_ok r \<Longrightarrow> utf8_ok (utf8_encode cp @ r)"
  using utf8_next_encode [of cp r] by (subst utf8_ok.simps) simp

lemma utf8_ok_ascii: "(\<And>c. c \<in> set s \<Longrightarrow> byte_of c < 128) \<Longrightarrow> utf8_ok s"
proof (induction s)
  case (Cons c s)
  then have c: "byte_of c < 128" by simp
  then have "utf8_encode (byte_of c) = [c]" "is_scalar (byte_of c)" by (simp_all add: utf8_encode_def is_scalar_def)
  with Cons utf8_ok_encode [of "byte_of c" s] show ?case by simp
qed simp

lemma scan_ascii: "utf8_ok s \<Longrightarrow> scan_string (escape_ascii s @ quote_char # r) = Some (s, r)"
proof (induction s rule: utf8_ok.induct)
  case (1 s)
  show ?case
  proof (cases "s = []")
    case False
    with utf8_ok_Cons "1.prems" obtain cp t where s: "utf8_next s = Some (cp, t)" "s = utf8_encode cp @ t" "is_scalar cp" "utf8_ok t"
      by blast
    have IH: "scan_string (escape_ascii t @ quote_char # r) = Some (t, r)"
      using "1.IH" [OF s(1) refl s(4)] .
    show ?thesis
    proof (cases "cp < 127")
      case True
      then have "utf8_encode cp = [char_of cp]" by (simp add: utf8_encode_def)
      with escape_ascii_encode [OF s(3), of t] s True IH show ?thesis by (simp add: scan_escape)
    next
      case False
      with s IH show ?thesis by (simp add: escape_ascii_encode [OF s(3)] scan_unicode [OF s(3)])
    qed
  qed simp
qed

definition text_ok :: "bool \<Rightarrow> string \<Rightarrow> bool" where
  "text_ok ascii s = (ascii \<longrightarrow> utf8_ok s)"

lemma json_string_body:
  assumes "text_ok ascii s"
  obtains b where "json_string ascii s = quote_char # b" "\<And>r. scan_string (b @ r) = Some (s, r)"
  using assms that by (auto simp: json_string_def text_ok_def scan_ascii scan_raw)

subsection \<open>Numbers\<close>

definition is_digit :: "char \<Rightarrow> bool" where
  "is_digit c = (48 \<le> byte_of c \<and> byte_of c < 58)"

definition digits_value :: "string \<Rightarrow> nat" where
  "digits_value ds = foldl (\<lambda>n c. n * 10 + (byte_of c - 48)) 0 ds"

text \<open>The fraction and the exponent of a number: the digits after the point, the power of ten, and the rest. A
  point or an \<open>e\<close> with no digit behind it is not part of the number.\<close>

definition scan_fraction :: "string \<Rightarrow> string option \<times> string" where
  "scan_fraction s =
     (case s of c # r \<Rightarrow>
        if c = CHR ''.'' \<and> takeWhile is_digit r \<noteq> [] then (Some (takeWhile is_digit r), dropWhile is_digit r) else (None, s)
      | [] \<Rightarrow> (None, s))"

definition scan_exponent :: "string \<Rightarrow> int option \<times> string" where
  "scan_exponent s =
     (case s of c # r \<Rightarrow>
        (let (neg, t) = (case r of d # r' \<Rightarrow> if d = CHR ''-'' then (True, r') else if d = CHR ''+'' then (False, r') else (False, r)
                         | [] \<Rightarrow> (False, r))
         in if (c = CHR ''e'' \<or> c = CHR ''E'') \<and> takeWhile is_digit t \<noteq> []
            then (Some ((if neg then - 1 else 1) * int (digits_value (takeWhile is_digit t))), dropWhile is_digit t)
            else (None, s))
      | [] \<Rightarrow> (None, s))"

definition power_ten :: "int \<Rightarrow> rat" where
  "power_ten e = (if 0 \<le> e then 10 ^ nat e else 1 / 10 ^ nat (- e))"

definition number_value :: "bool \<Rightarrow> string \<Rightarrow> string option \<Rightarrow> int option \<Rightarrow> json" where
  "number_value neg whole dec ex =
     (if dec = None \<and> ex = None then JInt ((if neg then - 1 else 1) * int (digits_value whole))
      else JFloat (Fin ((if neg then - 1 else 1)
        * (of_nat (digits_value whole)
           + (case dec of None \<Rightarrow> 0 | Some ds \<Rightarrow> of_nat (digits_value ds) / 10 ^ length ds))
        * (case ex of None \<Rightarrow> 1 | Some e \<Rightarrow> power_ten e))))"

text \<open>A whole part is \<open>0\<close> or digits that do not begin with it.\<close>

definition scan_whole :: "string \<Rightarrow> (string \<times> string) option" where
  "scan_whole s =
     (case s of [] \<Rightarrow> None
      | c # r \<Rightarrow> if c = CHR ''0'' then Some ([c], r)
                 else if is_digit c then Some (takeWhile is_digit s, dropWhile is_digit s) else None)"

definition scan_number :: "string \<Rightarrow> (json \<times> string) option" where
  "scan_number s =
     (let neg = (s \<noteq> [] \<and> hd s = CHR ''-'')
      in case scan_whole (if neg then tl s else s) of
           None \<Rightarrow> None
         | Some (whole, t) \<Rightarrow>
             (let (dec, t') = scan_fraction t; (ex, t'') = scan_exponent t'
              in Some (number_value neg whole dec ex, t'')))"

text \<open>What may follow a number without becoming part of it.\<close>

definition ends_number :: "string \<Rightarrow> bool" where
  "ends_number r = (r = [] \<or> (\<not> is_digit (hd r) \<and> hd r \<notin> {CHR ''.'', CHR ''e'', CHR ''E''}))"

lemma scan_fraction_end: "ends_number r \<Longrightarrow> scan_fraction r = (None, r)"
  by (cases r) (auto simp: scan_fraction_def ends_number_def)

lemma scan_exponent_end: "ends_number r \<Longrightarrow> scan_exponent r = (None, r)"
  by (cases r) (auto simp: scan_exponent_def ends_number_def Let_def split: prod.split)

lemma is_digit_char [simp]: "d < 10 \<Longrightarrow> is_digit (digit_char d)"
  by (simp add: is_digit_def digit_char_def byte_of_def)

lemma byte_digit_char [simp]: "d < 10 \<Longrightarrow> byte_of (digit_char d) = 48 + d"
  by (simp add: digit_char_def byte_of_def)

lemma show_nat_digits: "\<forall>c \<in> set (show_nat n). is_digit c"
  by (induction n rule: show_nat.induct) (subst show_nat.simps, simp)

lemma digits_value_snoc: "digits_value (ds @ [c]) = digits_value ds * 10 + (byte_of c - 48)"
  by (simp add: digits_value_def)

lemma digits_value_show [simp]: "digits_value (show_nat n) = n"
proof (induction n rule: show_nat.induct)
  case (1 n)
  show ?case
  proof (cases "n < 10")
    case True
    then show ?thesis by (subst show_nat.simps) (simp add: digits_value_def)
  next
    case False
    with 1 show ?thesis by (subst show_nat.simps) (simp add: digits_value_snoc)
  qed
qed

lemma digit_char_zero: "digit_char 0 = CHR ''0''"
  unfolding digit_char_def by (rule char_of_eq [symmetric]) (simp add: byte_of_def)

lemma digit_char_nonzero: "d < 10 \<Longrightarrow> d \<noteq> 0 \<Longrightarrow> digit_char d \<noteq> CHR ''0''"
  using digit_char_inj [of d 0] digit_char_zero by auto

lemma show_nat_head: "n \<noteq> 0 \<Longrightarrow> hd (show_nat n) \<noteq> CHR ''0''"
proof (induction n rule: show_nat.induct)
  case (1 n)
  show ?case
  proof (cases "n < 10")
    case True
    with "1.prems" show ?thesis by (subst show_nat.simps) (simp add: digit_char_nonzero)
  next
    case False
    with 1 have "hd (show_nat (n div 10)) \<noteq> CHR ''0''" by simp
    with False show ?thesis by (subst show_nat.simps) simp
  qed
qed

lemma scan_whole_show: "r = [] \<or> \<not> is_digit (hd r) \<Longrightarrow> scan_whole (show_nat n @ r) = Some (show_nat n, r)"
proof (cases "n = 0")
  case True
  then show ?thesis by (simp add: scan_whole_def show_nat.simps digit_char_zero)
next
  case False
  assume r: "r = [] \<or> \<not> is_digit (hd r)"
  obtain c cs where s: "show_nat n = c # cs" by (cases "show_nat n") auto
  with show_nat_digits [of n] show_nat_head [OF False] have c: "is_digit c" "c \<noteq> CHR ''0''" "\<forall>x \<in> set cs. is_digit x" by auto
  from r have "takeWhile is_digit r = []" "dropWhile is_digit r = r" by (cases r; simp)+
  with s c show ?thesis by (simp add: scan_whole_def takeWhile_append2 dropWhile_append2)
qed

lemma digit_not_sign: "is_digit c \<Longrightarrow> c \<noteq> CHR ''-''"
  by (auto simp: is_digit_def byte_of_def)

lemma show_nat_Cons: obtains c cs where "show_nat n = c # cs" "is_digit c" "c \<noteq> CHR ''-''"
  using show_nat_digits [of n] that digit_not_sign by (cases "show_nat n") auto

lemma scan_number_nat:
  assumes "r = [] \<or> \<not> is_digit (hd r)"
  shows "scan_number ((if neg then ''-'' else []) @ show_nat n @ r)
    = (let (dec, t') = scan_fraction r; (ex, t'') = scan_exponent t' in Some (number_value neg (show_nat n) dec ex, t''))"
proof -
  obtain c cs where "show_nat n = c # cs" "c \<noteq> CHR ''-''" by (rule show_nat_Cons)
  with scan_whole_show [OF assms, of n] show ?thesis by (simp add: scan_number_def)
qed

lemma scan_int: "ends_number r \<Longrightarrow> scan_number (show_int i @ r) = Some (JInt i, r)"
  using scan_number_nat [of r "i < 0" "nat \<bar>i\<bar>"]
  by (auto simp: show_int_def ends_number_def number_value_def scan_fraction_end scan_exponent_end)

text \<open>A float whose decimal form the printer writes out in full.\<close>

definition prints_exactly :: "rat \<Rightarrow> bool" where
  "prints_exactly q = rat_is_integer (q * 10 ^ 17)"

lemma digits_value_Cons: "digits_value (c # ds) = (byte_of c - 48) * 10 ^ length ds + digits_value ds"
proof (induction ds rule: rev_induct)
  case Nil
  then show ?case by (simp add: digits_value_def)
next
  case (snoc d ds)
  have "digits_value (c # ds @ [d]) = digits_value (c # ds) * 10 + (byte_of d - 48)"
    using digits_value_snoc [of "c # ds" d] by simp
  with snoc show ?case by (simp add: digits_value_snoc algebra_simps)
qed

lemma fraction_digits_value:
  assumes "0 \<le> r" "r < 1" "r * 10 ^ n = of_int k"
  shows "of_nat (digits_value (fraction_digits n r)) / 10 ^ length (fraction_digits n r) = (r :: rat)
    \<and> (\<forall>c \<in> set (fraction_digits n r). is_digit c)"
  using assms
proof (induction n arbitrary: r k)
  case 0
  then have "k = 0" using of_int_less_iff [of k 1, where 'a = rat] of_int_0_le_iff [of k, where 'a = rat] by simp
  with 0 show ?case by (simp add: digits_value_def)
next
  case (Suc n)
  define d where "d = \<lfloor>10 * r\<rfloor>"
  let ?r = "10 * r - of_int d"
  have d: "0 \<le> d" "d < 10" "0 \<le> ?r" "?r < 1" using Suc.prems floor_correct [of "10 * r"]
    by (auto simp: d_def floor_less_iff)
  then have n: "nat d < 10" by simp
  have k: "?r * 10 ^ n = of_int (k - d * 10 ^ n)" using Suc.prems(3) by (simp add: algebra_simps)
  have r: "r = (of_nat (nat d) + ?r) / 10" using d by (simp add: of_nat_nat)
  have digits: "fraction_digits (Suc n) r = digit_char (nat d) # (if ?r = 0 then [] else fraction_digits n ?r)"
    by (simp add: Let_def d_def)
  show ?case
  proof (cases "?r = 0")
    case True
    with digits n r show ?thesis by (simp add: digits_value_Cons digits_value_def)
  next
    case False
    let ?ds = "fraction_digits n ?r"
    from Suc.IH [OF d(3,4) k] have IH: "of_nat (digits_value ?ds) / 10 ^ length ?ds = ?r" "\<forall>c \<in> set ?ds. is_digit c" by auto
    have "of_nat (nat d * 10 ^ length ?ds + digits_value ?ds) / 10 ^ Suc (length ?ds)
        = (of_nat (nat d) + of_nat (digits_value ?ds) / 10 ^ length ?ds) / (10 :: rat)"
      by (simp add: field_simps)
    with IH r digits False n show ?thesis by (simp add: digits_value_Cons del: fraction_digits.simps)
  qed
qed

lemma fraction_digits_nonempty: "fraction_digits (Suc n) r \<noteq> []"
  by (simp add: Let_def)

lemma scan_fraction_digits:
  assumes "ends_number r" "ds \<noteq> []" "\<forall>c \<in> set ds. is_digit c"
  shows "scan_fraction (''.'' @ ds @ r) = (Some ds, r)"
proof -
  have "takeWhile is_digit r = []" "dropWhile is_digit r = r" using assms(1) by (cases r; simp add: ends_number_def)+
  with assms show ?thesis by (simp add: scan_fraction_def takeWhile_append2 dropWhile_append2)
qed

lemma scan_float:
  assumes "prints_exactly q" "ends_number r"
  shows "scan_number (float_repr (Fin q) @ r) = Some (JFloat (Fin q), r)"
proof -
  define i where "i = nat \<lfloor>\<bar>q\<bar>\<rfloor>"
  let ?f = "\<bar>q\<bar> - of_nat i"
  have i: "\<lfloor>\<bar>q\<bar>\<rfloor> = int i" by (simp add: i_def)
  then have f: "0 \<le> ?f" "?f < 1" using floor_correct [of "\<bar>q\<bar>"] by simp_all
  let ?ds = "fraction_digits 17 ?f"
  from assms(1) obtain k where "q * 10 ^ 17 = of_int k"
    unfolding prints_exactly_def using rat_is_integerD by blast
  then have "\<bar>q * 10 ^ 17\<bar> = of_int \<bar>k\<bar>" by simp
  then have "?f * 10 ^ 17 = of_int (\<bar>k\<bar> - int i * 10 ^ 17)" by (simp add: abs_mult left_diff_distrib)
  from fraction_digits_value [OF f this]
  have v: "of_nat (digits_value ?ds) / 10 ^ length ?ds = ?f" "\<forall>c \<in> set ?ds. is_digit c" by auto
  have ds: "?ds \<noteq> []" using fraction_digits_nonempty [of 16 ?f] by (simp add: eval_nat_numeral)
  have printed: "float_repr (Fin q) = (if q < 0 then ''-'' else []) @ show_nat i @ ''.'' @ ?ds"
    by (simp add: Let_def i show_int_def del: fraction_digits.simps)
  have "scan_number (float_repr (Fin q) @ r) = Some (number_value (q < 0) (show_nat i) (Some ?ds) None, r)"
    using scan_number_nat [of "''.'' @ ?ds @ r" "q < 0" i] scan_fraction_digits [OF assms(2) ds v(2)] assms(2)
    by (simp add: printed scan_exponent_end is_digit_def byte_of_def del: fraction_digits.simps float_repr.simps)
  with v(1) show ?thesis by (simp add: number_value_def abs_if del: float_repr.simps)
qed

subsection \<open>Values\<close>

definition is_space :: "char \<Rightarrow> bool" where
  "is_space c = (c \<in> {CHR '' '', CHR 0x09, CHR 0x0A, CHR 0x0D})"

definition skip_space :: "string \<Rightarrow> string" where
  "skip_space s = dropWhile is_space s"

definition literals :: "(string \<times> json) list" where
  "literals =
     [(''null'', JNull), (''true'', JBool True), (''false'', JBool False),
      (''NaN'', JFloat NaN), (''Infinity'', JFloat PosInf), (''-Infinity'', JFloat NegInf)]"

definition starts_with :: "string \<Rightarrow> string \<Rightarrow> bool" where
  "starts_with s p = (take (length p) s = p)"

definition scan_literal :: "string \<Rightarrow> (json \<times> string) option" where
  "scan_literal s =
     (case find (\<lambda>pv. starts_with s (fst pv)) literals of
        Some (p, v) \<Rightarrow> Some (v, drop (length p) s)
      | None \<Rightarrow> scan_number s)"

text \<open>A value at the head of a text, the items of a list and the members of an object up to their closing
  bracket, each with the rest of the text. The test that a rest is shorter always holds; it shows that the
  reading ends.\<close>

function (sequential) json_value :: "string \<Rightarrow> (json \<times> string) option"
  and json_items :: "string \<Rightarrow> (json list \<times> string) option"
  and json_members :: "string \<Rightarrow> (pydict \<times> string) option" where
  "json_value s =
     (case s of [] \<Rightarrow> None
      | c # r \<Rightarrow>
          if c = quote_char
          then (case scan_string r of None \<Rightarrow> None | Some (t, u) \<Rightarrow> Some (JStr t, u))
          else if c = CHR ''['' then
            (if skip_space r \<noteq> [] \<and> hd (skip_space r) = CHR '']'' then Some (JList [], tl (skip_space r))
             else if length (skip_space r) < length s
             then (case json_items (skip_space r) of None \<Rightarrow> None | Some (xs, u) \<Rightarrow> Some (JList xs, u)) else None)
          else if c = CHR ''{'' then
            (if skip_space r \<noteq> [] \<and> hd (skip_space r) = CHR ''}'' then Some (JDict [], tl (skip_space r))
             else if length (skip_space r) < length s
             then (case json_members (skip_space r) of None \<Rightarrow> None | Some (d, u) \<Rightarrow> Some (JDict d, u)) else None)
          else scan_literal s)"
| "json_items s =
     (case json_value s of None \<Rightarrow> None
      | Some (v, r) \<Rightarrow>
          (case skip_space r of [] \<Rightarrow> None
           | c # u \<Rightarrow>
               if c = CHR '','' then
                 (if length (skip_space u) < length s
                  then (case json_items (skip_space u) of None \<Rightarrow> None | Some (xs, t) \<Rightarrow> Some (v # xs, t)) else None)
               else if c = CHR '']'' then Some ([v], u) else None))"
| "json_members s =
     (case s of [] \<Rightarrow> None
      | q # s' \<Rightarrow>
          if q \<noteq> quote_char then None
          else (case scan_string s' of None \<Rightarrow> None
                | Some (k, r) \<Rightarrow>
                    (case skip_space r of [] \<Rightarrow> None
                     | c # r' \<Rightarrow>
                         if c \<noteq> CHR '':'' then None
                         else if length (skip_space r') < length s
                         then (case json_value (skip_space r') of None \<Rightarrow> None
                               | Some (v, u) \<Rightarrow>
                                   (case skip_space u of [] \<Rightarrow> None
                                    | b # u' \<Rightarrow>
                                        if b = CHR '','' then
                                          (if length (skip_space u') < length s
                                           then (case json_members (skip_space u') of None \<Rightarrow> None
                                                 | Some (d, t) \<Rightarrow> Some ((k, v) # d, t)) else None)
                                        else if b = CHR ''}'' then Some ([(k, v)], u') else None))
                         else None)))"
  by pat_completeness auto
termination
  by (relation "measure (\<lambda>x. case x of Inl s \<Rightarrow> 3 * length s
       | Inr y \<Rightarrow> (case y of Inl s \<Rightarrow> 3 * length s + 1 | Inr s \<Rightarrow> 3 * length s + 1))") auto

declare json_value.simps [simp del] json_items.simps [simp del] json_members.simps [simp del]

text \<open>The value of a whole text, members kept as written, and the dicts made of them.\<close>

definition json_pairs :: "string \<Rightarrow> json option" where
  "json_pairs s =
     (case json_value (skip_space s) of None \<Rightarrow> None
      | Some (v, r) \<Rightarrow> if skip_space r = [] then Some v else None)"

fun as_dicts :: "json \<Rightarrow> json" where
  "as_dicts (JList xs) = JList (map as_dicts xs)"
| "as_dicts (JDict d) = JDict (foldl (\<lambda>m kv. dput (fst kv) (snd kv) m) [] (map (\<lambda>kv. (fst kv, as_dicts (snd kv))) d))"
| "as_dicts v = v"

definition json_loads :: "string \<Rightarrow> json option" where
  "json_loads s = map_option as_dicts (json_pairs s)"

subsection \<open>The round trip\<close>

text \<open>The values whose text is read back as they are: dicts without repeated keys, floats the printer writes in
  full and, under \<open>ensure_ascii\<close>, strings that are UTF-8.\<close>

fun storable :: "bool \<Rightarrow> json \<Rightarrow> bool" where
  "storable ascii (JFloat f) = (case f of Fin q \<Rightarrow> prints_exactly q | _ \<Rightarrow> True)"
| "storable ascii (JStr s) = text_ok ascii s"
| "storable ascii (JList xs) = (\<forall>x \<in> set xs. storable ascii x)"
| "storable ascii (JDict d) =
     (distinct (map fst d) \<and> (\<forall>kv \<in> set d. text_ok ascii (fst kv) \<and> storable ascii (snd kv)))"
| "storable ascii _ = True"

text \<open>Where a value begins.\<close>

definition value_start :: "string \<Rightarrow> bool" where
  "value_start s = (s \<noteq> [] \<and> \<not> is_space (hd s) \<and> hd s \<noteq> CHR '']'' \<and> hd s \<noteq> CHR ''}'')"

definition number_start :: "string \<Rightarrow> bool" where
  "number_start s = (s \<noteq> [] \<and> (is_digit (hd s) \<or> (hd s = CHR ''-'' \<and> tl s \<noteq> [] \<and> is_digit (hd (tl s)))))"

lemma skip_space_start [simp]: "value_start s \<Longrightarrow> skip_space (s @ r) = s @ r"
  by (cases s) (auto simp: value_start_def skip_space_def)

lemma skip_spaces [simp]: "(\<And>c. c \<in> set ws \<Longrightarrow> is_space c) \<Longrightarrow> skip_space (ws @ s) = skip_space s"
  by (simp add: skip_space_def dropWhile_append2)

lemma skip_Cons [simp]: "\<not> is_space c \<Longrightarrow> skip_space (c # s) = c # s"
  by (simp add: skip_space_def)

lemma digit_byte: "is_digit c \<Longrightarrow> 48 \<le> byte_of c \<and> byte_of c < 58"
  by (simp add: is_digit_def)

lemma digit_chars: "is_digit c \<Longrightarrow> c \<notin> {CHR ''n'', CHR ''t'', CHR ''f'', CHR ''N'', CHR ''I'', CHR ''-'', CHR ''['', CHR '']'',
    CHR ''{'', CHR ''}'', quote_char, CHR '' '', CHR 0x09, CHR 0x0A, CHR 0x0D}"
  by (auto dest!: digit_byte simp: byte_of_def)

lemma value_of_number:
  assumes "number_start s"
  shows "json_value (s @ r) = scan_number (s @ r) \<and> value_start s"
proof -
  from assms obtain c t where s: "s = c # t" by (cases s) (auto simp: number_start_def)
  with assms have c: "is_digit c \<or> (c = CHR ''-'' \<and> t \<noteq> [] \<and> is_digit (hd t))" by (simp add: number_start_def)
  have "scan_literal (s @ r) = scan_number (s @ r)"
    using c by (cases t) (auto simp: s scan_literal_def literals_def starts_with_def dest!: digit_chars)
  with c s show ?thesis
    by (subst json_value.simps) (auto simp: value_start_def is_space_def dest!: digit_chars)
qed

lemma number_start_digit: "is_digit c \<Longrightarrow> number_start (c # s)" "is_digit c \<Longrightarrow> number_start (CHR ''-'' # c # s)"
  by (simp_all add: number_start_def)

lemma number_start_int: "number_start (show_int i)"
proof -
  obtain c cs where "show_nat (nat \<bar>i\<bar>) = c # cs" "is_digit c" by (rule show_nat_Cons)
  then show ?thesis by (auto simp: show_int_def number_start_digit)
qed

lemma number_start_float: "number_start (float_repr (Fin q))"
proof -
  obtain c cs where "show_nat (nat \<lfloor>\<bar>q\<bar>\<rfloor>) = c # cs" "is_digit c" by (rule show_nat_Cons)
  then show ?thesis by (auto simp: show_int_def Let_def number_start_digit simp del: fraction_digits.simps)
qed

text \<open>One text between two separators.\<close>

definition reads_back :: "string \<Rightarrow> json \<Rightarrow> bool" where
  "reads_back s v = (value_start s \<and> (\<forall>r. ends_number r \<longrightarrow> json_value (s @ r) = Some (v, r)))"

definition separator :: "char \<Rightarrow> string \<Rightarrow> bool" where
  "separator c sep = (\<exists>ws. sep = c # ws \<and> (\<forall>w \<in> set ws. is_space w))"

lemma ends_separator [simp]:
  "ends_number (CHR '','' # r)" "ends_number (CHR '']'' # r)" "ends_number (CHR ''}'' # r)"
  by (simp_all add: ends_number_def is_digit_def byte_of_def)

lemma space_chars [simp]:
  "\<not> is_space (CHR '','')" "\<not> is_space (CHR '']'')" "\<not> is_space (CHR ''}'')" "\<not> is_space (CHR '':'')" "\<not> is_space quote_char"
  by (simp_all add: is_space_def)

lemma json_items_read:
  assumes "separator (CHR '','') isep" and "xs \<noteq> []" and "list_all2 reads_back ts xs"
  shows "json_items (join_with isep ts @ CHR '']'' # r) = Some (xs, r)"
  using assms(2-3)
proof (induction xs arbitrary: ts)
  case Nil
  then show ?case by simp
next
  case (Cons x xs)
  from Cons.prems obtain t us where ts: "ts = t # us" "reads_back t x" "list_all2 reads_back us xs"
    by (auto simp: list_all2_Cons2)
  show ?case
  proof (cases xs)
    case Nil
    with ts show ?thesis by (subst json_items.simps) (simp add: reads_back_def)
  next
    case (Cons y ys)
    with ts obtain u vs where us: "us = u # vs" "reads_back u y" by (auto simp: list_all2_Cons2)
    from assms(1) obtain ws where sep: "isep = CHR '','' # ws" "\<forall>w \<in> set ws. is_space w" by (auto simp: separator_def)
    let ?rest = "join_with isep us @ CHR '']'' # r"
    have start: "skip_space ?rest = ?rest"
      using us(2) skip_space_start [of u "(case vs of [] \<Rightarrow> [] | _ \<Rightarrow> isep @ join_with isep vs) @ CHR '']'' # r"]
      by (cases vs) (simp_all add: us reads_back_def)
    have "json_items ?rest = Some (xs, r)" using Cons.IH ts(3) Cons by simp
    with ts(2) us(1) sep start show ?thesis
      by (subst json_items.simps) (simp add: ts(1) reads_back_def)
  qed
qed

definition reads_member :: "bool \<Rightarrow> string \<Rightarrow> string \<Rightarrow> string \<times> json \<Rightarrow> bool" where
  "reads_member ascii ksep t kv =
     (\<exists>u. t = json_string ascii (fst kv) @ ksep @ u \<and> text_ok ascii (fst kv) \<and> reads_back u (snd kv))"

lemma member_start: "reads_member ascii ksep t kv \<Longrightarrow> \<exists>s. t = quote_char # s"
  by (auto simp: reads_member_def json_string_def)

lemma json_members_read:
  assumes "separator (CHR '','') isep" and "separator (CHR '':'') ksep" and "d \<noteq> []"
    and "list_all2 (reads_member ascii ksep) ts d"
  shows "json_members (join_with isep ts @ CHR ''}'' # r) = Some (d, r)"
  using assms(3-4)
proof (induction d arbitrary: ts)
  case Nil
  then show ?case by simp
next
  case (Cons kv d)
  from Cons.prems obtain t us where ts: "ts = t # us" "reads_member ascii ksep t kv" "list_all2 (reads_member ascii ksep) us d"
    by (auto simp: list_all2_Cons2)
  obtain k v where kv: "kv = (k, v)" by (cases kv)
  from ts(2) kv obtain u where t: "t = json_string ascii k @ ksep @ u" "text_ok ascii k" "reads_back u v"
    by (auto simp: reads_member_def)
  obtain b where b: "json_string ascii k = quote_char # b" "\<And>r. scan_string (b @ r) = Some (k, r)"
    using json_string_body [OF t(2)] by blast
  from assms(2) obtain kws where ks: "ksep = CHR '':'' # kws" "\<forall>w \<in> set kws. is_space w" by (auto simp: separator_def)
  show ?case
  proof (cases d)
    case Nil
    with ts(1) b t ks ts(3) kv show ?thesis
      by (subst json_members.simps) (simp add: reads_back_def)
  next
    case (Cons e ds)
    with ts obtain w vs where us: "us = w # vs" "reads_member ascii ksep w e" by (auto simp: list_all2_Cons2)
    from assms(1) obtain ws where sep: "isep = CHR '','' # ws" "\<forall>w \<in> set ws. is_space w" by (auto simp: separator_def)
    let ?rest = "join_with isep us @ CHR ''}'' # r"
    from member_start [OF us(2)] obtain q where "w = quote_char # q" by blast
    then have start: "skip_space ?rest = ?rest" by (cases vs) (simp_all add: us)
    have "json_members ?rest = Some (d, r)" using Cons.IH ts(3) Cons by simp
    with ts(1) b t ks us(1) sep start kv Cons show ?thesis
      by (subst json_members.simps) (simp add: reads_back_def)
  qed
qed

lemma value_literals:
  "json_value (''null'' @ r) = Some (JNull, r)" "json_value (''true'' @ r) = Some (JBool True, r)"
  "json_value (''false'' @ r) = Some (JBool False, r)" "json_value (''NaN'' @ r) = Some (JFloat NaN, r)"
  "json_value (''Infinity'' @ r) = Some (JFloat PosInf, r)" "json_value (''-Infinity'' @ r) = Some (JFloat NegInf, r)"
  by (subst json_value.simps, simp add: scan_literal_def literals_def starts_with_def)+

lemma dumps_reads_back:
  assumes "separator (CHR '','') isep" and "separator (CHR '':'') ksep"
  shows "storable ascii v \<Longrightarrow> reads_back (json_dumps ascii isep ksep v) v"
proof (induction v)
  case JNull
  then show ?case using value_literals by (simp add: reads_back_def value_start_def is_space_def)
next
  case (JBool b)
  then show ?case using value_literals by (simp add: reads_back_def value_start_def is_space_def)
next
  case (JInt i)
  then show ?case using value_of_number [OF number_start_int [of i]] by (simp add: reads_back_def scan_int)
next
  case (JFloat f)
  then show ?case
  proof (cases f)
    case (Fin q)
    with JFloat show ?thesis
      using value_of_number [OF number_start_float [of q]] scan_float [of q] by (simp add: reads_back_def del: float_repr.simps)
  qed (use value_literals in \<open>simp_all add: reads_back_def value_start_def is_space_def\<close>)
next
  case (JStr s)
  then have "text_ok ascii s" by simp
  then obtain b where b: "json_string ascii s = quote_char # b" "\<And>r. scan_string (b @ r) = Some (s, r)"
    by (rule json_string_body) blast
  then have "json_value (json_string ascii s @ r) = Some (JStr s, r)" for r
    by (subst json_value.simps) simp
  with b show ?case by (simp add: reads_back_def value_start_def)
next
  case (JList xs)
  let ?t = "json_dumps ascii isep ksep"
  have reads: "json_value (?t (JList xs) @ r) = Some (JList xs, r)" for r
  proof (cases "xs = []")
    case True
    then show ?thesis by (subst json_value.simps) simp
  next
    case False
    have all: "list_all2 reads_back (map ?t xs) xs" using JList by (auto simp: list_all2_conv_all_nth)
    with False obtain u vs where u: "map ?t xs = u # vs" "value_start u" by (cases xs) (auto simp: reads_back_def)
    let ?rest = "join_with isep (map ?t xs) @ CHR '']'' # r"
    have "skip_space ?rest = ?rest \<and> hd ?rest \<noteq> CHR '']''"
      using u(2) skip_space_start [of u "(case vs of [] \<Rightarrow> [] | _ \<Rightarrow> isep @ join_with isep vs) @ CHR '']'' # r"]
      by (cases vs) (auto simp: u(1) value_start_def)
    with json_items_read [OF assms(1) False all, of r] show ?thesis by (subst json_value.simps) simp
  qed
  then show ?case by (simp add: reads_back_def value_start_def is_space_def)
next
  case (JDict d)
  let ?t = "json_dumps ascii isep ksep"
  let ?m = "\<lambda>kv. json_string ascii (fst kv) @ ksep @ ?t (snd kv)"
  have reads: "json_value (?t (JDict d) @ r) = Some (JDict d, r)" for r
  proof (cases "d = []")
    case True
    then show ?thesis by (subst json_value.simps) simp
  next
    case False
    have "reads_member ascii ksep (?m kv) kv" if "kv \<in> set d" for kv
    proof -
      obtain k v where kv: "kv = (k, v)" by (cases kv)
      with JDict.prems that have "text_ok ascii k" "storable ascii v" by auto
      with JDict.IH [of "(k, v)" v] that kv show ?thesis by (auto simp: reads_member_def)
    qed
    then have all: "list_all2 (reads_member ascii ksep) (map ?m d) d" by (auto simp: list_all2_conv_all_nth)
    with False obtain u vs where u: "map ?m d = (quote_char # u) # vs"
      using member_start by (cases d) (auto, blast)
    let ?rest = "join_with isep (map ?m d) @ CHR ''}'' # r"
    have "skip_space ?rest = ?rest \<and> hd ?rest \<noteq> CHR ''}''" by (cases vs) (simp_all add: u)
    with json_members_read [OF assms False all, of r] show ?thesis by (subst json_value.simps) simp
  qed
  then show ?case by (simp add: reads_back_def value_start_def is_space_def)
qed

lemma foldl_dput:
  "distinct (map fst (m @ d)) \<Longrightarrow> foldl (\<lambda>m kv. dput (fst kv) (snd kv) m) m d = m @ d"
proof (induction d arbitrary: m)
  case (Cons kv d)
  then have "fst kv \<notin> fst ` set m" by auto
  then have "dput (fst kv) (snd kv) m = m @ [kv]"
    by (induction m) (auto simp: dput_def)
  with Cons.IH [of "m @ [kv]"] Cons.prems show ?case by simp
qed simp

lemma as_dicts_storable: "storable ascii v \<Longrightarrow> as_dicts v = v"
proof (induction v)
  case (JList xs)
  then have "map as_dicts xs = xs" by (induction xs) auto
  then show ?case by simp
next
  case (JDict d)
  have "map (\<lambda>kv. (fst kv, as_dicts (snd kv))) d = d"
  proof (rule map_idI)
    fix kv assume "kv \<in> set d"
    with JDict.IH [of kv "snd kv"] JDict.prems show "(fst kv, as_dicts (snd kv)) = kv" by (cases kv) auto
  qed
  with JDict.prems foldl_dput [of "[]" d] show ?case by simp
qed simp_all

text \<open>Reading inverts writing: as members, and as dicts.\<close>

lemma space_ends: "is_space c \<Longrightarrow> ends_number (c # s)"
  using digit_chars [of c] by (auto simp: ends_number_def is_space_def)

lemma pairs_dumps:
  assumes "separator (CHR '','') isep" "separator (CHR '':'') ksep" "storable ascii v" "\<forall>c \<in> set ws. is_space c"
  shows "json_pairs (json_dumps ascii isep ksep v @ ws) = Some v"
proof -
  have "reads_back (json_dumps ascii isep ksep v) v" using assms(1-3) by (rule dumps_reads_back)
  moreover from assms(4) have "ends_number ws" by (cases ws) (simp_all add: space_ends, simp add: ends_number_def)
  moreover from assms(4) have "skip_space ws = []" by (simp add: skip_space_def)
  ultimately show ?thesis by (simp add: json_pairs_def reads_back_def)
qed

lemma loads_dumps: "storable True v \<Longrightarrow> json_loads (json_dumps_default v) = Some v"
  using pairs_dumps [of "'', ''" "'': ''" True v "[]"] as_dicts_storable [of True v]
  by (simp add: json_loads_def json_dumps_default_def separator_def is_space_def)

subsection \<open>ASCII texts\<close>

definition ascii_text :: "string \<Rightarrow> bool" where
  "ascii_text s = (\<forall>c \<in> set s. byte_of c < 128)"

lemma ascii_text_simps [simp]:
  "ascii_text []" "ascii_text (c # s) \<longleftrightarrow> byte_of c < 128 \<and> ascii_text s" "ascii_text (s @ t) \<longleftrightarrow> ascii_text s \<and> ascii_text t"
  by (auto simp: ascii_text_def)

lemma ascii_text_utf8: "ascii_text s \<Longrightarrow> utf8_ok s"
  by (auto simp: ascii_text_def intro: utf8_ok_ascii)

lemma ascii_digits: "\<forall>c \<in> set s. is_digit c \<Longrightarrow> ascii_text s"
  by (auto simp: ascii_text_def is_digit_def)

lemma ascii_join: "ascii_text sep \<Longrightarrow> (\<And>x. x \<in> set xs \<Longrightarrow> ascii_text x) \<Longrightarrow> ascii_text (join_with sep xs)"
  by (induction sep xs rule: join_with.induct) auto

lemma byte_hex_digit: "d < 16 \<Longrightarrow> byte_of (hex_digit d) < 128"
  by (simp add: hex_digit_def byte_of_char_of)

lemma ascii_hex4 [simp]: "ascii_text (hex4 n)"
  by (simp add: hex4_def hex2_def byte_hex_digit)

lemma byte_text_chars [simp]: "byte_of quote_char = 34" "byte_of backslash = 92" "byte_of (CHR ''u'') = 117"
  by (simp_all add: byte_of_def)

lemma ascii_json_u: "ascii_text (json_u cp)"
  by (simp add: json_u_def)

lemma ascii_escape: "byte_of c < 128 \<Longrightarrow> ascii_text (json_escape c)"
  by (auto simp: json_escape_def byte_of_def)

lemma ascii_escaped: "utf8_ok s \<Longrightarrow> ascii_text (escape_ascii s)"
proof (induction s rule: utf8_ok.induct)
  case (1 s)
  show ?case
  proof (cases "s = []")
    case False
    with utf8_ok_Cons "1.prems" obtain cp t
      where s: "utf8_next s = Some (cp, t)" "s = utf8_encode cp @ t" "is_scalar cp" "utf8_ok t" by blast
    have "ascii_text (escape_ascii t)" using "1.IH" [OF s(1) refl s(4)] .
    moreover have "cp < 127 \<Longrightarrow> ascii_text (json_escape (char_of cp))" by (simp add: ascii_escape byte_of_char_of)
    ultimately show ?thesis unfolding s(2) escape_ascii_encode [OF s(3)] by (simp add: ascii_json_u)
  qed simp
qed

lemma ascii_string: "text_ok True s \<Longrightarrow> ascii_text (json_string True s)"
  by (simp add: json_string_def text_ok_def ascii_escaped)

lemma ascii_show_int: "ascii_text (show_int i)"
  using ascii_digits [OF show_nat_digits] by (simp add: show_int_def byte_of_def)

lemma ascii_float:
  assumes "prints_exactly q"
  shows "ascii_text (float_repr (Fin q))"
proof -
  define i where "i = nat \<lfloor>\<bar>q\<bar>\<rfloor>"
  let ?f = "\<bar>q\<bar> - of_nat i"
  have i: "\<lfloor>\<bar>q\<bar>\<rfloor> = int i" by (simp add: i_def)
  then have f: "0 \<le> ?f" "?f < 1" using floor_correct [of "\<bar>q\<bar>"] by simp_all
  from assms obtain k where "q * 10 ^ 17 = of_int k" unfolding prints_exactly_def using rat_is_integerD by blast
  then have "\<bar>q * 10 ^ 17\<bar> = of_int \<bar>k\<bar>" by simp
  then have "?f * 10 ^ 17 = of_int (\<bar>k\<bar> - int i * 10 ^ 17)" by (simp add: abs_mult left_diff_distrib)
  from fraction_digits_value [OF f this] have "ascii_text (fraction_digits 17 ?f)" by (blast intro: ascii_digits)
  then show ?thesis using ascii_show_int [of "int i"] by (simp add: Let_def i byte_of_def del: fraction_digits.simps)
qed

lemma ascii_dumps:
  assumes "ascii_text isep" "ascii_text ksep"
  shows "storable True v \<Longrightarrow> ascii_text (json_dumps True isep ksep v)"
proof (induction v)
  case (JFloat f)
  then show ?case using ascii_float by (cases f) (simp_all add: byte_of_def del: float_repr.simps)
next
  case (JList xs)
  then show ?case using assms by (auto simp: byte_of_def intro!: ascii_join)
next
  case (JDict d)
  have "ascii_text (json_string True (fst kv) @ ksep @ json_dumps True isep ksep (snd kv))" if "kv \<in> set d" for kv
  proof -
    obtain k v where kv: "kv = (k, v)" by (cases kv)
    with JDict.prems that have "text_ok True k" "storable True v" by auto
    with JDict.IH [of "(k, v)" v] that kv assms(2) ascii_string show ?thesis by auto
  qed
  then show ?case using assms by (auto simp: byte_of_def intro!: ascii_join)
qed (simp_all add: ascii_show_int ascii_string byte_of_def)

lemma utf8_dumps_default: "storable True v \<Longrightarrow> utf8_ok (json_dumps_default v)"
  unfolding json_dumps_default_def by (intro ascii_text_utf8 ascii_dumps) (simp_all add: byte_of_def)

end
