(* ===== verification/PyText.thy ===== *)
theory PyText
  imports Prelude "HOL-Library.Sublist"
begin

section \<open>\<open>str.strip\<close>\<close>

text \<open>The characters \<open>str.strip\<close> removes, in UTF-8.\<close>

definition py_spaces :: "string list" where
  "py_spaces = map (\<lambda>n. [char_of (n::nat)]) [9, 10, 11, 12, 13, 28, 29, 30, 31, 32]
     @ map (map (char_of :: nat \<Rightarrow> char))
        ([[0xC2, 0x85], [0xC2, 0xA0], [0xE1, 0x9A, 0x80]] @ map (\<lambda>n. [0xE2, 0x80, n]) [0x80..<0x8B]
         @ [[0xE2, 0x80, 0xA8], [0xE2, 0x80, 0xA9], [0xE2, 0x80, 0xAF], [0xE2, 0x81, 0x9F], [0xE3, 0x80, 0x80]])"

function drop_spaces :: "string list \<Rightarrow> string \<Rightarrow> string" where
  "drop_spaces spaces s =
     (case find (\<lambda>w. w \<noteq> [] \<and> prefix w s) spaces of
        None \<Rightarrow> s | Some w \<Rightarrow> drop_spaces spaces (drop (length w) s))"
  by pat_completeness auto

termination drop_spaces
  by (relation "measure (\<lambda>(_, s). length s)") (auto dest!: find_SomeD simp: prefix_def)

declare drop_spaces.simps [simp del]

definition py_strip :: "string \<Rightarrow> string" where
  "py_strip s = rev (drop_spaces (map rev py_spaces) (rev (drop_spaces py_spaces s)))"

end
