(* ===== verification/OwnerRecord.thy ===== *)
theory OwnerRecord
  imports JsonParse PyText Errors
begin

section \<open>Who holds a file lock\<close>

text \<open>
  \<open>stores/_file_lock_identity.py\<close>: the boot and the PID namespace a process runs in, and when two of
  them are one realm. \<open>stores/_file_owner_lock.py\<close>, its records: what an owner writes into its lock
  directory and how the others read it. The main lemma: an owner's record is read back as it was
  (\<open>parse_payload\<close>), and no shorter piece of it is read as anything (\<open>parse_piece\<close>).
\<close>

subsection \<open>Identities\<close>

record identity =
  id_platform :: string
  id_boot :: string
  id_namespace :: "string option"

definition same_identity :: "identity \<Rightarrow> identity \<Rightarrow> bool" where
  "same_identity a b = (id_namespace a \<noteq> None \<and> id_namespace b \<noteq> None \<and> a = b)"

definition is_hex_digit :: "char \<Rightarrow> bool" where
  "is_hex_digit c = (hex_val c \<noteq> None)"

text \<open>\<open>_UUID.fullmatch\<close>: groups of 8, 4, 4, 4 and 12 hexadecimal digits.\<close>

fun hex_groups :: "nat list \<Rightarrow> string \<Rightarrow> bool" where
  "hex_groups [] s = (s = [])"
| "hex_groups [n] s = (length s = n \<and> list_all is_hex_digit s)"
| "hex_groups (n # m # ns) s =
     (n < length s \<and> list_all is_hex_digit (take n s) \<and> s ! n = CHR ''-'' \<and> hex_groups (m # ns) (drop (Suc n) s))"

definition is_uuid :: "string \<Rightarrow> bool" where
  "is_uuid s = hex_groups [8, 4, 4, 4, 12] s"

definition ascii_lower :: "char \<Rightarrow> char" where
  "ascii_lower c = (if 65 \<le> byte_of c \<and> byte_of c < 91 then char_of (byte_of c + 32) else c)"

text \<open>\<open>re.fullmatch(r"pid:\[[0-9]+\]", s)\<close>\<close>

definition is_pid_namespace :: "string \<Rightarrow> bool" where
  "is_pid_namespace s =
     (let digits = takeWhile is_digit (drop 5 s)
      in take 5 s = ''pid:['' \<and> digits \<noteq> [] \<and> drop (5 + length digits) s = '']'')"

text \<open>\<open>_read_native_identity\<close>: what the operating system answers is an argument, \<open>None\<close> where asking it fails.
  The boot text is the file of Linux or the output of \<open>sysctl\<close>, the realm the link of \<open>/proc/self/ns/pid\<close>.\<close>

definition read_native_identity ::
  "string \<Rightarrow> (string \<times> string option) option \<Rightarrow> string option \<Rightarrow> string option \<Rightarrow> identity option" where
  "read_native_identity platform windows boot realm =
     (if platform = ''win32'' then
        map_option (\<lambda>(b, ns). \<lparr> id_platform = ''win32'', id_boot = b, id_namespace = ns \<rparr>) windows
      else if platform = ''linux'' then
        (case map_option py_strip boot of None \<Rightarrow> None
         | Some b \<Rightarrow> if \<not> is_uuid b then None
             else Some \<lparr> id_platform = ''linux'', id_boot = map ascii_lower b,
                     id_namespace = (case realm of None \<Rightarrow> None | Some c \<Rightarrow> if is_pid_namespace c then Some c else None) \<rparr>)
      else if platform = ''darwin'' then
        (case map_option py_strip boot of None \<Rightarrow> None
         | Some b \<Rightarrow> if \<not> is_uuid b then None
             else Some \<lparr> id_platform = ''darwin'', id_boot = map ascii_lower b, id_namespace = Some ''darwin:kernel'' \<rparr>)
      else None)"

text \<open>The cache of the process: \<open>_established\<close> and the variables beside it. The clock readings are those the
  code takes, in order.\<close>

record identity_cache =
  ic_established :: "identity option"
  ic_pid :: "int option"
  ic_retry_at :: rat
  ic_definitive :: bool
  ic_duration_ms :: rat

definition identity_cache_start :: identity_cache where
  "identity_cache_start =
     \<lparr> ic_established = None, ic_pid = None, ic_retry_at = 0, ic_definitive = False, ic_duration_ms = 0 \<rparr>"

definition samples_again :: "int \<Rightarrow> rat \<Rightarrow> identity_cache \<Rightarrow> bool" where
  "samples_again pid now c = (ic_pid c \<noteq> Some pid \<or> (\<not> ic_definitive c \<and> ic_retry_at c \<le> now))"

definition is_definitive :: "identity option \<Rightarrow> bool" where
  "is_definitive i = (case i of None \<Rightarrow> False | Some x \<Rightarrow> id_namespace x \<noteq> None \<or> id_platform x = ''win32'')"

definition native_identity ::
  "int \<Rightarrow> identity option \<Rightarrow> rat \<Rightarrow> rat \<Rightarrow> rat \<Rightarrow> rat \<Rightarrow> identity_cache \<Rightarrow> identity option \<times> identity_cache" where
  "native_identity pid sample now start done_at after c =
     (let c' = (if samples_again pid now c
                then \<lparr> ic_established = sample, ic_pid = Some pid, ic_retry_at = after + 60,
                       ic_definitive = is_definitive sample, ic_duration_ms = (done_at - start) * 1000 \<rparr>
                else c)
      in (ic_established c', c'))"

definition identity_status :: "int \<Rightarrow> rat \<Rightarrow> identity_cache \<Rightarrow> pydict" where
  "identity_status pid now c =
     (let sampled = (ic_pid c = Some pid);
          available = (sampled \<and> (case ic_established c of None \<Rightarrow> False | Some i \<Rightarrow> id_namespace i \<noteq> None))
      in [(''sampled'', JBool sampled), (''recovery_available'', JBool available),
          (''definitive'', JBool (sampled \<and> ic_definitive c)),
          (''retry_after_ms'', if \<not> sampled \<or> ic_definitive c then JNull
             else JFloat (pf_max (Fin 0) (Fin ((ic_retry_at c - now) * 1000)))),
          (''sample_duration_ms'', JFloat (if sampled then Fin (ic_duration_ms c) else Fin 0)),
          (''code'', if sampled \<and> \<not> available then JStr ''file_lock_identity_unavailable'' else JNull)])"

text \<open>A definitive identity is sampled once in the life of a process.\<close>

lemma definitive_stays:
  assumes "ic_pid c = Some pid" "ic_definitive c"
  shows "native_identity pid sample now start done_at after c = (ic_established c, c)"
  using assms by (simp add: native_identity_def samples_again_def)

subsection \<open>Owner records\<close>

record lock_owner =
  ow_pid :: int
  ow_identity :: identity
  ow_nonce :: string
  ow_released :: bool
  ow_expires_at :: int

definition is_lower_hex :: "char \<Rightarrow> bool" where
  "is_lower_hex c = (is_digit c \<or> (97 \<le> byte_of c \<and> byte_of c < 103))"

definition is_nonce :: "string \<Rightarrow> bool" where
  "is_nonce n = (length n = 32 \<and> list_all is_lower_hex n)"

text \<open>\<open>_name\<close>, and \<open>_OWNER.fullmatch\<close> with its group.\<close>

definition owner_file :: "string \<Rightarrow> string" where
  "owner_file nonce = ''owner-'' @ nonce @ ''.json''"

definition release_file :: "string \<Rightarrow> string" where
  "release_file nonce = ''owner-'' @ nonce @ ''.release.tmp''"

definition owner_match :: "string \<Rightarrow> string option" where
  "owner_match name =
     (let n = take 32 (drop 6 name) in if is_nonce n \<and> name = owner_file n then Some n else None)"

definition opt_text :: "string option \<Rightarrow> json" where
  "opt_text x = (case x of None \<Rightarrow> JNull | Some s \<Rightarrow> JStr s)"

definition lock_identity_doc :: "identity \<Rightarrow> pydict" where
  "lock_identity_doc i =
     [(''platform'', JStr (id_platform i)), (''boot_id'', JStr (id_boot i)), (''pid_namespace'', opt_text (id_namespace i))]"

definition owner_doc :: "lock_owner \<Rightarrow> pydict" where
  "owner_doc w =
     [(''version'', JInt 2), (''pid'', JInt (ow_pid w)), (''identity'', JDict (lock_identity_doc (ow_identity w))),
      (''nonce'', JStr (ow_nonce w)), (''released'', JBool (ow_released w)), (''expires_at'', JInt (ow_expires_at w))]"

definition owner_payload :: "lock_owner \<Rightarrow> string" where
  "owner_payload w = json_dumps False '','' '':'' (JDict (owner_doc w)) @ [CHR 0x0A]"

text \<open>What the hooks of \<open>json.loads\<close> refuse: a repeated name in any object, any number with a point or an
  exponent, and the constants.\<close>

fun hooks_refuse :: "json \<Rightarrow> bool" where
  "hooks_refuse (JFloat _) = True"
| "hooks_refuse (JList xs) = (\<exists>x \<in> set xs. hooks_refuse x)"
| "hooks_refuse (JDict d) = (\<not> distinct (map fst d) \<or> (\<exists>kv \<in> set d. hooks_refuse (snd kv)))"
| "hooks_refuse _ = False"

definition is_bounded :: "json \<Rightarrow> bool" where
  "is_bounded v = (case v of JStr s \<Rightarrow> utf8_ok s \<and> s \<noteq> [] \<and> length s \<le> 256 | _ \<Rightarrow> False)"

definition identity_of :: "json \<Rightarrow> identity option" where
  "identity_of v =
     (case v of
        JDict d \<Rightarrow>
          (if set (map fst d) = {''platform'', ''boot_id'', ''pid_namespace''}
              \<and> dget d ''platform'' \<in> {JStr ''linux'', JStr ''darwin'', JStr ''win32''}
              \<and> is_bounded (dget d ''boot_id'')
              \<and> (dget d ''pid_namespace'' = JNull \<or> is_bounded (dget d ''pid_namespace''))
           then (case (dget d ''platform'', dget d ''boot_id'') of
                   (JStr p, JStr b) \<Rightarrow>
                     Some \<lparr> id_platform = p, id_boot = b, id_namespace = as_str (dget d ''pid_namespace'') \<rparr>
                 | _ \<Rightarrow> None)
           else None)
      | _ \<Rightarrow> None)"

definition owner_of :: "string \<Rightarrow> json \<Rightarrow> lock_owner option" where
  "owner_of nonce v =
     (case v of
        JDict d \<Rightarrow>
          (if set (map fst d) = {''version'', ''pid'', ''identity'', ''nonce'', ''released'', ''expires_at''}
           then (case (dget d ''version'', dget d ''pid'', dget d ''released'', dget d ''expires_at'') of
                   (JInt version, JInt pid, JBool released, JInt expires) \<Rightarrow>
                     if version = 2 \<and> 1 \<le> pid \<and> pid \<le> 4294967295 \<and> \<bar>expires\<bar> \<le> 9007199254740991
                        \<and> dget d ''nonce'' = JStr nonce
                     then map_option (\<lambda>i. \<lparr> ow_pid = pid, ow_identity = i, ow_nonce = nonce, ow_released = released,
                            ow_expires_at = expires \<rparr>) (identity_of (dget d ''identity''))
                     else None
                 | _ \<Rightarrow> None)
           else None)
      | _ \<Rightarrow> None)"

definition parse_owner :: "string \<Rightarrow> string \<Rightarrow> lock_owner option" where
  "parse_owner raw filename =
     (if 4096 < length raw \<or> raw = [] \<or> last raw \<noteq> CHR 0x0A \<or> \<not> utf8_ok raw then None
      else case (json_pairs raw, owner_match filename) of
             (Some v, Some nonce) \<Rightarrow> if hooks_refuse v then None else owner_of nonce v
           | _ \<Rightarrow> None)"

subsection \<open>Records are read back\<close>

definition valid_identity :: "identity \<Rightarrow> bool" where
  "valid_identity i =
     (id_platform i \<in> {''linux'', ''darwin'', ''win32''} \<and> is_bounded (JStr (id_boot i))
      \<and> (id_namespace i = None \<or> is_bounded (opt_text (id_namespace i))))"

definition valid_owner :: "lock_owner \<Rightarrow> bool" where
  "valid_owner w =
     (1 \<le> ow_pid w \<and> ow_pid w \<le> 4294967295 \<and> \<bar>ow_expires_at w\<bar> \<le> 9007199254740991
      \<and> is_nonce (ow_nonce w) \<and> valid_identity (ow_identity w))"

lemma owner_match_file: "is_nonce n \<Longrightarrow> owner_match (owner_file n) = Some n"
  by (simp add: owner_match_def owner_file_def is_nonce_def Let_def)

lemma owner_match_Some: "owner_match name = Some n \<Longrightarrow> name = owner_file n \<and> is_nonce n"
  by (auto simp: owner_match_def Let_def split: if_splits)

lemma owner_file_inj [simp]: "owner_file m = owner_file n \<longleftrightarrow> m = n"
  by (simp add: owner_file_def)

lemma release_is_not_owner: "release_file m \<noteq> owner_file n"
proof
  assume "release_file m = owner_file n"
  then have "rev (release_file m) = rev (owner_file n)" by simp
  then show False by (simp add: release_file_def owner_file_def)
qed

lemma utf8_ok_append: "utf8_ok s \<Longrightarrow> utf8_ok t \<Longrightarrow> utf8_ok (s @ t)"
proof (induction s rule: utf8_ok.induct)
  case (1 s)
  show ?case
  proof (cases "s = []")
    case False
    with utf8_ok_Cons "1.prems"(1) obtain cp r
      where s: "utf8_next s = Some (cp, r)" "s = utf8_encode cp @ r" "is_scalar cp" "utf8_ok r" by blast
    with "1.IH" [OF s(1) refl s(4) "1.prems"(2)] utf8_ok_encode [OF s(3)] show ?thesis by simp
  qed (simp add: "1.prems")
qed

lemma hex2_ascii: "c \<in> set (hex2 n) \<Longrightarrow> 32 \<le> byte_of c \<and> byte_of c < 128"
  by (auto simp: hex2_def hex_digit_def byte_of_char_of)

lemma escape_chars: "x \<in> set (json_escape c) \<Longrightarrow> 32 \<le> byte_of x \<and> (byte_of c < 128 \<longrightarrow> byte_of x < 128)"
proof (cases "c \<in> {quote_char, backslash, CHR 0x0A, CHR 0x0D, CHR 0x09, CHR 0x08, CHR 0x0C}")
  case True
  assume "x \<in> set (json_escape c)"
  with True show ?thesis by (auto simp: json_escape_def byte_of_def)
next
  case False
  assume "x \<in> set (json_escape c)"
  moreover have "byte_of backslash = 92" "byte_of CHR ''u'' = 117" by (simp_all add: byte_of_def)
  ultimately show ?thesis using False
    by (auto simp: json_escape_def hex4_def split: if_splits dest: hex2_ascii)
qed

lemma escape_length: "length (json_escape c) \<le> 6"
  by (simp add: json_escape_def hex4_def hex2_def)

lemma escape_high: "128 \<le> byte_of c \<Longrightarrow> json_escape c = [c]"
proof -
  assume "128 \<le> byte_of c"
  then have "c \<notin> {quote_char, backslash, CHR 0x0A, CHR 0x0D, CHR 0x09, CHR 0x08, CHR 0x0C}" by (auto simp: byte_of_def)
  with \<open>128 \<le> byte_of c\<close> show ?thesis by (simp add: json_escape_def)
qed

lemma encode_high:
  assumes "is_scalar cp" "128 \<le> cp" "c \<in> set (utf8_encode cp)"
  shows "128 \<le> byte_of c"
proof -
  from assms(1) have cp: "cp < 1114112" by (simp add: is_scalar_def)
  consider "cp < 2048" | "2048 \<le> cp" "cp < 65536" | "65536 \<le> cp" by linarith
  then show ?thesis
  proof cases
    case 1
    with assms(2,3) head_byte2 [OF assms(2) 1] show ?thesis by (auto simp: utf8_encode_def tail_byte_value)
  next
    case 2
    with assms(2,3) head_byte3 [OF 2(2)] show ?thesis by (auto simp: utf8_encode_def tail_byte_value)
  next
    case 3
    with assms(2,3) head_byte4 [OF cp] show ?thesis by (auto simp: utf8_encode_def tail_byte_value)
  qed
qed

lemma concat_map_id: "(\<And>x. x \<in> set xs \<Longrightarrow> f x = [x]) \<Longrightarrow> concat (map f xs) = xs"
  by (induction xs) auto

lemma utf8_ok_escape: "utf8_ok s \<Longrightarrow> utf8_ok (concat (map json_escape s))"
proof (induction s rule: utf8_ok.induct)
  case (1 s)
  show ?case
  proof (cases "s = []")
    case False
    with utf8_ok_Cons "1.prems" obtain cp r
      where s: "utf8_next s = Some (cp, r)" "s = utf8_encode cp @ r" "is_scalar cp" "utf8_ok r" by blast
    have IH: "utf8_ok (concat (map json_escape r))" using "1.IH" [OF s(1) refl s(4)] .
    have "utf8_ok (concat (map json_escape (utf8_encode cp)))"
    proof (cases "cp < 128")
      case True
      then have "utf8_encode cp = [char_of cp]" "byte_of (char_of cp) < 128" by (simp_all add: utf8_encode_def byte_of_char_of)
      with escape_chars show ?thesis by (auto intro: utf8_ok_ascii)
    next
      case False
      with s(3) encode_high escape_high have "concat (map json_escape (utf8_encode cp)) = utf8_encode cp"
        by (intro concat_map_id) auto
      with utf8_ok_encode [OF s(3), of "[]"] show ?thesis by simp
    qed
    with IH s(2) show ?thesis by (simp add: utf8_ok_append)
  qed simp
qed

text \<open>The texts inside a payload: plain characters, UTF-8, and not long.\<close>

definition part_ok :: "nat \<Rightarrow> string \<Rightarrow> bool" where
  "part_ok n s = (utf8_ok s \<and> CHR 0x0A \<notin> set s \<and> length s \<le> n)"

lemma part_append: "part_ok n s \<Longrightarrow> part_ok m t \<Longrightarrow> part_ok (n + m) (s @ t)"
  by (auto simp: part_ok_def utf8_ok_append)

lemma part_string:
  assumes "utf8_ok s"
  shows "part_ok (6 * length s + 2) (json_string False s)"
proof -
  have "length (concat (map json_escape s)) \<le> 6 * length s"
  proof (induction s)
    case (Cons c s)
    with escape_length [of c] show ?case by simp
  qed simp
  moreover have "CHR 0x0A \<notin> set (concat (map json_escape s))" using escape_chars by (fastforce simp: byte_of_def)
  moreover have "utf8_ok [quote_char]" by (rule utf8_ok_ascii) (simp add: byte_of_def)
  ultimately show ?thesis using utf8_ok_escape [OF assms] utf8_ok_append [of "[quote_char]"] utf8_ok_append
    by (auto simp: part_ok_def json_string_def)
qed

lemma part_digits: "n < 10 ^ Suc k \<Longrightarrow> part_ok (Suc k) (show_nat n)"
proof -
  assume "n < 10 ^ Suc k"
  then have "length (show_nat n) \<le> Suc k"
  proof (induction k arbitrary: n)
    case 0
    then show ?case by (subst show_nat.simps) simp
  next
    case (Suc k)
    show ?case
    proof (cases "n < 10")
      case True
      then show ?thesis by (subst show_nat.simps) simp
    next
      case False
      from Suc.prems have "n div 10 < 10 ^ Suc k" by (simp add: div_less_iff_less_mult mult.commute)
      with Suc.IH False show ?thesis by (subst show_nat.simps) simp
    qed
  qed
  moreover have "utf8_ok (show_nat n)" using show_nat_digits [of n] by (auto simp: is_digit_def intro!: utf8_ok_ascii)
  moreover have "CHR 0x0A \<notin> set (show_nat n)" using show_nat_digits [of n] by (auto simp: is_digit_def byte_of_def)
  ultimately show ?thesis by (simp add: part_ok_def)
qed

lemma part_int: "\<bar>i\<bar> < 10 ^ Suc k \<Longrightarrow> part_ok (Suc (Suc k)) (show_int i)"
proof -
  assume "\<bar>i\<bar> < 10 ^ Suc k"
  then have "nat \<bar>i\<bar> < 10 ^ Suc k" by (metis nat_less_numeral_power_cancel_iff)
  then have n: "part_ok (Suc k) (show_nat (nat \<bar>i\<bar>))" by (rule part_digits)
  have sign: "part_ok 1 ''-''" by (auto simp: part_ok_def byte_of_def intro!: utf8_ok_ascii)
  show ?thesis
  proof (cases "i < 0")
    case True
    with part_append [OF sign n] show ?thesis by (simp add: show_int_def)
  next
    case False
    with n show ?thesis by (simp add: show_int_def part_ok_def)
  qed
qed

lemma part_ascii: "\<forall>c \<in> set s. 32 \<le> byte_of c \<and> byte_of c < 128 \<Longrightarrow> part_ok (length s) s"
  by (auto simp: part_ok_def byte_of_def intro!: utf8_ok_ascii)

lemma part_le: "part_ok n s \<Longrightarrow> n \<le> m \<Longrightarrow> part_ok m s"
  by (simp add: part_ok_def)

lemma part_key: "list_all (\<lambda>c. byte_of c < 128) s \<Longrightarrow> length s \<le> n \<Longrightarrow> part_ok (6 * n + 2) (json_string False s)"
  using part_string [of s] by (auto simp: list_all_iff utf8_ok_ascii intro: part_le)

lemma part_opt: "x = None \<or> is_bounded (opt_text x) \<Longrightarrow> part_ok 1538 (json_dumps False '','' '':'' (opt_text x))"
proof (cases x)
  case None
  have "part_ok 1538 ''null''" by (rule part_le [OF part_ascii]) (simp_all add: byte_of_def)
  with None show ?thesis by (simp add: opt_text_def)
next
  case (Some s)
  assume "x = None \<or> is_bounded (opt_text x)"
  with Some part_string [of s] show ?thesis by (auto simp: opt_text_def is_bounded_def intro: part_le)
qed

lemma part_nonce: "is_nonce n \<Longrightarrow> part_ok 194 (json_string False n)"
  by (rule part_le [OF part_key [of n 32]]) (auto simp: is_nonce_def list_all_iff is_lower_hex_def is_digit_def)

lemma byte_literals [simp]:
  "byte_of (CHR ''{'') = 123" "byte_of (CHR ''}'') = 125" "byte_of (CHR '','') = 44" "byte_of (CHR '':'') = 58"
  by (simp_all add: byte_of_def)

lemma part_char: "32 \<le> byte_of c \<Longrightarrow> byte_of c < 128 \<Longrightarrow> part_ok n s \<Longrightarrow> part_ok (Suc n) (c # s)"
  using part_append [of 1 "[c]" n s] part_ascii [of "[c]"] by simp

lemma part_keys:
  "part_ok 44 (json_string False ''version'')" "part_ok 20 (json_string False ''pid'')"
  "part_ok 50 (json_string False ''identity'')" "part_ok 32 (json_string False ''nonce'')"
  "part_ok 50 (json_string False ''released'')" "part_ok 62 (json_string False ''expires_at'')"
  "part_ok 50 (json_string False ''platform'')" "part_ok 44 (json_string False ''boot_id'')"
  "part_ok 80 (json_string False ''pid_namespace'')"
  using part_key [of "''version''" 7] part_key [of "''pid''" 3] part_key [of "''identity''" 8] part_key [of "''nonce''" 5]
    part_key [of "''released''" 8] part_key [of "''expires_at''" 10] part_key [of "''platform''" 8]
    part_key [of "''boot_id''" 7] part_key [of "''pid_namespace''" 13]
  by (simp_all add: byte_of_def)

lemma part_bool: "part_ok 5 (if b then ''true'' else ''false'')"
  using part_ascii [of "''false''"] part_ascii [of "''true''"] by (auto simp: byte_of_def intro: part_le)

lemma part_platform: "p \<in> {''linux'', ''darwin'', ''win32''} \<Longrightarrow> part_ok 38 (json_string False p)"
  by (rule part_le [OF part_key [of p 6]]) (auto simp: byte_of_def)

lemma part_nil: "part_ok 0 []"
  by (simp add: part_ok_def)

lemma part_boot: "is_bounded (JStr s) \<Longrightarrow> part_ok 1538 (json_string False s)"
  by (rule part_le [OF part_string]) (simp_all add: is_bounded_def)

lemma part_identity:
  assumes "valid_identity i"
  shows "part_ok 3310 (json_dumps False '','' '':'' (JDict (lock_identity_doc i)))"
proof -
  from assms have "part_ok 38 (json_string False (id_platform i))" "part_ok 1538 (json_string False (id_boot i))"
    "part_ok 1538 (json_dumps False '','' '':'' (opt_text (id_namespace i)))"
    unfolding valid_identity_def by (blast intro: part_platform part_boot part_opt)+
  note parts = this
  have printed: "json_dumps False '','' '':'' (JDict (lock_identity_doc i)) =
      CHR ''{'' # json_string False ''platform'' @ CHR '':'' # json_string False (id_platform i)
      @ CHR '','' # json_string False ''boot_id'' @ CHR '':'' # json_string False (id_boot i)
      @ CHR '','' # json_string False ''pid_namespace'' @ CHR '':'' # json_dumps False '','' '':'' (opt_text (id_namespace i))
      @ CHR ''}'' # []"
    by (simp add: lock_identity_doc_def)
  show ?thesis unfolding printed
    by (rule part_le) ((rule part_keys parts part_nil part_append part_char | simp)+)
qed

lemma part_payload:
  assumes "valid_owner w"
  shows "part_ok 3900 (json_dumps False '','' '':'' (JDict (owner_doc w)))"
proof -
  from assms have "valid_identity (ow_identity w)" "is_nonce (ow_nonce w)" "\<bar>ow_pid w\<bar> < 10 ^ Suc 9"
    "\<bar>ow_expires_at w\<bar> < 10 ^ Suc 15" "\<bar>2\<bar> < (10 :: int) ^ Suc 0"
    by (simp_all add: valid_owner_def)
  then have parts: "part_ok 3310 (json_dumps False '','' '':'' (JDict (lock_identity_doc (ow_identity w))))"
    "part_ok 194 (json_string False (ow_nonce w))" "part_ok 11 (show_int (ow_pid w))" "part_ok 17 (show_int (ow_expires_at w))"
    "part_ok (Suc (Suc 0)) (show_int 2)"
    using part_int [of "ow_pid w" 9] part_int [of "ow_expires_at w" 15] part_int [of 2 0]
    by (blast intro: part_identity part_nonce, blast intro: part_identity part_nonce, simp_all)
  have printed: "json_dumps False '','' '':'' (JDict (owner_doc w)) =
      CHR ''{'' # json_string False ''version'' @ CHR '':'' # show_int 2
      @ CHR '','' # json_string False ''pid'' @ CHR '':'' # show_int (ow_pid w)
      @ CHR '','' # json_string False ''identity'' @ CHR '':'' # json_dumps False '','' '':'' (JDict (lock_identity_doc (ow_identity w)))
      @ CHR '','' # json_string False ''nonce'' @ CHR '':'' # json_string False (ow_nonce w)
      @ CHR '','' # json_string False ''released'' @ CHR '':'' # (if ow_released w then ''true'' else ''false'')
      @ CHR '','' # json_string False ''expires_at'' @ CHR '':'' # show_int (ow_expires_at w) @ CHR ''}'' # []"
    by (simp add: owner_doc_def)
  show ?thesis unfolding printed
    by (rule part_le) ((rule part_keys parts part_bool part_nil part_append part_char | simp)+)
qed

lemma identity_of_doc: "valid_identity i \<Longrightarrow> identity_of (JDict (lock_identity_doc i)) = Some i"
  by (cases "id_namespace i")
    (auto simp: identity_of_def lock_identity_doc_def valid_identity_def dget_Cons opt_text_def)

lemma owner_of_doc: "valid_owner w \<Longrightarrow> owner_of (ow_nonce w) (JDict (owner_doc w)) = Some w"
proof -
  assume w: "valid_owner w"
  then have "identity_of (JDict (lock_identity_doc (ow_identity w))) = Some (ow_identity w)"
    by (intro identity_of_doc) (simp add: valid_owner_def)
  moreover have "set (map fst (owner_doc w)) = {''version'', ''pid'', ''identity'', ''nonce'', ''released'', ''expires_at''}"
    by (auto simp: owner_doc_def)
  ultimately show ?thesis using w
    by (simp add: owner_of_def) (simp add: owner_doc_def dget_Cons valid_owner_def)
qed

lemma owner_doc_plain:
  "storable False (JDict (owner_doc w)) \<and> \<not> hooks_refuse (JDict (owner_doc w))"
  by (cases "id_namespace (ow_identity w)")
    (auto simp: owner_doc_def lock_identity_doc_def text_ok_def opt_text_def)

text \<open>A record is read back, whoever wrote it, released or not.\<close>

lemma parse_payload:
  assumes "valid_owner w"
  shows "parse_owner (owner_payload w) (owner_file (ow_nonce w)) = Some w"
proof -
  let ?t = "json_dumps False '','' '':'' (JDict (owner_doc w))"
  from part_payload [OF assms] have t: "utf8_ok ?t" "length ?t \<le> 3900" by (simp_all add: part_ok_def)
  have "utf8_ok [CHR 0x0A]" by (rule utf8_ok_ascii) (simp add: byte_of_def)
  with t have "utf8_ok (owner_payload w)" by (simp add: owner_payload_def utf8_ok_append del: json_dumps.simps)
  moreover have "json_pairs (owner_payload w) = Some (JDict (owner_doc w))"
    unfolding owner_payload_def using owner_doc_plain
    by (intro pairs_dumps) (auto simp: separator_def is_space_def)
  moreover have "owner_match (owner_file (ow_nonce w)) = Some (ow_nonce w)"
    using assms by (simp add: valid_owner_def owner_match_file)
  ultimately show ?thesis
    using t(2) owner_doc_plain owner_of_doc [OF assms]
    by (simp add: parse_owner_def owner_payload_def del: json_dumps.simps hooks_refuse.simps)
qed

text \<open>A piece of a record that is not all of it is read as no record at all.\<close>

lemma parse_piece:
  assumes "valid_owner w" "prefix c (owner_payload w)" "c \<noteq> owner_payload w"
  shows "parse_owner c name = None"
proof (cases "c = []")
  case True
  then show ?thesis by (simp add: parse_owner_def)
next
  case False
  let ?t = "json_dumps False '','' '':'' (JDict (owner_doc w))"
  from assms(2,3) have "prefix c ?t" by (simp add: owner_payload_def del: json_dumps.simps)
  with False part_payload [OF assms(1)] have "last c \<noteq> CHR 0x0A"
    by (metis last_in_set part_ok_def set_mono_prefix subsetD)
  then show ?thesis by (simp add: parse_owner_def)
qed

lemma parse_owner_piece:
  "valid_owner w \<Longrightarrow> prefix c (owner_payload w) \<Longrightarrow> parse_owner c (owner_file (ow_nonce w)) = Some v \<Longrightarrow>
     v = w \<and> c = owner_payload w"
  using parse_piece parse_payload by (metis option.distinct(1) option.inject)

end
