(* ===== verification/Interleaving.thy ===== *)
theory Interleaving
  imports Main
begin

section \<open>Programs of system calls, interleaved\<close>

text \<open>
  The code that runs beside other processes on one disk is a \<open>prog\<close>: a tree of the calls it makes, each
  continued by the answer. \<open>prog_try\<close> is sequencing and \<open>try ... except\<close> in one. \<open>exec\<close> runs a program
  alone; \<open>pool_step\<close> lets any program of a pool make its next call at any moment, between events of the
  world outside (a process is killed, another one starts).
  The locale \<open>rely_guarantee\<close> proves programs correct in such a pool: \<open>keeps i p s Q E\<close> says that program
  \<open>p\<close> of participant \<open>i\<close>, from \<open>s\<close> on and whatever the others do within \<open>rely i\<close>, only makes calls that are
  allowed, keeps the invariant with each of them, stays within what every other participant relies on, and
  ends in \<open>Q\<close> or raises in \<open>E\<close>.
\<close>

subsection \<open>Programs\<close>

datatype ('c, 'r, 'e, 'a) prog =
    Ret 'a
  | Raise 'e
  | Call 'c "'r \<Rightarrow> ('c, 'r, 'e, 'a) prog"

primrec prog_try ::
  "('c, 'r, 'e, 'a) prog \<Rightarrow> ('a \<Rightarrow> ('c, 'r, 'e, 'b) prog) \<Rightarrow> ('e \<Rightarrow> ('c, 'r, 'e, 'b) prog)
     \<Rightarrow> ('c, 'r, 'e, 'b) prog" where
  "prog_try (Ret x) f h = f x"
| "prog_try (Raise e) f h = h e"
| "prog_try (Call c k) f h = Call c (\<lambda>r. prog_try (k r) f h)"

definition prog_bind ::
  "('c, 'r, 'e, 'a) prog \<Rightarrow> ('a \<Rightarrow> ('c, 'r, 'e, 'b) prog) \<Rightarrow> ('c, 'r, 'e, 'b) prog" where
  "prog_bind p f = prog_try p f Raise"

definition prog_catch ::
  "('c, 'r, 'e, 'a) prog \<Rightarrow> ('e \<Rightarrow> ('c, 'r, 'e, 'a) prog) \<Rightarrow> ('c, 'r, 'e, 'a) prog" where
  "prog_catch p h = prog_try p Ret h"

definition prog_finally ::
  "('c, 'r, 'e, 'a) prog \<Rightarrow> ('c, 'r, 'e, unit) prog \<Rightarrow> ('c, 'r, 'e, 'a) prog" where
  "prog_finally p q = prog_try p (\<lambda>x. prog_bind q (\<lambda>_. Ret x)) (\<lambda>e. prog_bind q (\<lambda>_. Raise e))"

text \<open>A program alone, on a state that answers its calls.\<close>

primrec exec :: "('c \<Rightarrow> 's \<Rightarrow> 'r \<times> 's) \<Rightarrow> ('c, 'r, 'e, 'a) prog \<Rightarrow> 's \<Rightarrow> ('e + 'a) \<times> 's" where
  "exec serve (Ret x) s = (Inr x, s)"
| "exec serve (Raise e) s = (Inl e, s)"
| "exec serve (Call c k) s = exec serve (k (fst (serve c s))) (snd (serve c s))"

lemma exec_try:
  "exec serve (prog_try p f h) s =
     (case exec serve p s of (Inr x, t) \<Rightarrow> exec serve (f x) t | (Inl e, t) \<Rightarrow> exec serve (h e) t)"
  by (induction p arbitrary: s) simp_all

lemma exec_bind:
  "exec serve (prog_bind p f) s = (case exec serve p s of (Inr x, t) \<Rightarrow> exec serve (f x) t | (Inl e, t) \<Rightarrow> (Inl e, t))"
  by (simp add: prog_bind_def exec_try split: prod.split sum.split)

subsection \<open>Pools\<close>

inductive pool_step ::
  "('i \<Rightarrow> 'c \<Rightarrow> 's \<Rightarrow> 'r \<Rightarrow> 's \<Rightarrow> bool) \<Rightarrow> ('i \<Rightarrow> 's \<Rightarrow> bool) \<Rightarrow> ('s \<Rightarrow> 's \<Rightarrow> bool)
     \<Rightarrow> 's \<times> ('i \<Rightarrow> ('c, 'r, 'e, 'a) prog) \<Rightarrow> 's \<times> ('i \<Rightarrow> ('c, 'r, 'e, 'a) prog) \<Rightarrow> bool"
  for sys runnable event where
  step_call: "T i = Call c k \<Longrightarrow> runnable i s \<Longrightarrow> sys i c s a t \<Longrightarrow>
    pool_step sys runnable event (s, T) (t, T(i := k a))"
| step_event: "event s t \<Longrightarrow> pool_step sys runnable event (s, T) (t, T)"

inductive pool_runs ::
  "('i \<Rightarrow> 'c \<Rightarrow> 's \<Rightarrow> 'r \<Rightarrow> 's \<Rightarrow> bool) \<Rightarrow> ('i \<Rightarrow> 's \<Rightarrow> bool) \<Rightarrow> ('s \<Rightarrow> 's \<Rightarrow> bool)
     \<Rightarrow> 's \<times> ('i \<Rightarrow> ('c, 'r, 'e, 'a) prog) \<Rightarrow> 's \<times> ('i \<Rightarrow> ('c, 'r, 'e, 'a) prog) \<Rightarrow> bool"
  for sys runnable event where
  runs_refl: "pool_runs sys runnable event x x"
| runs_step: "pool_runs sys runnable event x y \<Longrightarrow> pool_step sys runnable event y z \<Longrightarrow> pool_runs sys runnable event x z"

inductive_cases pool_stepE: "pool_step sys runnable event x y"

text \<open>One program of a pool may run to its end while the others wait.\<close>

lemma runs_trans:
  assumes "pool_runs sys runnable event y z"
  shows "pool_runs sys runnable event x y \<Longrightarrow> pool_runs sys runnable event x z"
  using assms by (induction rule: pool_runs.induct) (auto intro: runs_step)

definition outcome_of :: "'e + 'a \<Rightarrow> ('c, 'r, 'e, 'a) prog" where
  "outcome_of r = (case r of Inr x \<Rightarrow> Ret x | Inl e \<Rightarrow> Raise e)"

lemma solo_run:
  assumes "\<And>c w. I w \<Longrightarrow> sys i c (shows_state w) (fst (serve c w)) (shows_state (snd (serve c w))) \<and> I (snd (serve c w)) \<and> runnable i (shows_state w)"
    and "I w" "T i = p"
  shows "pool_runs sys runnable event (shows_state w, T) (shows_state (snd (exec serve p w)), T(i := outcome_of (fst (exec serve p w))))"
  using assms(2,3)
proof (induction p arbitrary: w T)
  case (Ret x)
  then have "T(i := outcome_of (Inr x)) = T" by (auto simp: outcome_of_def)
  then show ?case by (simp add: runs_refl)
next
  case (Raise e)
  then have "T(i := outcome_of (Inl e)) = T" by (auto simp: outcome_of_def)
  then show ?case by (simp add: runs_refl)
next
  case (Call c k)
  let ?a = "fst (serve c w)" and ?w = "snd (serve c w)"
  from assms(1) [OF Call.prems(1), of c] have c: "sys i c (shows_state w) ?a (shows_state ?w)" "I ?w" "runnable i (shows_state w)" by auto
  then have here: "pool_step sys runnable event (shows_state w, T) (shows_state ?w, T(i := k ?a))" using Call.prems(2) by (auto intro: step_call)
  have "pool_runs sys runnable event (shows_state ?w, T(i := k ?a))
      (shows_state (snd (exec serve (k ?a) ?w)), (T(i := k ?a))(i := outcome_of (fst (exec serve (k ?a) ?w))))"
    by (rule Call.IH [OF _ c(2)]) auto
  from runs_trans [OF this runs_step [OF runs_refl here]] show ?case by (simp only: exec.simps fun_upd_upd)
qed

lemma solo_prefix:
  assumes "\<And>c w. I w \<Longrightarrow> sys i c (shows_state w) (fst (serve c w)) (shows_state (snd (serve c w))) \<and> I (snd (serve c w)) \<and> runnable i (shows_state w)"
    and "I w" "T i = prog_try p f h" "exec serve p w = (Inr x, v)"
  shows "pool_runs sys runnable event (shows_state w, T) (shows_state v, T(i := f x)) \<and> I v"
  using assms(2-4)
proof (induction p arbitrary: w T)
  case (Ret y)
  then show ?case by (simp add: fun_upd_idem runs_refl)
next
  case (Call c k)
  let ?a = "fst (serve c w)" and ?w = "snd (serve c w)"
  from assms(1) [OF Call.prems(1), of c] have c: "sys i c (shows_state w) ?a (shows_state ?w)" "I ?w" "runnable i (shows_state w)" by auto
  from Call.prems(2) have "T i = Call c (\<lambda>a. prog_try (k a) f h)" by simp
  then have here: "pool_step sys runnable event (shows_state w, T) (shows_state ?w, T(i := prog_try (k ?a) f h))"
    using c by (auto intro: step_call)
  have "pool_runs sys runnable event (shows_state ?w, T(i := prog_try (k ?a) f h)) (shows_state v, (T(i := prog_try (k ?a) f h))(i := f x)) \<and> I v"
    by (rule Call.IH [OF _ c(2)]) (use Call.prems(3) in auto)
  with runs_trans [OF _ runs_step [OF runs_refl here]] show ?case by (metis fun_upd_upd)
qed simp

subsection \<open>Rely and guarantee\<close>

locale rely_guarantee =
  fixes sys :: "'i \<Rightarrow> 'c \<Rightarrow> 's \<Rightarrow> 'r \<Rightarrow> 's \<Rightarrow> bool"
    and runnable :: "'i \<Rightarrow> 's \<Rightarrow> bool"
    and event :: "'s \<Rightarrow> 's \<Rightarrow> bool"
    and inv :: "'s \<Rightarrow> bool"
    and rely :: "'i \<Rightarrow> 's \<Rightarrow> 's \<Rightarrow> bool"
    and allowed :: "'i \<Rightarrow> 'c \<Rightarrow> 's \<Rightarrow> bool"
  assumes rely_refl: "rely i s s"
    and rely_trans: "rely i s t \<Longrightarrow> rely i t u \<Longrightarrow> rely i s u"
    and event_rely: "event s t \<Longrightarrow> rely i s t"
    and event_inv: "event s t \<Longrightarrow> inv s \<Longrightarrow> inv t"
begin

definition step_ok :: "'i \<Rightarrow> 'c \<Rightarrow> 's \<Rightarrow> 'r \<Rightarrow> 's \<Rightarrow> bool" where
  "step_ok i c s a t = (inv t \<and> (\<forall>j. j \<noteq> i \<longrightarrow> rely j s t))"

primrec keeps :: "('c, 'r, 'e, 'a) prog \<Rightarrow> 'i \<Rightarrow> 's \<Rightarrow> ('a \<Rightarrow> 's \<Rightarrow> bool) \<Rightarrow> ('e \<Rightarrow> 's \<Rightarrow> bool) \<Rightarrow> bool" where
  "keeps (Ret x) i s Q E = (\<forall>t. rely i s t \<longrightarrow> inv t \<longrightarrow> Q x t)"
| "keeps (Raise e) i s Q E = (\<forall>t. rely i s t \<longrightarrow> inv t \<longrightarrow> E e t)"
| "keeps (Call c k) i s Q E =
     (\<forall>t. rely i s t \<longrightarrow> inv t \<longrightarrow> runnable i t \<longrightarrow>
        allowed i c t \<and> (\<forall>a u. sys i c t a u \<longrightarrow> step_ok i c t a u \<and> keeps (k a) i u Q E))"

lemma keeps_later: "keeps p i s Q E \<Longrightarrow> rely i s t \<Longrightarrow> keeps p i t Q E"
  by (cases p) (auto intro: rely_trans)

lemma keeps_try:
  assumes "keeps p i s Q E"
    and "\<And>x t. inv t \<Longrightarrow> Q x t \<Longrightarrow> keeps (f x) i t Q' E'" and "\<And>e t. inv t \<Longrightarrow> E e t \<Longrightarrow> keeps (h e) i t Q' E'"
    and "inv s"
  shows "keeps (prog_try p f h) i s Q' E'"
  using assms(1,4)
proof (induction p arbitrary: s)
  case (Call c k)
  then show ?case by (auto simp: step_ok_def)
qed (use assms(2,3) rely_refl in auto)

text \<open>A program kept from every state of a stable assertion.\<close>

definition stable :: "'i \<Rightarrow> ('s \<Rightarrow> bool) \<Rightarrow> bool" where
  "stable i P = (\<forall>s t. rely i s t \<longrightarrow> P s \<longrightarrow> P t)"

definition spec :: "'i \<Rightarrow> ('s \<Rightarrow> bool) \<Rightarrow> ('c, 'r, 'e, 'a) prog \<Rightarrow> ('a \<Rightarrow> 's \<Rightarrow> bool) \<Rightarrow> ('e \<Rightarrow> 's \<Rightarrow> bool) \<Rightarrow> bool" where
  "spec i P p Q E = (\<forall>s. inv s \<longrightarrow> P s \<longrightarrow> keeps p i s Q E)"

lemma spec_Ret: "stable i P \<Longrightarrow> (\<And>s. P s \<Longrightarrow> Q x s) \<Longrightarrow> spec i P (Ret x) Q E"
  by (auto simp: spec_def stable_def)

lemma spec_Raise: "stable i P \<Longrightarrow> (\<And>s. P s \<Longrightarrow> E e s) \<Longrightarrow> spec i P (Raise e) Q E"
  by (auto simp: spec_def stable_def)

lemma spec_Call:
  assumes "stable i P"
    and "\<And>s. inv s \<Longrightarrow> P s \<Longrightarrow> runnable i s \<Longrightarrow> allowed i c s"
    and "\<And>s a t. inv s \<Longrightarrow> P s \<Longrightarrow> runnable i s \<Longrightarrow> sys i c s a t \<Longrightarrow> step_ok i c s a t \<and> R a t"
    and "\<And>a. spec i (R a) (k a) Q E"
  shows "spec i P (Call c k) Q E"
  unfolding spec_def
proof (intro allI impI)
  fix s assume s: "inv s" "P s"
  show "keeps (Call c k) i s Q E"
    unfolding keeps.simps
  proof (intro allI impI)
    fix t assume t: "rely i s t" "inv t" "runnable i t"
    with assms(1) s have "P t" unfolding stable_def by blast
    with t assms(2-4) show "allowed i c t \<and> (\<forall>a u. sys i c t a u \<longrightarrow> step_ok i c t a u \<and> keeps (k a) i u Q E)"
      unfolding spec_def step_ok_def by blast
  qed
qed

lemma spec_try:
  "spec i P p Q E \<Longrightarrow> (\<And>x. spec i (Q x) (f x) Q' E') \<Longrightarrow> (\<And>e. spec i (E e) (h e) Q' E') \<Longrightarrow>
     spec i P (prog_try p f h) Q' E'"
  unfolding spec_def using keeps_try by blast

lemma spec_bind: "spec i P p R E \<Longrightarrow> (\<And>x. spec i (R x) (f x) Q E) \<Longrightarrow> (\<And>e. stable i (E e)) \<Longrightarrow> spec i P (prog_bind p f) Q E"
  unfolding prog_bind_def by (rule spec_try) (auto intro: spec_Raise)

lemma spec_post:
  assumes "spec i P p Q E" "\<And>x s. Q x s \<Longrightarrow> Q' x s" "\<And>e s. E e s \<Longrightarrow> E' e s"
  shows "spec i P p Q' E'"
proof -
  have "keeps p i s Q E \<Longrightarrow> keeps p i s Q' E'" for s
    by (induction p arbitrary: s) (simp_all add: assms(2,3))
  with assms(1) show ?thesis by (simp add: spec_def)
qed

lemma spec_pre: "spec i P p Q E \<Longrightarrow> (\<And>s. P' s \<Longrightarrow> P s) \<Longrightarrow> spec i P' p Q E"
  by (simp add: spec_def)

text \<open>What every pool of such programs does.\<close>

lemma pool_keeps:
  assumes "pool_runs sys runnable event x y"
    and "inv (fst x)" "\<And>i. keeps (snd x i) i (fst x) (Q i) (E i)"
  shows "inv (fst y) \<and> (\<forall>i. keeps (snd y i) i (fst y) (Q i) (E i))"
  using assms
proof induction
  case (runs_refl x)
  then show ?case by simp
next
  case (runs_step x y z)
  note IH = runs_step.IH [OF runs_step.prems]
  from runs_step.hyps(2) show ?case
  proof (cases rule: pool_step.cases)
    case (step_call T i c k s a t)
    with IH have "inv s" and all: "\<forall>j. keeps (T j) j s (Q j) (E j)" by simp_all
    from all [THEN spec, of i] step_call have "keeps (Call c k) i s (Q i) (E i)" by simp
    with \<open>inv s\<close> step_call(4,5) rely_refl [of i s] have "step_ok i c s a t" "keeps (k a) i t (Q i) (E i)"
      unfolding keeps.simps by blast+
    with step_call all show ?thesis by (auto simp: step_ok_def intro: keeps_later)
  next
    case (step_event s t T)
    with IH show ?thesis by (auto intro: event_inv keeps_later event_rely)
  qed
qed

lemma pool_allowed:
  assumes "pool_runs sys runnable event x (s, T)" "inv (fst x)" "\<And>i. keeps (snd x i) i (fst x) (Q i) (E i)"
    and "T i = Call c k" "runnable i s"
  shows "inv s \<and> allowed i c s"
proof -
  have "inv s" and all: "\<forall>i. keeps (T i) i s (Q i) (E i)" using pool_keeps [OF assms(1-3)] by simp_all
  from all have "keeps (Call c k) i s (Q i) (E i)" unfolding assms(4) [symmetric] by blast
  with \<open>inv s\<close> assms(5) rely_refl show ?thesis by simp
qed

end

end
