(* ===== verification/Disk.thy ===== *)
theory Disk
  imports OwnerRecord Interleaving
begin

section \<open>The disk and the calls made on it\<close>

text \<open>
  The directory of a file store as a map from names to files and folders; a folder (a lock directory or a
  candidate of one) holds files. \<open>serve\<close> is the kernel's answer to a call on the disk when nothing goes
  wrong beyond what the call itself finds (POSIX); \<open>disk_step\<close> also lets any call fail with any error, a
  write after any part of it. \<open>Special\<close> is whatever else a name can be: a symbolic link, a device.
  Paths are names inside that directory: \<open>Top n\<close>, or \<open>In d n\<close> for the file \<open>n\<close> of the folder \<open>d\<close>.
\<close>

datatype errno =
    ENOENT | EEXIST | ENOTEMPTY | EISDIR | ENOTDIR | EPERM | EACCES | EBUSY | EIO

datatype fault = OsError errno | PyExn exn

datatype leaf = Reg string | Special

datatype node = Leaf leaf | Folder "(string \<times> leaf) list"

type_synonym disk = "string \<Rightarrow> node option"

datatype place = Top string | In string string

datatype file_kind = IsRegular nat | IsFolder | IsSpecial

subsection \<open>Calls and replies\<close>

datatype disk_call =
    Lstat place
  | ListDir string
  | ReadFile place
  | CreateNew place
  | OpenWrite place
  | WriteFile place string
  | Unlink place
  | MakeDir string
  | RemoveDir string
  | Rename place place

text \<open>The calls a program makes: on the disk, on the operating system, and on the memory that the threads of its
  process share (\<open>_pending\<close> with its progress records, and their gates). \<open>CallbackReturns\<close> is the end of the
  caller's code under the lock.\<close>

datatype call =
    OnDisk disk_call
  | SignalZero int
  | Monotonic
  | WallClock
  | TimeNs
  | WhoAmI
  | Pause
  | CallbackReturns
  | PendingList
  | PendingHas string
  | PendingAdd string lock_owner
  | PendingDrop string
  | GateEnter string
  | GateLeave string
  | IsUnlinked string
  | SetUnlinked string

datatype reply =
    Fine
  | Failed errno
  | Kind file_kind
  | Names "string list"
  | Bytes string
  | NoSuchProcess
  | Time rat
  | Count int
  | Realm "identity option"
  | Yes
  | No
  | Progresses "(string \<times> lock_owner) list"
  | Outcome "fault + json"

type_synonym 'a program = "(call, reply, fault, 'a) prog"

subsection \<open>The kernel\<close>

fun node_at :: "disk \<Rightarrow> place \<Rightarrow> errno + node" where
  "node_at D (Top n) = (case D n of None \<Rightarrow> Inl ENOENT | Some x \<Rightarrow> Inr x)"
| "node_at D (In d n) =
     (case D d of None \<Rightarrow> Inl ENOENT | Some (Leaf _) \<Rightarrow> Inl ENOTDIR
      | Some (Folder es) \<Rightarrow> (case map_of es n of None \<Rightarrow> Inl ENOENT | Some l \<Rightarrow> Inr (Leaf l)))"

text \<open>Put a leaf where its parent is a folder, or take it away.\<close>

fun put_leaf :: "place \<Rightarrow> leaf \<Rightarrow> disk \<Rightarrow> disk" where
  "put_leaf (Top n) l D = D(n \<mapsto> Leaf l)"
| "put_leaf (In d n) l D =
     (case D d of Some (Folder es) \<Rightarrow> D(d \<mapsto> Folder (AList.update n l es)) | _ \<Rightarrow> D)"

fun take_leaf :: "place \<Rightarrow> disk \<Rightarrow> disk" where
  "take_leaf (Top n) D = D(n := None)"
| "take_leaf (In d n) D =
     (case D d of Some (Folder es) \<Rightarrow> D(d \<mapsto> Folder (AList.delete n es)) | _ \<Rightarrow> D)"

fun parent_error :: "place \<Rightarrow> disk \<Rightarrow> errno option" where
  "parent_error (Top _) D = None"
| "parent_error (In d _) D =
     (case D d of None \<Rightarrow> Some ENOENT | Some (Leaf _) \<Rightarrow> Some ENOTDIR | Some (Folder _) \<Rightarrow> None)"

fun kind_of :: "node \<Rightarrow> file_kind" where
  "kind_of (Leaf (Reg c)) = IsRegular (length c)"
| "kind_of (Leaf Special) = IsSpecial"
| "kind_of (Folder _) = IsFolder"

definition rename_leaf :: "place \<Rightarrow> leaf \<Rightarrow> place \<Rightarrow> disk \<Rightarrow> reply \<times> disk" where
  "rename_leaf p l q D =
     (case node_at D q of
        Inr (Folder _) \<Rightarrow> (Failed EISDIR, D)
      | _ \<Rightarrow> (case parent_error q D of
                Some e \<Rightarrow> (Failed e, D)
              | None \<Rightarrow> (Fine, if p = q then D else put_leaf q l (take_leaf p D))))"

definition rename_folder :: "string \<Rightarrow> (string \<times> leaf) list \<Rightarrow> place \<Rightarrow> disk \<Rightarrow> reply \<times> disk" where
  "rename_folder n es q D =
     (case q of
        In _ _ \<Rightarrow> (Failed EACCES, D)
      | Top m \<Rightarrow>
          if m = n then (Fine, D)
          else case D m of
                 None \<Rightarrow> (Fine, D(n := None, m \<mapsto> Folder es))
               | Some (Leaf _) \<Rightarrow> (Failed ENOTDIR, D)
               | Some (Folder fs) \<Rightarrow>
                   if fs = [] then (Fine, D(n := None, m \<mapsto> Folder es)) else (Failed ENOTEMPTY, D))"

fun serve :: "disk_call \<Rightarrow> disk \<Rightarrow> reply \<times> disk" where
  "serve (Lstat p) D = (case node_at D p of Inl e \<Rightarrow> Failed e | Inr x \<Rightarrow> Kind (kind_of x), D)"
| "serve (ListDir d) D =
     (case node_at D (Top d) of
        Inl e \<Rightarrow> Failed e | Inr (Leaf _) \<Rightarrow> Failed ENOTDIR | Inr (Folder es) \<Rightarrow> Names (map fst es), D)"
| "serve (ReadFile p) D =
     (case node_at D p of
        Inl e \<Rightarrow> Failed e | Inr (Leaf (Reg c)) \<Rightarrow> Bytes c | Inr (Leaf Special) \<Rightarrow> Failed EIO
      | Inr (Folder _) \<Rightarrow> Failed EISDIR, D)"
| "serve (CreateNew p) D =
     (case parent_error p D of
        Some e \<Rightarrow> (Failed e, D)
      | None \<Rightarrow> (case node_at D p of Inr _ \<Rightarrow> (Failed EEXIST, D) | Inl _ \<Rightarrow> (Fine, put_leaf p (Reg []) D)))"
| "serve (OpenWrite p) D =
     (case parent_error p D of
        Some e \<Rightarrow> (Failed e, D)
      | None \<Rightarrow> (case node_at D p of
                   Inr (Folder _) \<Rightarrow> (Failed EISDIR, D)
                 | Inr (Leaf Special) \<Rightarrow> (Failed EIO, D)
                 | _ \<Rightarrow> (Fine, put_leaf p (Reg []) D)))"
| "serve (WriteFile p s) D =
     (case node_at D p of Inr (Leaf (Reg _)) \<Rightarrow> (Fine, put_leaf p (Reg s) D) | _ \<Rightarrow> (Fine, D))"
| "serve (Unlink p) D =
     (case node_at D p of
        Inl e \<Rightarrow> (Failed e, D) | Inr (Folder _) \<Rightarrow> (Failed EISDIR, D) | Inr (Leaf _) \<Rightarrow> (Fine, take_leaf p D))"
| "serve (MakeDir d) D = (if D d = None then (Fine, D(d \<mapsto> Folder [])) else (Failed EEXIST, D))"
| "serve (RemoveDir d) D =
     (case D d of
        None \<Rightarrow> (Failed ENOENT, D) | Some (Leaf _) \<Rightarrow> (Failed ENOTDIR, D)
      | Some (Folder es) \<Rightarrow> if es = [] then (Fine, D(d := None)) else (Failed ENOTEMPTY, D))"
| "serve (Rename p q) D =
     (case node_at D p of
        Inl e \<Rightarrow> (Failed e, D)
      | Inr (Leaf l) \<Rightarrow> rename_leaf p l q D
      | Inr (Folder es) \<Rightarrow> (case p of Top n \<Rightarrow> rename_folder n es q D | In _ _ \<Rightarrow> (Failed EIO, D)))"

text \<open>A call on a real disk: it is served, or it fails. A write that fails, or whose process is killed in it, leaves
  a part of what it writes.\<close>

inductive disk_step :: "disk_call \<Rightarrow> disk \<Rightarrow> reply \<Rightarrow> disk \<Rightarrow> bool" where
  step_served: "serve c D = (a, D') \<Longrightarrow> disk_step c D a D'"
| step_failed: "disk_step c D (Failed e) D"
| step_torn: "node_at D p = Inr (Leaf (Reg b)) \<Longrightarrow> prefix t s \<Longrightarrow>
    disk_step (WriteFile p s) D (Failed e) (put_leaf p (Reg t) D)"

inductive_cases disk_stepE: "disk_step c D a D'"

text \<open>One line per call of a program: the reply it expects, or the error as an exception.\<close>

definition on_disk :: "disk_call \<Rightarrow> reply program" where
  "on_disk c = Call (OnDisk c) (\<lambda>a. case a of Failed e \<Rightarrow> Raise (OsError e) | _ \<Rightarrow> Ret a)"

subsection \<open>What a call changes\<close>

lemma map_of_delete [simp]: "map_of (AList.delete k es) = (map_of es)(k := None)"
  by (rule delete_conv')

lemma map_of_update_leaf [simp]: "map_of (AList.update k v es) = (map_of es)(k \<mapsto> v)"
  by (rule update_conv')

text \<open>The calls on files of the directory itself.\<close>

definition only_at :: "string set \<Rightarrow> disk \<Rightarrow> disk \<Rightarrow> bool" where
  "only_at N D D' = (\<forall>n. n \<notin> N \<longrightarrow> D' n = D n)"

lemma read_step: "disk_step (ReadFile p) D a D' \<Longrightarrow> D' = D \<and> (\<forall>c. a = Bytes c \<longrightarrow> node_at D p = Inr (Leaf (Reg c)))"
  by (auto elim!: disk_stepE split: sum.splits node.splits leaf.splits)

lemma open_step:
  "disk_step (OpenWrite (Top n)) D a D' \<Longrightarrow> only_at {n} D D' \<and> (a = Fine \<longrightarrow> D' n = Some (Leaf (Reg [])))
     \<and> (a = Fine \<or> (\<exists>e. a = Failed e))"
  by (auto simp: only_at_def elim!: disk_stepE split: sum.splits option.splits node.splits leaf.splits if_splits)

lemma write_step:
  "disk_step (WriteFile (Top n) s) D a D' \<Longrightarrow> only_at {n} D D' \<and> (a = Fine \<or> (\<exists>e. a = Failed e))
     \<and> (a = Fine \<longrightarrow> (\<exists>b. D n = Some (Leaf (Reg b))) \<longrightarrow> D' n = Some (Leaf (Reg s)))"
  by (auto simp: only_at_def elim!: disk_stepE split: sum.splits option.splits node.splits leaf.splits if_splits)

lemma unlink_step:
  "disk_step (Unlink (Top n)) D a D' \<Longrightarrow> only_at {n} D D' \<and> (D' n = D n \<or> D' n = None)"
  by (auto simp: only_at_def elim!: disk_stepE split: sum.splits option.splits node.splits leaf.splits if_splits)

lemma rename_step:
  assumes "disk_step (Rename (Top n) (Top m)) D a D'" "D n = Some (Leaf l)"
  shows "only_at {n, m} D D' \<and> (D' = D \<or> D' m = Some (Leaf l))"
  using assms by (auto simp: only_at_def rename_leaf_def elim!: disk_stepE split: sum.splits option.splits node.splits)

text \<open>The calls on files of a folder: nothing changes, or the folder does as the call says.\<close>

lemma unlink_in:
  "disk_step (Unlink (In d f)) D a D' \<Longrightarrow> D' = D \<or> (\<exists>es. D d = Some (Folder es) \<and> D' = D(d \<mapsto> Folder (AList.delete f es)))"
  by (auto elim!: disk_stepE split: sum.splits option.splits node.splits if_splits)

lemma open_in:
  "disk_step (OpenWrite (In d f)) D a D' \<Longrightarrow>
     D' = D \<or> (\<exists>es. D d = Some (Folder es) \<and> D' = D(d \<mapsto> Folder (AList.update f (Reg []) es)))"
  by (auto elim!: disk_stepE split: sum.splits option.splits node.splits leaf.splits if_splits)

lemma write_in:
  "disk_step (WriteFile (In d f) s) D a D' \<Longrightarrow>
     D' = D \<or> (\<exists>es b t. D d = Some (Folder es) \<and> map_of es f = Some (Reg b) \<and> prefix t s
        \<and> D' = D(d \<mapsto> Folder (AList.update f (Reg t) es)))"
  by (fastforce elim!: disk_stepE split: sum.splits option.splits node.splits leaf.splits if_splits)

lemma create_in:
  "disk_step (CreateNew (In d f)) D a D' \<Longrightarrow>
     (D' = D \<and> (\<exists>e. a = Failed e)) \<or> (\<exists>es. D d = Some (Folder es) \<and> D' = D(d \<mapsto> Folder (AList.update f (Reg []) es)))"
  by (auto elim!: disk_stepE split: sum.splits option.splits node.splits leaf.splits if_splits)

lemma rename_in:
  "disk_step (Rename (In d f) (In d g)) D a D' \<Longrightarrow> f \<noteq> g \<Longrightarrow>
     D' = D \<or> (\<exists>es l. D d = Some (Folder es) \<and> map_of es f = Some l
        \<and> D' = D(d \<mapsto> Folder (AList.update g l (AList.delete f es))))"
  by (auto simp: rename_leaf_def elim!: disk_stepE split: sum.splits option.splits node.splits leaf.splits if_splits)

lemma rmdir_step: "disk_step (RemoveDir d) D a D' \<Longrightarrow> D' = D \<or> (D d = Some (Folder []) \<and> D' = D(d := None))"
  by (auto elim!: disk_stepE split: sum.splits option.splits node.splits leaf.splits if_splits)

lemma mkdir_step: "disk_step (MakeDir d) D a D' \<Longrightarrow> (D' = D \<and> (\<exists>e. a = Failed e)) \<or> (D d = None \<and> D' = D(d \<mapsto> Folder []))"
  by (auto elim!: disk_stepE split: if_splits)

lemma rename_folder_step:
  assumes "disk_step (Rename (Top c) (Top l)) D a D'" "D c = Some (Folder es)" "c \<noteq> l"
  shows "(D' = D \<and> (\<exists>e. a = Failed e)) \<or> (a = Fine \<and> D l \<in> {None, Some (Folder [])} \<and> D' = D(c := None, l \<mapsto> Folder es))"
  using assms by (auto simp: rename_folder_def elim!: disk_stepE split: option.splits node.splits if_splits)

lemma look_step: "disk_step c D a D' \<Longrightarrow> (case c of Lstat _ \<Rightarrow> True | ListDir _ \<Rightarrow> True | ReadFile _ \<Rightarrow> True | _ \<Rightarrow> False) \<Longrightarrow> D' = D"
  by (auto elim!: disk_stepE split: disk_call.splits sum.splits node.splits leaf.splits)

lemma node_at_same [simp]: "node_at D (Top n) = Inr x \<longleftrightarrow> D n = Some x"
  by (simp split: option.split)

subsection \<open>Pools of programs on one disk\<close>

text \<open>The states of such a pool hold a disk, and a call on it is a step of the disk.\<close>

locale disk_pool = rely_guarantee sys runnable event inv rely allowed
  for sys :: "'i \<Rightarrow> call \<Rightarrow> 's \<Rightarrow> reply \<Rightarrow> 's \<Rightarrow> bool"
    and runnable event inv rely allowed +
  fixes disk_of :: "'s \<Rightarrow> disk" and with_disk :: "disk \<Rightarrow> 's \<Rightarrow> 's"
  assumes sys_disk: "sys i (OnDisk c) s a t \<Longrightarrow> \<exists>D. disk_step c (disk_of s) a D \<and> t = with_disk D s"
begin

lemma spec_disk:
  assumes "stable i P"
    and "\<And>s. inv s \<Longrightarrow> P s \<Longrightarrow> runnable i s \<Longrightarrow> allowed i (OnDisk c) s"
    and "\<And>s a D. inv s \<Longrightarrow> P s \<Longrightarrow> runnable i s \<Longrightarrow> disk_step c (disk_of s) a D \<Longrightarrow>
      step_ok i (OnDisk c) s a (with_disk D s)
      \<and> (case a of Failed e \<Rightarrow> E (OsError e) (with_disk D s) | _ \<Rightarrow> Q a (with_disk D s))"
    and "\<And>a. stable i (Q a)" "\<And>e. stable i (E e)"
  shows "spec i P (on_disk c) Q E"
  unfolding on_disk_def
proof (rule spec_Call [where R = "\<lambda>a t. case a of Failed e \<Rightarrow> E (OsError e) t | _ \<Rightarrow> Q a t"])
  fix s a t assume "inv s" "P s" "runnable i s" "sys i (OnDisk c) s a t"
  with assms(3) sys_disk show "step_ok i (OnDisk c) s a t \<and> (case a of Failed e \<Rightarrow> E (OsError e) t | _ \<Rightarrow> Q a t)" by blast
next
  fix a show "spec i (\<lambda>t. case a of Failed e \<Rightarrow> E (OsError e) t | _ \<Rightarrow> Q a t)
      (case a of Failed e \<Rightarrow> Raise (OsError e) | _ \<Rightarrow> Ret a) Q E"
    using assms(4,5) by (cases a) (auto intro: spec_Ret spec_Raise)
qed (use assms(1,2) in auto)

end

end
