(* ===== verification/FileStore.thy ===== *)
theory FileStore
  imports Disk Stores
begin

section \<open>The file store\<close>

text \<open>
  \<open>stores/file.py\<close>: one JSON file per key, named by a digest of the key (a parameter), written beside its
  place and renamed over it; and the POSIX side of \<open>stores/_file_state_io.py\<close>. The store's directory is
  there: making it is not modelled. \<open>FileAtomic\<close> runs these programs beside each other, \<open>OwnerLock\<close> is the
  lock of \<open>with_lock\<close>.
\<close>

subsection \<open>Names\<close>

definition file_stem :: "(string \<Rightarrow> string) \<Rightarrow> string \<Rightarrow> string" where
  "file_stem digest key = take 32 (digest key)"

definition path_for :: "(string \<Rightarrow> string) \<Rightarrow> string \<Rightarrow> string" where
  "path_for digest key = file_stem digest key @ ''.json''"

definition temporary_for :: "(string \<Rightarrow> string) \<Rightarrow> int \<Rightarrow> int \<Rightarrow> string \<Rightarrow> string" where
  "temporary_for digest pid ns key = file_stem digest key @ ''.'' @ show_int pid @ ''.'' @ show_int ns @ ''.tmp''"

definition lock_path_for :: "(string \<Rightarrow> string) \<Rightarrow> string \<Rightarrow> string" where
  "lock_path_for digest key = file_stem digest key @ ''.json.lock''"

subsection \<open>Operations\<close>

definition wall_clock :: "rat program" where
  "wall_clock = Call WallClock (\<lambda>a. case a of Time t \<Rightarrow> Ret t | _ \<Rightarrow> Raise (OsError EIO))"

definition time_ns :: "int program" where
  "time_ns = Call TimeNs (\<lambda>a. case a of Count n \<Rightarrow> Ret n | _ \<Rightarrow> Raise (OsError EIO))"

definition read_state_text :: "string \<Rightarrow> string program" where
  "read_state_text path =
     prog_bind (on_disk (ReadFile (Top path))) (\<lambda>a.
       case a of
         Bytes c \<Rightarrow> if utf8_ok c then Ret c else Raise (PyExn (ValueErr ''invalid utf-8''))
       | _ \<Rightarrow> Raise (OsError EIO))"

definition replace_state_file :: "string \<Rightarrow> string \<Rightarrow> unit program" where
  "replace_state_file temporary target =
     prog_bind (on_disk (Rename (Top temporary) (Top target))) (\<lambda>_. Ret ())"

text \<open>\<open>path.unlink(missing_ok=True)\<close>\<close>

definition unlink_missing_ok :: "place \<Rightarrow> unit program" where
  "unlink_missing_ok p =
     prog_try (on_disk (Unlink p)) (\<lambda>_. Ret ())
       (\<lambda>e. if e = OsError ENOENT then Ret () else Raise e)"

definition file_forget :: "(string \<Rightarrow> string) \<Rightarrow> string \<Rightarrow> unit program" where
  "file_forget digest key = unlink_missing_ok (Top (path_for digest key))"

definition is_expired :: "json \<Rightarrow> rat \<Rightarrow> bool" where
  "is_expired v now = (case num_value v of None \<Rightarrow> False | Some t \<Rightarrow> pf_le t (Fin now))"

definition payload_of :: "pydict \<Rightarrow> pydict option" where
  "payload_of d = as_dict (dget d ''payload'')"

definition stored_document :: "string \<Rightarrow> string \<Rightarrow> pydict pyres" where
  "stored_document key raw =
     (case json_loads raw of
        None \<Rightarrow> Inl (unmappable_content (''the stored payload for ['' @ key @ ''] is not valid JSON''))
      | Some (JDict d) \<Rightarrow> Inr d
      | Some _ \<Rightarrow> Inl (unmappable_content (''the stored payload for ['' @ key @ ''] is not an object'')))"

definition read_document :: "(string \<Rightarrow> string) \<Rightarrow> string \<Rightarrow> string \<Rightarrow> pydict option program" where
  "read_document digest key raw =
     (case stored_document key raw of
        Inl e \<Rightarrow> Raise (PyExn e)
      | Inr d \<Rightarrow>
          if num_value (dget d ''expires_at'') = None then Ret (payload_of d)
          else prog_bind wall_clock (\<lambda>now.
                 if is_expired (dget d ''expires_at'') now
                 then prog_bind (file_forget digest key) (\<lambda>_. Ret None)
                 else Ret (payload_of d)))"

definition file_get :: "(string \<Rightarrow> string) \<Rightarrow> string \<Rightarrow> pydict option program" where
  "file_get digest key =
     prog_try (read_state_text (path_for digest key)) (read_document digest key)
       (\<lambda>e. if e = OsError ENOENT then Ret None else Raise e)"

definition document_of :: "string \<Rightarrow> pydict \<Rightarrow> pyfloat option \<Rightarrow> pydict" where
  "document_of key payload expires =
     [(''key'', JStr key), (''payload'', JDict payload),
      (''expires_at'', case expires of None \<Rightarrow> JNull | Some t \<Rightarrow> JFloat t)]"

definition expiry_of :: "pyfloat option \<Rightarrow> pyfloat option program" where
  "expiry_of ttl =
     (case ttl of None \<Rightarrow> Ret None | Some s \<Rightarrow> prog_bind wall_clock (\<lambda>now. Ret (Some (pf_add (Fin now) s))))"

text \<open>\<open>temporary.write_text(...)\<close>, then the rename, whose failure removes the temporary file.\<close>

definition write_and_replace :: "string \<Rightarrow> string \<Rightarrow> string \<Rightarrow> unit program" where
  "write_and_replace temporary target content =
     prog_bind (on_disk (OpenWrite (Top temporary))) (\<lambda>_.
     prog_bind (on_disk (WriteFile (Top temporary) content)) (\<lambda>_.
     prog_catch (replace_state_file temporary target) (\<lambda>e.
       case e of
         OsError _ \<Rightarrow> prog_bind (unlink_missing_ok (Top temporary)) (\<lambda>_. Raise e)
       | PyExn _ \<Rightarrow> Raise e)))"

definition file_put ::
  "(string \<Rightarrow> string) \<Rightarrow> int \<Rightarrow> string \<Rightarrow> pydict \<Rightarrow> pyfloat option \<Rightarrow> unit program" where
  "file_put digest pid key payload ttl =
     prog_bind time_ns (\<lambda>ns.
     prog_bind (expiry_of ttl) (\<lambda>expires.
       write_and_replace (temporary_for digest pid ns key) (path_for digest key)
         (json_dumps_default (JDict (document_of key payload expires)))))"

definition file_durability :: durability where
  "file_durability = DURABLE"

definition file_lock_scope :: string where
  "file_lock_scope = ''host''"

definition file_sharing_scope :: string where
  "file_sharing_scope = ''host''"

subsection \<open>One process alone\<close>

record store_world =
  sw_disk :: disk
  sw_now :: rat
  sw_ns :: int

fun serve_store :: "call \<Rightarrow> store_world \<Rightarrow> reply \<times> store_world" where
  "serve_store (OnDisk c) w = (fst (serve c (sw_disk w)), w\<lparr>sw_disk := snd (serve c (sw_disk w))\<rparr>)"
| "serve_store WallClock w = (Time (sw_now w), w)"
| "serve_store TimeNs w = (Count (sw_ns w), w)"
| "serve_store _ w = (Failed EIO, w)"

definition holds_file :: "disk \<Rightarrow> string \<Rightarrow> bool" where
  "holds_file D n = (case D n of None \<Rightarrow> True | Some (Leaf (Reg _)) \<Rightarrow> True | _ \<Rightarrow> False)"

lemma exec_on_disk:
  "exec serve_store (on_disk c) w =
     (case fst (serve c (sw_disk w)) of Failed e \<Rightarrow> Inl (OsError e) | a \<Rightarrow> Inr a, w\<lparr>sw_disk := snd (serve c (sw_disk w))\<rparr>)"
  by (simp add: on_disk_def split: reply.split)

lemma holds_file_cases:
  "holds_file D n \<Longrightarrow> D n = None \<or> (\<exists>c. D n = Some (Leaf (Reg c)))"
  by (auto simp: holds_file_def split: option.splits node.splits leaf.splits)

lemma exec_write_and_replace:
  assumes "holds_file (sw_disk w) tmp" "holds_file (sw_disk w) target" "tmp \<noteq> target"
  shows "exec serve_store (write_and_replace tmp target content) w
    = (Inr (), w\<lparr>sw_disk := (sw_disk w)(tmp := None, target := Some (Leaf (Reg content)))\<rparr>)"
proof -
  have opened: "serve (OpenWrite (Top tmp)) D = (Fine, D(tmp \<mapsto> Leaf (Reg [])))" if "holds_file D tmp" for D
    using holds_file_cases [OF that] by auto
  have written: "serve (WriteFile (Top tmp) content) (D(tmp \<mapsto> Leaf (Reg c))) = (Fine, D(tmp \<mapsto> Leaf (Reg content)))" for D c
    by simp
  have moved: "serve (Rename (Top tmp) (Top target)) (D(tmp \<mapsto> Leaf (Reg content)))
      = (Fine, D(tmp := None, target \<mapsto> Leaf (Reg content)))" if "holds_file D target" for D
    using holds_file_cases [OF that] assms(3) by (auto simp: rename_leaf_def)
  from assms show ?thesis
    by (simp add: write_and_replace_def replace_state_file_def prog_catch_def exec_bind exec_try exec_on_disk
        opened written moved del: serve.simps)
qed

lemma temporary_not_path: "temporary_for digest pid ns key \<noteq> path_for digest key'"
proof
  assume "temporary_for digest pid ns key = path_for digest key'"
  then have "rev (temporary_for digest pid ns key) = rev (path_for digest key')" by simp
  then show False by (simp add: temporary_for_def path_for_def)
qed

lemma exec_file_put:
  assumes "holds_file (sw_disk w) (temporary_for digest pid (sw_ns w) key)" "holds_file (sw_disk w) (path_for digest key)"
  shows "exec serve_store (file_put digest pid key d ttl) w
    = (Inr (), w\<lparr>sw_disk := (sw_disk w)(temporary_for digest pid (sw_ns w) key := None,
         path_for digest key \<mapsto> Leaf (Reg (json_dumps_default (JDict (document_of key d
            (map_option (pf_add (Fin (sw_now w))) ttl)))))) \<rparr>)"
  using assms
  by (cases ttl) (simp_all add: file_put_def time_ns_def expiry_of_def wall_clock_def exec_bind exec_write_and_replace
      temporary_not_path)

text \<open>What a document is read back as, before and after its time.\<close>

definition expiry_prints :: "pyfloat option \<Rightarrow> bool" where
  "expiry_prints t = (case t of Some (Fin q) \<Rightarrow> prints_exactly q | _ \<Rightarrow> True)"

lemma document_storable:
  assumes "utf8_ok key" "storable True (JDict d)" "expiry_prints t"
  shows "storable True (JDict (document_of key d t))"
  using assms by (auto simp: document_of_def text_ok_def expiry_prints_def utf8_ok_ascii byte_of_def
      split: option.splits pyfloat.splits intro!: ascii_text_utf8)

lemma document_read:
  assumes "utf8_ok key'" "storable True (JDict d)" "expiry_prints t"
  shows "utf8_ok (json_dumps_default (JDict (document_of key' d t)))
    \<and> stored_document key (json_dumps_default (JDict (document_of key' d t))) = Inr (document_of key' d t)"
  using document_storable [OF assms] by (simp add: utf8_dumps_default stored_document_def loads_dumps)

lemma document_gets:
  "dget (document_of key d t) ''expires_at'' = (case t of None \<Rightarrow> JNull | Some x \<Rightarrow> JFloat x)"
  "payload_of (document_of key d t) = Some d"
  by (simp_all add: document_of_def dget_Cons payload_of_def)

text \<open>\<open>has_expired t now\<close>: a document with the expiry \<open>t\<close> is no longer there at \<open>now\<close>.\<close>

definition has_expired :: "pyfloat option \<Rightarrow> rat \<Rightarrow> bool" where
  "has_expired t now = (case t of None \<Rightarrow> False | Some x \<Rightarrow> pf_le x (Fin now))"

lemma exec_file_get:
  assumes "sw_disk w (path_for digest key) = Some (Leaf (Reg (json_dumps_default (JDict (document_of key' d t)))))"
    and "utf8_ok key'" "storable True (JDict d)" "expiry_prints t"
  shows "exec serve_store (file_get digest key) w
    = (if has_expired t (sw_now w) then (Inr None, w\<lparr>sw_disk := (sw_disk w)(path_for digest key := None)\<rparr>)
       else (Inr (Some d), w))"
  using document_read [OF assms(2-4)] assms(1)
  by (cases t) (simp_all add: file_get_def read_state_text_def read_document_def exec_try exec_bind exec_on_disk wall_clock_def
      file_forget_def unlink_missing_ok_def document_gets is_expired_def has_expired_def)

end
