(* ===== verification/FileAtomic.thy ===== *)
theory FileAtomic
  imports FileStore
begin

section \<open>File stores beside each other\<close>

text \<open>
  Any number of threads, in any number of processes, use one directory: each runs one \<open>put\<close>, \<open>get\<close> or
  \<open>forget\<close> of \<open>FileStore\<close>, call by call, with no lock. Any call may fail, a write may be torn, and a thread
  that makes no further call is one whose process was killed. \<open>directory_ok\<close> is the invariant: what stands
  under the name of a key is a whole document that was put there (or was there before).
\<close>

datatype store_op =
    PutOp string pydict "pyfloat option"
  | GetOp string
  | ForgetOp string

fun op_key :: "store_op \<Rightarrow> string" where
  "op_key (PutOp k _ _) = k" | "op_key (GetOp k) = k" | "op_key (ForgetOp k) = k"

definition op_program :: "(string \<Rightarrow> string) \<Rightarrow> int \<Rightarrow> store_op \<Rightarrow> pydict option program" where
  "op_program digest pid x =
     (case x of
        PutOp k d ttl \<Rightarrow> prog_bind (file_put digest pid k d ttl) (\<lambda>_. Ret None)
      | GetOp k \<Rightarrow> file_get digest k
      | ForgetOp k \<Rightarrow> prog_bind (file_forget digest k) (\<lambda>_. Ret None))"

text \<open>A setting: the digest, the process and the reading of \<open>time_ns\<close> of each thread, and its operation.\<close>

record setting =
  st_digest :: "string \<Rightarrow> string"
  st_pid :: "nat \<Rightarrow> int"
  st_ns :: "nat \<Rightarrow> int"
  st_op :: "nat \<Rightarrow> store_op"

definition temporary_of :: "setting \<Rightarrow> nat \<Rightarrow> string" where
  "temporary_of S i = temporary_for (st_digest S) (st_pid S i) (st_ns S i) (op_key (st_op S i))"

definition path_of :: "setting \<Rightarrow> nat \<Rightarrow> string" where
  "path_of S i = path_for (st_digest S) (op_key (st_op S i))"

definition thread_of :: "setting \<Rightarrow> nat \<Rightarrow> pydict option program" where
  "thread_of S i = op_program (st_digest S) (st_pid S i) (st_op S i)"

text \<open>What the calls of a thread do. The clock may say anything, in decimals that print.\<close>

inductive store_sys :: "setting \<Rightarrow> nat \<Rightarrow> call \<Rightarrow> disk \<Rightarrow> reply \<Rightarrow> disk \<Rightarrow> bool" for S where
  store_disk: "disk_step c D a D' \<Longrightarrow> store_sys S i (OnDisk c) D a D'"
| store_clock: "prints_exactly t \<Longrightarrow> store_sys S i WallClock D (Time t) D"
| store_ns: "store_sys S i TimeNs D (Count (st_ns S i)) D"
| store_other: "c \<notin> range OnDisk \<union> {WallClock, TimeNs} \<Longrightarrow> store_sys S i c D a D"

inductive_cases store_diskE: "store_sys S i (OnDisk c) D a D'"
inductive_cases store_clockE: "store_sys S i WallClock D a D'"
inductive_cases store_nsE: "store_sys S i TimeNs D a D'"

text \<open>The documents that may stand under a name: those that were there, and those that are put.\<close>

definition written_by :: "setting \<Rightarrow> nat \<Rightarrow> string \<Rightarrow> pydict \<Rightarrow> string \<Rightarrow> bool" where
  "written_by S i k d c =
     (\<exists>ttl t. st_op S i = PutOp k d ttl \<and> expiry_prints t \<and> c = json_dumps_default (JDict (document_of k d t)))"

definition document_under :: "setting \<Rightarrow> disk \<Rightarrow> string \<Rightarrow> string \<Rightarrow> bool" where
  "document_under S D\<^sub>0 n c =
     (D\<^sub>0 n = Some (Leaf (Reg c)) \<or> (\<exists>i k d. path_of S i = n \<and> written_by S i k d c))"

definition directory_ok :: "setting \<Rightarrow> disk \<Rightarrow> disk \<Rightarrow> bool" where
  "directory_ok S D\<^sub>0 D =
     (\<forall>i. D (path_of S i) = None \<or> (\<exists>c. D (path_of S i) = Some (Leaf (Reg c)) \<and> document_under S D\<^sub>0 (path_of S i) c))"

definition own_temporary :: "setting \<Rightarrow> nat \<Rightarrow> disk \<Rightarrow> disk \<Rightarrow> bool" where
  "own_temporary S i D D' = (D' (temporary_of S i) = D (temporary_of S i))"

interpretation stores: disk_pool "store_sys S" "\<lambda>_ _. True" "\<lambda>_ _. False" "directory_ok S D\<^sub>0" "own_temporary S"
    "\<lambda>_ _ _. True" "\<lambda>D. D" "\<lambda>D _. D" for S D\<^sub>0
  by unfold_locales (auto simp: own_temporary_def elim: store_diskE)

subsection \<open>The threads keep the directory\<close>

definition distinct_temporaries :: "setting \<Rightarrow> bool" where
  "distinct_temporaries S = (\<forall>i j. i \<noteq> j \<longrightarrow> temporary_of S i \<noteq> temporary_of S j)"

definition puts_storable :: "setting \<Rightarrow> bool" where
  "puts_storable S =
     (\<forall>i k d ttl. st_op S i = PutOp k d ttl \<longrightarrow> utf8_ok k \<and> storable True (JDict d) \<and> expiry_prints ttl)"

definition is_document :: "string \<Rightarrow> bool" where
  "is_document c = (\<exists>k d t. utf8_ok k \<and> storable True (JDict d) \<and> expiry_prints t
     \<and> c = json_dumps_default (JDict (document_of k d t)))"

definition starts_ok :: "setting \<Rightarrow> disk \<Rightarrow> bool" where
  "starts_ok S D\<^sub>0 = (\<forall>i. D\<^sub>0 (path_of S i) = None \<or> (\<exists>c. D\<^sub>0 (path_of S i) = Some (Leaf (Reg c)) \<and> is_document c))"

lemma directory_ok_start: "starts_ok S D \<Longrightarrow> directory_ok S D D"
  by (fastforce simp: starts_ok_def directory_ok_def document_under_def)

lemma temporary_path [simp]: "temporary_of S i \<noteq> path_of S j" "path_of S j \<noteq> temporary_of S i"
  unfolding temporary_of_def path_of_def using temporary_not_path by metis+

lemma document_under_document:
  "puts_storable S \<Longrightarrow> starts_ok S D\<^sub>0 \<Longrightarrow> document_under S D\<^sub>0 (path_of S i) c \<Longrightarrow> is_document c"
  unfolding document_under_def starts_ok_def puts_storable_def written_by_def is_document_def
  by (metis leaf.inject node.inject(1) option.distinct(1) option.inject)

lemma prints_exactly_add: "prints_exactly p \<Longrightarrow> prints_exactly q \<Longrightarrow> prints_exactly (p + q)"
proof -
  assume "prints_exactly p" "prints_exactly q"
  then obtain a b where "p * 10 ^ 17 = of_int a" "q * 10 ^ 17 = of_int b"
    unfolding prints_exactly_def using rat_is_integerD by blast
  then have "(p + q) * 10 ^ 17 = of_int (a + b)" by (simp add: distrib_right)
  then show ?thesis by (simp add: prints_exactly_def rat_is_integer_def)
qed

lemma step_touch:
  assumes "distinct_temporaries S" "directory_ok S D\<^sub>0 D" "only_at {temporary_of S i, path_of S i} D D'"
    and "D' (path_of S i) \<in> {D (path_of S i), None} \<or> (\<exists>c. D' (path_of S i) = Some (Leaf (Reg c)) \<and> document_under S D\<^sub>0 (path_of S i) c)"
  shows "stores.step_ok S D\<^sub>0 i x D a D'"
  unfolding stores.step_ok_def
proof (intro conjI allI impI)
  show "directory_ok S D\<^sub>0 D'"
    unfolding directory_ok_def
  proof
    fix j
    show "D' (path_of S j) = None \<or> (\<exists>c. D' (path_of S j) = Some (Leaf (Reg c)) \<and> document_under S D\<^sub>0 (path_of S j) c)"
    proof (cases "path_of S j = path_of S i")
      case True
      with assms(2,4) show ?thesis unfolding directory_ok_def by auto
    next
      case False
      with assms(3) have "D' (path_of S j) = D (path_of S j)" by (simp add: only_at_def)
      with assms(2) show ?thesis unfolding directory_ok_def by simp
    qed
  qed
next
  fix j assume "j \<noteq> i"
  with assms(1,3) show "own_temporary S j D D'" by (auto simp: own_temporary_def only_at_def distinct_temporaries_def)
qed

lemma only_at_mono: "only_at N D D' \<Longrightarrow> N \<subseteq> M \<Longrightarrow> only_at M D D'"
  by (auto simp: only_at_def)

text \<open>Assertions of a thread about its own temporary file are stable; so is what does not speak of the disk.\<close>

lemma stable_own: "stores.stable S i (\<lambda>D. P (D (temporary_of S i)))"
  by (simp add: stores.stable_def own_temporary_def)

lemma stable_const: "stores.stable S i (\<lambda>_. P)"
  by (simp add: stores.stable_def)

abbreviation os_only :: "fault \<Rightarrow> disk \<Rightarrow> bool" where
  "os_only e \<equiv> \<lambda>_. \<exists>x. e = OsError x"

lemma spec_const: "stores.spec S D\<^sub>0 i (\<lambda>_. P) (Ret x) (\<lambda>x _. Q x) E \<longleftrightarrow> (\<exists>D. directory_ok S D\<^sub>0 D) \<and> P \<longrightarrow> Q x"
  by (auto simp: stores.spec_def own_temporary_def)

lemma unlink_spec:
  assumes "distinct_temporaries S" "n \<in> {temporary_of S i, path_of S i}"
  shows "stores.spec S D\<^sub>0 i (\<lambda>_. P) (unlink_missing_ok (Top n)) (\<lambda>_ _. P) (\<lambda>e _. P \<and> (\<exists>x. e = OsError x))"
  unfolding unlink_missing_ok_def
proof (rule stores.spec_try)
  show "stores.spec S D\<^sub>0 i (\<lambda>_. P) (on_disk (Unlink (Top n))) (\<lambda>_ _. P) (\<lambda>e _. P \<and> (\<exists>x. e = OsError x))"
  proof (rule stores.spec_disk)
    fix D a D'
    assume D: "directory_ok S D\<^sub>0 D" "P" "disk_step (Unlink (Top n)) D a D'"
    from unlink_step [OF D(3)] have t: "only_at {n} D D'" "D' n = D n \<or> D' n = None" by auto
    from t(1) have "only_at {temporary_of S i, path_of S i} D D'" by (rule only_at_mono) (use assms(2) in auto)
    moreover have "D' (path_of S i) \<in> {D (path_of S i), None}"
      using t by (cases "path_of S i = n") (auto simp: only_at_def)
    ultimately show "stores.step_ok S D\<^sub>0 i (OnDisk (Unlink (Top n))) D a D'
        \<and> (case a of Failed e \<Rightarrow> P \<and> (\<exists>x. OsError e = OsError x) | _ \<Rightarrow> P)"
      using step_touch [OF assms(1) D(1)] D(2) by (auto split: reply.split)
  qed (auto intro: stable_const)
next
  show "stores.spec S D\<^sub>0 i (\<lambda>_. P) (Ret ()) (\<lambda>_ _. P) (\<lambda>e _. P \<and> (\<exists>x. e = OsError x))"
    by (rule stores.spec_Ret) (auto intro: stable_const)
next
  fix e show "stores.spec S D\<^sub>0 i (\<lambda>_. P \<and> (\<exists>x. e = OsError x)) (if e = OsError ENOENT then Ret () else Raise e)
      (\<lambda>_ _. P) (\<lambda>e _. P \<and> (\<exists>x. e = OsError x))"
    by (auto intro!: stores.spec_Ret stores.spec_Raise stable_const)
qed

lemma clock_spec: "stores.spec S D\<^sub>0 i (\<lambda>_. P) wall_clock (\<lambda>t _. P \<and> prints_exactly t) (\<lambda>e _. P \<and> (\<exists>x. e = OsError x))"
  unfolding wall_clock_def
proof (rule stores.spec_Call [where R = "\<lambda>a _. P \<and> (\<exists>t. a = Time t \<and> prints_exactly t)"])
  fix D a D' assume "directory_ok S D\<^sub>0 D" "P" "store_sys S i WallClock D a D'"
  then show "stores.step_ok S D\<^sub>0 i WallClock D a D' \<and> P \<and> (\<exists>t. a = Time t \<and> prints_exactly t)"
    by (auto simp: stores.step_ok_def own_temporary_def elim: store_clockE)
next
  fix a show "stores.spec S D\<^sub>0 i (\<lambda>_. P \<and> (\<exists>t. a = Time t \<and> prints_exactly t))
      (case a of Time t \<Rightarrow> Ret t | _ \<Rightarrow> Raise (OsError EIO)) (\<lambda>t _. P \<and> prints_exactly t) (\<lambda>e _. P \<and> (\<exists>x. e = OsError x))"
    by (cases a) (auto intro!: stores.spec_Ret stores.spec_Raise stable_const)
qed (auto intro: stable_const)

lemma ns_spec: "stores.spec S D\<^sub>0 i (\<lambda>_. P) time_ns (\<lambda>n _. P \<and> n = st_ns S i) (\<lambda>e _. P \<and> (\<exists>x. e = OsError x))"
  unfolding time_ns_def
proof (rule stores.spec_Call [where R = "\<lambda>a _. P \<and> a = Count (st_ns S i)"])
  fix D a D' assume "directory_ok S D\<^sub>0 D" "P" "store_sys S i TimeNs D a D'"
  then show "stores.step_ok S D\<^sub>0 i TimeNs D a D' \<and> P \<and> a = Count (st_ns S i)"
    by (auto simp: stores.step_ok_def own_temporary_def elim: store_nsE)
next
  fix a show "stores.spec S D\<^sub>0 i (\<lambda>_. P \<and> a = Count (st_ns S i))
      (case a of Count n \<Rightarrow> Ret n | _ \<Rightarrow> Raise (OsError EIO)) (\<lambda>n _. P \<and> n = st_ns S i) (\<lambda>e _. P \<and> (\<exists>x. e = OsError x))"
    by (cases a) (auto intro!: stores.spec_Ret stores.spec_Raise stable_const)
qed (auto intro: stable_const)

text \<open>A write: torn or whole in the temporary file, then whole or not at all in its place.\<close>

lemma replace_spec:
  assumes dist: "distinct_temporaries S" and doc: "document_under S D\<^sub>0 (path_of S i) c"
  shows "stores.spec S D\<^sub>0 i (\<lambda>_. True) (write_and_replace (temporary_of S i) (path_of S i) c) (\<lambda>_ _. True) os_only"
  (is "stores.spec S D\<^sub>0 i _ (write_and_replace ?tmp ?path c) _ _")
proof -
  let ?own = "\<lambda>b D. D ?tmp = Some (Leaf (Reg b))"
  have own: "stores.stable S i (?own b)" for b using stable_own [of S i "\<lambda>x. x = Some (Leaf (Reg b))"] .
  have touch: "stores.step_ok S D\<^sub>0 i x D a D'" if "directory_ok S D\<^sub>0 D" "only_at {?tmp} D D'" for x D a D'
    using that(2) by (intro step_touch [OF dist that(1)]) (auto simp: only_at_def)
  have opened: "stores.spec S D\<^sub>0 i (\<lambda>_. True) (on_disk (OpenWrite (Top ?tmp))) (\<lambda>_. ?own []) os_only"
  proof (rule stores.spec_disk)
    fix D a D' assume "directory_ok S D\<^sub>0 D" "disk_step (OpenWrite (Top ?tmp)) D a D'"
    with open_step [of ?tmp D a D'] touch show "stores.step_ok S D\<^sub>0 i (OnDisk (OpenWrite (Top ?tmp))) D a D'
        \<and> (case a of Failed e \<Rightarrow> \<exists>x. OsError e = OsError x | _ \<Rightarrow> ?own [] D')" by (auto split: reply.split)
  qed (auto intro: stable_const own)
  have written: "stores.spec S D\<^sub>0 i (?own []) (on_disk (WriteFile (Top ?tmp) c)) (\<lambda>_. ?own c) os_only"
  proof (rule stores.spec_disk)
    fix D a D' assume "directory_ok S D\<^sub>0 D" "?own [] D" "disk_step (WriteFile (Top ?tmp) c) D a D'"
    with write_step [of ?tmp c D a D'] touch show "stores.step_ok S D\<^sub>0 i (OnDisk (WriteFile (Top ?tmp) c)) D a D'
        \<and> (case a of Failed e \<Rightarrow> \<exists>x. OsError e = OsError x | _ \<Rightarrow> ?own c D')" by (auto split: reply.split)
  qed (auto intro: stable_const own)
  have moved: "stores.spec S D\<^sub>0 i (?own c) (on_disk (Rename (Top ?tmp) (Top ?path))) (\<lambda>_ _. True) os_only"
  proof (rule stores.spec_disk)
    fix D a D' assume D: "directory_ok S D\<^sub>0 D" "?own c D" "disk_step (Rename (Top ?tmp) (Top ?path)) D a D'"
    from rename_step [OF D(3,2)] doc have "stores.step_ok S D\<^sub>0 i (OnDisk (Rename (Top ?tmp) (Top ?path))) D a D'"
      by (intro step_touch [OF dist D(1)]) auto
    then show "stores.step_ok S D\<^sub>0 i (OnDisk (Rename (Top ?tmp) (Top ?path))) D a D'
        \<and> (case a of Failed e \<Rightarrow> \<exists>x. OsError e = OsError x | _ \<Rightarrow> True)" by (auto split: reply.split)
  qed (auto intro: stable_const own)
  have "stores.spec S D\<^sub>0 i (?own c) (replace_state_file ?tmp ?path) (\<lambda>_ _. True) os_only"
    unfolding replace_state_file_def
    by (rule stores.spec_bind [OF moved]) (auto intro!: stores.spec_Ret stable_const)
  then have finish: "stores.spec S D\<^sub>0 i (?own c)
      (prog_catch (replace_state_file ?tmp ?path)
         (\<lambda>e. case e of OsError _ \<Rightarrow> prog_bind (unlink_missing_ok (Top ?tmp)) (\<lambda>_. Raise e) | PyExn _ \<Rightarrow> Raise e))
      (\<lambda>_ _. True) os_only"
    unfolding prog_catch_def
  proof (rule stores.spec_try)
    fix e show "stores.spec S D\<^sub>0 i (\<lambda>_. \<exists>x. e = OsError x)
        (case e of OsError _ \<Rightarrow> prog_bind (unlink_missing_ok (Top ?tmp)) (\<lambda>_. Raise e) | PyExn _ \<Rightarrow> Raise e)
        (\<lambda>_ _. True) os_only"
    proof (cases e)
      case (OsError x)
      have "stores.spec S D\<^sub>0 i (\<lambda>_. True) (unlink_missing_ok (Top ?tmp)) (\<lambda>_ _. True) os_only"
        using unlink_spec [OF dist, of ?tmp i D\<^sub>0 True] by simp
      then have "stores.spec S D\<^sub>0 i (\<lambda>_. True) (prog_bind (unlink_missing_ok (Top ?tmp)) (\<lambda>_. Raise (OsError x)))
          (\<lambda>_ _. True) os_only"
        by (rule stores.spec_bind) (auto intro!: stores.spec_Raise stable_const)
      with OsError show ?thesis by simp
    qed (auto intro: stores.spec_Raise stable_const)
  qed (auto intro: stores.spec_Ret stable_const)
  show ?thesis unfolding write_and_replace_def
    by (rule stores.spec_bind [OF opened stores.spec_bind [OF written finish]]) (auto intro: stable_const)
qed

lemma unlink_spec_true:
  "distinct_temporaries S \<Longrightarrow> n \<in> {temporary_of S i, path_of S i} \<Longrightarrow>
     stores.spec S D\<^sub>0 i (\<lambda>_. True) (unlink_missing_ok (Top n)) (\<lambda>_ _. True) os_only"
  using unlink_spec [of S n i D\<^sub>0 True] by simp

lemma put_spec:
  assumes dist: "distinct_temporaries S" and puts: "puts_storable S" and op: "st_op S i = PutOp k d ttl"
  shows "stores.spec S D\<^sub>0 i (\<lambda>_. True) (file_put (st_digest S) (st_pid S i) k d ttl) (\<lambda>_ _. True) os_only"
proof -
  from puts op have ttl: "expiry_prints ttl" unfolding puts_storable_def by blast
  have clock: "stores.spec S D\<^sub>0 i (\<lambda>_. True) (expiry_of ttl) (\<lambda>t _. expiry_prints t) os_only"
  proof (cases ttl)
    case None
    then show ?thesis by (auto simp: expiry_of_def expiry_prints_def intro!: stores.spec_Ret stable_const)
  next
    case (Some x)
    have clock: "stores.spec S D\<^sub>0 i (\<lambda>_. True) wall_clock (\<lambda>t _. prints_exactly t) os_only"
      using clock_spec [of S D\<^sub>0 i True] by simp
    have sum: "prints_exactly t \<Longrightarrow> expiry_prints (Some (pf_add (Fin t) x))" for t
      using ttl Some by (cases x) (auto simp: expiry_prints_def intro: prints_exactly_add)
    show ?thesis unfolding expiry_of_def Some option.case
      by (rule stores.spec_bind [OF clock]) (auto intro!: stores.spec_Ret stable_const sum)
  qed
  have ns: "stores.spec S D\<^sub>0 i (\<lambda>_. True) time_ns (\<lambda>n _. n = st_ns S i) os_only"
    using ns_spec [of S D\<^sub>0 i True] by simp
  have replaced: "stores.spec S D\<^sub>0 i (\<lambda>_. expiry_prints t) (write_and_replace (temporary_for (st_digest S) (st_pid S i) (st_ns S i) k)
      (path_for (st_digest S) k) (json_dumps_default (JDict (document_of k d t)))) (\<lambda>_ _. True) os_only" for t
  proof (cases "expiry_prints t")
    case True
    with op have "document_under S D\<^sub>0 (path_of S i) (json_dumps_default (JDict (document_of k d t)))"
      unfolding document_under_def written_by_def by blast
    from replace_spec [OF dist this] op show ?thesis by (simp add: temporary_of_def path_of_def True)
  qed (simp add: stores.spec_def)
  show ?thesis unfolding file_put_def
  proof (rule stores.spec_bind [OF ns])
    fix n show "stores.spec S D\<^sub>0 i (\<lambda>_. n = st_ns S i)
        (prog_bind (expiry_of ttl) (\<lambda>expires. write_and_replace (temporary_for (st_digest S) (st_pid S i) n k)
          (path_for (st_digest S) k) (json_dumps_default (JDict (document_of k d expires))))) (\<lambda>_ _. True) os_only"
    proof (cases "n = st_ns S i")
      case True
      then show ?thesis by simp (rule stores.spec_bind [OF clock replaced], rule stable_const)
    qed (simp add: stores.spec_def)
  qed (rule stable_const)
qed

text \<open>A reader finds nothing, or a whole document; what it raises is an error of the disk.\<close>

definition is_answer :: "setting \<Rightarrow> disk \<Rightarrow> nat \<Rightarrow> pydict option \<Rightarrow> bool" where
  "is_answer S D\<^sub>0 i x =
     (case x of None \<Rightarrow> True
      | Some d \<Rightarrow> (\<exists>k t. document_under S D\<^sub>0 (path_of S i) (json_dumps_default (JDict (document_of k d t)))))"

lemma get_spec:
  assumes dist: "distinct_temporaries S" and puts: "puts_storable S" and start: "starts_ok S D\<^sub>0" and op: "st_op S i = GetOp k"
  shows "stores.spec S D\<^sub>0 i (\<lambda>_. True) (file_get (st_digest S) k) (\<lambda>x _. is_answer S D\<^sub>0 i x) os_only"
proof -
  let ?path = "path_of S i"
  from op have path: "path_for (st_digest S) k = ?path" by (simp add: path_of_def)
  let ?bytes = "\<lambda>a. a \<in> range Bytes \<longrightarrow> (\<exists>c. a = Bytes c \<and> document_under S D\<^sub>0 ?path c)"
  have read: "stores.spec S D\<^sub>0 i (\<lambda>_. True) (on_disk (ReadFile (Top ?path))) (\<lambda>a _. ?bytes a) os_only"
  proof (rule stores.spec_disk)
    fix D a D' assume D: "directory_ok S D\<^sub>0 D" "disk_step (ReadFile (Top ?path)) D a D'"
    from read_step [OF D(2)] have D': "D' = D" "\<And>c. a = Bytes c \<Longrightarrow> D ?path = Some (Leaf (Reg c))"
      by (auto simp del: node_at.simps)
    with D(1) have "?bytes a" unfolding directory_ok_def by (metis (no_types, opaque_lifting) image_iff leaf.inject
          node.inject(1) option.distinct(1) option.inject)
    moreover from D(1) D'(1) have "stores.step_ok S D\<^sub>0 i x D a D'" for x by (simp add: stores.step_ok_def own_temporary_def)
    ultimately show "stores.step_ok S D\<^sub>0 i (OnDisk (ReadFile (Top ?path))) D a D'
        \<and> (case a of Failed e \<Rightarrow> \<exists>x. OsError e = OsError x | _ \<Rightarrow> ?bytes a)" by (auto split: reply.split)
  qed (auto intro: stable_const)
  have raw: "stores.spec S D\<^sub>0 i (\<lambda>_. True) (read_state_text ?path) (\<lambda>c _. document_under S D\<^sub>0 ?path c) os_only"
    unfolding read_state_text_def
  proof (rule stores.spec_bind [OF read])
    fix a show "stores.spec S D\<^sub>0 i (\<lambda>_. ?bytes a)
      (case a of Bytes c \<Rightarrow> if utf8_ok c then Ret c else Raise (PyExn (ValueErr ''invalid utf-8'')) | _ \<Rightarrow> Raise (OsError EIO))
      (\<lambda>c _. document_under S D\<^sub>0 ?path c) os_only"
    proof (cases a)
      case (Bytes c)
      show ?thesis
      proof (cases "document_under S D\<^sub>0 ?path c")
        case True
        then have "utf8_ok c" using document_under_document [OF puts start True] document_read
          unfolding is_document_def by blast
        with Bytes True show ?thesis by (auto intro!: stores.spec_Ret stable_const)
      qed (simp add: Bytes stores.spec_def)
    qed (auto intro: stores.spec_Raise stable_const)
  qed (rule stable_const)
  have parsed: "stores.spec S D\<^sub>0 i (\<lambda>_. document_under S D\<^sub>0 ?path c) (read_document (st_digest S) k c)
      (\<lambda>x _. is_answer S D\<^sub>0 i x) os_only" for c
  proof (cases "document_under S D\<^sub>0 ?path c")
    case True
    then obtain k' d t where c: "utf8_ok k'" "storable True (JDict d)" "expiry_prints t"
      "c = json_dumps_default (JDict (document_of k' d t))"
      using document_under_document [OF puts start] unfolding is_document_def by blast
    then have doc: "stored_document k c = Inr (document_of k' d t)" using document_read by blast
    from True c(4) have answer: "is_answer S D\<^sub>0 i (Some d)" by (auto simp: is_answer_def)
    have none: "is_answer S D\<^sub>0 i None" by (simp add: is_answer_def)
    have clock: "stores.spec S D\<^sub>0 i (\<lambda>_. True) wall_clock (\<lambda>_ _. True) os_only"
      by (rule stores.spec_post [OF clock_spec [of S D\<^sub>0 i True]]) auto
    have forget: "stores.spec S D\<^sub>0 i (\<lambda>_. True) (prog_bind (file_forget (st_digest S) k) (\<lambda>_. Ret None))
        (\<lambda>x _. is_answer S D\<^sub>0 i x) os_only"
      unfolding file_forget_def path
      by (rule stores.spec_bind [OF unlink_spec_true [OF dist]])
        (auto intro!: stores.spec_Ret stable_const simp: none)
    have live: "stores.spec S D\<^sub>0 i (\<lambda>_. True) (Ret (Some d)) (\<lambda>x _. is_answer S D\<^sub>0 i x) os_only"
      by (rule stores.spec_Ret) (auto intro: stable_const simp: answer)
    have timed: "stores.spec S D\<^sub>0 i (\<lambda>_. True)
        (prog_bind wall_clock (\<lambda>now. if is_expired v now
           then prog_bind (file_forget (st_digest S) k) (\<lambda>_. Ret None) else Ret (Some d)))
        (\<lambda>x _. is_answer S D\<^sub>0 i x) os_only" for v
      by (rule stores.spec_bind [OF clock]) (use forget live in \<open>auto intro: stable_const\<close>)
    show ?thesis unfolding read_document_def doc sum.case document_gets
      using stores.spec_pre [OF live] stores.spec_pre [OF timed] by simp
  qed (simp add: stores.spec_def)
  show ?thesis unfolding file_get_def path
    by (rule stores.spec_try [OF raw parsed])
      (auto intro!: stores.spec_Ret stores.spec_Raise stable_const simp: is_answer_def)
qed

text \<open>Every thread, whatever its operation.\<close>

lemma thread_spec:
  assumes "distinct_temporaries S" "puts_storable S" "starts_ok S D\<^sub>0"
  shows "stores.spec S D\<^sub>0 i (\<lambda>_. True) (thread_of S i)
    (\<lambda>x _. is_answer S D\<^sub>0 i x) os_only"
proof (cases "st_op S i")
  case (PutOp k d ttl)
  have "stores.spec S D\<^sub>0 i (\<lambda>_. True) (prog_bind (file_put (st_digest S) (st_pid S i) k d ttl) (\<lambda>_. Ret None))
      (\<lambda>x _. is_answer S D\<^sub>0 i x) os_only"
    by (rule stores.spec_bind [OF put_spec [OF assms(1,2) PutOp]])
      (auto intro!: stores.spec_Ret stable_const simp: is_answer_def)
  with PutOp show ?thesis by (simp add: thread_of_def op_program_def)
next
  case (GetOp k)
  with get_spec [OF assms] show ?thesis by (simp add: thread_of_def op_program_def)
next
  case (ForgetOp k)
  then have "path_for (st_digest S) k = path_of S i" by (simp add: path_of_def)
  have "stores.spec S D\<^sub>0 i (\<lambda>_. True) (prog_bind (file_forget (st_digest S) k) (\<lambda>_. Ret None))
      (\<lambda>x _. is_answer S D\<^sub>0 i x) os_only"
    unfolding file_forget_def \<open>path_for _ _ = _\<close>
    by (rule stores.spec_bind [OF unlink_spec_true [OF assms(1)]])
      (auto intro!: stores.spec_Ret stable_const simp: is_answer_def)
  with ForgetOp show ?thesis by (simp add: thread_of_def op_program_def)
qed

abbreviation store_runs :: "setting \<Rightarrow> disk \<Rightarrow> disk \<times> (nat \<Rightarrow> pydict option program) \<Rightarrow> bool" where
  "store_runs S D\<^sub>0 y \<equiv> pool_runs (store_sys S) (\<lambda>_ _. True) (\<lambda>_ _. False) (D\<^sub>0, thread_of S) y"

lemma store_pool:
  assumes "distinct_temporaries S" "puts_storable S" "starts_ok S D\<^sub>0" "store_runs S D\<^sub>0 (D, T)"
  shows "directory_ok S D\<^sub>0 D \<and> (\<forall>i. stores.keeps S D\<^sub>0 (T i) i D (\<lambda>x _. is_answer S D\<^sub>0 i x) os_only)"
proof -
  have start: "directory_ok S D\<^sub>0 D\<^sub>0" by (rule directory_ok_start [OF assms(3)])
  have "stores.keeps S D\<^sub>0 (thread_of S i) i D\<^sub>0 (\<lambda>x _. is_answer S D\<^sub>0 i x) os_only" for i
    using thread_spec [OF assms(1-3)] start unfolding stores.spec_def by blast
  with stores.pool_keeps [OF assms(4), where Q = "\<lambda>i x _. is_answer S D\<^sub>0 i x" and E = "\<lambda>_. os_only"] start
  show ?thesis by simp
qed

end
