(* ===== verification/FileProps.thy ===== *)
theory FileProps
  imports FileAtomic
begin

section \<open>What the file store guarantees\<close>

text \<open>The properties of \<open>stores/file.py\<close>: atomicity among any number of threads, and the round trip of one.\<close>

subsection \<open>A small directory\<close>

text \<open>Thread 0 puts a document under a key that every other thread reads.\<close>

definition small_setting :: setting where
  "small_setting =
     \<lparr> st_digest = (\<lambda>k. k), st_pid = (\<lambda>_. 1), st_ns = int,
       st_op = (\<lambda>i. if i = 0 then PutOp ''k'' [(''a'', JInt 1)] None else GetOp ''k'') \<rparr>"

lemma show_int_of_nat: "show_int (int n) = show_nat n"
  by (simp add: show_int_def)

lemma small_ok: "distinct_temporaries small_setting \<and> puts_storable small_setting \<and> starts_ok small_setting Map.empty"
proof -
  have "op_key (st_op small_setting i) = ''k''" for i by (simp add: small_setting_def)
  then have "distinct_temporaries small_setting"
    by (auto simp: distinct_temporaries_def temporary_of_def temporary_for_def small_setting_def show_int_of_nat dest: show_nat_inj)
  then show ?thesis
    by (auto simp: puts_storable_def starts_ok_def small_setting_def text_ok_def expiry_prints_def byte_of_def
        intro!: ascii_text_utf8 split: if_splits)
qed

definition small_world :: store_world where
  "small_world = \<lparr> sw_disk = Map.empty, sw_now = 0, sw_ns = 0 \<rparr>"

text \<open>A thread of a setting, alone in its pool.\<close>

lemma store_serve_ok:
  assumes "sw_ns w = st_ns S i \<and> prints_exactly (sw_now w)"
  shows "store_sys S i c (sw_disk w) (fst (serve_store c w)) (sw_disk (snd (serve_store c w)))
    \<and> (sw_ns (snd (serve_store c w)) = st_ns S i \<and> prints_exactly (sw_now (snd (serve_store c w)))) \<and> True"
proof (cases c)
  case (OnDisk d)
  with assms show ?thesis by (auto intro!: store_disk step_served)
next
  case TimeNs
  with assms store_ns [of S i "sw_disk w"] show ?thesis by simp
qed (use assms in \<open>auto intro: store_clock store_other\<close>)

lemma store_solo:
  assumes "sw_ns w = st_ns S i" "prints_exactly (sw_now w)" "T i = p"
  shows "pool_runs (store_sys S) (\<lambda>_ _. True) (\<lambda>_ _. False) (sw_disk w, T)
    (sw_disk (snd (exec serve_store p w)), T(i := outcome_of (fst (exec serve_store p w))))"
  by (rule solo_run [where I = "\<lambda>w. sw_ns w = st_ns S i \<and> prints_exactly (sw_now w)" and shows_state = sw_disk])
    (use store_serve_ok assms in auto)

lemma small_put:
  "store_runs small_setting Map.empty
     ([path_for (\<lambda>k. k) ''k'' \<mapsto> Leaf (Reg (json_dumps_default (JDict (document_of ''k'' [(''a'', JInt 1)] None))))],
      (thread_of small_setting)(0 := Ret None))"
proof -
  have put: "thread_of small_setting 0 = prog_bind (file_put (\<lambda>k. k) 1 ''k'' [(''a'', JInt 1)] None) (\<lambda>_. Ret None)"
    by (simp add: thread_of_def op_program_def small_setting_def)
  have "exec serve_store (thread_of small_setting 0) small_world = (Inr None, small_world\<lparr>sw_disk :=
      [path_for (\<lambda>k. k) ''k'' \<mapsto> Leaf (Reg (json_dumps_default (JDict (document_of ''k'' [(''a'', JInt 1)] None))))]\<rparr>)"
    unfolding put by (simp add: exec_bind exec_file_put small_world_def holds_file_def fun_upd_idem)
  with store_solo [of small_world small_setting 0 "thread_of small_setting" "thread_of small_setting 0"]
  show ?thesis by (simp add: small_world_def small_setting_def prints_exactly_def rat_is_integer_def outcome_of_def)
qed

subsection \<open>The properties\<close>

text \<open>C38: what is put is got. After a put that met no failure, a get of the key returns exactly that payload until its
  time to live is over, and then nothing, in this process or another; no other file of the directory has
  changed.\<close>

theorem put_is_got:
  assumes "utf8_ok key" "storable True (JDict d)"
    and "expiry_prints (map_option (pf_add (Fin (sw_now w))) ttl)"
    and "holds_file (sw_disk w) (path_for digest key)" "holds_file (sw_disk w) (temporary_for digest pid (sw_ns w) key)"
    and "exec serve_store (file_put digest pid key d ttl) w = (r, u)" and "v = u\<lparr>sw_now := later\<rparr>"
  shows "r = Inr ()
    \<and> fst (exec serve_store (file_get digest key) v)
      = Inr (if has_expired (map_option (pf_add (Fin (sw_now w))) ttl) later then None else Some d)
    \<and> only_at {path_for digest key, temporary_for digest pid (sw_ns w) key} (sw_disk w) (sw_disk u)"
  using exec_file_put [OF assms(5,4), of d ttl] assms(6,7)
    exec_file_get [OF _ assms(1-3), where w = v and digest = digest and key = key]
  by (auto simp: only_at_def)

theorem put_is_got_witness:
  "\<exists>u. exec serve_store (file_put (\<lambda>k. k) 1 ''k'' [(''a'', JInt 1)] (Some (Fin 60))) small_world = (Inr (), u)
     \<and> fst (exec serve_store (file_get (\<lambda>k. k) ''k'') (u\<lparr>sw_now := 59\<rparr>)) = Inr (Some [(''a'', JInt 1)])
     \<and> fst (exec serve_store (file_get (\<lambda>k. k) ''k'') (u\<lparr>sw_now := 60\<rparr>)) = Inr None"
proof -
  obtain r u where run: "exec serve_store (file_put (\<lambda>k. k) 1 ''k'' [(''a'', JInt 1)] (Some (Fin 60))) small_world = (r, u)"
    by fastforce
  have "rat_is_integer (60 * 10 ^ 17)" by (simp add: rat_is_integer_def)
  then have "expiry_prints (map_option (pf_add (Fin (sw_now small_world))) (Some (Fin 60)))"
    by (simp add: expiry_prints_def prints_exactly_def small_world_def)
  moreover have "utf8_ok ''k''" "storable True (JDict [(''a'', JInt 1)])"
    by (auto simp: text_ok_def byte_of_def intro!: ascii_text_utf8)
  ultimately have "r = Inr () \<and> fst (exec serve_store (file_get (\<lambda>k. k) ''k'') (u\<lparr>sw_now := later\<rparr>))
      = Inr (if has_expired (map_option (pf_add (Fin (sw_now small_world))) (Some (Fin 60))) later
             then None else Some [(''a'', JInt 1)])" for later
    using put_is_got [OF _ _ _ _ _ run refl, where later = later] by (simp add: small_world_def holds_file_def)
  with run show ?thesis by (simp add: has_expired_def small_world_def)
qed

text \<open>C37: no reader ever sees half a document. With any number of threads and processes putting, getting and
  forgetting in one directory, without any lock, with any call failing, any write torn and any process killed:
  at every moment the file of a key is absent or a whole document put under that name, and a get that ends
  returns nothing or the payload of such a document, or raises the error of a disk that failed. All of this if no
  two of them draw the same temporary name, which is made of the process id and \<open>time_ns()\<close>: two threads of one
  process that put one key at one reading of the clock do, and then it fails
  (\<open>FileRaces.twin_put_publishes_nothing\<close>).\<close>

theorem store_is_atomic:
  assumes "distinct_temporaries S" "puts_storable S" "starts_ok S D\<^sub>0" and "store_runs S D\<^sub>0 (D, T)"
  shows "directory_ok S D\<^sub>0 D
    \<and> (\<forall>i x. T i = Ret x \<longrightarrow> is_answer S D\<^sub>0 i x) \<and> (\<forall>i e. T i = Raise e \<longrightarrow> (\<exists>n. e = OsError n))"
proof -
  from store_pool [OF assms] have ok: "directory_ok S D\<^sub>0 D"
    and all: "\<forall>i. stores.keeps S D\<^sub>0 (T i) i D (\<lambda>x _. is_answer S D\<^sub>0 i x) os_only" by auto
  have "own_temporary S i D D" for i by (simp add: own_temporary_def)
  note refl = this
  have Q: "is_answer S D\<^sub>0 i x" if "stores.keeps S D\<^sub>0 (Ret x) i D (\<lambda>x _. is_answer S D\<^sub>0 i x) os_only" for i x
    using that ok refl unfolding stores.keeps.simps by blast
  have E: "\<exists>n. e = OsError n" if "stores.keeps S D\<^sub>0 (Raise e) i D (\<lambda>x _. is_answer S D\<^sub>0 i x) os_only" for i e
    using that ok refl unfolding stores.keeps.simps by blast
  have "is_answer S D\<^sub>0 i x" if "T i = Ret x" for i x using all Q [of x i] that [symmetric] by simp
  moreover have "\<exists>n. e = OsError n" if "T i = Raise e" for i e using all E [of e i] that [symmetric] by simp
  ultimately show ?thesis using ok by blast
qed

theorem store_is_atomic_witness:
  "\<exists>D T. store_runs small_setting Map.empty (D, T) \<and> T 0 = Ret None \<and> D \<noteq> Map.empty
     \<and> directory_ok small_setting Map.empty D"
  using store_is_atomic [OF _ _ _ small_put] small_ok small_put by fastforce

end
