(* ===== verification/FileRaces.thy ===== *)
theory FileRaces
  imports FileProps
begin

section \<open>What the file store does not guarantee\<close>

text \<open>
  Two interleavings of \<open>FileStore\<close> that its callers have to keep away: both are runs of the pool of \<open>FileAtomic\<close> in which
  no call fails.
\<close>

lemma bind_assoc: "prog_bind (prog_bind p f) g = prog_bind p (\<lambda>x. prog_bind (f x) g)"
  unfolding prog_bind_def by (induction p) simp_all

text \<open>Thread \<open>i\<close> makes its next calls, at the time \<open>now\<close>.\<close>

abbreviation moment :: "setting \<Rightarrow> nat \<Rightarrow> disk \<Rightarrow> store_world" where
  "moment S i D \<equiv> \<lparr> sw_disk = D, sw_now = 0, sw_ns = st_ns S i \<rparr>"

lemma store_then:
  assumes "store_runs S D\<^sub>0 (D, T)" "T i = prog_try p f h" "exec serve_store p (moment S i D) = (Inr x, v)"
  shows "store_runs S D\<^sub>0 (sw_disk v, T(i := f x))"
proof -
  have "pool_runs (store_sys S) (\<lambda>_ _. True) (\<lambda>_ _. False) (sw_disk (moment S i D), T) (sw_disk v, T(i := f x))
      \<and> (sw_ns v = st_ns S i \<and> prints_exactly (sw_now v))"
    by (rule solo_prefix [where serve = serve_store and shows_state = sw_disk and i = i and T = T and p = p and f = f and h = h
          and I = "\<lambda>w. sw_ns w = st_ns S i \<and> prints_exactly (sw_now w)"])
      (use store_serve_ok assms(2,3) in \<open>auto simp: prints_exactly_def rat_is_integer_def\<close>)
  with assms(1) show ?thesis by (auto intro: runs_trans)
qed

lemma store_ends:
  assumes "store_runs S D\<^sub>0 (D, T)" "exec serve_store (T i) (moment S i D) = (y, v)"
  shows "store_runs S D\<^sub>0 (sw_disk v, T(i := outcome_of y))"
  using store_solo [of "moment S i D" S i T "T i"] assms
  by (auto simp: prints_exactly_def rat_is_integer_def intro: runs_trans)

subsection \<open>An expired document takes a new one with it\<close>

text \<open>Thread 1 gets a key whose document has expired, thread 0 puts a new one without a time to live.\<close>

definition expired_document :: string where
  "expired_document = json_dumps_default (JDict (document_of ''k'' [(''a'', JInt 1)] (Some (Fin 0))))"

definition expired_start :: disk where
  "expired_start = [path_for (\<lambda>k. k) ''k'' \<mapsto> Leaf (Reg expired_document)]"

lemma expired_read:
  "utf8_ok expired_document \<and> stored_document ''k'' expired_document = Inr (document_of ''k'' [(''a'', JInt 1)] (Some (Fin 0)))"
  unfolding expired_document_def
  by (rule document_read) (auto simp: text_ok_def byte_of_def expiry_prints_def prints_exactly_def rat_is_integer_def intro!: ascii_text_utf8)

text \<open>Between its reading and its \<open>forget\<close> the getter loses the new document: the put has returned, nobody forgets, and the
  key is empty.\<close>

lemma expired_get_drops_new_put:
  "\<exists>D T. store_runs small_setting expired_start (D, T) \<and> T 0 = Ret None \<and> T 1 = Ret None \<and> D (path_of small_setting 0) = None"
proof -
  let ?p = "path_for (\<lambda>k. k) ''k''" and ?T = "thread_of small_setting"
  let ?new = "json_dumps_default (JDict (document_of ''k'' [(''a'', JInt 1)] None))"
  have getter: "?T 1 = prog_try (read_state_text ?p) (read_document (\<lambda>k. k) ''k'') (\<lambda>e. if e = OsError ENOENT then Ret None else Raise e)"
    by (simp add: thread_of_def op_program_def small_setting_def file_get_def)
  have "store_runs small_setting expired_start (expired_start, ?T)" by (rule runs_refl)
  from store_then [OF this getter, where x = expired_document and v = "moment small_setting 1 expired_start"]
  have read: "store_runs small_setting expired_start (expired_start, ?T(1 := read_document (\<lambda>k. k) ''k'' expired_document))"
    using expired_read by (simp add: read_state_text_def exec_bind exec_on_disk expired_start_def)
  have "(?T(1 := read_document (\<lambda>k. k) ''k'' expired_document)) 1 = prog_try wall_clock (\<lambda>now. if is_expired (JFloat (Fin 0)) now
      then prog_bind (file_forget (\<lambda>k. k) ''k'') (\<lambda>_. Ret None) else Ret (Some [(''a'', JInt 1)])) Raise"
    using expired_read by (simp add: read_document_def document_gets prog_bind_def cong: if_cong)
  from store_then [where T = "?T(1 := read_document (\<lambda>k. k) ''k'' expired_document)" and i = 1, OF read this, where x = 0 and v = "moment small_setting 1 expired_start"]
  have stale: "store_runs small_setting expired_start (expired_start, ?T(1 := prog_bind (file_forget (\<lambda>k. k) ''k'') (\<lambda>_. Ret None)))"
    by (simp add: wall_clock_def is_expired_def)
  have putter: "?T 0 = prog_bind (file_put (\<lambda>k. k) 1 ''k'' [(''a'', JInt 1)] None) (\<lambda>_. Ret None)"
    by (simp add: thread_of_def op_program_def small_setting_def)
  have "exec serve_store (?T 0) (moment small_setting 0 expired_start) =
      (Inr None, moment small_setting 0 (expired_start(?p \<mapsto> Leaf (Reg ?new))))"
    unfolding putter using temporary_not_path [of "\<lambda>k. k" 1 _ "''k''" "''k''"]
    by (simp add: exec_bind exec_file_put holds_file_def expired_start_def fun_upd_idem)
  with store_ends [OF stale, of 0] have new: "store_runs small_setting expired_start (expired_start(?p \<mapsto> Leaf (Reg ?new)),
      ?T(1 := prog_bind (file_forget (\<lambda>k. k) ''k'') (\<lambda>_. Ret None), 0 := Ret None))"
    by (simp add: outcome_of_def)
  have "exec serve_store (prog_bind (file_forget (\<lambda>k. k) ''k'') (\<lambda>_. Ret None)) (moment small_setting 1 (expired_start(?p \<mapsto> Leaf (Reg ?new)))) =
      (Inr None, moment small_setting 1 (expired_start(?p := None)))"
    by (simp add: file_forget_def unlink_missing_ok_def exec_bind exec_try exec_on_disk)
  with store_ends [OF new, of 1 "Inr None" "moment small_setting 1 (expired_start(?p := None))"] have "store_runs small_setting expired_start (expired_start(?p := None),
      ?T(1 := Ret None, 0 := Ret None))"
    by (simp add: outcome_of_def fun_upd_twist)
  moreover have "path_of small_setting 0 = ?p" by (simp add: path_of_def small_setting_def)
  ultimately show ?thesis by (intro exI [of _ "expired_start(?p := None)"] exI [of _ "?T(1 := Ret None, 0 := Ret None)"]) simp
qed

subsection \<open>One temporary name for two threads\<close>

text \<open>Two threads of one process put one key at one reading of \<open>time_ns\<close>: the second truncates the file that the first
  renames.\<close>

definition twin_setting :: setting where
  "twin_setting = \<lparr> st_digest = (\<lambda>k. k), st_pid = (\<lambda>_. 1), st_ns = (\<lambda>_. 0), st_op = (\<lambda>_. PutOp ''k'' [(''a'', JInt 1)] None) \<rparr>"

lemma twin_put_publishes_nothing:
  "\<exists>D T. store_runs twin_setting Map.empty (D, T) \<and> T 0 = Ret None \<and> D (path_of twin_setting 0) = Some (Leaf (Reg []))"
proof -
  let ?p = "path_for (\<lambda>k. k) ''k''" and ?t = "temporary_for (\<lambda>k. k) 1 0 ''k''" and ?T = "thread_of twin_setting"
  let ?new = "json_dumps_default (JDict (document_of ''k'' [(''a'', JInt 1)] None))"
  let ?moved = "prog_bind (prog_catch (replace_state_file ?t ?p) (\<lambda>e. case e of
         OsError _ \<Rightarrow> prog_bind (unlink_missing_ok (Top ?t)) (\<lambda>_. Raise e) | PyExn _ \<Rightarrow> Raise e)) (\<lambda>_. Ret None)"
  let ?filled = "prog_bind (on_disk (WriteFile (Top ?t) ?new)) (\<lambda>_. ?moved)"
  have put: "?T i = prog_bind time_ns (\<lambda>ns. prog_bind (write_and_replace (temporary_for (\<lambda>k. k) 1 ns ''k'') ?p ?new) (\<lambda>_. Ret None))" for i
    by (simp add: thread_of_def op_program_def twin_setting_def file_put_def expiry_of_def bind_assoc) (simp add: prog_bind_def)
  have body: "prog_bind (write_and_replace ?t ?p ?new) (\<lambda>_. Ret None) = prog_bind (on_disk (OpenWrite (Top ?t))) (\<lambda>_. ?filled)"
    by (simp add: write_and_replace_def bind_assoc)
  have started: "store_runs twin_setting D\<^sub>0 (D, T(i := prog_bind (on_disk (OpenWrite (Top ?t))) (\<lambda>_. ?filled)))"
    if "store_runs twin_setting D\<^sub>0 (D, T)" "T i = ?T i" for D\<^sub>0 D T i
    using store_then [OF that(1) that(2) [unfolded put prog_bind_def [of time_ns]], where x = 0 and v = "moment twin_setting i D"]
    by (simp add: time_ns_def twin_setting_def body)
  have opened: "store_runs twin_setting D\<^sub>0 (D(?t \<mapsto> Leaf (Reg [])), T(i := ?filled))"
    if "store_runs twin_setting D\<^sub>0 (D, T)" "T i = ?T i" "holds_file D ?t" for D\<^sub>0 D T i
    using store_then [OF started [OF that(1,2)], where i = i and p = "on_disk (OpenWrite (Top ?t))" and f = "\<lambda>_. ?filled" and h = Raise
        and x = Fine and v = "moment twin_setting i (D(?t \<mapsto> Leaf (Reg [])))"] holds_file_cases [OF that(3)]
    by (auto simp: exec_on_disk prog_bind_def)
  have "store_runs twin_setting Map.empty (Map.empty, ?T)" by (rule runs_refl)
  from opened [OF this, of 0] have "store_runs twin_setting Map.empty ([?t \<mapsto> Leaf (Reg [])], ?T(0 := ?filled))"
    by (simp add: holds_file_def)
  from store_then [OF this, where i = 0 and p = "on_disk (WriteFile (Top ?t) ?new)" and f = "\<lambda>_. ?moved" and h = Raise
      and x = Fine and v = "moment twin_setting 0 [?t \<mapsto> Leaf (Reg ?new)]"]
  have "store_runs twin_setting Map.empty ([?t \<mapsto> Leaf (Reg ?new)], ?T(0 := ?moved))"
    by (simp add: exec_on_disk prog_bind_def)
  from opened [OF this, of 1] have twins: "store_runs twin_setting Map.empty ([?t \<mapsto> Leaf (Reg [])], ?T(0 := ?moved, 1 := ?filled))"
    by (simp add: holds_file_def)
  let ?U = "?T(0 := ?moved, 1 := ?filled)"
  have "exec serve_store (?U 0) (moment twin_setting 0 [?t \<mapsto> Leaf (Reg [])]) =
      (Inr None, moment twin_setting 0 (([?t \<mapsto> Leaf (Reg [])])(?t := None, ?p \<mapsto> Leaf (Reg []))))"
    using temporary_not_path [of "\<lambda>k. k" 1 0 "''k''" "''k''"]
    by (simp add: replace_state_file_def prog_catch_def exec_bind exec_try exec_on_disk rename_leaf_def)
  from store_ends [where T = ?U and i = 0, OF twins this] have "store_runs twin_setting Map.empty ([?p \<mapsto> Leaf (Reg [])], ?U(0 := Ret None))"
    by (simp add: outcome_of_def)
  moreover have "[?p \<mapsto> Leaf (Reg [])] (path_of twin_setting 0) = Some (Leaf (Reg []))" by (simp add: path_of_def twin_setting_def)
  moreover have "(?U(0 := Ret None)) 0 = Ret None" by simp
  ultimately show ?thesis by blast
qed

end
