(* ===== verification/FallibleStores.thy ===== *)
theory FallibleStores
  imports Stores
begin

section \<open>Stores whose writes may fail\<close>

text \<open>
  A disk fills up, a process is killed: any read or write of a store may raise instead of happening.
  The locale \<open>fallible_store\<close> asks of a store only that a call either does what it says or leaves
  the documents as they were. \<open>triple m v Q E\<close> says of a piece of code that, run where the store
  holds the documents \<open>v\<close>, it ends with a result and documents in \<open>Q\<close>, or raises with documents in
  \<open>E\<close>, whatever calls fail on the way; its rules work on the documents alone. A crash at some write is
  a failure there: what \<open>E\<close> says is what the next process finds.
\<close>

definition ends_in :: "('s, 'a) py \<Rightarrow> ('a \<Rightarrow> 's \<Rightarrow> bool) \<Rightarrow> ('s \<Rightarrow> bool) \<Rightarrow> 's \<Rightarrow> bool" where
  "ends_in m Q E s = (case m s of (Inr x, t) \<Rightarrow> Q x t | (Inl e, t) \<Rightarrow> E t)"

locale fallible_store =
  fixes S :: "'s session_store"
    and view :: "'s \<Rightarrow> string \<Rightarrow> pydict option"
    and inv :: "'s \<Rightarrow> bool"
  assumes get_or_fail: "inv s \<Longrightarrow>
      ends_in (ss_get S k) (\<lambda>x t. x = view s k \<and> inv t \<and> view t = view s) (\<lambda>t. inv t \<and> view t = view s) s"
    and put_or_fail: "inv s \<Longrightarrow>
      ends_in (ss_put S k d None) (\<lambda>_ t. inv t \<and> view t = (view s)(k \<mapsto> d)) (\<lambda>t. inv t \<and> view t = view s) s"
    and acquire_or_fail: "inv s \<Longrightarrow>
      ends_in (ss_acquire S k ttl wait) (\<lambda>_ t. inv t \<and> view t = view s) (\<lambda>t. inv t \<and> view t = view s) s"
    and release_or_fail: "inv s \<Longrightarrow>
      ends_in (ss_release S k) (\<lambda>_ t. inv t \<and> view t = view s) (\<lambda>t. inv t \<and> view t = view s) s"
begin

definition triple ::
  "('s, 'a) py \<Rightarrow> (string \<Rightarrow> pydict option) \<Rightarrow> ('a \<Rightarrow> (string \<Rightarrow> pydict option) \<Rightarrow> bool)
     \<Rightarrow> ((string \<Rightarrow> pydict option) \<Rightarrow> bool) \<Rightarrow> bool" where
  "triple m v Q E =
     (\<forall>s. inv s \<longrightarrow> view s = v \<longrightarrow> ends_in m (\<lambda>x t. inv t \<and> Q x (view t)) (\<lambda>t. inv t \<and> E (view t)) s)"

lemma triple_return [intro]: "Q x v \<Longrightarrow> triple (act_return x) v Q E"
  by (simp add: triple_def ends_in_def act_return_def)

lemma triple_raise [intro]: "E v \<Longrightarrow> triple (act_raise e) v Q E"
  by (simp add: triple_def ends_in_def act_raise_def)

lemma triple_lift: "(\<And>x. r = Inr x \<Longrightarrow> Q x v) \<Longrightarrow> (\<And>e. r = Inl e \<Longrightarrow> E v) \<Longrightarrow> triple (act_lift r) v Q E"
  by (cases r) (simp_all add: triple_def ends_in_def act_lift_def)

lemma triple_bind:
  assumes "triple m v R E" and "\<And>x w. R x w \<Longrightarrow> triple (f x) w Q E"
  shows "triple (act_bind m f) v Q E"
  unfolding triple_def
proof (intro allI impI)
  fix s assume s: "inv s" "view s = v"
  show "ends_in (act_bind m f) (\<lambda>x t. inv t \<and> Q x (view t)) (\<lambda>t. inv t \<and> E (view t)) s"
  proof (cases "m s")
    case (Pair r t)
    have m: "ends_in m (\<lambda>x t. inv t \<and> R x (view t)) (\<lambda>t. inv t \<and> E (view t)) s"
      using assms(1) s by (simp add: triple_def)
    show ?thesis
    proof (cases r)
      case (Inl e)
      with Pair m show ?thesis by (simp add: ends_in_def act_bind_def)
    next
      case (Inr x)
      with Pair m have "inv t" "R x (view t)" by (simp_all add: ends_in_def)
      with assms(2) [of x "view t"] have "ends_in (f x) (\<lambda>x t. inv t \<and> Q x (view t)) (\<lambda>t. inv t \<and> E (view t)) t"
        by (simp add: triple_def)
      with Pair Inr show ?thesis by (simp add: ends_in_def act_bind_def)
    qed
  qed
qed

lemma triple_weaken:
  "triple m v Q E \<Longrightarrow> (\<And>x w. Q x w \<Longrightarrow> Q' x w) \<Longrightarrow> (\<And>w. E w \<Longrightarrow> E' w) \<Longrightarrow> triple m v Q' E'"
  unfolding triple_def ends_in_def by (fastforce split: prod.splits sum.splits)

lemma triple_get: "E v \<Longrightarrow> triple (ss_get S k) v (\<lambda>x w. x = v k \<and> w = v) E"
  using get_or_fail unfolding triple_def ends_in_def by (fastforce split: prod.splits sum.splits)

lemma triple_put: "E v \<Longrightarrow> triple (ss_put S k d None) v (\<lambda>_ w. w = v(k \<mapsto> d)) E"
  using put_or_fail unfolding triple_def ends_in_def by (fastforce split: prod.splits sum.splits)

lemma triple_bind_get: "E v \<Longrightarrow> triple (f (v k)) v Q E \<Longrightarrow> triple (act_bind (ss_get S k) f) v Q E"
  by (rule triple_bind [OF triple_get]) auto

lemma triple_bind_put: "E v \<Longrightarrow> triple (f ()) (v(k \<mapsto> d)) Q E \<Longrightarrow> triple (act_bind (ss_put S k d None) f) v Q E"
  by (rule triple_bind [OF triple_put]) auto

lemma triple_bind_lift:
  "(\<And>e. r = Inl e \<Longrightarrow> E v) \<Longrightarrow> (\<And>x. r = Inr x \<Longrightarrow> triple (f x) v Q E) \<Longrightarrow> triple (act_bind (act_lift r) f) v Q E"
  by (rule triple_bind [OF triple_lift, where R = "\<lambda>x w. r = Inr x \<and> w = v"]) auto

lemma triple_bind_return: "triple (f x) v Q E \<Longrightarrow> triple (act_bind (act_return x) f) v Q E"
  by (simp add: triple_def ends_in_def act_bind_def act_return_def)

lemma triple_with_lock:
  assumes "E v" and "triple m v Q E" and "\<And>x w. Q x w \<Longrightarrow> E' w" and "\<And>w. E w \<Longrightarrow> E' w"
  shows "triple (with_lock S k m ttl wait) v Q E'"
  unfolding triple_def
proof (intro allI impI)
  fix s assume s: "inv s" "view s = v"
  let ?good = "ends_in (with_lock S k m ttl wait) (\<lambda>x t. inv t \<and> Q x (view t)) (\<lambda>t. inv t \<and> E' (view t)) s"
  obtain r t where a: "ss_acquire S k ttl wait s = (r, t)" by (cases "ss_acquire S k ttl wait s")
  with acquire_or_fail [OF s(1), of k ttl wait] s(2) have t: "inv t" "view t = v"
    by (simp_all add: ends_in_def split: sum.splits)
  show ?good
  proof (cases r)
    case (Inl e)
    with a t assms(1,4) show ?thesis by (simp add: with_lock_def ends_in_def act_bind_def)
  next
    case (Inr x)
    obtain q u where m: "m t = (q, u)" by (cases "m t")
    with assms(2) t have mu: "case q of Inr x \<Rightarrow> inv u \<and> Q x (view u) | Inl e \<Rightarrow> inv u \<and> E (view u)"
      by (fastforce simp: triple_def ends_in_def split: sum.splits)
    then have "inv u" by (simp split: sum.splits)
    obtain p w where c: "ss_release S k u = (p, w)" by (cases "ss_release S k u")
    with release_or_fail [OF \<open>inv u\<close>, of k] have w: "inv w" "view w = view u"
      by (simp_all add: ends_in_def split: sum.splits)
    from a Inr m c mu w assms(3,4) show ?thesis
      by (auto simp: with_lock_def ends_in_def act_bind_def act_finally_def split: sum.splits)
  qed
qed

lemma triple_at: "triple m (view s) Q E \<Longrightarrow> inv s \<Longrightarrow>
    ends_in m (\<lambda>x t. inv t \<and> Q x (view t)) (\<lambda>t. inv t \<and> E (view t)) s"
  by (simp add: triple_def)

end

text \<open>The in-memory driver never fails a read or a write, and refuses a held lock.\<close>

interpretation mem_fallible: fallible_store memory_store mem_view "\<lambda>_. True"
proof (unfold_locales, goal_cases)
  case (1 s k)
  then show ?case using mem_get_run [of k s] by (auto simp: memory_store_def ends_in_def)
next
  case (2 s k d)
  then show ?case using mem_put_run [of k d s] by (auto simp: memory_store_def ends_in_def mem_put_def)
next
  case (3 s k ttl wait)
  then show ?case by (simp add: memory_store_def ends_in_def mem_acquire_def)
next
  case (4 s k)
  then show ?case by (simp add: memory_store_def ends_in_def mem_release_def)
qed

end
