(* ===== verification/IndexRecovery.thy ===== *)
theory IndexRecovery
  imports AddressIndex FallibleStores
begin

section \<open>The index survives interruption\<close>

text \<open>
  \<open>index_ok v rt es\<close>: the documents \<open>v\<close> hold, under the root \<open>rt\<close>, the committed index of the
  addresses \<open>es\<close> with their resources, in the order they were first recorded. \<open>journalled v rt es x\<close>:
  they hold that index and the journal of an append of \<open>x\<close>, interrupted before its page, its entry or
  its commit. The lemmas run \<open>_recover\<close> and \<open>record\<close> over any store whose writes may fail.
\<close>

type_synonym resource = "string \<times> string \<times> string"
type_synonym listed = "session_address \<times> resource list"

definition resource_json :: "resource \<Rightarrow> json" where
  "resource_json r = JDict (resource_doc (fst r) (fst (snd r)) (snd (snd r)))"

definition listed_doc :: "nat \<Rightarrow> listed \<Rightarrow> pydict" where
  "listed_doc i x = entry_doc (fst x) (map resource_json (snd x)) i"

abbreviation hashes :: "digest \<Rightarrow> listed list \<Rightarrow> string list" where
  "hashes H es \<equiv> map (\<lambda>x. index_key H (fst x)) es"

definition page_slice :: "nat \<Rightarrow> 'a list \<Rightarrow> 'a list" where
  "page_slice p xs = take PAGE_SIZE (drop (PAGE_SIZE * p) xs)"

definition index_ok :: "digest \<Rightarrow> (string \<Rightarrow> pydict option) \<Rightarrow> string \<Rightarrow> listed list \<Rightarrow> bool" where
  "index_ok H v rt es =
     ((\<exists>h. index_head (v (head_key rt)) = Inr h \<and> head_count h = length es \<and> dget h ''pending'' = JNull)
      \<and> (\<forall>p. page_ids_of (v (page_key rt p)) = Inr (page_slice p (hashes H es)))
      \<and> (\<forall>i < length es. v (entry_key rt (hashes H es ! i)) = Some (listed_doc i (es ! i)))
      \<and> (\<forall>h. h \<notin> set (hashes H es) \<longrightarrow> v (entry_key rt h) = None)
      \<and> distinct (hashes H es) \<and> list_all hex64 (hashes H es))"

subsection \<open>Keys and documents\<close>

lemma keys_distinct [simp]:
  "head_key rt \<noteq> page_key rt p" "page_key rt p \<noteq> head_key rt"
  "head_key rt \<noteq> entry_key rt h" "entry_key rt h \<noteq> head_key rt"
  "page_key rt p \<noteq> entry_key rt h" "entry_key rt h \<noteq> page_key rt p"
  "page_key rt p = page_key rt q \<longleftrightarrow> p = q" "entry_key rt h = entry_key rt g \<longleftrightarrow> h = g"
  using show_nat_inj by (auto simp: head_key_def page_key_def entry_key_def)

lemma page_ids_of_doc [simp]:
  "length ids \<le> PAGE_SIZE \<Longrightarrow> list_all hex64 ids \<Longrightarrow> page_ids_of (Some (page_doc ids)) = Inr ids"
  by (simp add: page_ids_of_def page_doc_def dget_Cons is_one_def list.pred_map comp_def)

lemma page_slice_snoc:
  "page_slice p (xs @ [x]) =
     (if p = length xs div PAGE_SIZE then page_slice p xs @ [x] else page_slice p xs)"
proof -
  let ?n = "length xs"
  have d: "?n div PAGE_SIZE * PAGE_SIZE \<le> ?n" "?n < Suc (?n div PAGE_SIZE) * PAGE_SIZE"
    using div_mult_mod_eq [of ?n PAGE_SIZE] mod_less_divisor [of PAGE_SIZE ?n] by (simp_all add: PAGE_SIZE_def)
  consider "p = ?n div PAGE_SIZE" | "p < ?n div PAGE_SIZE" | "?n div PAGE_SIZE < p" by linarith
  then show ?thesis
  proof cases
    case 1
    with d show ?thesis by (simp add: page_slice_def PAGE_SIZE_def)
  next
    case 2
    then have "Suc p * PAGE_SIZE \<le> ?n" using d by (simp add: PAGE_SIZE_def)
    with 2 show ?thesis by (simp add: page_slice_def PAGE_SIZE_def)
  next
    case 3
    then have "Suc ?n \<le> PAGE_SIZE * p" using d by (simp add: PAGE_SIZE_def)
    with 3 show ?thesis by (simp add: page_slice_def PAGE_SIZE_def)
  qed
qed

lemma page_slice_last: "length (page_slice (length xs div PAGE_SIZE) xs) = length xs mod PAGE_SIZE"
proof -
  have "length xs - PAGE_SIZE * (length xs div PAGE_SIZE) = length xs mod PAGE_SIZE"
    by (simp add: minus_mult_div_eq_mod)
  then show ?thesis by (simp add: page_slice_def PAGE_SIZE_def)
qed

lemma page_slice_bound: "length (page_slice p xs) \<le> PAGE_SIZE"
  by (simp add: page_slice_def)

lemma page_slice_at:
  "r < PAGE_SIZE \<Longrightarrow> PAGE_SIZE * q + r < length xs \<Longrightarrow>
     r < length (page_slice q xs) \<and> page_slice q xs ! r = xs ! (PAGE_SIZE * q + r)"
  by (simp add: page_slice_def)

lemma page_slice_nth:
  "i < length xs \<Longrightarrow> i mod PAGE_SIZE < length (page_slice (i div PAGE_SIZE) xs)
     \<and> page_slice (i div PAGE_SIZE) xs ! (i mod PAGE_SIZE) = xs ! i"
  using page_slice_at [of "i mod PAGE_SIZE" "i div PAGE_SIZE" xs] by (simp add: PAGE_SIZE_def)

lemma page_slice_all: "list_all P xs \<Longrightarrow> list_all P (page_slice p xs)"
  by (auto simp: page_slice_def list_all_iff dest: in_set_takeD in_set_dropD)

lemma committed_head_ok [simp]:
  "index_head (Some (committed_head n)) = Inr (committed_head n)"
  "head_count (committed_head n) = Suc n" "dget (committed_head n) ''pending'' = JNull"
proof -
  have "(int n + 1 + int PAGE_SIZE - 1) div int PAGE_SIZE = int (n div PAGE_SIZE) + 1"
    by (simp add: PAGE_SIZE_def zdiv_int)
  then show "index_head (Some (committed_head n)) = Inr (committed_head n)"
    by (simp add: index_head_def committed_head_def dget_Cons is_one_def Let_def)
qed (simp_all add: head_count_def committed_head_def dget_Cons nat_add_distrib)

subsection \<open>Appending\<close>

text \<open>The documents of an append after each of its writes: the journal, the page, the entry, the commit.\<close>

definition with_journal :: "digest \<Rightarrow> string \<Rightarrow> listed list \<Rightarrow> listed \<Rightarrow> pydict
    \<Rightarrow> (string \<Rightarrow> pydict option) \<Rightarrow> string \<Rightarrow> pydict option" where
  "with_journal H rt es x h v =
     v(head_key rt \<mapsto> journal_head (index_key H (fst x)) (listed_doc (length es) x) h)"

definition with_page :: "digest \<Rightarrow> string \<Rightarrow> listed list \<Rightarrow> listed
    \<Rightarrow> (string \<Rightarrow> pydict option) \<Rightarrow> string \<Rightarrow> pydict option" where
  "with_page H rt es x v =
     (let p = length es div PAGE_SIZE
      in v(page_key rt p \<mapsto> page_doc (page_slice p (hashes H es) @ [index_key H (fst x)])))"

definition with_entry :: "digest \<Rightarrow> string \<Rightarrow> listed list \<Rightarrow> listed
    \<Rightarrow> (string \<Rightarrow> pydict option) \<Rightarrow> string \<Rightarrow> pydict option" where
  "with_entry H rt es x v = v(entry_key rt (index_key H (fst x)) \<mapsto> listed_doc (length es) x)"

definition new_to :: "digest \<Rightarrow> listed list \<Rightarrow> session_address \<Rightarrow> bool" where
  "new_to H es a = (index_key H a \<notin> set (hashes H es) \<and> hex64 (index_key H a))"

lemma commit_ok:
  assumes ok: "index_ok H v rt es" and new: "new_to H es (fst x)"
    and w: "w = (with_entry H rt es x (with_page H rt es x (with_journal H rt es x h v)))
                  (head_key rt \<mapsto> committed_head (length es))"
  shows "index_ok H w rt (es @ [x])"
proof -
  let ?g = "index_key H (fst x)" and ?n = "length es"
  have pages: "page_ids_of (v (page_key rt p)) = Inr (page_slice p (hashes H es))" for p
    using ok by (simp add: index_ok_def)
  have all: "list_all hex64 (hashes H es)" and d: "distinct (hashes H es)" using ok by (simp_all add: index_ok_def)
  have "length (page_slice (?n div PAGE_SIZE) (hashes H es) @ [?g]) \<le> PAGE_SIZE"
    using page_slice_last [of "hashes H es"] mod_less_divisor [of PAGE_SIZE ?n] by (simp add: PAGE_SIZE_def)
  then have "page_ids_of (Some (page_doc (page_slice (?n div PAGE_SIZE) (hashes H es) @ [?g])))
      = Inr (page_slice (?n div PAGE_SIZE) (hashes H es) @ [?g])"
    using new page_slice_all [OF all] by (intro page_ids_of_doc) (simp_all add: new_to_def)
  then have "page_ids_of (w (page_key rt p)) = Inr (page_slice p (hashes H (es @ [x])))" for p
    using pages [of p] page_slice_snoc [of p "hashes H es" ?g]
    by (simp add: w with_entry_def with_page_def with_journal_def Let_def)
  moreover have "w (entry_key rt (hashes H (es @ [x]) ! i)) = Some (listed_doc i ((es @ [x]) ! i))" if "i < length (es @ [x])" for i
  proof (cases "i = ?n")
    case True
    then show ?thesis by (simp add: w with_entry_def with_page_def with_journal_def Let_def nth_append)
  next
    case False
    with that have i: "i < ?n" by simp
    with new have "hashes H es ! i \<noteq> ?g" by (metis length_map new_to_def nth_mem)
    with i ok show ?thesis
      by (simp add: w with_entry_def with_page_def with_journal_def Let_def nth_append index_ok_def)
  qed
  moreover have "w (entry_key rt g) = None" if "g \<notin> set (hashes H (es @ [x]))" for g
    using ok that by (simp add: w with_entry_def with_page_def with_journal_def Let_def index_ok_def)
  ultimately show ?thesis
    using all d new by (simp add: index_ok_def w new_to_def)
qed

definition journalled :: "digest \<Rightarrow> (string \<Rightarrow> pydict option) \<Rightarrow> string \<Rightarrow> listed list \<Rightarrow> listed \<Rightarrow> bool" where
  "journalled H v rt es x =
     (\<exists>v0 h. index_ok H v0 rt es \<and> new_to H es (fst x) \<and> index_head (v0 (head_key rt)) = Inr h
        \<and> (let v1 = with_journal H rt es x h v0; v2 = with_page H rt es x v1; v3 = with_entry H rt es x v2
           in v = v1 \<or> v = v2 \<or> v = v3))"

lemma index_head_Inr: "index_head o' = Inr h \<Longrightarrow> \<exists>i. dget h ''count'' = JInt i \<and> 0 \<le> i \<and> is_one (dget h ''version'')
    \<and> py_eq (dget h ''pages'') (JInt ((i + int PAGE_SIZE - 1) div int PAGE_SIZE))"
  by (auto simp: index_head_def fresh_head_def Let_def dget_Cons is_one_def PAGE_SIZE_def
      split: option.splits json.splits if_splits)

lemma journal_head_fields [simp]:
  "dget (journal_head g e h) ''count'' = dget h ''count''" "head_count (journal_head g e h) = head_count h"
  "dget (journal_head g e h) ''version'' = dget h ''version''" "dget (journal_head g e h) ''pages'' = dget h ''pages''"
  "dget (journal_head g e h) ''pending''
     = JDict [(''hash'', JStr g), (''position'', JInt (int (head_count h))), (''entry'', JDict e)]"
  by (simp_all add: journal_head_def head_count_def)

lemma journal_head_valid: "index_head o' = Inr h \<Longrightarrow> index_head (Some (journal_head g e h)) = Inr (journal_head g e h)"
  by (drule index_head_Inr) (auto simp: index_head_def Let_def, simp add: journal_head_def)

lemma listed_doc_position [simp]: "dget (listed_doc n x) ''position'' = JInt (int n)"
  by (simp add: listed_doc_def entry_doc_def dget_Cons)

lemma journal_of_head:
  "head_count h = n \<Longrightarrow> hex64 g \<Longrightarrow> journal_of (journal_head g (listed_doc n x) h) = Inr (g, listed_doc n x)"
  by (simp add: journal_of_def dget_Cons Let_def)

lemma journalled_head:
  assumes "journalled H v rt es x"
  obtains v0 h where "index_ok H v0 rt es" "new_to H es (fst x)" "index_head (v0 (head_key rt)) = Inr h"
    "index_head (v (head_key rt)) = Inr (journal_head (index_key H (fst x)) (listed_doc (length es) x) h)"
    "v = with_journal H rt es x h v0 \<or> v = with_page H rt es x (with_journal H rt es x h v0)
       \<or> v = with_entry H rt es x (with_page H rt es x (with_journal H rt es x h v0))"
proof -
  from assms obtain v0 h where v0: "index_ok H v0 rt es" "new_to H es (fst x)" "index_head (v0 (head_key rt)) = Inr h"
    and v: "v = with_journal H rt es x h v0 \<or> v = with_page H rt es x (with_journal H rt es x h v0)
       \<or> v = with_entry H rt es x (with_page H rt es x (with_journal H rt es x h v0))"
    unfolding journalled_def Let_def by blast
  have "v (head_key rt) = Some (journal_head (index_key H (fst x)) (listed_doc (length es) x) h)"
    using v by (auto simp: with_journal_def with_page_def with_entry_def Let_def)
  with v0 v show thesis by (intro that) (simp_all add: journal_head_valid)
qed

context fallible_store
begin

lemma triple_page_ids:
  "E v \<Longrightarrow> page_ids_of (v (page_key rt p)) = Inr ids \<Longrightarrow> triple (page_ids S rt p) v (\<lambda>x w. x = ids \<and> w = v) E"
  unfolding page_ids_def by (rule triple_bind_get, assumption, rule triple_lift) auto

lemma triple_bind_page_ids:
  "E v \<Longrightarrow> page_ids_of (v (page_key rt p)) = Inr ids \<Longrightarrow> triple (f ids) v Q E \<Longrightarrow>
     triple (act_bind (page_ids S rt p) f) v Q E"
  by (rule triple_bind [OF triple_page_ids]) auto

lemma recover_journalled:
  assumes ok: "index_ok H v0 rt es" and new: "new_to H es (fst x)" and h: "index_head (v0 (head_key rt)) = Inr h"
    and v: "v = with_journal H rt es x h v0 \<or> v = with_page H rt es x (with_journal H rt es x h v0)
       \<or> v = with_entry H rt es x (with_page H rt es x (with_journal H rt es x h v0))"
  shows "triple (index_recover S rt (journal_head (index_key H (fst x)) (listed_doc (length es) x) h)) v
      (\<lambda>c w. index_ok H w rt (es @ [x]) \<and> c = committed_head (length es) \<and> w (head_key rt) = Some c)
      (\<lambda>w. journalled H w rt es x)"
    (is "triple ?m v ?Q ?E")
proof -
  let ?g = "index_key H (fst x)" and ?n = "length es" and ?p = "length es div PAGE_SIZE"
  let ?v1 = "with_journal H rt es x h v0" let ?v2 = "with_page H rt es x ?v1" let ?v3 = "with_entry H rt es x ?v2"
  let ?ids = "page_slice ?p (hashes H es)"
  have c: "head_count h = ?n" using ok h by (auto simp: index_ok_def)
  have E: "?E ?v1" "?E ?v2" "?E ?v3" using ok new h unfolding journalled_def Let_def by blast+
  have len: "length ?ids = ?n mod PAGE_SIZE" using page_slice_last [of "hashes H es"] by simp
  have ids0: "page_ids_of (v0 (page_key rt ?p)) = Inr ?ids" using ok by (simp add: index_ok_def)
  have ids2: "page_ids_of (Some (page_doc (?ids @ [?g]))) = Inr (?ids @ [?g])"
    using ok new len mod_less_divisor [of PAGE_SIZE ?n]
    by (intro page_ids_of_doc) (simp_all add: new_to_def PAGE_SIZE_def index_ok_def page_slice_all)
  have last: "triple (act_bind (ss_put S (entry_key rt ?g) (listed_doc ?n x) None) (\<lambda>_.
      act_bind (ss_put S (head_key rt) (committed_head ?n) None) (\<lambda>_. act_return (committed_head ?n)))) u ?Q ?E"
    if "u = ?v2 \<or> u = ?v3" for u
  proof (intro triple_bind_put triple_return)
    have e: "u(entry_key rt ?g \<mapsto> listed_doc ?n x) = ?v3" using that by (auto simp: with_entry_def)
    show "?E u" using that E by blast
    show "?E (u(entry_key rt ?g \<mapsto> listed_doc ?n x))" using e E by simp
    show "index_ok H (u(entry_key rt ?g \<mapsto> listed_doc ?n x, head_key rt \<mapsto> committed_head ?n)) rt (es @ [x])
        \<and> committed_head ?n = committed_head ?n
        \<and> (u(entry_key rt ?g \<mapsto> listed_doc ?n x, head_key rt \<mapsto> committed_head ?n)) (head_key rt)
            = Some (committed_head ?n)"
      using commit_ok [OF ok new refl] e by simp
  qed
  have "triple (act_bind (page_ids S rt ?p) (recover_writes S rt ?n ?g (listed_doc ?n x))) v ?Q ?E"
  proof (cases "v = ?v1")
    case True
    have "?v1(page_key rt ?p \<mapsto> page_doc (?ids @ [?g])) = ?v2" by (simp add: with_page_def Let_def)
    then have "triple (recover_writes S rt ?n ?g (listed_doc ?n x) ?ids) ?v1 ?Q ?E"
      using last [of ?v2] E(1) by (simp add: recover_writes_def Let_def len triple_bind_put)
    with True E(1) ids0 show ?thesis
      by (intro triple_bind_page_ids [where ids = ?ids]) (simp_all add: with_journal_def)
  next
    case False
    with v have u: "v = ?v2 \<or> v = ?v3" by blast
    have "(?ids @ [?g]) ! (?n mod PAGE_SIZE) = ?g" by (simp add: nth_append len)
    then have "triple (recover_writes S rt ?n ?g (listed_doc ?n x) (?ids @ [?g])) v ?Q ?E"
      using last [OF u] by (simp add: recover_writes_def Let_def len triple_bind_return)
    moreover have "page_ids_of (v (page_key rt ?p)) = Inr (?ids @ [?g])"
      using u ids2 by (auto simp: with_page_def with_entry_def Let_def)
    ultimately show ?thesis using u E by (intro triple_bind_page_ids [where ids = "?ids @ [?g]"]) auto
  qed
  moreover have "journal_of (journal_head ?g (listed_doc ?n x) h) = Inr (?g, listed_doc ?n x)"
    using c new by (simp add: journal_of_head new_to_def)
  ultimately show ?thesis unfolding index_recover_def by (simp add: c act_bind_lift)
qed

lemma triple_bind_read_head:
  "E v \<Longrightarrow> index_head (v (head_key rt)) = Inr h \<Longrightarrow> triple (f h) v Q E \<Longrightarrow>
     triple (act_bind (read_head S rt) f) v Q E"
  unfolding read_head_def act_bind_assoc by (rule triple_bind_get) (simp_all add: act_bind_lift)

text \<open>Every operation reads the head and recovers first: it goes on from a committed index.\<close>

lemma recover_first:
  assumes st: "index_ok H v rt es \<and> pend = [] \<or> (\<exists>x. journalled H v rt es x \<and> pend = [x])"
    and E: "E v" "\<And>w x. journalled H w rt es x \<Longrightarrow> pend = [x] \<Longrightarrow> E w"
    and f: "\<And>h w. index_ok H w rt (es @ pend) \<Longrightarrow> (pend = [] \<Longrightarrow> w = v) \<Longrightarrow> index_head (w (head_key rt)) = Inr h \<Longrightarrow>
       head_count h = length (es @ pend) \<Longrightarrow> dget h ''pending'' = JNull \<Longrightarrow> triple (f h) w Q E"
  shows "triple (act_bind (read_head S rt) (\<lambda>h0. act_bind (index_recover S rt h0) f)) v Q E"
  using st
proof
  assume ok: "index_ok H v rt es \<and> pend = []"
  then obtain h where h: "index_head (v (head_key rt)) = Inr h" "head_count h = length es" "dget h ''pending'' = JNull"
    by (auto simp: index_ok_def)
  show ?thesis
    using ok h f [of v h] E(1)
    by (intro triple_bind_read_head [where h = h]) (simp_all add: index_recover_def triple_bind_return)
next
  assume "\<exists>x. journalled H v rt es x \<and> pend = [x]"
  then obtain x where j: "journalled H v rt es x" and p: "pend = [x]" by blast
  from j obtain v0 h where j': "index_ok H v0 rt es" "new_to H es (fst x)" "index_head (v0 (head_key rt)) = Inr h"
    "index_head (v (head_key rt)) = Inr (journal_head (index_key H (fst x)) (listed_doc (length es) x) h)"
    "v = with_journal H rt es x h v0 \<or> v = with_page H rt es x (with_journal H rt es x h v0)
       \<or> v = with_entry H rt es x (with_page H rt es x (with_journal H rt es x h v0))"
    by (rule journalled_head)
  have "triple (act_bind (index_recover S rt (journal_head (index_key H (fst x)) (listed_doc (length es) x) h)) f) v Q E"
  proof (rule triple_bind)
    show "triple (index_recover S rt (journal_head (index_key H (fst x)) (listed_doc (length es) x) h)) v
        (\<lambda>c w. index_ok H w rt (es @ [x]) \<and> c = committed_head (length es) \<and> w (head_key rt) = Some c) E"
      using E(2) p by (intro triple_weaken [OF recover_journalled [OF j'(1-3,5)]]) auto
    fix c w assume "index_ok H w rt (es @ [x]) \<and> c = committed_head (length es) \<and> w (head_key rt) = Some c"
    then show "triple (f c) w Q E" using p by (intro f) auto
  qed
  with j'(4) E(1) show ?thesis by (intro triple_bind_read_head)
qed

end

subsection \<open>Recording\<close>

text \<open>What recording a resource means on the list of addresses.\<close>

fun add_resource :: "resource \<Rightarrow> listed \<Rightarrow> listed" where
  "add_resource r (a, rs) = (a, if r \<in> set rs then rs else rs @ [r])"

definition spec_record :: "session_address \<Rightarrow> resource \<Rightarrow> listed list \<Rightarrow> listed list" where
  "spec_record a r es =
     (if a \<in> fst ` set es then map (\<lambda>x. if fst x = a then add_resource r x else x) es else es @ [(a, [r])])"

text \<open>No two addresses of the index share a hash with the one recorded.\<close>

definition no_clash :: "digest \<Rightarrow> listed list \<Rightarrow> session_address \<Rightarrow> bool" where
  "no_clash H es a = (hex64 (index_key H a) \<and> (\<forall>x \<in> set es. index_key H (fst x) = index_key H a \<longrightarrow> fst x = a))"

lemma resource_json_eq [simp]: "py_eq (resource_json r) (JDict (resource_doc s k y)) \<longleftrightarrow> r = (s, k, y)"
  by (cases r) (auto simp: resource_json_def resource_doc_def)

lemma identity_self [simp]: "py_eq_items (identity_doc a) (identity_doc a)"
  by (simp add: identity_doc_def opt_json_def split: option.split)

lemma hash_position:
  "distinct (hashes H es) \<Longrightarrow> i < length es \<Longrightarrow> j < length es \<Longrightarrow>
     index_key H (fst (es ! i)) = index_key H (fst (es ! j)) \<Longrightarrow> i = j"
  by (metis (no_types, lifting) length_map nth_eq_iff_index_eq nth_map)

lemma entry_of_listed:
  "i < n \<Longrightarrow> entry_of a n (listed_doc i (a, rs)) = Inr (i, map resource_json rs)"
  by (simp add: entry_of_def listed_doc_def entry_doc_def dget_Cons Let_def)

lemma update_entry_ok:
  assumes ok: "index_ok H v rt es" and i: "i < length es" and a: "fst x = fst (es ! i)"
  shows "index_ok H (v(entry_key rt (hashes H es ! i) \<mapsto> listed_doc i x)) rt (es[i := x])"
proof -
  have h: "hashes H (es[i := x]) = hashes H es"
    using a i by (intro nth_equalityI) (auto simp: nth_list_update)
  have d: "distinct (hashes H es)" using ok by (simp add: index_ok_def)
  have "hashes H es ! j \<noteq> hashes H es ! i" if "j < length es" "j \<noteq> i" for j
    using hash_position [OF d] i that by auto
  with ok i h show ?thesis
    unfolding index_ok_def h by (auto simp: nth_list_update)
qed

lemma spec_record_at:
  assumes "i < length es" and "es ! i = (a, rs)" and "distinct (hashes H es)"
  shows "spec_record a r es = es[i := add_resource r (a, rs)]"
proof -
  have "a \<in> fst ` set es" using assms(1,2) by (metis fst_conv image_eqI nth_mem)
  moreover have "map (\<lambda>x. if fst x = a then add_resource r x else x) es = es[i := add_resource r (a, rs)]"
  proof (rule nth_equalityI)
    fix j assume j: "j < length (map (\<lambda>x. if fst x = a then add_resource r x else x) es)"
    have "fst (es ! j) \<noteq> a" if "j \<noteq> i"
      using hash_position [OF assms(3), of j i] assms(1,2) j that by auto
    with j assms(1,2) show "map (\<lambda>x. if fst x = a then add_resource r x else x) es ! j = es[i := add_resource r (a, rs)] ! j"
      by (cases "j = i") auto
  qed simp
  ultimately show ?thesis by (simp add: spec_record_def)
qed

context fallible_store
begin

lemma update_committed:
  assumes ok: "index_ok H v rt es" and i: "i < length es" "es ! i = (a, rs)" and h: "head_count h = length es" and E: "E v"
  shows "triple (index_update S rt (index_key H a) a (resource_doc (fst r) (fst (snd r)) (snd (snd r))) h (listed_doc i (a, rs))) v
      (\<lambda>_ w. index_ok H w rt (spec_record a r es)) E"
proof -
  have d: "distinct (hashes H es)" using ok by (simp add: index_ok_def)
  have p: "page_ids_of (v (page_key rt (i div PAGE_SIZE))) = Inr (page_slice (i div PAGE_SIZE) (hashes H es))"
    using ok by (simp add: index_ok_def)
  have at_i: "\<not> length (page_slice (i div PAGE_SIZE) (hashes H es)) \<le> i mod PAGE_SIZE"
    "page_slice (i div PAGE_SIZE) (hashes H es) ! (i mod PAGE_SIZE) = index_key H a"
    using page_slice_nth [of i "hashes H es"] i by auto
  have known: "list_ex (\<lambda>q. py_eq q (JDict (resource_doc (fst r) (fst (snd r)) (snd (snd r))))) (map resource_json rs)
      \<longleftrightarrow> r \<in> set rs"
    by (auto simp: list_ex_iff)
  have doc: "entry_doc a (map resource_json rs @ [JDict (resource_doc (fst r) (fst (snd r)) (snd (snd r)))]) i
      = listed_doc i (a, rs @ [r])"
    by (simp add: listed_doc_def resource_json_def)
  have same: "r \<in> set rs \<Longrightarrow> index_ok H v rt (spec_record a r es)"
    using ok list_update_id [of es i] by (simp add: spec_record_at [OF i d] i(2))
  have more: "r \<notin> set rs \<Longrightarrow>
      index_ok H (v(entry_key rt (index_key H a) \<mapsto> listed_doc i (a, rs @ [r]))) rt (spec_record a r es)"
    using update_entry_ok [OF ok i(1), of "(a, rs @ [r])"] i by (simp add: spec_record_at [OF i d])
  have "triple (if r \<in> set rs then act_return ()
      else ss_put S (entry_key rt (index_key H a)) (listed_doc i (a, rs @ [r])) None) v
      (\<lambda>_ w. index_ok H w rt (spec_record a r es)) E"
    using same more by (auto intro: triple_weaken [OF triple_put [where v = v and E = E, OF E]])
  then show ?thesis
    unfolding index_update_def h entry_of_listed [OF i(1)] act_bind_lift prod.case
    by (intro triple_bind_page_ids [where ids = "page_slice (i div PAGE_SIZE) (hashes H es)"])
      (simp_all add: E p at_i known doc cong: if_cong split del: if_split)
qed

text \<open>A new address goes through the journal: a failure leaves the old index or the journalled append.\<close>

lemma append_committed:
  assumes ok: "index_ok (ix_sha256 ix) v rt es" and new: "new_to (ix_sha256 ix) es a"
    and h: "index_head (v (head_key rt)) = Inr h" "head_count h = length es"
    and E: "E v" "\<And>w. journalled (ix_sha256 ix) w rt es (a, [r]) \<Longrightarrow> E w"
    and Q: "\<And>w. index_ok (ix_sha256 ix) w rt (es @ [(a, [r])]) \<Longrightarrow> Q () w"
  shows "triple (index_append ix S rt (index_key (ix_sha256 ix) a) a (resource_doc (fst r) (fst (snd r)) (snd (snd r))) h) v Q E"
proof -
  let ?H = "ix_sha256 ix" and ?g = "index_key (ix_sha256 ix) a"
  let ?x = "(a, [r])" and ?v1 = "with_journal (ix_sha256 ix) rt es (a, [r]) h v"
  have doc: "entry_doc a [JDict (resource_doc (fst r) (fst (snd r)) (snd (snd r)))] (length es) = listed_doc (length es) ?x"
    by (simp add: listed_doc_def resource_json_def)
  have v1: "v(head_key rt \<mapsto> journal_head ?g (listed_doc (length es) ?x) h) = ?v1" by (simp add: with_journal_def)
  have "triple (index_recover S rt (journal_head ?g (listed_doc (length es) ?x) h)) ?v1
      (\<lambda>c w. index_ok ?H w rt (es @ [?x]) \<and> c = committed_head (length es) \<and> w (head_key rt) = Some c) E"
    using recover_journalled [OF ok _ h(1), of ?x ?v1] new E(2) by (auto intro: triple_weaken)
  then have "triple (act_bind (index_recover S rt (journal_head ?g (listed_doc (length es) ?x) h)) (\<lambda>_. act_return ())) ?v1 Q E"
    by (rule triple_bind) (auto intro!: triple_return Q)
  then have "triple (act_bind (ss_put S (head_key rt) (journal_head ?g (listed_doc (length es) ?x) h) None) (\<lambda>_.
      act_bind (index_recover S rt (journal_head ?g (listed_doc (length es) ?x) h)) (\<lambda>_. act_return ()))) v Q E"
    by (intro triple_bind_put E(1)) (simp add: v1)
  then show ?thesis
    using E(1) by (auto simp: index_append_def Let_def h(2) doc intro: triple_raise)
qed

end

subsection \<open>The contract of the index\<close>

text \<open>\<open>index_holds v rt es\<close>: the index holds the addresses \<open>es\<close>, the last of them perhaps only in the
  journal.\<close>

definition index_holds :: "digest \<Rightarrow> (string \<Rightarrow> pydict option) \<Rightarrow> string \<Rightarrow> listed list \<Rightarrow> bool" where
  "index_holds H v rt es =
     (index_ok H v rt es \<or> (\<exists>ys x. es = ys @ [x] \<and> journalled H v rt ys x))"

lemma index_holds_cases:
  assumes "index_holds H v rt es"
  obtains ys pend where "es = ys @ pend" "index_ok H v rt ys \<and> pend = [] \<or> (\<exists>x. journalled H v rt ys x \<and> pend = [x])"
proof -
  consider "index_ok H v rt es" | ys x where "es = ys @ [x]" "journalled H v rt ys x"
    using assms unfolding index_holds_def by blast
  then show thesis
  proof cases
    case 1
    then show ?thesis using that [of es "[]"] by simp
  next
    case (2 ys x)
    then show ?thesis using that [of ys "[x]"] by blast
  qed
qed

lemma index_holds_intros:
  "index_ok H v rt es \<Longrightarrow> index_holds H v rt es" "journalled H v rt ys x \<Longrightarrow> index_holds H v rt (ys @ [x])"
  by (auto simp: index_holds_def)

lemma index_holds_committed: "index_holds H v rt es \<Longrightarrow> \<exists>w. index_ok H w rt es"
proof (erule index_holds_cases)
  fix ys pend assume es: "es = ys @ pend"
    and "index_ok H v rt ys \<and> pend = [] \<or> (\<exists>x. journalled H v rt ys x \<and> pend = [x])"
  then consider "index_ok H v rt es" | x where "journalled H v rt ys x" "pend = [x]" by auto
  then show ?thesis
  proof cases
    case 1
    then show ?thesis by blast
  next
    case (2 x)
    then obtain v0 h where "index_ok H v0 rt ys" "new_to H ys (fst x)" by (elim journalled_head)
    from commit_ok [OF this refl] 2 es show ?thesis by blast
  qed
qed

lemma index_holds_distinct:
  assumes "index_holds H v rt es" shows "distinct (hashes H es)" "list_all hex64 (hashes H es)"
proof -
  from index_holds_committed [OF assms] obtain w where "index_ok H w rt es" by blast
  then show "distinct (hashes H es)" "list_all hex64 (hashes H es)" by (simp_all add: index_ok_def)
qed

context fallible_store
begin

lemma write_holds:
  assumes v: "index_holds (ix_sha256 ix) v rt es" and a: "no_clash (ix_sha256 ix) es a"
  shows "triple (index_write ix S rt a (resource_doc (fst r) (fst (snd r)) (snd (snd r)))) v
    (\<lambda>_ w. index_ok (ix_sha256 ix) w rt (spec_record a r es))
    (\<lambda>w. index_holds (ix_sha256 ix) w rt es \<or> index_holds (ix_sha256 ix) w rt (spec_record a r es))"
    (is "triple _ v ?Q ?E")
proof -
  let ?H = "ix_sha256 ix" and ?g = "index_key (ix_sha256 ix) a"
  have fresh: "a \<notin> fst ` set es \<Longrightarrow> spec_record a r es = es @ [(a, [r])]" by (simp add: spec_record_def)
  obtain ys pend where es: "es = ys @ pend"
    and st: "index_ok ?H v rt ys \<and> pend = [] \<or> (\<exists>x. journalled ?H v rt ys x \<and> pend = [x])"
    using v by (rule index_holds_cases)
  show ?thesis
    unfolding index_write_def Let_def
  proof (rule recover_first [OF st])
    show "?E v" using v by simp
    show "?E w" if "journalled ?H w rt ys x" "pend = [x]" for w x
      using that es by (simp add: index_holds_intros)
    fix h w assume "index_ok ?H w rt (ys @ pend)" "index_head (w (head_key rt)) = Inr h" "head_count h = length (ys @ pend)"
    then have w: "index_ok ?H w rt es" "index_head (w (head_key rt)) = Inr h" "head_count h = length es"
      by (simp_all add: es)
    then have Ew: "?E w" by (simp add: index_holds_intros)
    let ?rest = "\<lambda>existing. case existing of
         None \<Rightarrow> index_append ix S rt ?g a (resource_doc (fst r) (fst (snd r)) (snd (snd r))) h
       | Some e \<Rightarrow> index_update S rt ?g a (resource_doc (fst r) (fst (snd r)) (snd (snd r))) h e"
    have "triple (?rest (w (entry_key rt ?g))) w ?Q ?E"
    proof (cases "a \<in> fst ` set es")
      case True
      then obtain i rs where i: "i < length es" "es ! i = (a, rs)" by (auto simp: in_set_conv_nth)
      then have "w (entry_key rt ?g) = Some (listed_doc i (a, rs))"
        using w(1) by (auto simp: index_ok_def)
      then show ?thesis using update_committed [OF w(1) i w(3), of ?E r] Ew by simp
    next
      case False
      then have new: "new_to ?H es a" using a by (force simp: no_clash_def new_to_def)
      then have "w (entry_key rt ?g) = None" using w(1) by (simp add: index_ok_def new_to_def)
      moreover have "triple (index_append ix S rt ?g a (resource_doc (fst r) (fst (snd r)) (snd (snd r))) h) w ?Q ?E"
        using fresh [OF False]
        by (intro append_committed [OF w(1) new w(2,3)] Ew) (simp_all add: index_holds_intros)
      ultimately show ?thesis by simp
    qed
    then show "triple (act_bind (ss_get S (entry_key rt ?g)) ?rest) w ?Q ?E" by (intro triple_bind_get Ew)
  qed
qed

lemma record_holds:
  assumes "index_holds (ix_sha256 ix) v (index_root (ix_sha256 ix) (ad_type a) (ad_id a)) es"
    and "no_clash (ix_sha256 ix) es a"
  shows "triple (index_record ix S a slot kind key) v
    (\<lambda>_ w. index_ok (ix_sha256 ix) w (index_root (ix_sha256 ix) (ad_type a) (ad_id a)) (spec_record a (slot, kind, key) es))
    (\<lambda>w. index_holds (ix_sha256 ix) w (index_root (ix_sha256 ix) (ad_type a) (ad_id a)) es
      \<or> index_holds (ix_sha256 ix) w (index_root (ix_sha256 ix) (ad_type a) (ad_id a)) (spec_record a (slot, kind, key) es))"
  using assms unfolding index_record_def Let_def
  by (auto intro!: triple_raise triple_with_lock [OF _ write_holds [where r = "(slot, kind, key)", simplified]]
      intro: index_holds_intros)

lemma recover_all_holds:
  assumes v: "index_holds (ix_sha256 ix) v (participant_root ix p) es"
  shows "triple (index_recover_all ix S p) v (\<lambda>_ w. index_ok (ix_sha256 ix) w (participant_root ix p) es)
    (\<lambda>w. index_holds (ix_sha256 ix) w (participant_root ix p) es)"
proof -
  let ?H = "ix_sha256 ix" and ?rt = "participant_root ix p"
  obtain ys pend where es: "es = ys @ pend"
    and st: "index_ok ?H v ?rt ys \<and> pend = [] \<or> (\<exists>x. journalled ?H v ?rt ys x \<and> pend = [x])"
    using v by (rule index_holds_cases)
  have "triple (act_bind (read_head S ?rt) (\<lambda>h. act_bind (index_recover S ?rt h) (\<lambda>_. act_return ()))) v
      (\<lambda>_ w. index_ok ?H w ?rt es) (\<lambda>w. index_holds ?H w ?rt es)"
    by (rule recover_first [OF st]) (use v es in \<open>auto intro: index_holds_intros\<close>)
  then show ?thesis
    unfolding index_recover_all_def Let_def
    by (rule triple_with_lock [rotated]) (use v in \<open>auto intro: index_holds_intros\<close>)
qed

end

subsection \<open>Pages\<close>

text \<open>What a page shows of the address at position \<open>i\<close>.\<close>

definition listing :: "digest \<Rightarrow> listed list \<Rightarrow> nat \<Rightarrow> pydict" where
  "listing H es i = (''address_key'', JStr (hashes H es ! i)) # listed_doc i (es ! i)"

definition spec_page :: "digest \<Rightarrow> listed list \<Rightarrow> nat \<Rightarrow> nat \<Rightarrow> pydict list \<times> nat option" where
  "spec_page H es c l =
     (map (listing H es) [c ..< min (c + l) (length es)], if c + l < length es then Some (c + l) else None)"

lemma listing_eq:
  "foldl (\<lambda>d (k, v). dput k v d) [(''address_key'', JStr (hashes H es ! i))] (listed_doc i (es ! i)) = listing H es i"
  by (simp add: listing_def listed_doc_def entry_doc_def dput_def)

context fallible_store
begin

lemma page_loop_committed:
  assumes ok: "index_ok H v rt es" and E: "E v"
  shows "list_all (\<lambda>i. i < length es) ps \<Longrightarrow> (\<And>k ids. held = Some (k, ids) \<Longrightarrow> ids = page_slice k (hashes H es)) \<Longrightarrow>
    Q (acc @ map (listing H es) ps) v \<Longrightarrow> triple (page_loop S rt held acc ps) v Q E"
proof (induction ps arbitrary: held acc)
  case Nil
  then show ?case by (simp add: triple_return)
next
  case (Cons i ps)
  let ?ids = "page_slice (i div PAGE_SIZE) (hashes H es)"
  have i: "i < length es" using Cons.prems(1) by simp
  have p: "page_ids_of (v (page_key rt (i div PAGE_SIZE))) = Inr ?ids" using ok by (simp add: index_ok_def)
  have at_i: "\<not> length ?ids \<le> i mod PAGE_SIZE" "?ids ! (i mod PAGE_SIZE) = hashes H es ! i"
    using page_slice_nth [of i "hashes H es"] i by auto
  have e: "v (entry_key rt (hashes H es ! i)) = Some (listed_doc i (es ! i))" using ok i by (simp add: index_ok_def)
  let ?rest = "\<lambda>ids. if length ids \<le> i mod PAGE_SIZE then act_raise (ValueErr ''Missing committed harness address page member.'')
         else act_bind (ss_get S (entry_key rt (ids ! (i mod PAGE_SIZE)))) (\<lambda>entry.
           case entry of
             None \<Rightarrow> act_raise (ValueErr ''Missing committed harness address index entry.'')
           | Some e \<Rightarrow>
               if \<not> py_eq (dget e ''position'') (JInt (int i))
               then act_raise (ValueErr ''Missing committed harness address index entry.'')
               else page_loop S rt (Some (i div PAGE_SIZE, ids))
                      (acc @ [foldl (\<lambda>d (k, v). dput k v d) [(''address_key'', JStr (ids ! (i mod PAGE_SIZE)))] e]) ps)"
  have next_page: "triple (page_loop S rt (Some (i div PAGE_SIZE, ?ids)) (acc @ [listing H es i]) ps) v Q E"
    using Cons.prems by (intro Cons.IH) auto
  have "triple (?rest ?ids) v Q E"
    using next_page E e at_i by (simp add: triple_bind_get listing_eq [simplified])
  moreover have "triple (case held of Some (k, ids) \<Rightarrow> if k = i div PAGE_SIZE then act_return ids else page_ids S rt (i div PAGE_SIZE)
            | None \<Rightarrow> page_ids S rt (i div PAGE_SIZE)) v (\<lambda>x w. x = ?ids \<and> w = v) E"
    using Cons.prems(2) triple_page_ids [where v = v and E = E, OF E p] by (auto split: option.split intro: triple_return)
  ultimately have "triple (act_bind (case held of Some (k, ids) \<Rightarrow> if k = i div PAGE_SIZE then act_return ids else page_ids S rt (i div PAGE_SIZE)
            | None \<Rightarrow> page_ids S rt (i div PAGE_SIZE)) ?rest) v Q E"
    by (elim triple_bind) (simp only: )
  then show ?case unfolding page_loop.simps Let_def .
qed

lemma page_holds:
  assumes v: "index_holds (ix_sha256 ix) v (participant_root ix p) es"
  shows "triple (index_page ix S p (JInt c) (JInt l)) v
    (\<lambda>x w. w = v \<and> index_ok (ix_sha256 ix) v (participant_root ix p) es
        \<and> x = spec_page (ix_sha256 ix) es (nat c) (nat l)) (\<lambda>w. w = v)"
proof -
  let ?H = "ix_sha256 ix" and ?rt = "participant_root ix p"
  let ?body = "\<lambda>head. if dget head ''pending'' \<noteq> JNull then act_raise IndexRecoveryRequired
      else (let stop = min (nat c + nat l) (head_count head)
            in act_bind (page_loop S ?rt None [] [nat c..<stop]) (\<lambda>entries.
               act_return (entries, if stop < head_count head then Some stop else None)))"
  let ?Q = "\<lambda>x w. w = v \<and> index_ok ?H v ?rt es \<and> x = spec_page ?H es (nat c) (nat l)"
  obtain ys pend where es: "es = ys @ pend"
    and st: "index_ok ?H v ?rt ys \<and> pend = [] \<or> (\<exists>x. journalled ?H v ?rt ys x \<and> pend = [x])"
    using v by (rule index_holds_cases)
  from st have "triple (act_bind (read_head S ?rt) ?body) v ?Q (\<lambda>w. w = v)"
  proof
    assume ok: "index_ok ?H v ?rt ys \<and> pend = []"
    then obtain h where h: "index_head (v (head_key ?rt)) = Inr h" "head_count h = length es" "dget h ''pending'' = JNull"
      using es by (auto simp: index_ok_def)
    let ?stop = "min (nat c + nat l) (length es)"
    have "triple (page_loop S ?rt None [] [nat c..<?stop]) v (\<lambda>x w. w = v \<and> x = map (listing ?H es) [nat c..<?stop]) (\<lambda>w. w = v)"
      using ok es by (intro page_loop_committed) (auto simp: list_all_iff)
    then have "triple (act_bind (page_loop S ?rt None [] [nat c..<?stop]) (\<lambda>entries.
        act_return (entries, if ?stop < length es then Some ?stop else None))) v ?Q (\<lambda>w. w = v)"
      using ok es by (elim triple_bind) (auto simp: spec_page_def intro!: triple_return)
    with h show ?thesis by (intro triple_bind_read_head [where h = h]) (simp_all add: Let_def)
  next
    assume "\<exists>x. journalled ?H v ?rt ys x \<and> pend = [x]"
    then obtain x where "journalled ?H v ?rt ys x" by blast
    then obtain h where "index_head (v (head_key ?rt)) = Inr (journal_head (index_key ?H (fst x)) (listed_doc (length ys) x) h)"
      by (elim journalled_head)
    then show ?thesis by (intro triple_bind_read_head) (auto intro: triple_raise)
  qed
  then show ?thesis unfolding index_page_def prod.case json.case Let_def by (auto intro!: triple_raise)
qed

end

end
