(* ===== verification/IndexProps.thy ===== *)
theory IndexProps
  imports IndexRecovery
begin

section \<open>Properties of the address index\<close>

text \<open>
  The index is recorded in, recovered and read over any store whose single calls may fail
  (\<open>fallible_store\<close>, which the in-memory driver satisfies by \<open>mem_fallible\<close>): a failure at any write is
  also what a crash there leaves behind. \<open>example_digest\<close> and \<open>example_address\<close> are the concrete values of
  the witnesses.
\<close>

definition example_digest :: digest where "example_digest t = replicate 64 (CHR ''a'')"

definition example_address :: session_address where
  "example_address = \<lparr> ad_type = Some ''user'', ad_id = Some ''7'', ad_scope = ''chat'', ad_agent = None \<rparr>"

definition empty_memory :: mem_state where
  "empty_memory = \<lparr> ms_entries = [], ms_locks = {}, ms_now = 0 \<rparr>"

definition example_index :: address_index where
  "example_index = \<lparr> ix_sha256 = example_digest, ix_max = Some 10 \<rparr>"

definition one_resource :: "(session_address \<times> resource list) list" where
  "one_resource = [(example_address, [(''durable'', ''state'', ''k'')])]"

lemma empty_index: "index_ok H (\<lambda>_. None) rt []"
  by (simp add: index_ok_def index_head_def fresh_head_def head_count_def dget_Cons page_ids_of_def page_slice_def)

lemma empty_memory_view [simp]: "mem_view empty_memory = (\<lambda>_. None)"
  by (simp add: mem_view_def empty_memory_def fun_eq_iff)

lemma example_no_clash: "no_clash example_digest [] a"
  by (simp add: no_clash_def hex64_def index_key_def address_digest_def example_digest_def byte_of_def list_all_iff)

text \<open>C21: recording is atomic whatever fails. Where the index holds the addresses \<open>es\<close>, in committed
  documents or with its last append still in the journal, a \<open>record\<close> that returns leaves the committed
  index of \<open>spec_record\<close>: the resource is added to its address, a new address goes last, nothing else
  changes. A \<open>record\<close> that raises, at whichever read, write or lock, leaves an index that holds the old
  addresses or the new ones, never a torn one.\<close>

theorem record_is_atomic:
  assumes "fallible_store S view good" and "good s"
    and "index_holds (ix_sha256 ix) (view s) (index_root (ix_sha256 ix) (ad_type a) (ad_id a)) es"
    and "no_clash (ix_sha256 ix) es a"
  shows "ends_in (index_record ix S a slot kind key)
    (\<lambda>_ t. good t \<and> index_ok (ix_sha256 ix) (view t) (index_root (ix_sha256 ix) (ad_type a) (ad_id a))
                      (spec_record a (slot, kind, key) es))
    (\<lambda>t. good t \<and> (\<exists>es' \<in> {es, spec_record a (slot, kind, key) es}.
         index_holds (ix_sha256 ix) (view t) (index_root (ix_sha256 ix) (ad_type a) (ad_id a)) es')) s"
  using fallible_store.triple_at [OF assms(1) fallible_store.record_holds [OF assms(1,3,4)] assms(2)] by simp

theorem record_is_atomic_witness:
  "ends_in (index_record example_index memory_store example_address ''durable'' ''state'' ''k'')
    (\<lambda>_ t. index_ok example_digest (mem_view t) (index_root example_digest (Some ''user'') (Some ''7'')) one_resource)
    (\<lambda>t. True) empty_memory"
proof -
  have "spec_record example_address (''durable'', ''state'', ''k'') [] = one_resource"
    by (simp add: spec_record_def one_resource_def)
  then show ?thesis
    using record_is_atomic [OF mem_fallible.fallible_store_axioms, where s = empty_memory and ix = example_index
      and a = example_address and es = "[]" and slot = "''durable''" and kind = "''state''" and key = "''k''"]
      empty_index example_no_clash
    by (simp add: index_holds_def example_index_def example_address_def ends_in_def split: prod.splits sum.splits)
qed

text \<open>C22: recovery completes. Where the index holds \<open>es\<close>, a \<open>recover\<close> that returns leaves exactly the
  committed index of \<open>es\<close>, the journalled append included; one that raises, whatever failed in it, has
  lost nothing and can be run again.\<close>

theorem recovery_completes:
  assumes "fallible_store S view good" and "good s"
    and "index_holds (ix_sha256 ix) (view s) (participant_root ix p) es"
  shows "ends_in (index_recover_all ix S p)
    (\<lambda>_ t. good t \<and> index_ok (ix_sha256 ix) (view t) (participant_root ix p) es)
    (\<lambda>t. good t \<and> index_holds (ix_sha256 ix) (view t) (participant_root ix p) es) s"
  using fallible_store.triple_at [OF assms(1) fallible_store.recover_all_holds [OF assms(1,3)] assms(2)] by simp

text \<open>The documents after the journal of a first append was written and nothing more.\<close>

definition interrupted_memory :: mem_state where
  "interrupted_memory = empty_memory\<lparr> ms_entries :=
     [(head_key (participant_root example_index None),
       \<lparr> me_payload = journal_head (index_key example_digest example_address) (listed_doc 0 (hd one_resource)) fresh_head,
         me_expires_at = None \<rparr>)] \<rparr>"

lemma interrupted_holds: "index_holds example_digest (mem_view interrupted_memory) (participant_root example_index None) one_resource"
proof -
  let ?rt = "participant_root example_index None"
  have v: "mem_view interrupted_memory = with_journal example_digest ?rt [] (hd one_resource) fresh_head (\<lambda>_. None)"
    by (simp add: fun_eq_iff mem_view_def interrupted_memory_def empty_memory_def with_journal_def mem_expired_def one_resource_def)
  have "new_to example_digest [] (fst (hd one_resource))"
    using example_no_clash by (simp add: new_to_def no_clash_def)
  then have "journalled example_digest (mem_view interrupted_memory) ?rt [] (hd one_resource)"
    unfolding journalled_def Let_def v
    by (intro exI [of _ "\<lambda>_. None"] exI [of _ fresh_head]) (simp add: index_head_def empty_index)
  then show ?thesis by (auto simp: index_holds_def one_resource_def)
qed

theorem recovery_completes_witness:
  "ends_in (index_recover_all example_index memory_store None)
    (\<lambda>_ t. index_ok example_digest (mem_view t) (participant_root example_index None) one_resource)
    (\<lambda>t. index_holds example_digest (mem_view t) (participant_root example_index None) one_resource) interrupted_memory"
  using recovery_completes [OF mem_fallible.fallible_store_axioms, where s = interrupted_memory and ix = example_index
      and p = None and es = one_resource]
    interrupted_holds by (simp add: example_index_def)

text \<open>C23: a page never shows a partial index. Where the index holds \<open>es\<close>, a page that is returned is the
  slice of \<open>es\<close> from its cursor, in recording order, with its next cursor set exactly when more follows,
  and the index was committed: an index with an append still in the journal is refused. Reading changes
  nothing.\<close>

theorem pages_are_complete:
  assumes "fallible_store S view good" and "good s"
    and "index_holds (ix_sha256 ix) (view s) (participant_root ix p) es"
  shows "ends_in (index_page ix S p (JInt c) (JInt l))
    (\<lambda>x t. good t \<and> view t = view s \<and> index_ok (ix_sha256 ix) (view s) (participant_root ix p) es
        \<and> x = spec_page (ix_sha256 ix) es (nat c) (nat l))
    (\<lambda>t. good t \<and> view t = view s) s"
  using fallible_store.triple_at [OF assms(1) fallible_store.page_holds [OF assms(1,3)] assms(2)] by simp

theorem pages_are_complete_witness:
  "ends_in (index_page example_index memory_store None (JInt 0) (JInt 5))
    (\<lambda>x t. x = ([], None)) (\<lambda>t. mem_view t = (\<lambda>_. None)) empty_memory"
  using pages_are_complete [OF mem_fallible.fallible_store_axioms, where s = empty_memory and ix = example_index and p = None
      and es = "[]" and c = 0 and l = 5]
    empty_index by (simp add: index_holds_def ends_in_def spec_page_def split: prod.splits sum.splits)

text \<open>C24: no resource is written before it is announced. A write through an announcing store either raises
  before its own store is touched, or reaches it in a state whose index is committed and lists the
  address with the written key.\<close>

theorem announced_before_written:
  assumes "fallible_store S view good" and "good s"
    and "index_holds (ix_sha256 ix) (view s) (index_root (ix_sha256 ix) (ad_type a) (ad_id a)) es"
    and "no_clash (ix_sha256 ix) es a"
  shows "(\<exists>e t. ss_put (indexed_store ix S a slot kind inner) key d ttl s = (Inl e, t)
            \<and> index_record ix S a slot kind key s = (Inl e, t))
       \<or> (\<exists>t rs. index_ok (ix_sha256 ix) (view t) (index_root (ix_sha256 ix) (ad_type a) (ad_id a))
                   (spec_record a (slot, kind, key) es)
            \<and> (a, rs) \<in> set (spec_record a (slot, kind, key) es) \<and> (slot, kind, key) \<in> set rs
            \<and> ss_put (indexed_store ix S a slot kind inner) key d ttl s = ss_put inner key d ttl t)"
proof (cases "index_record ix S a slot kind key s")
  case (Pair r t)
  show ?thesis
  proof (cases r)
    case (Inl e)
    with Pair show ?thesis by (simp add: indexed_store_def run_simps)
  next
    case (Inr u)
    have "index_ok (ix_sha256 ix) (view t) (index_root (ix_sha256 ix) (ad_type a) (ad_id a)) (spec_record a (slot, kind, key) es)"
      using fallible_store.triple_at [OF assms(1) fallible_store.record_holds [OF assms(1,3,4)] assms(2), of slot kind key]
        Pair Inr by (simp add: ends_in_def)
    moreover have "\<exists>rs. (a, rs) \<in> set (spec_record a (slot, kind, key) es) \<and> (slot, kind, key) \<in> set rs"
      by (force simp: spec_record_def)
    ultimately show ?thesis using Pair Inr by (auto simp: indexed_store_def run_simps)
  qed
qed

theorem announced_before_written_witness:
  "\<exists>t. fst (ss_put (indexed_store example_index memory_store example_address ''durable'' ''state'' memory_store) ''k'' [] None empty_memory)
        = Inr t \<or> mem_view (snd (index_record example_index memory_store example_address ''durable'' ''state'' ''k'' empty_memory))
        = mem_view (snd (ss_put (indexed_store example_index memory_store example_address ''durable'' ''state'' memory_store) ''k'' [] None empty_memory))"
  using announced_before_written [OF mem_fallible.fallible_store_axioms, where s = empty_memory and ix = example_index
      and a = example_address and es = "[]" and slot = "''durable''" and kind = "''state''" and key = "''k''"
      and inner = memory_store and d = "[]" and ttl = None]
    empty_index example_no_clash
  by (auto simp: index_holds_def example_index_def memory_store_def mem_put_def)

end
