(* ===== verification/Skills.thy ===== *)
theory Skills
  imports Errors PyText
begin

section \<open>Skills\<close>

text \<open>
  \<open>skills.py\<close>: files a mode loads into its prompt, read under a guard. The file system is a record of
  functions of the host on absolute paths (lists of components): \<open>fs_resolve\<close> is \<open>resolve(strict=True)\<close>,
  which follows symbolic links and fails where nothing is; nothing is assumed of them.
\<close>

record file_system =
  fs_resolve :: "string list \<Rightarrow> string list option"
  fs_is_file :: "string list \<Rightarrow> bool"
  fs_read :: "string list \<Rightarrow> string pyres"

subsection \<open>Names and paths\<close>

definition lower_or_digit :: "char \<Rightarrow> bool" where
  "lower_or_digit c = ((97 \<le> byte_of c \<and> byte_of c \<le> 122) \<or> (48 \<le> byte_of c \<and> byte_of c \<le> 57))"

definition skill_char :: "char \<Rightarrow> bool" where
  "skill_char c = (lower_or_digit c \<or> c = CHR ''_'' \<or> c = CHR ''-'')"

text \<open>\<open>re.match("^[a-z0-9][a-z0-9_-]*$", name)\<close>: \<open>$\<close> also matches before a newline at the end.\<close>

definition strip_newline :: "string \<Rightarrow> string" where
  "strip_newline s = (if s \<noteq> [] \<and> last s = CHR 0x0A then butlast s else s)"

definition skill_name :: "string \<Rightarrow> bool" where
  "skill_name name =
     (case strip_newline name of [] \<Rightarrow> False | c # s \<Rightarrow> lower_or_digit c \<and> list_all skill_char s)"

fun split_slash :: "string \<Rightarrow> string list" where
  "split_slash [] = [[]]"
| "split_slash (c # s) =
     (if c = CHR ''/'' then [] # split_slash s
      else case split_slash s of [] \<Rightarrow> [[c]] | p # ps \<Rightarrow> (c # p) # ps)"

definition relative_path :: "string \<Rightarrow> string" where
  "relative_path path = py_strip (map (\<lambda>c. if c = backslash then CHR ''/'' else c) path)"

text \<open>\<open>re.search("(^|/)\.\.(/|$)", relative)\<close>: a component that is two dots, \<open>$\<close> as above.\<close>

definition traverses :: "string \<Rightarrow> bool" where
  "traverses relative =
     (''..'' \<in> set (split_slash relative) \<or> last (split_slash relative) = ''..'' @ [CHR 0x0A])"

text \<open>Joining drops empty components and single dots.\<close>

definition joined :: "string list \<Rightarrow> string list \<Rightarrow> string list" where
  "joined base parts = base @ filter (\<lambda>p. p \<noteq> [] \<and> p \<noteq> ''.'') parts"

definition outside :: "string list \<Rightarrow> string list \<Rightarrow> file_system \<Rightarrow> bool" where
  "outside skill_root file fs = (\<not> prefix skill_root file \<or> file = skill_root \<or> \<not> fs_is_file fs file)"

subsection \<open>Reading\<close>

definition skill_read :: "file_system \<Rightarrow> string list \<Rightarrow> string \<Rightarrow> string \<Rightarrow> string pyres" where
  "skill_read fs rt name path =
     (if \<not> skill_name name then Inl (skill_path_refused (''the skill name ['' @ name @ ''] is not a valid name''))
      else (let relative = relative_path path
            in if relative = [] \<or> hd relative = CHR ''/'' \<or> traverses relative
               then Inl (skill_path_refused (''['' @ path @ ''] must stay inside the skill''))
               else (case (fs_resolve fs (joined rt [name]), fs_resolve fs (joined rt (name # split_slash relative))) of
                       (Some skill_root, Some file) \<Rightarrow>
                         if outside skill_root file fs
                         then Inl (skill_path_refused (''['' @ name @ ''/'' @ relative @ ''] resolves outside the skill''))
                         else fs_read fs file
                     | _ \<Rightarrow> Inl (skill_path_refused (''['' @ name @ ''/'' @ relative @ ''] was not found'')))))"

definition skill_section :: "file_system \<Rightarrow> string list \<Rightarrow> string \<Rightarrow> string pyres" where
  "skill_section fs rt name =
     res_bind (skill_read fs rt name ''SKILL.md'') (\<lambda>text. Inr
       (''<skill name='' @ [quote_char] @ name @ [quote_char] @ ''>'' @ [CHR 0x0A] @ text @ [CHR 0x0A] @ ''</skill>''))"

definition augment_prompt :: "file_system \<Rightarrow> string list \<Rightarrow> string \<Rightarrow> string list \<Rightarrow> string pyres" where
  "augment_prompt fs rt system_prompt names =
     res_bind (res_map (skill_section fs rt) names) (\<lambda>sections.
       if sections = [] then Inr system_prompt
       else Inr (py_strip (system_prompt @ [CHR 0x0A, CHR 0x0A]
         @ ''The following Harness-owned skills are available. Follow their ''
         @ ''routing instructions and use skill_read for referenced files. Do not copy skill ''
         @ ''files into the project workspace.'' @ [CHR 0x0A, CHR 0x0A]
         @ join_with [CHR 0x0A, CHR 0x0A] sections)))"

subsection \<open>The guard\<close>

text \<open>What is read is a file below the skill's own directory, links resolved, and no step of the way to it was up.\<close>

lemma skill_read_inside:
  assumes "skill_read fs rt name path = Inr text"
  shows "\<exists>top file. fs_resolve fs (joined rt [name]) = Some top
    \<and> fs_resolve fs (joined rt (name # split_slash (relative_path path))) = Some file
    \<and> prefix top file \<and> file \<noteq> top \<and> fs_is_file fs file \<and> fs_read fs file = Inr text
    \<and> ''..'' \<notin> set (split_slash (relative_path path))"
  using assms by (auto simp: skill_read_def Let_def outside_def traverses_def split: if_splits option.splits)

text \<open>The pattern of a name ends in \<open>$\<close>, which lets a newline through.\<close>

lemma newline_name_passes: "skill_name (''notes'' @ [CHR 0x0A]) \<and> \<not> list_all skill_char (''notes'' @ [CHR 0x0A])"
  by (simp add: skill_name_def strip_newline_def skill_char_def lower_or_digit_def byte_of_def)

end
