(* ===== verification/OwnerLock.thy ===== *)
theory OwnerLock
  imports FileStore "HOL-Library.Char_ord" "HOL-Library.List_Lexorder" "HOL-Library.Product_Lexorder"
begin

section \<open>The owner-file lock\<close>

text \<open>
  \<open>stores/_file_owner_lock.py\<close>: a lock is a directory that holds one file, the record of its owner. An
  owner prepares the directory beside its place and renames it there, which succeeds only where nothing or an
  empty directory stands; it gives the lock back by rewriting its record as released and removing both.
  Whoever finds a lock looks into it (\<open>inspect_lock\<close>) and removes the record of an owner that has released it or
  whose process is dead, but only in its own realm of process ids.
  Every function is a program of system calls; \<open>errno\<close>s in \<open>_HELD\<close> are retried or mean that the lock is held.
  A thread's attempt is named by its nonce, which \<open>secrets.token_hex\<close> draws: two attempts never share one.
  The platform is POSIX; \<open>os.getpid()\<close> is a parameter, and there is no fork in the middle of an attempt. The
  warnings that the code prints are left out.
\<close>

subsection \<open>Calls\<close>

text \<open>\<open>_HELD\<close>\<close>

definition held_errno :: "errno \<Rightarrow> bool" where
  "held_errno e = (e \<in> {EEXIST, ENOTEMPTY, EISDIR, ENOTDIR, EPERM, EACCES, EBUSY})"

text \<open>A call whose answer does not matter, and one whose answer is yes or no.\<close>

definition do_call :: "call \<Rightarrow> unit program" where
  "do_call c = Call c (\<lambda>_. Ret ())"

definition ask :: "call \<Rightarrow> bool program" where
  "ask c = Call c (\<lambda>a. Ret (a = Yes))"

definition monotonic :: "rat program" where
  "monotonic = Call Monotonic (\<lambda>a. case a of Time t \<Rightarrow> Ret t | _ \<Rightarrow> Raise (OsError EIO))"

text \<open>\<open>pid_is_dead\<close> on POSIX: only \<open>ProcessLookupError\<close> says so.\<close>

definition pid_is_dead :: "int \<Rightarrow> bool program" where
  "pid_is_dead pid = Call (SignalZero pid) (\<lambda>a. Ret (a = NoSuchProcess))"

definition read_owner_bytes :: "string \<Rightarrow> string \<Rightarrow> string program" where
  "read_owner_bytes lock name =
     prog_bind (on_disk (ReadFile (In lock name))) (\<lambda>a.
       case a of Bytes c \<Rightarrow> Ret (take 4097 c) | _ \<Rightarrow> Raise (OsError EIO))"

definition lstat :: "place \<Rightarrow> file_kind program" where
  "lstat p = prog_bind (on_disk (Lstat p)) (\<lambda>a. case a of Kind k \<Rightarrow> Ret k | _ \<Rightarrow> Raise (OsError EIO))"

definition list_dir :: "string \<Rightarrow> string list program" where
  "list_dir d = prog_bind (on_disk (ListDir d)) (\<lambda>a. case a of Names ns \<Rightarrow> Ret ns | _ \<Rightarrow> Raise (OsError EIO))"

subsection \<open>Cleaning up\<close>

text \<open>\<open>progress\<close> is the nonce of the progress record, if one is given: its \<open>unlinked\<close> flag is shared by the threads
  of the process. The five attempts at a call count down.\<close>

fun unlink_attempts :: "nat \<Rightarrow> string \<Rightarrow> string \<Rightarrow> string option \<Rightarrow> bool program" where
  "unlink_attempts 0 lock nonce progress = Ret True"
| "unlink_attempts (Suc n) lock nonce progress =
     prog_bind (case progress of None \<Rightarrow> Ret False | Some p \<Rightarrow> ask (IsUnlinked p)) (\<lambda>unlinked.
       if unlinked then Ret True
       else prog_try (on_disk (Unlink (In lock (owner_file nonce))))
              (\<lambda>_. prog_bind (case progress of None \<Rightarrow> Ret () | Some p \<Rightarrow> do_call (SetUnlinked p)) (\<lambda>_. Ret True))
              (\<lambda>e. case e of
                 OsError x \<Rightarrow>
                   if x = ENOENT then Ret False
                   else if n = 0 \<or> \<not> held_errno x then Raise e
                   else prog_bind (do_call Pause) (\<lambda>_. unlink_attempts n lock nonce progress)
               | PyExn _ \<Rightarrow> Raise e))"

fun rmdir_attempts :: "nat \<Rightarrow> string \<Rightarrow> unit program" where
  "rmdir_attempts 0 lock = Ret ()"
| "rmdir_attempts (Suc n) lock =
     prog_try (on_disk (RemoveDir lock)) (\<lambda>_. Ret ())
       (\<lambda>e. case e of
          OsError x \<Rightarrow>
            if x \<in> {ENOENT, ENOTEMPTY, EEXIST} then Ret ()
            else if n = 0 \<or> \<not> held_errno x then Raise e
            else prog_bind (do_call Pause) (\<lambda>_. rmdir_attempts n lock)
        | PyExn _ \<Rightarrow> Raise e)"

definition clean_owner :: "string \<Rightarrow> string \<Rightarrow> bool \<Rightarrow> string option \<Rightarrow> unit program" where
  "clean_owner lock nonce temporary progress =
     prog_bind (if temporary then unlink_missing_ok (In lock (release_file nonce)) else Ret ()) (\<lambda>_.
     prog_bind (unlink_attempts 5 lock nonce progress) (\<lambda>unlinked.
       if unlinked then rmdir_attempts 5 lock else Ret ()))"

subsection \<open>Looking into a lock\<close>

datatype verdict = Held | Retry | Legacy

text \<open>Every entry a regular file of at most 4096 bytes.\<close>

fun entries_plain :: "string \<Rightarrow> string list \<Rightarrow> bool program" where
  "entries_plain lock [] = Ret True"
| "entries_plain lock (n # ns) =
     prog_bind (lstat (In lock n)) (\<lambda>k.
       case k of
         IsRegular len \<Rightarrow> if 4096 < len then Ret False else entries_plain lock ns
       | _ \<Rightarrow> Ret False)"

definition inspect_owner :: "string \<Rightarrow> identity \<Rightarrow> bool \<Rightarrow> lock_owner \<Rightarrow> verdict program" where
  "inspect_owner lock local temporary w =
     (if \<not> same_identity (ow_identity w) local then Ret Held
      else prog_bind (if ow_released w then Ret True else pid_is_dead (ow_pid w)) (\<lambda>gone.
             if \<not> gone then Ret Held
             else prog_bind (clean_owner lock (ow_nonce w) temporary None) (\<lambda>_. Ret Retry)))"

definition inspect_folder :: "string \<Rightarrow> identity \<Rightarrow> string list \<Rightarrow> verdict program" where
  "inspect_folder lock local entries =
     (case filter (\<lambda>n. owner_match n \<noteq> None) entries of
        [name] \<Rightarrow>
          (case owner_match name of
             None \<Rightarrow> Ret Held
           | Some nonce \<Rightarrow>
               if \<not> list_all (\<lambda>n. n = name \<or> n = release_file nonce) entries then Ret Held
               else prog_bind (entries_plain lock entries) (\<lambda>plain.
                      if \<not> plain then Ret Held
                      else prog_bind (read_owner_bytes lock name) (\<lambda>raw.
                             case parse_owner raw name of
                               None \<Rightarrow> Ret Held
                             | Some w \<Rightarrow> inspect_owner lock local (release_file nonce \<in> set entries) w)))
      | _ \<Rightarrow> Ret Held)"

definition inspect_lock :: "string \<Rightarrow> identity \<Rightarrow> verdict program" where
  "inspect_lock lock local =
     prog_catch
       (prog_bind (lstat (Top lock)) (\<lambda>k.
          case k of
            IsSpecial \<Rightarrow> Ret Held
          | IsRegular _ \<Rightarrow> Ret Legacy
          | IsFolder \<Rightarrow> prog_bind (list_dir lock) (inspect_folder lock local)))
       (\<lambda>e. case e of
          OsError x \<Rightarrow> if x = ENOENT then Ret Retry else if held_errno x then Ret Held else Raise e
        | PyExn _ \<Rightarrow> Raise e)"

subsection \<open>Giving a lock back\<close>

fun replace_attempts :: "nat \<Rightarrow> string \<Rightarrow> string \<Rightarrow> unit program" where
  "replace_attempts 0 lock nonce = Ret ()"
| "replace_attempts (Suc n) lock nonce =
     prog_try (on_disk (Rename (In lock (release_file nonce)) (In lock (owner_file nonce)))) (\<lambda>_. Ret ())
       (\<lambda>e. case e of
          OsError x \<Rightarrow>
            if n = 0 \<or> \<not> held_errno x then Raise e
            else prog_bind (do_call Pause) (\<lambda>_. replace_attempts n lock nonce)
        | PyExn _ \<Rightarrow> Raise e)"

definition publish_release :: "string \<Rightarrow> lock_owner \<Rightarrow> unit program" where
  "publish_release lock w =
     prog_bind (on_disk (OpenWrite (In lock (release_file (ow_nonce w))))) (\<lambda>_.
     prog_bind (on_disk (WriteFile (In lock (release_file (ow_nonce w))) (owner_payload (w\<lparr>ow_released := True\<rparr>)))) (\<lambda>_.
     prog_bind (replace_attempts 5 lock (ow_nonce w)) (\<lambda>_.
       clean_owner lock (ow_nonce w) False (Some (ow_nonce w)))))"

text \<open>What the owner finds of its own record: it is gone, released already, or to be released; any other is an
  error.\<close>

definition observe_own :: "string \<Rightarrow> lock_owner \<Rightarrow> bool program" where
  "observe_own lock w =
     prog_try
       (prog_bind (read_owner_bytes lock (owner_file (ow_nonce w))) (\<lambda>raw.
          case parse_owner raw (owner_file (ow_nonce w)) of
            None \<Rightarrow> Raise (PyExn (OtherErr ''File lock owner changed before release''))
          | Some seen \<Rightarrow>
              if ow_nonce seen \<noteq> ow_nonce w
              then Raise (PyExn (OtherErr ''File lock owner changed before release''))
              else if ow_released seen
              then prog_bind (clean_owner lock (ow_nonce w) True (Some (ow_nonce w))) (\<lambda>_. Ret False)
              else Ret True))
       Ret
       (\<lambda>e. if e = OsError ENOENT then Ret False else Raise e)"

definition release_lock :: "string \<Rightarrow> lock_owner \<Rightarrow> unit program" where
  "release_lock lock w =
     prog_bind (ask (IsUnlinked (ow_nonce w))) (\<lambda>unlinked.
       if unlinked then clean_owner lock (ow_nonce w) False (Some (ow_nonce w))
       else prog_bind (observe_own lock w) (\<lambda>unreleased.
              if unreleased then publish_release lock w else Ret ()))"

text \<open>\<open>_flush_pending\<close>: the releases of this process that failed before are tried again, each behind its gate.\<close>

definition flush_one :: "string \<Rightarrow> lock_owner \<Rightarrow> unit program" where
  "flush_one lock w =
     prog_bind (do_call (GateEnter (ow_nonce w))) (\<lambda>_.
       prog_finally
         (prog_bind (ask (PendingHas (ow_nonce w))) (\<lambda>there.
            if \<not> there then Ret ()
            else prog_bind (release_lock lock w) (\<lambda>_. do_call (PendingDrop (ow_nonce w)))))
         (do_call (GateLeave (ow_nonce w))))"

fun flush_all :: "(string \<times> lock_owner) list \<Rightarrow> unit program" where
  "flush_all [] = Ret ()"
| "flush_all (p # ps) = prog_bind (flush_one (fst p) (snd p)) (\<lambda>_. flush_all ps)"

definition flush_pending :: "unit program" where
  "flush_pending = Call PendingList (\<lambda>a. case a of Progresses ps \<Rightarrow> flush_all ps | _ \<Rightarrow> Ret ())"

subsection \<open>Taking a lock\<close>

record lock_request =
  lr_lock :: string
  lr_key :: string
  lr_ttl :: json
  lr_wait :: json
  lr_nonce :: string
  lr_pid :: int
  lr_platform :: string

definition num_value_of :: "json \<Rightarrow> rat" where
  "num_value_of v = (case as_num v of Some (Fin q) \<Rightarrow> q | _ \<Rightarrow> 0)"

definition candidate_dir :: "string \<Rightarrow> string \<Rightarrow> string" where
  "candidate_dir lock nonce = lock @ ''.candidate-'' @ nonce"

definition locked_error :: "lock_request \<Rightarrow> fault" where
  "locked_error R = PyExn (session_locked (lr_key R) (py_str (lr_wait R)))"

definition legacy_error :: "lock_request \<Rightarrow> fault" where
  "legacy_error R = PyExn (harness_err SESSION_LOCKED
     (''legacy_lock_requires_maintenance: '' @ lr_lock R @ ''; stop_old_workers_then_inspect_and_archive''))"

definition invalid_duration :: fault where
  "invalid_duration = PyExn (ValueErr ''Invalid file lock duration'')"

text \<open>\<open>lock.lstat()\<close> before anything is tried: a file of the old protocol stops everything; the rounds also stop at
  what is neither a file nor a directory.\<close>

definition check_existing :: "lock_request \<Rightarrow> bool \<Rightarrow> unit program" where
  "check_existing R in_round =
     prog_try (lstat (Top (lr_lock R)))
       (\<lambda>k. case k of
          IsRegular _ \<Rightarrow> Raise (legacy_error R)
        | IsSpecial \<Rightarrow> if in_round then Raise (locked_error R) else Ret ()
        | IsFolder \<Rightarrow> Ret ())
       (\<lambda>e. if e = OsError ENOENT then Ret () else Raise e)"

text \<open>\<open>os.rename(candidate, lock)\<close>: whether the candidate is the lock now.\<close>

definition publish_candidate :: "lock_request \<Rightarrow> bool program" where
  "publish_candidate R =
     prog_try (on_disk (Rename (Top (candidate_dir (lr_lock R) (lr_nonce R))) (Top (lr_lock R)))) (\<lambda>_. Ret True)
       (\<lambda>e. case e of OsError x \<Rightarrow> if held_errno x then Ret False else Raise e | PyExn _ \<Rightarrow> Raise e)"

definition past_deadline :: "lock_request \<Rightarrow> rat \<Rightarrow> unit program" where
  "past_deadline R deadline =
     prog_bind monotonic (\<lambda>now. if deadline \<le> now then Raise (locked_error R) else do_call Pause)"

text \<open>One round of the loop: whether the lock is taken.\<close>

definition acquire_round :: "lock_request \<Rightarrow> identity \<Rightarrow> rat \<Rightarrow> bool program" where
  "acquire_round R local deadline =
     prog_bind flush_pending (\<lambda>_.
     prog_bind (check_existing R True) (\<lambda>_.
     prog_bind (publish_candidate R) (\<lambda>published.
       if published then Ret True
       else prog_bind (inspect_lock (lr_lock R) local) (\<lambda>state.
              case state of
                Legacy \<Rightarrow> Raise (legacy_error R)
              | Retry \<Rightarrow> prog_bind monotonic (\<lambda>now.
                           if now < deadline then Ret False
                           else prog_bind (past_deadline R deadline) (\<lambda>_. Ret False))
              | Held \<Rightarrow> prog_bind (past_deadline R deadline) (\<lambda>_. Ret False)))))"

text \<open>The loop, for at most so many rounds: \<open>False\<close> when they are over and it is still waiting. An execution of
  the loop that has made finitely many calls is one of \<open>acquire_rounds n\<close> for every \<open>n\<close> large enough.\<close>

fun acquire_rounds :: "nat \<Rightarrow> lock_request \<Rightarrow> identity \<Rightarrow> rat \<Rightarrow> bool program" where
  "acquire_rounds 0 R local deadline = Ret False"
| "acquire_rounds (Suc n) R local deadline =
     prog_bind (acquire_round R local deadline) (\<lambda>taken.
       if taken then Ret True else acquire_rounds n R local deadline)"

definition write_candidate :: "lock_request \<Rightarrow> lock_owner \<Rightarrow> unit program" where
  "write_candidate R w =
     (let p = In (candidate_dir (lr_lock R) (lr_nonce R)) (owner_file (lr_nonce R))
      in prog_bind (on_disk (CreateNew p)) (\<lambda>_.
         prog_bind (on_disk (WriteFile p (owner_payload w))) (\<lambda>_. Ret ())))"

text \<open>From the candidate to the lock; a failure takes the candidate away (\<open>finally\<close>).\<close>

definition acquire_lock :: "nat \<Rightarrow> lock_request \<Rightarrow> lock_owner \<Rightarrow> rat \<Rightarrow> bool program" where
  "acquire_lock n R w deadline =
     prog_catch
       (prog_bind (write_candidate R w) (\<lambda>_. acquire_rounds n R (ow_identity w) deadline))
       (\<lambda>e. prog_bind (clean_owner (candidate_dir (lr_lock R) (lr_nonce R)) (lr_nonce R) False None) (\<lambda>_. Raise e))"

definition native_identity_call :: "lock_request \<Rightarrow> identity program" where
  "native_identity_call R =
     Call WhoAmI (\<lambda>a. case a of
       Realm (Some i) \<Rightarrow> Ret i
     | _ \<Rightarrow> if lr_platform R \<notin> {''win32'', ''linux'', ''darwin''}
           then Raise (PyExn (harness_err SESSION_LOCKED ''Unsupported file-lock platform''))
           else Ret \<lparr> id_platform = lr_platform R, id_boot = ''unknown'', id_namespace = None \<rparr>)"

text \<open>The callback, and the release that follows it however it ends: a release that fails is left pending.\<close>

definition run_callback :: "json program" where
  "run_callback = Call CallbackReturns (\<lambda>a. case a of
     Outcome (Inr v) \<Rightarrow> Ret v | Outcome (Inl e) \<Rightarrow> Raise e | _ \<Rightarrow> Raise (OsError EIO))"

definition release_after :: "lock_request \<Rightarrow> lock_owner \<Rightarrow> unit program" where
  "release_after R w =
     prog_catch (release_lock (lr_lock R) w)
       (\<lambda>e. prog_bind (do_call (PendingAdd (lr_lock R) w)) (\<lambda>_. Raise e))"

definition under_lock :: "nat \<Rightarrow> lock_request \<Rightarrow> lock_owner \<Rightarrow> json option program" where
  "under_lock n R w =
     prog_bind monotonic (\<lambda>now.
     prog_bind (on_disk (MakeDir (candidate_dir (lr_lock R) (lr_nonce R)))) (\<lambda>_.
     prog_bind (acquire_lock n R w (now + num_value_of (lr_wait R))) (\<lambda>taken.
       if \<not> taken then Ret None
       else prog_finally (prog_bind run_callback (\<lambda>v. Ret (Some v))) (release_after R w))))"

text \<open>\<open>with_file_owner_lock\<close>; \<open>None\<close> when the rounds considered are over and it is still waiting.\<close>

definition with_file_owner_lock :: "nat \<Rightarrow> lock_request \<Rightarrow> json option program" where
  "with_file_owner_lock n R =
     (if \<not> lock_args_ok (lr_ttl R) (lr_wait R) then Raise invalid_duration
      else prog_bind wall_clock (\<lambda>now.
        let expires = \<lfloor>now + num_value_of (lr_ttl R)\<rfloor>
        in if 9007199254740991 < \<bar>expires\<bar> then Raise invalid_duration
           else prog_bind flush_pending (\<lambda>_.
                prog_bind (check_existing R False) (\<lambda>_.
                prog_bind (native_identity_call R) (\<lambda>i.
                  under_lock n R
                    \<lparr> ow_pid = lr_pid R, ow_identity = i, ow_nonce = lr_nonce R, ow_released = False,
                      ow_expires_at = expires \<rparr>)))))"

text \<open>\<open>FileSessionStore.with_lock\<close>: the directory of a key is named by its digest.\<close>

definition file_with_lock ::
  "nat \<Rightarrow> (string \<Rightarrow> string) \<Rightarrow> int \<Rightarrow> string \<Rightarrow> string \<Rightarrow> string \<Rightarrow> json \<Rightarrow> json \<Rightarrow> json option program" where
  "file_with_lock n digest pid platform nonce key ttl wait =
     with_file_owner_lock n
       \<lparr> lr_lock = lock_path_for digest key, lr_key = key, lr_ttl = ttl, lr_wait = wait, lr_nonce = nonce, lr_pid = pid,
         lr_platform = platform \<rparr>"

subsection \<open>What is pending\<close>

definition remove_suffix :: "string \<Rightarrow> string \<Rightarrow> string" where
  "remove_suffix suf s = (if suffix suf s \<and> suf \<noteq> [] then take (length s - length suf) s else s)"

text \<open>\<open>pending_file_owner_releases\<close>: the rows of one directory (\<open>here\<close>), sorted; a process that was forked has none.\<close>

definition pending_file_owner_releases ::
  "bool \<Rightarrow> (string \<Rightarrow> bool) \<Rightarrow> (string \<times> lock_owner) list \<Rightarrow> pydict list" where
  "pending_file_owner_releases forked here pending =
     (if forked then []
      else map (\<lambda>(digest, nonce). [(''key_digest'', JStr digest), (''nonce'', JStr nonce)])
        (sort (map (\<lambda>p. (remove_suffix ''.json.lock'' (fst p), ow_nonce (snd p))) (filter (\<lambda>p. here (fst p)) pending))))"

end
