(* ===== verification/LockWorld.thy ===== *)
theory LockWorld
  imports OwnerLock
begin

section \<open>Processes that share locks\<close>

text \<open>
  Attempts at locks of one directory, each named by its nonce, in any number of processes. A process may be
  killed at any moment and others may start, with process ids used again. What the operating system must be
  trusted with is in \<open>lock_sys\<close>: signalling a pid says that no such process exists only if none of the same
  realm is alive under it; a process is told the identity of its own realm, or none, or one with no namespace.
  Every call on the disk may fail.
\<close>

record lock_world =
  lw_disk :: disk
  lw_alive :: "nat set"
  lw_dead :: "nat set"
  lw_left :: "string set"
  lw_unlinked :: "string set"
  lw_pending :: "nat \<Rightarrow> (string \<times> lock_owner) list"
  lw_gates :: "string \<Rightarrow> string option"

text \<open>\<open>lw_left\<close> are the attempts whose callback has returned; \<open>lw_gates\<close> are the gates of releases (\<open>RLock\<close>s) with the
  attempts that are in them.\<close>

record lock_setting =
  ls_process :: "string \<Rightarrow> nat"
  ls_pid :: "nat \<Rightarrow> int"
  ls_realm :: "nat \<Rightarrow> identity"
  ls_request :: "string \<Rightarrow> lock_request"
  ls_rounds :: "string \<Rightarrow> nat"

definition ls_lock :: "lock_setting \<Rightarrow> string \<Rightarrow> string" where
  "ls_lock S n = lr_lock (ls_request S n)"

definition own_candidate :: "lock_setting \<Rightarrow> string \<Rightarrow> string" where
  "own_candidate S n = (if is_nonce n then candidate_dir (ls_lock S n) n else [])"

definition attempt :: "lock_setting \<Rightarrow> string \<Rightarrow> json option program" where
  "attempt S n = (if is_nonce n then with_file_owner_lock (ls_rounds S n) (ls_request S n) else Ret None)"

definition is_lock_name :: "string \<Rightarrow> bool" where
  "is_lock_name d = (\<exists>stem. d = stem @ ''.json.lock'')"

definition setting_ok :: "lock_setting \<Rightarrow> bool" where
  "setting_ok S =
     ((\<forall>n. is_lock_name (ls_lock S n) \<and> lr_nonce (ls_request S n) = n
         \<and> lr_pid (ls_request S n) = ls_pid S (ls_process S n)
         \<and> lr_platform (ls_request S n) \<in> {''linux'', ''darwin'', ''win32''})
      \<and> (\<forall>p. 1 \<le> ls_pid S p \<and> ls_pid S p \<le> 4294967295 \<and> valid_identity (ls_realm S p)))"

subsection \<open>What the world does\<close>

definition may_say_dead :: "lock_setting \<Rightarrow> nat \<Rightarrow> int \<Rightarrow> lock_world \<Rightarrow> bool" where
  "may_say_dead S p q w = (\<forall>x \<in> lw_alive w. ls_realm S x = ls_realm S p \<longrightarrow> ls_pid S x \<noteq> q)"

definition may_identify :: "lock_setting \<Rightarrow> nat \<Rightarrow> identity option \<Rightarrow> bool" where
  "may_identify S p i =
     (case i of None \<Rightarrow> True
      | Some x \<Rightarrow> valid_identity x \<and> (x = ls_realm S p \<or> id_namespace x = None))"

inductive lock_sys ::
  "lock_setting \<Rightarrow> string \<Rightarrow> call \<Rightarrow> lock_world \<Rightarrow> reply \<Rightarrow> lock_world \<Rightarrow> bool" for S n where
  sys_disk: "disk_step c (lw_disk w) a D \<Longrightarrow> lock_sys S n (OnDisk c) w a (w\<lparr>lw_disk := D\<rparr>)"
| sys_dead: "may_say_dead S (ls_process S n) q w \<Longrightarrow> lock_sys S n (SignalZero q) w NoSuchProcess w"
| sys_signal: "a \<noteq> NoSuchProcess \<Longrightarrow> lock_sys S n (SignalZero q) w a w"
| sys_clock: "c \<in> {Monotonic, WallClock} \<Longrightarrow> lock_sys S n c w (Time t) w"
| sys_who: "may_identify S (ls_process S n) i \<Longrightarrow> lock_sys S n WhoAmI w (Realm i) w"
| sys_pause: "lock_sys S n Pause w Fine w"
| sys_callback: "lock_sys S n CallbackReturns w (Outcome r) (w\<lparr>lw_left := insert n (lw_left w)\<rparr>)"
| sys_list: "lock_sys S n PendingList w (Progresses (lw_pending w (ls_process S n))) w"
| sys_has: "lock_sys S n (PendingHas k) w
    (if k \<in> (\<lambda>p. ow_nonce (snd p)) ` set (lw_pending w (ls_process S n)) then Yes else No) w"
| sys_add: "lock_sys S n (PendingAdd l x) w Fine
    (w\<lparr>lw_pending := (lw_pending w)(ls_process S n := lw_pending w (ls_process S n) @ [(l, x)])\<rparr>)"
| sys_drop: "lock_sys S n (PendingDrop k) w Fine
    (w\<lparr>lw_pending := (lw_pending w)(ls_process S n :=
        filter (\<lambda>p. ow_nonce (snd p) \<noteq> k) (lw_pending w (ls_process S n)))\<rparr>)"
| sys_enter: "lw_gates w k = None \<or> lw_gates w k = Some n \<Longrightarrow>
    lock_sys S n (GateEnter k) w Fine (w\<lparr>lw_gates := (lw_gates w)(k \<mapsto> n)\<rparr>)"
| sys_leave: "lock_sys S n (GateLeave k) w Fine (w\<lparr>lw_gates := (lw_gates w)(k := None)\<rparr>)"
| sys_ns: "lock_sys S n TimeNs w (Count t) w"
| sys_asked: "lock_sys S n (IsUnlinked k) w (if k \<in> lw_unlinked w then Yes else No) w"
| sys_marked: "lock_sys S n (SetUnlinked k) w Fine (w\<lparr>lw_unlinked := insert k (lw_unlinked w)\<rparr>)"

inductive_cases sys_diskE: "lock_sys S n (OnDisk c) w a t"
inductive_cases sys_signalE: "lock_sys S n (SignalZero q) w a t"
inductive_cases sys_whoE: "lock_sys S n WhoAmI w a t"
inductive_cases sys_callbackE: "lock_sys S n CallbackReturns w a t"
inductive_cases sys_listE: "lock_sys S n PendingList w a t"
inductive_cases sys_addE: "lock_sys S n (PendingAdd l x) w a t"

text \<open>The names the lock uses. What else stands in the directory, the documents of the store among it, may change at any
  time.\<close>

definition lockish :: "lock_setting \<Rightarrow> string \<Rightarrow> bool" where
  "lockish S d = (is_lock_name d \<or> (\<exists>n. d = own_candidate S n \<or> d = ls_lock S n))"

definition spares :: "lock_setting \<Rightarrow> disk \<Rightarrow> disk \<Rightarrow> bool" where
  "spares S D D' = (\<forall>d. \<not> lockish S d \<longrightarrow> D' d = D d)"

definition is_folder :: "disk \<Rightarrow> string \<Rightarrow> bool" where
  "is_folder D d = (case D d of Some (Folder _) \<Rightarrow> True | _ \<Rightarrow> False)"

inductive world_event :: "lock_setting \<Rightarrow> lock_world \<Rightarrow> lock_world \<Rightarrow> bool" for S where
  killed: "p \<in> lw_alive w \<Longrightarrow> world_event S w (w\<lparr>lw_alive := lw_alive w - {p}, lw_dead := insert p (lw_dead w)\<rparr>)"
| started: "p \<notin> lw_alive w \<union> lw_dead w \<Longrightarrow> world_event S w (w\<lparr>lw_alive := insert p (lw_alive w)\<rparr>)"
| elsewhere: "\<forall>d. D d \<noteq> lw_disk w d \<longrightarrow> \<not> lockish S d \<and> \<not> is_folder D d \<Longrightarrow> world_event S w (w\<lparr>lw_disk := D\<rparr>)"

definition runs_in :: "lock_setting \<Rightarrow> string \<Rightarrow> lock_world \<Rightarrow> bool" where
  "runs_in S n w = (ls_process S n \<in> lw_alive w)"

subsection \<open>The invariant\<close>

text \<open>An attempt owns its lock while its record stands in it; it is live until its callback has returned or its
  process is dead.\<close>

definition owns :: "lock_setting \<Rightarrow> string \<Rightarrow> disk \<Rightarrow> bool" where
  "owns S n D = (\<exists>es. D (ls_lock S n) = Some (Folder es) \<and> map_of es (owner_file n) \<noteq> None)"

definition at_work :: "lock_setting \<Rightarrow> string \<Rightarrow> lock_world \<Rightarrow> bool" where
  "at_work S n w = (n \<notin> lw_left w \<and> ls_process S n \<notin> lw_dead w)"

definition owner_good :: "lock_setting \<Rightarrow> string \<Rightarrow> lock_owner \<Rightarrow> bool" where
  "owner_good S m x =
     (valid_owner x \<and> ow_nonce x = m \<and> ow_pid x = ls_pid S (ls_process S m)
      \<and> (ow_identity x = ls_realm S (ls_process S m) \<or> id_namespace (ow_identity x) = None))"

definition born :: "lock_setting \<Rightarrow> string \<Rightarrow> lock_world \<Rightarrow> bool" where
  "born S m w = (ls_process S m \<in> lw_alive w \<union> lw_dead w)"

text \<open>What a record file may hold: a piece of the record of its attempt, which says released only of an attempt that
  has left.\<close>

definition record_piece :: "lock_setting \<Rightarrow> lock_world \<Rightarrow> string \<Rightarrow> string \<Rightarrow> bool" where
  "record_piece S w m c =
     (\<exists>x. prefix c (owner_payload x) \<and> owner_good S m x \<and> (ow_released x \<longrightarrow> m \<in> lw_left w) \<and> born S m w)"

definition records_in :: "lock_setting \<Rightarrow> lock_world \<Rightarrow> (string \<times> leaf) list \<Rightarrow> bool" where
  "records_in S w es =
     (\<forall>m c. (map_of es (owner_file m) = Some (Reg c) \<or> map_of es (release_file m) = Some (Reg c)) \<longrightarrow> record_piece S w m c)"

definition disk_records :: "lock_setting \<Rightarrow> lock_world \<Rightarrow> bool" where
  "disk_records S w = (\<forall>d es. lw_disk w d = Some (Folder es) \<longrightarrow> records_in S w es)"

definition one_owner :: "lock_setting \<Rightarrow> lock_world \<Rightarrow> bool" where
  "one_owner S w =
     (\<forall>n m. at_work S n w \<longrightarrow> at_work S m w \<longrightarrow> owns S n (lw_disk w) \<longrightarrow> owns S m (lw_disk w) \<longrightarrow> ls_lock S n = ls_lock S m \<longrightarrow> n = m)"

definition pending_good :: "lock_setting \<Rightarrow> lock_world \<Rightarrow> string \<times> lock_owner \<Rightarrow> bool" where
  "pending_good S w p =
     (let m = ow_nonce (snd p) in fst p = ls_lock S m \<and> owner_good S m (snd p) \<and> m \<in> lw_left w \<and> born S m w)"

definition lock_inv :: "lock_setting \<Rightarrow> lock_world \<Rightarrow> bool" where
  "lock_inv S w =
     (one_owner S w \<and> disk_records S w \<and> lw_alive w \<inter> lw_dead w = {}
      \<and> (\<forall>q. \<forall>p \<in> set (lw_pending w q). pending_good S w p))"

text \<open>What the others leave alone: nobody comes back, the candidate of an attempt is its own, and so is the record
  of a live attempt in its lock.\<close>

definition later_world :: "lock_world \<Rightarrow> lock_world \<Rightarrow> bool" where
  "later_world w t =
     (lw_left w \<subseteq> lw_left t \<and> lw_dead w \<subseteq> lw_dead t \<and> lw_alive w \<union> lw_dead w \<subseteq> lw_alive t \<union> lw_dead t)"

definition lock_rely :: "lock_setting \<Rightarrow> string \<Rightarrow> lock_world \<Rightarrow> lock_world \<Rightarrow> bool" where
  "lock_rely S n w t =
     (later_world w t \<and> (n \<in> lw_left t \<longrightarrow> n \<in> lw_left w)
      \<and> lw_disk t (own_candidate S n) = lw_disk w (own_candidate S n)
      \<and> (at_work S n t \<longrightarrow> owns S n (lw_disk w) \<longrightarrow> owns S n (lw_disk t)))"

text \<open>The callback ends only in the hands of an owner, and no call touches anything but locks and candidates.\<close>

definition lock_allowed :: "lock_setting \<Rightarrow> string \<Rightarrow> call \<Rightarrow> lock_world \<Rightarrow> bool" where
  "lock_allowed S n c w =
     ((c = CallbackReturns \<longrightarrow> n \<notin> lw_left w \<and> owns S n (lw_disk w))
      \<and> (\<forall>x a D. c = OnDisk x \<longrightarrow> disk_step x (lw_disk w) a D \<longrightarrow> spares S (lw_disk w) D))"

lemma later_refl [simp]: "later_world w w"
  by (simp add: later_world_def)

lemma later_trans: "later_world w t \<Longrightarrow> later_world t u \<Longrightarrow> later_world w u"
  by (auto simp: later_world_def)

lemma rely_later: "lock_rely S n w t \<Longrightarrow> later_world w t"
  by (simp add: lock_rely_def)

lemma at_work_later: "later_world w t \<Longrightarrow> at_work S n t \<Longrightarrow> at_work S n w"
  by (auto simp: later_world_def at_work_def)

lemma born_later: "later_world w t \<Longrightarrow> born S m w \<Longrightarrow> born S m t"
  by (auto simp: later_world_def born_def)

lemma record_later: "later_world w t \<Longrightarrow> record_piece S w m c \<Longrightarrow> record_piece S t m c"
  unfolding record_piece_def using born_later later_world_def by (metis subsetD)

lemma pending_later: "later_world w t \<Longrightarrow> pending_good S w p \<Longrightarrow> pending_good S t p"
  using born_later by (auto simp: pending_good_def Let_def later_world_def)

lemma lockish_names [simp]: "lockish S (own_candidate S n)" "lockish S (ls_lock S n)"
  by (auto simp: lockish_def)

lemma lockish_cases: "is_lock_name d \<or> d = own_candidate S n \<Longrightarrow> lockish S d"
  by (auto simp: lockish_def)

lemma spares_same [simp]: "spares S D D"
  by (simp add: spares_def)

lemma only_at_spares: "only_at {d} D D' \<Longrightarrow> lockish S d \<Longrightarrow> spares S D D'"
  by (auto simp: only_at_def spares_def)

lemma event_later:
  assumes "world_event S w t"
  shows "later_world w t" "lw_left t = lw_left w" "lw_pending t = lw_pending w"
    "lw_alive w \<inter> lw_dead w = {} \<Longrightarrow> lw_alive t \<inter> lw_dead t = {}"
  using assms by (cases; auto simp: later_world_def)+

lemma event_names:
  assumes "world_event S w t" "lockish S d"
  shows "lw_disk t d = lw_disk w d"
  using assms(1)
proof cases
  case (elsewhere D)
  with assms(2) have "D d = lw_disk w d" by blast
  with elsewhere show ?thesis by simp
qed simp_all

lemma event_folders:
  assumes "world_event S w t" "lw_disk t d = Some (Folder es)"
  shows "lw_disk w d = Some (Folder es)"
  using assms(1)
proof cases
  case (elsewhere D)
  with assms(2) have "D d = Some (Folder es)" "is_folder D d" by (simp_all add: is_folder_def)
  with elsewhere(2) show ?thesis by metis
qed (use assms(2) in auto)

text \<open>A world with the same owners, folders and pending releases is as good.\<close>

lemma inv_later:
  assumes "lock_inv S w" "later_world w t" "\<And>n. owns S n (lw_disk t) = owns S n (lw_disk w)"
    and "\<And>d es. lw_disk t d = Some (Folder es) \<Longrightarrow> lw_disk w d = Some (Folder es)" "lw_alive t \<inter> lw_dead t = {}"
    and "\<And>q p. p \<in> set (lw_pending t q) \<Longrightarrow> p \<in> set (lw_pending w q) \<or> pending_good S t p"
  shows "lock_inv S t"
proof -
  from assms(1) have w: "one_owner S w" "disk_records S w" "\<And>q p. p \<in> set (lw_pending w q) \<Longrightarrow> pending_good S w p"
    by (auto simp: lock_inv_def)
  have "one_owner S t" using w(1) at_work_later [OF assms(2)] by (simp add: one_owner_def assms(3))
  moreover have "records_in S t es" if "lw_disk t d = Some (Folder es)" for d es
    using w(2) assms(4) [OF that] record_later [OF assms(2)] by (simp add: disk_records_def records_in_def)
  moreover have "pending_good S t p" if "p \<in> set (lw_pending t q)" for q p
    using assms(6) [OF that] w(3) [of p q] pending_later [OF assms(2), of S p] by blast
  ultimately show ?thesis using assms(5) by (simp add: lock_inv_def disk_records_def)
qed

interpretation locks: disk_pool "lock_sys S" "runs_in S" "world_event S" "lock_inv S" "lock_rely S" "lock_allowed S"
    lw_disk "\<lambda>D w. w\<lparr>lw_disk := D\<rparr>" for S
proof (unfold_locales, goal_cases)
  case (1 i s)
  then show ?case by (simp add: lock_rely_def)
next
  case (2 i s t u)
  then show ?case unfolding lock_rely_def using later_trans at_work_later by metis
next
  case (3 s t i)
  with event_names [OF 3] show ?case by (simp add: lock_rely_def owns_def event_later [OF 3])
next
  case (4 s t)
  show ?case
  proof (rule inv_later [OF 4(2) event_later(1) [OF 4(1)]])
    show "owns S n (lw_disk t) = owns S n (lw_disk s)" for n using event_names [OF 4(1)] by (simp add: owns_def)
  qed (use 4 in \<open>auto simp: event_later [OF 4(1)] lock_inv_def intro: event_folders\<close>)
next
  case (5 i c s a t)
  then show ?case by (auto elim: sys_diskE)
qed

end
