(* ===== verification/LockSteps.thy ===== *)
theory LockSteps
  imports LockWorld
begin

section \<open>The programs of the lock keep its invariant\<close>

text \<open>
  \<open>know S n R P\<close> is what the attempt \<open>n\<close> may assert while others run: \<open>R\<close> of its own candidate and of
  whether it has left, and \<open>P\<close>, which only says what stays true for ever. \<open>sound S n R P p\<close>: from there \<open>p\<close> keeps
  the invariant and all the others' assertions, and its own.
\<close>

definition persistent :: "(lock_world \<Rightarrow> bool) \<Rightarrow> bool" where
  "persistent P = (\<forall>w t. later_world w t \<longrightarrow> P w \<longrightarrow> P t)"

definition know :: "lock_setting \<Rightarrow> string \<Rightarrow> (node option \<Rightarrow> bool \<Rightarrow> bool) \<Rightarrow> (lock_world \<Rightarrow> bool) \<Rightarrow> lock_world \<Rightarrow> bool" where
  "know S n R P w = (R (lw_disk w (own_candidate S n)) (n \<in> lw_left w) \<and> P w)"

definition sound :: "lock_setting \<Rightarrow> string \<Rightarrow> (node option \<Rightarrow> bool \<Rightarrow> bool) \<Rightarrow> (lock_world \<Rightarrow> bool) \<Rightarrow> 'a program \<Rightarrow> bool" where
  "sound S n R P p = (persistent P \<longrightarrow> locks.spec S n (know S n R P) p (\<lambda>_. know S n R P) (\<lambda>_. know S n R P))"

lemma stable_know: "persistent P \<Longrightarrow> locks.stable S n (know S n R P)"
proof -
  assume P: "persistent P"
  have "know S n R P t" if r: "lock_rely S n w t" and k: "know S n R P w" for w t
  proof -
    have "(n \<in> lw_left t) = (n \<in> lw_left w)" using r by (auto simp: lock_rely_def later_world_def)
    moreover from r P k have "P t" unfolding persistent_def know_def using rely_later by blast
    ultimately show ?thesis using r k by (simp add: know_def lock_rely_def)
  qed
  then show ?thesis by (simp add: locks.stable_def)
qed

lemma persistent_intros [intro]:
  "persistent (\<lambda>_. b)" "persistent P \<Longrightarrow> persistent Q \<Longrightarrow> persistent (\<lambda>w. P w \<and> Q w)"
  "persistent (\<lambda>w. m \<in> lw_left w)" "persistent (\<lambda>w. q \<in> lw_dead w)" "persistent (born S k)"
  "persistent P \<Longrightarrow> persistent Q \<Longrightarrow> persistent (\<lambda>w. P w \<or> Q w)" "persistent P \<Longrightarrow> persistent (\<lambda>w. b \<longrightarrow> P w)"
  unfolding persistent_def using born_later by (auto simp: later_world_def)

subsection \<open>Composition\<close>

lemma sound_Ret: "sound S n R P (Ret x)"
  unfolding sound_def by (auto intro: locks.spec_Ret stable_know)

lemma sound_Raise: "sound S n R P (Raise e)"
  unfolding sound_def by (auto intro: locks.spec_Raise stable_know)

lemma sound_try:
  "sound S n R P p \<Longrightarrow> (\<And>x. sound S n R P (f x)) \<Longrightarrow> (\<And>e. sound S n R P (h e)) \<Longrightarrow> sound S n R P (prog_try p f h)"
  unfolding sound_def by (auto intro: locks.spec_try)

lemma sound_bind: "sound S n R P p \<Longrightarrow> (\<And>x. sound S n R P (f x)) \<Longrightarrow> sound S n R P (prog_bind p f)"
  unfolding prog_bind_def by (rule sound_try) (auto intro: sound_Raise)

lemma sound_catch: "sound S n R P p \<Longrightarrow> (\<And>e. sound S n R P (h e)) \<Longrightarrow> sound S n R P (prog_catch p h)"
  unfolding prog_catch_def by (rule sound_try) (auto intro: sound_Ret)

lemma sound_finally: "sound S n R P p \<Longrightarrow> sound S n R P q \<Longrightarrow> sound S n R P (prog_finally p q)"
  unfolding prog_finally_def by (rule sound_try) (auto intro: sound_Ret sound_Raise sound_bind)

lemmas sound_rules = sound_Ret sound_Raise sound_bind sound_try sound_catch sound_finally

lemma sound_Call:
  assumes "c \<noteq> CallbackReturns" "c \<notin> range OnDisk"
    and "\<And>w a t. lock_inv S w \<Longrightarrow> P w \<Longrightarrow> runs_in S n w \<Longrightarrow> lock_sys S n c w a t \<Longrightarrow>
      lock_inv S t \<and> later_world w t \<and> lw_left t = lw_left w \<and> lw_disk t = lw_disk w"
    and "\<And>a. sound S n R P (k a)"
  shows "sound S n R P (Call c k)"
  unfolding sound_def
proof
  assume P: "persistent P"
  show "locks.spec S n (know S n R P) (Call c k) (\<lambda>_. know S n R P) (\<lambda>_. know S n R P)"
  proof (rule locks.spec_Call [OF stable_know [OF P], where R = "\<lambda>_. know S n R P"])
    fix w a t assume w: "lock_inv S w" "know S n R P w" "runs_in S n w" "lock_sys S n c w a t"
    then have t: "lock_inv S t" "later_world w t" "lw_left t = lw_left w" "lw_disk t = lw_disk w"
      using assms(3) by (auto simp: know_def)
    with P w(2) have "know S n R P t" unfolding know_def persistent_def by metis
    with t show "locks.step_ok S n c w a t \<and> know S n R P t" by (simp add: locks.step_ok_def lock_rely_def)
  qed (use assms(1,2,4) P in \<open>auto simp: lock_allowed_def sound_def\<close>)
qed

text \<open>A call on the disk that keeps what is known of the own candidate.\<close>

lemma sound_disk:
  assumes "\<And>w a D. lock_inv S w \<Longrightarrow> P w \<Longrightarrow> runs_in S n w \<Longrightarrow> disk_step c (lw_disk w) a D \<Longrightarrow>
    locks.step_ok S n (OnDisk c) w a (w\<lparr>lw_disk := D\<rparr>) \<and> spares S (lw_disk w) D
    \<and> (R (lw_disk w (own_candidate S n)) (n \<in> lw_left w) \<longrightarrow> R (D (own_candidate S n)) (n \<in> lw_left w))"
  shows "sound S n R P (on_disk c)"
  unfolding sound_def
proof
  assume P: "persistent P"
  show "locks.spec S n (know S n R P) (on_disk c) (\<lambda>_. know S n R P) (\<lambda>_. know S n R P)"
    unfolding on_disk_def
  proof (rule locks.spec_Call [OF stable_know [OF P], where R = "\<lambda>_. know S n R P"])
    fix w a t assume w: "lock_inv S w" "know S n R P w" "runs_in S n w" "lock_sys S n (OnDisk c) w a t"
    from w(4) obtain D where D: "disk_step c (lw_disk w) a D" "t = w\<lparr>lw_disk := D\<rparr>" by (auto elim: sys_diskE)
    with assms [OF w(1) _ w(3)] w(2) have ok: "locks.step_ok S n (OnDisk c) w a t"
      and same: "R (D (own_candidate S n)) (n \<in> lw_left w)" by (auto simp: know_def)
    have "later_world w t" using D(2) by (simp add: later_world_def)
    with P w(2) D(2) same have "know S n R P t" unfolding know_def persistent_def by simp
    with ok show "locks.step_ok S n (OnDisk c) w a t \<and> know S n R P t" by simp
  next
    fix a show "locks.spec S n (know S n R P) (case a of Failed e \<Rightarrow> Raise (OsError e) | _ \<Rightarrow> Ret a)
        (\<lambda>_. know S n R P) (\<lambda>_. know S n R P)"
      by (cases a) (auto intro: locks.spec_Ret locks.spec_Raise stable_know [OF P])
  next
    fix w assume "lock_inv S w" "know S n R P w" "runs_in S n w"
    with assms show "lock_allowed S n (OnDisk c) w" by (auto simp: lock_allowed_def know_def)
  qed
qed

subsection \<open>Names\<close>

lemma nonce_last:
  assumes "is_nonce n"
  shows "n \<noteq> [] \<and> last n \<noteq> CHR ''k''"
proof -
  from assms have "n \<noteq> []" by (auto simp: is_nonce_def)
  then have "is_lower_hex (last n)" using assms last_in_set by (auto simp: is_nonce_def list_all_iff)
  moreover have "\<not> is_lower_hex (CHR ''k'')" by (simp add: is_lower_hex_def is_digit_def byte_of_def)
  ultimately show ?thesis using \<open>n \<noteq> []\<close> by auto
qed

lemma lock_not_candidate: "is_lock_name d \<Longrightarrow> d \<noteq> own_candidate S n"
  using nonce_last [of n] by (auto simp: is_lock_name_def own_candidate_def candidate_dir_def dest: arg_cong [where f = last])

lemma candidate_inj: "is_nonce n \<Longrightarrow> j \<noteq> n \<Longrightarrow> own_candidate S n \<noteq> own_candidate S j"
proof
  assume n: "is_nonce n" "j \<noteq> n" "own_candidate S n = own_candidate S j"
  then have j: "is_nonce j" by (cases "is_nonce j") (auto simp: own_candidate_def candidate_dir_def)
  with n have "ls_lock S n @ ''.candidate-'' @ n = ls_lock S j @ ''.candidate-'' @ j" by (simp add: own_candidate_def candidate_dir_def)
  then have "(ls_lock S n @ ''.candidate-'') @ n = (ls_lock S j @ ''.candidate-'') @ j" by simp
  with n(1) j have "n = j" by (subst (asm) append_eq_append_conv2) (auto simp: is_nonce_def append_eq_append_conv2)
  with n(2) show False by simp
qed

lemma setting_lock: "setting_ok S \<Longrightarrow> is_lock_name (ls_lock S n)"
  by (simp add: setting_ok_def)

subsection \<open>What a call may do to a folder\<close>

text \<open>What is said of processes and records does not look at the disk.\<close>

lemma other_disk [simp]:
  "at_work S j (w\<lparr>lw_disk := D\<rparr>) = at_work S j w" "record_piece S (w\<lparr>lw_disk := D\<rparr>) m c = record_piece S w m c"
  "born S m (w\<lparr>lw_disk := D\<rparr>) = born S m w" "pending_good S (w\<lparr>lw_disk := D\<rparr>) p = pending_good S w p"
  "later_world w (w\<lparr>lw_disk := D\<rparr>)" "records_in S (w\<lparr>lw_disk := D\<rparr>) es = records_in S w es"
  by (simp_all add: at_work_def record_piece_def born_def pending_good_def later_world_def records_in_def)

lemma folder_step:
  assumes inv: "lock_inv S w" and at: "only_at {d} (lw_disk w) D" and mine: "\<And>j. j \<noteq> n \<Longrightarrow> d \<noteq> own_candidate S j"
    and records: "\<And>es. D d = Some (Folder es) \<Longrightarrow> records_in S w es"
    and owners: "\<And>j. at_work S j w \<Longrightarrow> ls_lock S j = d \<Longrightarrow> owns S j D = owns S j (lw_disk w)"
  shows "locks.step_ok S n x w a (w\<lparr>lw_disk := D\<rparr>)"
proof -
  let ?t = "w\<lparr>lw_disk := D\<rparr>"
  have owns: "owns S j D = owns S j (lw_disk w)" if "at_work S j w" for j
    using owners [OF that] at by (cases "ls_lock S j = d") (auto simp: owns_def only_at_def)
  have "one_owner S ?t" using inv owns unfolding lock_inv_def one_owner_def by auto
  moreover have "records_in S w es" if "D e = Some (Folder es)" for e es
    using that records at inv by (cases "e = d") (auto simp: lock_inv_def disk_records_def only_at_def)
  ultimately have "lock_inv S ?t" using inv by (auto simp: lock_inv_def disk_records_def)
  moreover have "lock_rely S j w ?t" if "j \<noteq> n" for j
    using mine [OF that] at owns by (auto simp: lock_rely_def only_at_def)
  ultimately show ?thesis by (simp add: locks.step_ok_def)
qed

lemma only_at_upd [simp]: "only_at {d} D (D(d := x))"
  by (simp add: only_at_def)

lemma step_same: "lock_inv S w \<Longrightarrow> locks.step_ok S n x w a (w\<lparr>lw_disk := lw_disk w\<rparr>)"
  by (simp add: locks.step_ok_def lock_rely_def)

lemma inv_records: "lock_inv S w \<Longrightarrow> lw_disk w d = Some (Folder es) \<Longrightarrow> records_in S w es"
  by (simp add: lock_inv_def disk_records_def)

lemma records_delete: "records_in S w es \<Longrightarrow> records_in S w (AList.delete f es)"
  by (auto simp: records_in_def)

lemma records_update:
  "records_in S w es \<Longrightarrow> (\<And>m. f = owner_file m \<or> f = release_file m \<Longrightarrow> record_piece S w m c) \<Longrightarrow>
     records_in S w (AList.update f (Reg c) es)"
  by (auto simp: records_in_def split: if_splits)

lemma release_file_inj [simp]: "release_file m = release_file n \<longleftrightarrow> m = n"
  by (simp add: release_file_def)

lemmas file_names [simp] = release_is_not_owner release_is_not_owner [symmetric]

text \<open>Who may have his record taken away: the dead, and those who have left.\<close>

definition gone :: "lock_setting \<Rightarrow> string \<Rightarrow> lock_world \<Rightarrow> bool" where
  "gone S m w = (m \<in> lw_left w \<or> ls_process S m \<in> lw_dead w)"

lemma persistent_gone [intro]: "persistent (gone S m)"
  unfolding gone_def by (intro persistent_intros)

lemma gone_not_at_work: "gone S m w \<Longrightarrow> \<not> at_work S m w"
  by (auto simp: gone_def at_work_def)

text \<open>A record may be unlinked in a lock once its owner is gone, and by its owner in its candidate.\<close>

definition cleanable :: "lock_setting \<Rightarrow> string \<Rightarrow> string \<Rightarrow> string \<Rightarrow> (node option \<Rightarrow> bool \<Rightarrow> bool) \<Rightarrow> lock_world \<Rightarrow> bool" where
  "cleanable S n d m R w = ((is_lock_name d \<and> gone S m w) \<or> (is_nonce n \<and> d = own_candidate S n \<and> R = (\<lambda>_ _. True)))"

lemma unlink_step_ok:
  assumes "setting_ok S" "lock_inv S w" "cleanable S n d m R w" "f = owner_file m \<or> f = release_file k"
    and "disk_step (Unlink (In d f)) (lw_disk w) a D"
  shows "locks.step_ok S n x w a (w\<lparr>lw_disk := D\<rparr>)"
proof -
  from unlink_in [OF assms(5)] consider "D = lw_disk w"
    | es where "lw_disk w d = Some (Folder es)" "D = (lw_disk w)(d \<mapsto> Folder (AList.delete f es))" by blast
  then show ?thesis
  proof cases
    case 1
    with step_same [OF assms(2)] show ?thesis by simp
  next
    case 2
    show ?thesis
    proof (rule folder_step [OF assms(2), of d])
      show "d \<noteq> own_candidate S j" if "j \<noteq> n" for j
        using assms(3) that lock_not_candidate candidate_inj unfolding cleanable_def by metis
      show "records_in S w es'" if "D d = Some (Folder es')" for es'
        using that 2 inv_records [OF assms(2) 2(1)] by (auto intro: records_delete)
      show "owns S j D = owns S j (lw_disk w)" if "at_work S j w" "ls_lock S j = d" for j
      proof -
        from that assms(3) setting_lock [OF assms(1), of j] lock_not_candidate have "gone S m w"
          unfolding cleanable_def by metis
        with that(1) have "j \<noteq> m" using gone_not_at_work by blast
        with that(2) 2 assms(4) show ?thesis by (auto simp: owns_def)
      qed
    qed (simp add: 2)
  qed
qed

lemma candidate_same:
  assumes "is_lock_name d" "only_at {d} D D'"
  shows "D' (own_candidate S n) = D (own_candidate S n)"
  using lock_not_candidate [OF assms(1), of S n] assms(2) by (simp add: only_at_def)

lemma rmdir_step_ok:
  assumes "setting_ok S" "lock_inv S w" "is_lock_name d \<or> (is_nonce n \<and> d = own_candidate S n)"
    and "disk_step (RemoveDir d) (lw_disk w) a D"
  shows "locks.step_ok S n x w a (w\<lparr>lw_disk := D\<rparr>) \<and> only_at {d} (lw_disk w) D"
proof -
  from rmdir_step [OF assms(4)] consider "D = lw_disk w" | "lw_disk w d = Some (Folder [])" "D = (lw_disk w)(d := None)" by blast
  then show ?thesis
  proof cases
    case 1
    with step_same [OF assms(2)] show ?thesis by (simp add: only_at_def)
  next
    case 2
    have "locks.step_ok S n x w a (w\<lparr>lw_disk := D\<rparr>)"
    proof (rule folder_step [OF assms(2), of d])
      show "d \<noteq> own_candidate S j" if "j \<noteq> n" for j
        using assms(3) that lock_not_candidate candidate_inj by metis
    qed (use 2 in \<open>auto simp: owns_def\<close>)
    with 2 show ?thesis by simp
  qed
qed

lemma unlink_at: "disk_step (Unlink (In d f)) D a D' \<Longrightarrow> only_at {d} D D'"
  using unlink_in [of d f D a D'] by (auto simp: only_at_def)

subsection \<open>Looking and asking\<close>

lemma sound_look:
  assumes "case c of Lstat _ \<Rightarrow> True | ListDir _ \<Rightarrow> True | ReadFile _ \<Rightarrow> True | _ \<Rightarrow> False"
  shows "sound S n R P (on_disk c)"
proof (rule sound_disk)
  fix w a D assume w: "lock_inv S w" "disk_step c (lw_disk w) a D"
  from look_step [OF w(2) assms] step_same [OF w(1)]
  show "locks.step_ok S n (OnDisk c) w a (w\<lparr>lw_disk := D\<rparr>) \<and> spares S (lw_disk w) D
      \<and> (R (lw_disk w (own_candidate S n)) (n \<in> lw_left w) \<longrightarrow> R (D (own_candidate S n)) (n \<in> lw_left w))" by simp
qed

lemma sound_lstat: "sound S n R P (lstat p)"
  unfolding lstat_def by (intro sound_rules sound_look) (auto split: reply.split intro: sound_rules)

lemma sound_list_dir: "sound S n R P (list_dir d)"
  unfolding list_dir_def by (intro sound_rules sound_look) (auto split: reply.split intro: sound_rules)

lemma inv_quiet: "lock_inv S w \<Longrightarrow> lock_inv S (w\<lparr>lw_unlinked := U\<rparr>)" "lock_inv S w \<Longrightarrow> lock_inv S (w\<lparr>lw_gates := G\<rparr>)"
  by (rule inv_later [of S w]; auto simp: later_world_def lock_inv_def)+

lemma inv_fewer:
  "lock_inv S w \<Longrightarrow> (\<And>q. set (ps q) \<subseteq> set (lw_pending w q)) \<Longrightarrow> lock_inv S (w\<lparr>lw_pending := ps\<rparr>)"
  by (rule inv_later [of S w]) (auto simp: later_world_def lock_inv_def)

lemma sound_call:
  assumes "case c of OnDisk _ \<Rightarrow> False | CallbackReturns \<Rightarrow> False | PendingAdd _ _ \<Rightarrow> False | _ \<Rightarrow> True"
    and "\<And>a. sound S n R P (k a)"
  shows "sound S n R P (Call c k)"
proof (rule sound_Call [OF _ _ _ assms(2)])
  show "c \<noteq> CallbackReturns" "c \<notin> range OnDisk" using assms(1) by auto
next
  fix w a t assume w: "lock_inv S w" "lock_sys S n c w a t"
  from w(2) assms(1) w(1) show "lock_inv S t \<and> later_world w t \<and> lw_left t = lw_left w \<and> lw_disk t = lw_disk w"
    by (cases rule: lock_sys.cases) (auto simp: inv_quiet later_world_def intro!: inv_fewer split: if_splits)
qed

lemma sound_ask: "(case c of OnDisk _ \<Rightarrow> False | CallbackReturns \<Rightarrow> False | PendingAdd _ _ \<Rightarrow> False | _ \<Rightarrow> True) \<Longrightarrow> sound S n R P (ask c)"
  unfolding ask_def by (rule sound_call) (auto intro: sound_Ret)

lemma sound_do: "(case c of OnDisk _ \<Rightarrow> False | CallbackReturns \<Rightarrow> False | PendingAdd _ _ \<Rightarrow> False | _ \<Rightarrow> True) \<Longrightarrow> sound S n R P (do_call c)"
  unfolding do_call_def by (rule sound_call) (auto intro: sound_Ret)

lemma sound_monotonic: "sound S n R P monotonic"
  unfolding monotonic_def by (rule sound_call) (auto split: reply.split intro: sound_rules)

lemma sound_wall_clock: "sound S n R P wall_clock"
  unfolding wall_clock_def by (rule sound_call) (auto split: reply.split intro: sound_rules)

lemmas sound_calls = sound_ask sound_do sound_monotonic sound_wall_clock sound_lstat sound_list_dir

end
