(* ===== verification/LockRelease.thy ===== *)
theory LockRelease
  imports LockSteps
begin

section \<open>Cleaning up, looking in and giving back\<close>

text \<open>
  The parts of the lock that do not change what an attempt has taken: \<open>clean_owner\<close>, \<open>inspect_lock\<close>, the release and the
  releases left pending. What a call teaches is a persistent assertion about its answer (\<open>learns\<close>): that a record read is
  a true one, that a process is dead.
\<close>

subsection \<open>Learning from an answer\<close>

definition learns ::
  "lock_setting \<Rightarrow> string \<Rightarrow> (node option \<Rightarrow> bool \<Rightarrow> bool) \<Rightarrow> (lock_world \<Rightarrow> bool) \<Rightarrow> 'a program \<Rightarrow> ('a \<Rightarrow> lock_world \<Rightarrow> bool) \<Rightarrow> bool" where
  "learns S n R P p Q =
     (persistent P \<longrightarrow> locks.spec S n (know S n R P) p (\<lambda>x. know S n R (\<lambda>w. P w \<and> Q x w)) (\<lambda>_. know S n R P))"

lemma know_more: "know S n R (\<lambda>w. P w \<and> Q w) w \<Longrightarrow> know S n R P w"
  by (simp add: know_def)

lemma learns_Ret: "(\<And>w. P w \<Longrightarrow> Q x w) \<Longrightarrow> learns S n R P (Ret x) Q"
  unfolding learns_def by (auto intro!: locks.spec_Ret stable_know simp: know_def)

lemma learns_Raise: "learns S n R P (Raise e) Q"
  unfolding learns_def by (auto intro: locks.spec_Raise stable_know)

lemma learns_bind:
  assumes "learns S n R P p Q" "\<And>x. persistent (Q x)" "\<And>x. learns S n R (\<lambda>w. P w \<and> Q x w) (f x) Q'"
  shows "learns S n R P (prog_bind p f) Q'"
  unfolding learns_def prog_bind_def
proof
  assume P: "persistent P"
  show "locks.spec S n (know S n R P) (prog_try p f Raise) (\<lambda>x. know S n R (\<lambda>w. P w \<and> Q' x w)) (\<lambda>_. know S n R P)"
  proof (rule locks.spec_try)
    show "locks.spec S n (know S n R P) p (\<lambda>x. know S n R (\<lambda>w. P w \<and> Q x w)) (\<lambda>_. know S n R P)"
      using assms(1) P by (simp add: learns_def)
  next
    fix x
    have "locks.spec S n (know S n R (\<lambda>w. P w \<and> Q x w)) (f x)
        (\<lambda>y. know S n R (\<lambda>w. (P w \<and> Q x w) \<and> Q' y w)) (\<lambda>_. know S n R (\<lambda>w. P w \<and> Q x w))"
      using assms(3) [of x] persistent_intros(2) [OF P assms(2)] unfolding learns_def by blast
    then show "locks.spec S n (know S n R (\<lambda>w. P w \<and> Q x w)) (f x)
        (\<lambda>y. know S n R (\<lambda>w. P w \<and> Q' y w)) (\<lambda>_. know S n R P)"
      by (rule locks.spec_post) (simp_all add: know_def)
  qed (rule locks.spec_Raise [OF stable_know [OF P]], simp)
qed

lemma sound_learns: "sound S n R P p \<longleftrightarrow> learns S n R P p (\<lambda>_ _. True)"
  by (simp add: sound_def learns_def)

lemma sound_after:
  "learns S n R P p Q \<Longrightarrow> (\<And>x. persistent (Q x)) \<Longrightarrow> (\<And>x. sound S n R (\<lambda>w. P w \<and> Q x w) (f x)) \<Longrightarrow>
     sound S n R P (prog_bind p f)"
  unfolding sound_learns by (rule learns_bind)

text \<open>Learning more than is known needs only what is known: an assertion without loss.\<close>

lemma sound_under:
  assumes "persistent Q" "sound S n R (\<lambda>w. P w \<and> Q w) p" "\<And>w. P w \<Longrightarrow> Q w"
  shows "sound S n R P p"
proof -
  have "(\<lambda>w. P w \<and> Q w) = P" using assms(3) by auto
  with assms(2) show ?thesis by simp
qed

text \<open>A fact that does not depend on the world may be taken out of the assertion.\<close>

lemma sound_fact: "(b \<Longrightarrow> sound S n R P p) \<Longrightarrow> (\<And>w. P w \<Longrightarrow> b) \<Longrightarrow> sound S n R P p"
proof (cases b)
  case False
  assume "\<And>w. P w \<Longrightarrow> b"
  with False have "\<not> know S n R P w" for w by (auto simp: know_def)
  then show ?thesis by (simp add: sound_def locks.spec_def)
qed

text \<open>A call that changes nothing, and what its answer says.\<close>

lemma learns_Call:
  assumes "\<And>w a t. lock_inv S w \<Longrightarrow> P w \<Longrightarrow> lock_sys S n c w a t \<Longrightarrow> t = w \<and> Q a w"
    and "\<And>a. persistent (Q a)" "c \<noteq> CallbackReturns"
    and "\<And>x E a D. c = OnDisk x \<Longrightarrow> disk_step x E a D \<Longrightarrow> D = E"
  shows "learns S n R P (Call c Ret) Q"
  unfolding learns_def
proof
  assume P: "persistent P"
  have Q: "persistent (\<lambda>w. P w \<and> Q a w)" for a by (rule persistent_intros(2) [OF P assms(2)])
  show "locks.spec S n (know S n R P) (Call c Ret) (\<lambda>a. know S n R (\<lambda>w. P w \<and> Q a w)) (\<lambda>_. know S n R P)"
  proof (rule locks.spec_Call [OF stable_know [OF P], where R = "\<lambda>a. know S n R (\<lambda>w. P w \<and> Q a w)"])
    fix w a t assume w: "lock_inv S w" "know S n R P w" "lock_sys S n c w a t"
    with assms(1) [OF w(1) _ w(3)] step_same [OF w(1)]
    show "locks.step_ok S n c w a t \<and> know S n R (\<lambda>w. P w \<and> Q a w) t" by (simp add: know_def)
  next
    fix a show "locks.spec S n (know S n R (\<lambda>w. P w \<and> Q a w)) (Ret a) (\<lambda>a. know S n R (\<lambda>w. P w \<and> Q a w)) (\<lambda>_. know S n R P)"
      by (rule locks.spec_Ret [OF stable_know [OF Q]])
  next
    fix w show "lock_allowed S n c w" using assms(4) by (fastforce simp: lock_allowed_def assms(3) spares_def)
  qed
qed

lemma learns_look:
  assumes "\<And>w a. lock_inv S w \<Longrightarrow> disk_step c (lw_disk w) a (lw_disk w) \<Longrightarrow> Q a w" "\<And>a. persistent (Q a)"
    and "case c of Lstat _ \<Rightarrow> True | ListDir _ \<Rightarrow> True | ReadFile _ \<Rightarrow> True | _ \<Rightarrow> False"
  shows "learns S n R P (on_disk c) Q"
proof -
  let ?f = "\<lambda>a. case a of Failed e \<Rightarrow> Raise (OsError e) | _ \<Rightarrow> Ret a"
  have "learns S n R P (prog_bind (Call (OnDisk c) Ret) ?f) Q"
  proof (rule learns_bind [OF learns_Call])
    fix w a t assume w: "lock_inv S w" "lock_sys S n (OnDisk c) w a t"
    from w(2) obtain D where "disk_step c (lw_disk w) a D" "t = w\<lparr>lw_disk := D\<rparr>" by (auto elim: sys_diskE)
    with look_step [OF _ assms(3)] assms(1) [OF w(1)] show "t = w \<and> Q a w" by fastforce
  next
    fix a show "learns S n R (\<lambda>w. P w \<and> Q a w) (?f a) Q" by (cases a) (auto intro: learns_Ret learns_Raise)
  qed (use assms(2) look_step [OF _ assms(3)] in simp_all)
  then show ?thesis by (simp add: on_disk_def prog_bind_def)
qed

lemma persistent_record [intro]: "persistent (\<lambda>w. record_piece S w m c)"
  unfolding persistent_def using record_later by blast

lemma record_prefix: "record_piece S w m c \<Longrightarrow> prefix b c \<Longrightarrow> record_piece S w m b"
  unfolding record_piece_def using prefix_order.trans by blast

lemma record_take: "record_piece S w m c \<Longrightarrow> record_piece S w m (take k c)"
  using record_prefix take_is_prefix by blast

lemma learns_read_owner:
  "learns S n R P (read_owner_bytes lock (owner_file m)) (\<lambda>c w. record_piece S w m c)"
proof -
  let ?Q = "\<lambda>a w. \<forall>c. a = Bytes c \<longrightarrow> record_piece S w m c"
  have read: "learns S n R P (on_disk (ReadFile (In lock (owner_file m)))) ?Q"
  proof (rule learns_look)
    fix w a assume w: "lock_inv S w" "disk_step (ReadFile (In lock (owner_file m))) (lw_disk w) a (lw_disk w)"
    show "?Q a w"
    proof (intro allI impI)
      fix c assume "a = Bytes c"
      with read_step [OF w(2)] have "node_at (lw_disk w) (In lock (owner_file m)) = Inr (Leaf (Reg c))" by simp
      then show "record_piece S w m c" using inv_records [OF w(1), of lock]
        by (auto simp: records_in_def split: option.splits node.splits)
    qed
  qed (auto simp: persistent_def intro: record_later)
  show ?thesis unfolding read_owner_bytes_def
  proof (rule learns_bind [OF read])
    fix a show "learns S n R (\<lambda>w. P w \<and> ?Q a w) (case a of Bytes c \<Rightarrow> Ret (take 4097 c) | _ \<Rightarrow> Raise (OsError EIO))
        (\<lambda>c w. record_piece S w m c)"
      by (cases a) (auto intro!: learns_Ret learns_Raise record_take)
  qed (use record_later in \<open>auto simp: persistent_def\<close>)
qed

lemma parsed_good:
  assumes "record_piece S w m c" "parse_owner c (owner_file m) = Some x"
  shows "owner_good S m x \<and> (ow_released x \<longrightarrow> m \<in> lw_left w) \<and> born S m w"
proof -
  from assms(1) obtain y where y: "prefix c (owner_payload y)" "owner_good S m y" "ow_released y \<longrightarrow> m \<in> lw_left w" "born S m w"
    unfolding record_piece_def by blast
  then have "valid_owner y" "ow_nonce y = m" by (simp_all add: owner_good_def)
  with parse_owner_piece [OF _ y(1)] assms(2) have "x = y" by blast
  with y show ?thesis by simp
qed

subsection \<open>Cleaning\<close>

lemma sound_unlink:
  assumes "setting_ok S" "\<And>w. lock_inv S w \<Longrightarrow> P w \<Longrightarrow> cleanable S n d m R w" "f = owner_file m \<or> f = release_file k"
  shows "sound S n R P (on_disk (Unlink (In d f)))"
proof (rule sound_disk)
  fix w a D assume w: "lock_inv S w" "P w" "disk_step (Unlink (In d f)) (lw_disk w) a D"
  from assms(2) [OF w(1,2)] unlink_step_ok [OF assms(1) w(1) _ assms(3) w(3)] candidate_same [OF _ unlink_at [OF w(3)], of S n]
    only_at_spares [OF unlink_at [OF w(3)], of S] lockish_cases [of d S n]
  show "locks.step_ok S n (OnDisk (Unlink (In d f))) w a (w\<lparr>lw_disk := D\<rparr>) \<and> spares S (lw_disk w) D
      \<and> (R (lw_disk w (own_candidate S n)) (n \<in> lw_left w) \<longrightarrow> R (D (own_candidate S n)) (n \<in> lw_left w))"
    by (auto simp: cleanable_def)
qed

lemma sound_rmdir:
  assumes "setting_ok S" "\<And>w. P w \<Longrightarrow> is_lock_name d \<or> (is_nonce n \<and> d = own_candidate S n \<and> R = (\<lambda>_ _. True))"
  shows "sound S n R P (on_disk (RemoveDir d))"
proof (rule sound_disk)
  fix w a D assume w: "lock_inv S w" "P w" "disk_step (RemoveDir d) (lw_disk w) a D"
  from assms(2) [OF w(2)] rmdir_step_ok [OF assms(1) w(1) _ w(3), of n "OnDisk (RemoveDir d)"] candidate_same [of d "lw_disk w" D S n]
    only_at_spares [of d "lw_disk w" D S] lockish_cases [of d S n]
  show "locks.step_ok S n (OnDisk (RemoveDir d)) w a (w\<lparr>lw_disk := D\<rparr>) \<and> spares S (lw_disk w) D
      \<and> (R (lw_disk w (own_candidate S n)) (n \<in> lw_left w) \<longrightarrow> R (D (own_candidate S n)) (n \<in> lw_left w))"
    by auto
qed

lemma sound_unlink_attempts:
  assumes "setting_ok S" "\<And>w. lock_inv S w \<Longrightarrow> P w \<Longrightarrow> cleanable S n d m R w"
  shows "sound S n R P (unlink_attempts k d m progress)"
proof (induction k)
  case (Suc k)
  have unlink: "sound S n R P (on_disk (Unlink (In d (owner_file m))))"
    by (rule sound_unlink [OF assms]) simp_all
  show ?case using Suc.IH
    by (auto intro!: sound_rules sound_calls unlink split: option.splits fault.splits)
qed (auto intro: sound_rules)

lemma sound_rmdir_attempts:
  assumes "setting_ok S" "\<And>w. P w \<Longrightarrow> is_lock_name d \<or> (is_nonce n \<and> d = own_candidate S n \<and> R = (\<lambda>_ _. True))"
  shows "sound S n R P (rmdir_attempts k d)"
proof (induction k)
  case (Suc k)
  note rmdir = sound_rmdir [OF assms]
  show ?case using Suc.IH by (auto intro!: sound_rules sound_calls rmdir split: fault.splits)
qed (auto intro: sound_rules)

lemma sound_clean:
  assumes "setting_ok S" "\<And>w. P w \<Longrightarrow> cleanable S n d m R w"
  shows "sound S n R P (clean_owner d m temporary progress)"
proof -
  have rel: "sound S n R P (on_disk (Unlink (In d (release_file m))))"
    by (rule sound_unlink [OF assms(1)]) (use assms(2) in auto)
  have att: "sound S n R P (unlink_attempts 5 d m progress)"
    by (rule sound_unlink_attempts [OF assms(1)]) (use assms(2) in auto)
  have rm: "sound S n R P (rmdir_attempts 5 d)"
    by (rule sound_rmdir_attempts [OF assms(1)]) (use assms(2) in \<open>auto simp: cleanable_def\<close>)
  show ?thesis unfolding clean_owner_def unlink_missing_ok_def
    by (auto intro!: sound_rules rel att rm)
qed

subsection \<open>Looking into a lock\<close>

lemma sound_entries_plain: "sound S n R P (entries_plain lock ns)"
  by (induction ns) (auto intro!: sound_rules sound_calls split: file_kind.split)

lemma learns_pid_is_dead:
  assumes "\<And>w. P w \<Longrightarrow> born S m w \<and> q = ls_pid S (ls_process S m) \<and> ls_realm S (ls_process S m) = ls_realm S (ls_process S n)"
  shows "learns S n R P (pid_is_dead q) (\<lambda>b w. b \<longrightarrow> gone S m w)"
proof -
  have "learns S n R P (prog_bind (Call (SignalZero q) Ret) (\<lambda>a. Ret (a = NoSuchProcess))) (\<lambda>b w. b \<longrightarrow> gone S m w)"
  proof (rule learns_bind [OF learns_Call [where Q = "\<lambda>a w. a = NoSuchProcess \<longrightarrow> gone S m w"]])
    fix w a t assume w: "P w" "lock_sys S n (SignalZero q) w a t"
    from w(2) have "t = w" "a = NoSuchProcess \<longrightarrow> may_say_dead S (ls_process S n) q w" by (auto elim: sys_signalE)
    with assms [OF w(1)] show "t = w \<and> (a = NoSuchProcess \<longrightarrow> gone S m w)"
      by (auto simp: may_say_dead_def born_def gone_def)
  qed (auto intro!: persistent_intros persistent_gone learns_Ret)
  then show ?thesis by (simp add: pid_is_dead_def prog_bind_def)
qed

text \<open>Who an attempt believes to be: its own realm, or nothing that could be compared.\<close>

definition identity_ok :: "lock_setting \<Rightarrow> string \<Rightarrow> identity \<Rightarrow> bool" where
  "identity_ok S n i = (valid_identity i \<and> (i = ls_realm S (ls_process S n) \<or> id_namespace i = None))"

lemma sound_inspect_owner:
  assumes S: "setting_ok S" "is_lock_name lock" "identity_ok S n local"
    and P: "\<And>w. P w \<Longrightarrow> owner_good S m x \<and> (ow_released x \<longrightarrow> m \<in> lw_left w) \<and> born S m w"
  shows "sound S n R P (inspect_owner lock local temporary x)"
proof (rule sound_fact [where b = "owner_good S m x"])
  assume x: "owner_good S m x"
  show ?thesis
  proof (cases "same_identity (ow_identity x) local")
    case True
    with S(3) x have realm: "ls_realm S (ls_process S m) = ls_realm S (ls_process S n)"
      by (auto simp: same_identity_def identity_ok_def owner_good_def)
    have seen: "learns S n R P (if ow_released x then Ret True else pid_is_dead (ow_pid x)) (\<lambda>b w. b \<longrightarrow> gone S m w)"
    proof (cases "ow_released x")
      case True
      with P show ?thesis by (auto intro!: learns_Ret simp: gone_def)
    next
      case False
      with P x realm show ?thesis by (auto intro!: learns_pid_is_dead simp: owner_good_def)
    qed
    have clean: "sound S n R (\<lambda>w. P w \<and> gone S m w) (clean_owner lock m temporary None)"
      by (rule sound_clean [OF S(1)]) (simp add: cleanable_def S(2))
    have "sound S n R P (prog_bind (if ow_released x then Ret True else pid_is_dead (ow_pid x)) (\<lambda>gone.
        if \<not> gone then Ret Held else prog_bind (clean_owner lock m temporary None) (\<lambda>_. Ret Retry)))"
      by (rule sound_after [OF seen]) (auto intro!: persistent_intros persistent_gone sound_rules clean)
    moreover have "ow_nonce x = m" using x by (simp add: owner_good_def)
    ultimately show ?thesis using True by (simp only: inspect_owner_def if_False not_True_eq_False)
  qed (auto simp: inspect_owner_def intro: sound_rules)
qed (use P in blast)

lemma sound_inspect_lock:
  assumes S: "setting_ok S" "is_lock_name lock" "identity_ok S n local"
  shows "sound S n R P (inspect_lock lock local)"
proof -
  have owner: "sound S n R (\<lambda>w. P w \<and> record_piece S w m raw) (inspect_owner lock local temporary x)"
    if "parse_owner raw (owner_file m) = Some x" for m raw x temporary
    by (rule sound_inspect_owner [OF S]) (use parsed_good that in blast)
  have found: "sound S n R P (prog_bind (read_owner_bytes lock name) (\<lambda>raw. case parse_owner raw name of
      None \<Rightarrow> Ret Held | Some w \<Rightarrow> inspect_owner lock local temporary w))" if "owner_match name = Some m" for name m temporary
    unfolding owner_match_Some [OF that, THEN conjunct1]
    by (rule sound_after [OF learns_read_owner]) (auto intro!: sound_rules owner split: option.splits)
  have folder: "sound S n R P (inspect_folder lock local entries)" for entries
    unfolding inspect_folder_def
    by (auto intro!: sound_rules sound_entries_plain found split: list.splits option.splits)
  show ?thesis unfolding inspect_lock_def
    by (auto intro!: sound_rules sound_calls folder split: file_kind.splits fault.splits)
qed

subsection \<open>Giving back\<close>

text \<open>Whoever gives a lock back has left it: a pending release is one as well.\<close>

definition releasing :: "lock_setting \<Rightarrow> string \<Rightarrow> lock_owner \<Rightarrow> lock_world \<Rightarrow> bool" where
  "releasing S lock x w = pending_good S w (lock, x)"

lemma persistent_releasing [intro]: "persistent (releasing S lock x)"
  unfolding persistent_def releasing_def using pending_later by blast

lemma releasing_gone: "releasing S lock x w \<Longrightarrow> gone S (ow_nonce x) w"
  by (simp add: releasing_def pending_good_def Let_def gone_def)

lemma releasing_piece:
  assumes "releasing S lock x w" "prefix t (owner_payload (x\<lparr>ow_released := True\<rparr>))"
  shows "record_piece S w (ow_nonce x) t"
proof -
  have "owner_good S (ow_nonce x) (x\<lparr>ow_released := True\<rparr>)" "ow_nonce x \<in> lw_left w" "born S (ow_nonce x) w"
    using assms(1) by (auto simp: releasing_def pending_good_def Let_def owner_good_def valid_owner_def)
  with assms(2) show ?thesis unfolding record_piece_def by blast
qed

text \<open>A call that rewrites the entries of a lock, and the record of nobody who is live.\<close>

lemma entries_step:
  assumes "setting_ok S" "lock_inv S w" "is_lock_name d" "D = lw_disk w \<or>
    (\<exists>es fs. lw_disk w d = Some (Folder es) \<and> D = (lw_disk w)(d \<mapsto> Folder fs) \<and> records_in S w fs
      \<and> (\<forall>j. at_work S j w \<longrightarrow> map_of fs (owner_file j) = map_of es (owner_file j)))"
  shows "locks.step_ok S n x w a (w\<lparr>lw_disk := D\<rparr>) \<and> spares S (lw_disk w) D
    \<and> (R (lw_disk w (own_candidate S n)) (n \<in> lw_left w) \<longrightarrow> R (D (own_candidate S n)) (n \<in> lw_left w))"
  using assms(4)
proof (elim disjE exE conjE)
  assume "D = lw_disk w"
  with step_same [OF assms(2)] show ?thesis by simp
next
  fix es fs assume d: "lw_disk w d = Some (Folder es)" "D = (lw_disk w)(d \<mapsto> Folder fs)" "records_in S w fs"
    "\<forall>j. at_work S j w \<longrightarrow> map_of fs (owner_file j) = map_of es (owner_file j)"
  have "locks.step_ok S n x w a (w\<lparr>lw_disk := D\<rparr>)"
    by (rule folder_step [OF assms(2), of d]) (use d lock_not_candidate [OF assms(3)] in \<open>auto simp: owns_def\<close>)
  moreover have "spares S (lw_disk w) D" using d(2) lockish_cases [of d S n] assms(3) by (auto simp: spares_def)
  ultimately show ?thesis using candidate_same [OF assms(3), of "lw_disk w" D S n] d(2) by simp
qed

lemma sound_release_write:
  assumes S: "setting_ok S" "is_lock_name lock" and P: "\<And>w. P w \<Longrightarrow> releasing S lock x w"
    and c: "c = OpenWrite (In lock (release_file (ow_nonce x)))
      \<or> c = WriteFile (In lock (release_file (ow_nonce x))) (owner_payload (x\<lparr>ow_released := True\<rparr>))"
  shows "sound S n R P (on_disk c)"
proof (rule sound_disk, rule entries_step [OF S(1) _ S(2)])
  fix w a D assume w: "lock_inv S w" "P w" "disk_step c (lw_disk w) a D"
  let ?f = "release_file (ow_nonce x)"
  have "D = lw_disk w \<or> (\<exists>es t. lw_disk w lock = Some (Folder es) \<and> prefix t (owner_payload (x\<lparr>ow_released := True\<rparr>))
      \<and> D = (lw_disk w)(lock \<mapsto> Folder (AList.update ?f (Reg t) es)))"
    using c w(3) open_in [of lock ?f] write_in [of lock ?f] by (metis Nil_prefix)
  moreover have "records_in S w (AList.update ?f (Reg t) es)"
    if "lw_disk w lock = Some (Folder es)" "prefix t (owner_payload (x\<lparr>ow_released := True\<rparr>))" for es t
    by (rule records_update [OF inv_records [OF w(1) that(1)]]) (use releasing_piece [OF P [OF w(2)] that(2)] in auto)
  ultimately show "D = lw_disk w \<or>
      (\<exists>es fs. lw_disk w lock = Some (Folder es) \<and> D = (lw_disk w)(lock \<mapsto> Folder fs) \<and> records_in S w fs
        \<and> (\<forall>j. at_work S j w \<longrightarrow> map_of fs (owner_file j) = map_of es (owner_file j)))" by fastforce
qed simp

lemma sound_release_rename:
  assumes S: "setting_ok S" "is_lock_name lock" and P: "\<And>w. P w \<Longrightarrow> releasing S lock x w"
  shows "sound S n R P (on_disk (Rename (In lock (release_file (ow_nonce x))) (In lock (owner_file (ow_nonce x)))))"
proof (rule sound_disk, rule entries_step [OF S(1) _ S(2)])
  let ?f = "release_file (ow_nonce x)" and ?g = "owner_file (ow_nonce x)"
  fix w a D assume w: "lock_inv S w" "P w" "disk_step (Rename (In lock ?f) (In lock ?g)) (lw_disk w) a D"
  have away: "j \<noteq> ow_nonce x" if "at_work S j w" for j
    using gone_not_at_work [OF releasing_gone [OF P [OF w(2)]]] that by blast
  have "records_in S w (AList.update ?g l (AList.delete ?f es))"
    if "lw_disk w lock = Some (Folder es)" "map_of es ?f = Some l" for es l
    using inv_records [OF w(1) that(1)] that(2) by (auto simp: records_in_def split: if_splits)
  with rename_in [OF w(3)] away show "D = lw_disk w \<or>
      (\<exists>es fs. lw_disk w lock = Some (Folder es) \<and> D = (lw_disk w)(lock \<mapsto> Folder fs) \<and> records_in S w fs
        \<and> (\<forall>j. at_work S j w \<longrightarrow> map_of fs (owner_file j) = map_of es (owner_file j)))" by fastforce
qed simp

lemma sound_release:
  assumes S: "setting_ok S" "is_lock_name lock" and P: "\<And>w. P w \<Longrightarrow> releasing S lock x w"
  shows "sound S n R P (release_lock lock x)"
proof -
  have clean: "sound S n R P (clean_owner lock (ow_nonce x) temporary progress)" for temporary progress
    by (rule sound_clean [OF S(1)]) (use releasing_gone [OF P] S(2) in \<open>auto simp: cleanable_def\<close>)
  have move: "sound S n R P (replace_attempts k lock (ow_nonce x))" for k
    by (induction k) (auto intro!: sound_rules sound_calls sound_release_rename [OF S P] split: fault.splits)
  have publish: "sound S n R P (publish_release lock x)"
    unfolding publish_release_def by (intro sound_rules sound_release_write [OF S P] move clean) simp_all
  have observe: "sound S n R P (observe_own lock x)"
    unfolding observe_own_def read_owner_bytes_def
    by (auto intro!: sound_rules sound_look clean split: reply.splits option.splits)
  show ?thesis unfolding release_lock_def by (auto intro!: sound_rules sound_calls clean observe publish)
qed

subsection \<open>Releases left pending\<close>

lemma sound_flush_all:
  assumes "setting_ok S" "\<And>w p. P w \<Longrightarrow> p \<in> set ps \<Longrightarrow> pending_good S w p"
  shows "sound S n R P (flush_all ps)"
  using assms(2)
proof (induction ps)
  case (Cons p ps)
  have "sound S n R P (release_lock (fst p) (snd p))"
  proof (rule sound_fact [where b = "is_lock_name (fst p)"])
    assume "is_lock_name (fst p)"
    then show ?thesis by (rule sound_release [OF assms(1)]) (use Cons.prems in \<open>auto simp: releasing_def\<close>)
  next
    fix w assume "P w"
    with Cons.prems [of w p] setting_lock [OF assms(1)] show "is_lock_name (fst p)" by (simp add: pending_good_def Let_def)
  qed
  then have "sound S n R P (flush_one (fst p) (snd p))"
    unfolding flush_one_def by (auto intro!: sound_rules sound_calls)
  with Cons show ?case by (auto intro!: sound_rules)
qed (auto intro: sound_rules)

lemma learns_pending:
  "learns S n R P (Call PendingList Ret) (\<lambda>a w. \<forall>ps. a = Progresses ps \<longrightarrow> (\<forall>p \<in> set ps. pending_good S w p))"
proof (rule learns_Call)
  fix w a t assume w: "lock_inv S w" "lock_sys S n PendingList w a t"
  then show "t = w \<and> (\<forall>ps. a = Progresses ps \<longrightarrow> (\<forall>p \<in> set ps. pending_good S w p))"
    by (auto simp: lock_inv_def elim: sys_listE)
qed (use pending_later in \<open>auto simp: persistent_def\<close>)

lemma sound_flush:
  assumes "setting_ok S"
  shows "sound S n R P flush_pending"
proof -
  let ?f = "\<lambda>a. case a of Progresses ps \<Rightarrow> flush_all ps | _ \<Rightarrow> Ret ()"
  have "sound S n R P (prog_bind (Call PendingList Ret) ?f)"
  proof (rule sound_after [OF learns_pending])
    fix a show "sound S n R (\<lambda>w. P w \<and> (\<forall>ps. a = Progresses ps \<longrightarrow> (\<forall>p \<in> set ps. pending_good S w p))) (?f a)"
      by (cases a) (auto intro!: sound_Ret sound_flush_all [OF assms])
  qed (use pending_later in \<open>auto simp: persistent_def\<close>)
  then show ?thesis by (simp add: flush_pending_def prog_bind_def)
qed

end
