(* ===== verification/LockTake.thy ===== *)
theory LockTake
  imports LockRelease
begin

section \<open>Taking a lock\<close>

text \<open>
  The steps of an attempt that matter to the others: it makes its candidate (\<open>ready\<close>), renames it to the lock
  (\<open>holding\<close>), runs the callback and has left. Each is a triple of the pool; the rest is \<open>LockRelease\<close>. In the end
  every attempt is kept, whatever the others do (\<open>attempt_kept\<close>).
\<close>

definition ready :: "lock_setting \<Rightarrow> string \<Rightarrow> node \<Rightarrow> lock_world \<Rightarrow> bool" where
  "ready S n c w = (lw_disk w (own_candidate S n) = Some c \<and> n \<notin> lw_left w)"

definition holding :: "lock_setting \<Rightarrow> string \<Rightarrow> lock_world \<Rightarrow> bool" where
  "holding S n w = (n \<notin> lw_left w \<and> (at_work S n w \<longrightarrow> owns S n (lw_disk w)))"

definition finished :: "lock_setting \<Rightarrow> string \<Rightarrow> lock_world \<Rightarrow> bool" where
  "finished S n w = (n \<in> lw_left w \<and> born S n w)"

lemma stable_any [simp]: "locks.stable S n (\<lambda>_. b)"
  by (simp add: locks.stable_def)

lemma stable_ready [simp]: "locks.stable S n (ready S n c)"
  by (auto simp: locks.stable_def ready_def lock_rely_def)

lemma stable_unfinished [simp]: "locks.stable S n (\<lambda>w. n \<notin> lw_left w)"
  by (auto simp: locks.stable_def lock_rely_def)

lemma stable_holding [simp]: "locks.stable S n (holding S n)"
  using at_work_later rely_later by (auto simp: locks.stable_def holding_def lock_rely_def)

lemma persistent_finished: "persistent (finished S n)"
  unfolding finished_def [abs_def] by (intro persistent_intros)

lemma stable_finished [simp]: "locks.stable S n (finished S n)"
  using persistent_finished rely_later unfolding locks.stable_def persistent_def by blast

text \<open>What is sound may be done at any of these points.\<close>

lemma spec_any: "sound S n (\<lambda>_ _. True) (\<lambda>_. True) p \<Longrightarrow> locks.spec S n Pre p (\<lambda>_ _. True) (\<lambda>_ _. True)"
  using persistent_intros(1) by (auto simp: sound_def know_def [abs_def] intro: locks.spec_pre)

lemma spec_ready:
  assumes "\<And>R P. sound S n R P p"
  shows "locks.spec S n (ready S n c) p (\<lambda>_. ready S n c) (\<lambda>_. ready S n c)"
proof -
  have "know S n (\<lambda>d l. d = Some c \<and> \<not> l) (\<lambda>_. True) = ready S n c" by (auto simp: know_def ready_def)
  with assms [of "\<lambda>d l. d = Some c \<and> \<not> l" "\<lambda>_. True"] persistent_intros(1) show ?thesis by (simp add: sound_def)
qed

subsection \<open>The candidate\<close>

text \<open>A call on the disk that touches nothing but locks and candidates.\<close>

lemma spec_own_disk:
  assumes "locks.stable S n P"
    and "\<And>w a D. lock_inv S w \<Longrightarrow> P w \<Longrightarrow> runs_in S n w \<Longrightarrow> disk_step c (lw_disk w) a D \<Longrightarrow>
      locks.step_ok S n (OnDisk c) w a (w\<lparr>lw_disk := D\<rparr>) \<and> spares S (lw_disk w) D
      \<and> (case a of Failed e \<Rightarrow> E (OsError e) (w\<lparr>lw_disk := D\<rparr>) | _ \<Rightarrow> Q a (w\<lparr>lw_disk := D\<rparr>))"
    and "\<And>a. locks.stable S n (Q a)" "\<And>e. locks.stable S n (E e)"
  shows "locks.spec S n P (on_disk c) Q E"
proof (rule locks.spec_disk [OF assms(1) _ _ assms(3,4)])
  fix w assume "lock_inv S w" "P w" "runs_in S n w"
  with assms(2) show "lock_allowed S n (OnDisk c) w" by (auto simp: lock_allowed_def)
next
  fix w a D assume "lock_inv S w" "P w" "runs_in S n w" "disk_step c (lw_disk w) a D"
  with assms(2) show "locks.step_ok S n (OnDisk c) w a (w\<lparr>lw_disk := D\<rparr>)
      \<and> (case a of Failed e \<Rightarrow> E (OsError e) (w\<lparr>lw_disk := D\<rparr>) | _ \<Rightarrow> Q a (w\<lparr>lw_disk := D\<rparr>))" by blast
qed

lemma spares_upd: "lockish S d \<Longrightarrow> spares S D (D(d := x))"
  by (auto simp: spares_def)

lemma own_folder_ok:
  assumes "is_nonce n" "setting_ok S" "lock_inv S w" "D = (lw_disk w)(own_candidate S n := x)"
    and "\<And>es. x = Some (Folder es) \<Longrightarrow> records_in S w es"
  shows "locks.step_ok S n c w a (w\<lparr>lw_disk := D\<rparr>)"
proof (rule folder_step [OF assms(3), of "own_candidate S n"])
  show "own_candidate S n \<noteq> own_candidate S j" if "j \<noteq> n" for j
    using candidate_inj [OF assms(1) that] .
next
  fix j assume "ls_lock S j = own_candidate S n"
  with lock_not_candidate [OF setting_lock [OF assms(2), of j], of S n] show "owns S j D = owns S j (lw_disk w)" by simp
qed (use assms(4,5) in auto)

lemma spec_make_candidate:
  assumes "is_nonce n" "setting_ok S"
  shows "locks.spec S n (\<lambda>w. n \<notin> lw_left w) (on_disk (MakeDir (own_candidate S n))) (\<lambda>_. ready S n (Folder [])) (\<lambda>_ _. True)"
proof (rule spec_own_disk)
  fix w a D assume w: "lock_inv S w" "n \<notin> lw_left w" "disk_step (MakeDir (own_candidate S n)) (lw_disk w) a D"
  from mkdir_step [OF w(3)]
  show "locks.step_ok S n (OnDisk (MakeDir (own_candidate S n))) w a (w\<lparr>lw_disk := D\<rparr>) \<and> spares S (lw_disk w) D
      \<and> (case a of Failed e \<Rightarrow> True | _ \<Rightarrow> ready S n (Folder []) (w\<lparr>lw_disk := D\<rparr>))"
  proof (elim disjE conjE exE)
    assume D: "D = (lw_disk w)(own_candidate S n \<mapsto> Folder [])"
    have "locks.step_ok S n (OnDisk (MakeDir (own_candidate S n))) w a (w\<lparr>lw_disk := D\<rparr>)"
      by (rule own_folder_ok [OF assms w(1) D]) (simp add: records_in_def)
    with D w(2) show ?thesis by (simp add: ready_def spares_upd split: reply.split)
  qed (use step_same [OF w(1)] in simp)
qed simp_all

definition candidate_with :: "string \<Rightarrow> string \<Rightarrow> node" where
  "candidate_with n c = Folder [(owner_file n, Reg c)]"

lemma candidate_records:
  "record_piece S w n c \<Longrightarrow> candidate_with n c = Folder es \<Longrightarrow> records_in S w es"
  by (auto simp: candidate_with_def records_in_def split: if_splits)

lemma spec_candidate:
  assumes "is_nonce n" "setting_ok S" "owner_good S n x" "\<not> ow_released x" "b = Folder [] \<or> b = candidate_with n []"
    and "\<And>E a D. disk_step c E a D \<Longrightarrow> E (own_candidate S n) = Some b \<Longrightarrow>
      (D = E \<and> (\<exists>e. a = Failed e)) \<or>
      (\<exists>t. D = E(own_candidate S n \<mapsto> candidate_with n t) \<and> prefix t (owner_payload x) \<and> (a \<in> range Failed \<or> t = r))"
  shows "locks.spec S n (ready S n b) (on_disk c) (\<lambda>_. ready S n (candidate_with n r)) (\<lambda>_ _. True)"
proof (rule spec_own_disk)
  fix w a D assume w: "lock_inv S w" "ready S n b w" "runs_in S n w" "disk_step c (lw_disk w) a D"
  from assms(6) [OF w(4)] w(2) consider "D = lw_disk w" "a \<in> range Failed"
    | s where "D = (lw_disk w)(own_candidate S n \<mapsto> candidate_with n s)" "prefix s (owner_payload x)" "a \<in> range Failed \<or> s = r"
    unfolding ready_def by blast
  then show "locks.step_ok S n (OnDisk c) w a (w\<lparr>lw_disk := D\<rparr>) \<and> spares S (lw_disk w) D
      \<and> (case a of Failed e \<Rightarrow> True | _ \<Rightarrow> ready S n (candidate_with n r) (w\<lparr>lw_disk := D\<rparr>))"
  proof cases
    case 1
    with step_same [OF w(1)] show ?thesis by auto
  next
    case 2
    have "record_piece S w n s" using 2(2) assms(3,4) w(3) unfolding record_piece_def born_def runs_in_def by blast
    with candidate_records have "locks.step_ok S n (OnDisk c) w a (w\<lparr>lw_disk := D\<rparr>)"
      by (intro own_folder_ok [OF assms(1,2) w(1) 2(1)]) auto
    with 2 w(2) show ?thesis by (auto simp: ready_def spares_upd split: reply.split)
  qed
qed simp_all

lemma request_names:
  assumes "is_nonce n" "setting_ok S"
  shows "candidate_dir (ls_lock S n) n = own_candidate S n"
    "lr_nonce (ls_request S n) = n" "lr_lock (ls_request S n) = ls_lock S n" "is_lock_name (ls_lock S n)"
  using assms by (simp_all add: own_candidate_def ls_lock_def setting_ok_def)

lemma spec_write_candidate:
  assumes "is_nonce n" "setting_ok S" "owner_good S n x" "\<not> ow_released x"
  shows "locks.spec S n (ready S n (Folder [])) (write_candidate (ls_request S n) x)
    (\<lambda>_. ready S n (candidate_with n (owner_payload x))) (\<lambda>_ _. True)"
proof -
  let ?p = "In (own_candidate S n) (owner_file n)"
  have new: "locks.spec S n (ready S n (Folder [])) (on_disk (CreateNew ?p)) (\<lambda>_. ready S n (candidate_with n [])) (\<lambda>_ _. True)"
  proof (rule spec_candidate [OF assms])
    fix E a D assume "disk_step (CreateNew ?p) E a D" "E (own_candidate S n) = Some (Folder [])"
    with create_in [of "own_candidate S n" "owner_file n" E a D]
    show "(D = E \<and> (\<exists>e. a = Failed e)) \<or> (\<exists>t. D = E(own_candidate S n \<mapsto> candidate_with n t) \<and>
        prefix t (owner_payload x) \<and> (a \<in> range Failed \<or> t = []))"
      by (auto simp: candidate_with_def)
  qed simp
  have filled: "locks.spec S n (ready S n (candidate_with n [])) (on_disk (WriteFile ?p (owner_payload x)))
      (\<lambda>_. ready S n (candidate_with n (owner_payload x))) (\<lambda>_ _. True)"
  proof (rule spec_candidate [OF assms])
    fix E a D assume D: "disk_step (WriteFile ?p (owner_payload x)) E a D" "E (own_candidate S n) = Some (candidate_with n [])"
    then show "(D = E \<and> (\<exists>e. a = Failed e)) \<or> (\<exists>t. D = E(own_candidate S n \<mapsto> candidate_with n t) \<and>
        prefix t (owner_payload x) \<and> (a \<in> range Failed \<or> t = owner_payload x))"
      by (auto simp: candidate_with_def elim!: disk_stepE)
  qed simp
  show ?thesis
    unfolding write_candidate_def Let_def request_names [OF assms(1,2)]
    by (rule locks.spec_bind [OF new locks.spec_bind [OF filled locks.spec_Ret]]) simp_all
qed

subsection \<open>The rename that takes the lock\<close>

lemma publish_step_ok:
  assumes "is_nonce n" "setting_ok S" "lock_inv S w" "lw_disk w (own_candidate S n) = Some (candidate_with n c)"
    and "lw_disk w (ls_lock S n) \<in> {None, Some (Folder [])}"
    and "D = (lw_disk w)(own_candidate S n := None, ls_lock S n \<mapsto> candidate_with n c)"
  shows "locks.step_ok S n y w a (w\<lparr>lw_disk := D\<rparr>) \<and> spares S (lw_disk w) D \<and> owns S n D"
proof -
  let ?t = "w\<lparr>lw_disk := D\<rparr>"
  have name: "ls_lock S j \<noteq> own_candidate S k" for j k
    using lock_not_candidate setting_lock [OF assms(2)] by metis
  have own: "owns S j D \<longleftrightarrow> (if ls_lock S j = ls_lock S n then j = n else owns S j (lw_disk w))" for j
    using assms(6) name by (auto simp: owns_def candidate_with_def)
  have none: "\<not> owns S j (lw_disk w)" if "ls_lock S j = ls_lock S n" for j
    using assms(5) that by (auto simp: owns_def)
  have "one_owner S ?t" using assms(3) own unfolding lock_inv_def one_owner_def by auto
  moreover have "records_in S w es" if "D d = Some (Folder es)" for d es
  proof -
    have "\<exists>e. lw_disk w e = Some (Folder es)" using that assms(4,6) by (auto split: if_splits)
    then show ?thesis using inv_records [OF assms(3)] by blast
  qed
  ultimately have "lock_inv S ?t" using assms(3) by (auto simp: lock_inv_def disk_records_def)
  moreover have "lock_rely S j w ?t" if "j \<noteq> n" for j
  proof -
    have "own_candidate S j \<noteq> own_candidate S n" "own_candidate S j \<noteq> ls_lock S n"
      using candidate_inj [OF assms(1) that, of S] name [of n j] by metis+
    with assms(6) have "D (own_candidate S j) = lw_disk w (own_candidate S j)" by simp
    with own none that show ?thesis by (simp add: lock_rely_def)
  qed
  moreover have "spares S (lw_disk w) D" using assms(6) by (auto simp: spares_def)
  ultimately show ?thesis using own by (simp add: locks.step_ok_def)
qed

lemma spec_publish:
  assumes "is_nonce n" "setting_ok S"
  shows "locks.spec S n (ready S n (candidate_with n c)) (publish_candidate (ls_request S n))
    (\<lambda>taken. if taken then holding S n else ready S n (candidate_with n c)) (\<lambda>_. ready S n (candidate_with n c))"
  unfolding publish_candidate_def request_names [OF assms]
proof (rule locks.spec_try)
  let ?c = "Rename (Top (own_candidate S n)) (Top (ls_lock S n))"
  show "locks.spec S n (ready S n (candidate_with n c)) (on_disk ?c) (\<lambda>_. holding S n) (\<lambda>_. ready S n (candidate_with n c))"
  proof (rule spec_own_disk)
    fix w a D assume w: "lock_inv S w" "ready S n (candidate_with n c) w" "disk_step ?c (lw_disk w) a D"
    have "own_candidate S n \<noteq> ls_lock S n" using lock_not_candidate setting_lock [OF assms(2)] by metis
    with rename_folder_step [OF w(3)] w(2)
    consider "D = lw_disk w" "\<exists>e. a = Failed e" | "lw_disk w (ls_lock S n) \<in> {None, Some (Folder [])}"
      "D = (lw_disk w)(own_candidate S n := None, ls_lock S n \<mapsto> candidate_with n c)" "a = Fine"
      unfolding ready_def candidate_with_def by blast
    then show "locks.step_ok S n (OnDisk ?c) w a (w\<lparr>lw_disk := D\<rparr>) \<and> spares S (lw_disk w) D
        \<and> (case a of Failed e \<Rightarrow> ready S n (candidate_with n c) (w\<lparr>lw_disk := D\<rparr>) | _ \<Rightarrow> holding S n (w\<lparr>lw_disk := D\<rparr>))"
    proof cases
      case 1
      with step_same [OF w(1)] w(2) show ?thesis by auto
    next
      case 2
      with publish_step_ok [OF assms w(1) _ 2(1,2)] w(2) show ?thesis
        by (auto simp: ready_def holding_def split: reply.split)
    qed
  qed simp_all
qed (auto intro!: locks.spec_Ret locks.spec_Raise split: fault.split)

subsection \<open>The rounds\<close>

lemma sound_check_existing: "sound S n R P (check_existing r b)"
  unfolding check_existing_def by (auto intro!: sound_rules sound_calls split: file_kind.split)

lemma sound_past_deadline: "sound S n R P (past_deadline r d)"
  unfolding past_deadline_def by (auto intro!: sound_rules sound_calls)

lemma ready_bind:
  "(\<And>R P. sound S n R P p) \<Longrightarrow> (\<And>x. locks.spec S n (ready S n c) (f x) Q (\<lambda>_. ready S n c)) \<Longrightarrow>
     locks.spec S n (ready S n c) (prog_bind p f) Q (\<lambda>_. ready S n c)"
  by (rule locks.spec_bind [OF spec_ready]) simp_all

lemma spec_round:
  assumes "is_nonce n" "setting_ok S" "identity_ok S n local"
  shows "locks.spec S n (ready S n (candidate_with n c)) (acquire_round (ls_request S n) local d)
    (\<lambda>taken. if taken then holding S n else ready S n (candidate_with n c)) (\<lambda>_. ready S n (candidate_with n c))"
proof -
  let ?F = "ready S n (candidate_with n c)" and ?Q = "\<lambda>taken. if taken then holding S n else ready S n (candidate_with n c)"
  have wait: "locks.spec S n ?F (prog_bind (past_deadline r d) (\<lambda>_. Ret False)) ?Q (\<lambda>_. ?F)" for r
    by (rule ready_bind [OF sound_past_deadline]) (auto intro: locks.spec_Ret)
  have again: "locks.spec S n ?F (prog_bind monotonic (\<lambda>now. if now < d then Ret False
      else prog_bind (past_deadline r d) (\<lambda>_. Ret False))) ?Q (\<lambda>_. ?F)" for r
    by (rule ready_bind [OF sound_monotonic]) (auto intro: locks.spec_Ret wait)
  have looked: "locks.spec S n ?F (case state of Legacy \<Rightarrow> Raise e
      | Retry \<Rightarrow> prog_bind monotonic (\<lambda>now. if now < d then Ret False else prog_bind (past_deadline r d) (\<lambda>_. Ret False))
      | Held \<Rightarrow> prog_bind (past_deadline r d) (\<lambda>_. Ret False)) ?Q (\<lambda>_. ?F)" for state e r
    by (cases state) (auto intro: locks.spec_Raise wait again)
  have after: "locks.spec S n (?Q published) (if published then Ret True
      else prog_bind (inspect_lock (ls_lock S n) local) (\<lambda>state. case state of Legacy \<Rightarrow> Raise e
      | Retry \<Rightarrow> prog_bind monotonic (\<lambda>now. if now < d then Ret False else prog_bind (past_deadline r d) (\<lambda>_. Ret False))
      | Held \<Rightarrow> prog_bind (past_deadline r d) (\<lambda>_. Ret False))) ?Q (\<lambda>_. ?F)" for published e r
    by (auto intro!: locks.spec_Ret ready_bind [OF sound_inspect_lock [OF assms(2) setting_lock [OF assms(2)] assms(3)]] looked)
  show ?thesis
    unfolding acquire_round_def request_names [OF assms(1,2)]
    by (intro ready_bind [OF sound_flush [OF assms(2)]] ready_bind [OF sound_check_existing]
        locks.spec_bind [OF spec_publish [OF assms(1,2)] after]) simp
qed

lemma spec_rounds:
  assumes "is_nonce n" "setting_ok S" "identity_ok S n local"
  shows "locks.spec S n (ready S n (candidate_with n c)) (acquire_rounds k (ls_request S n) local d)
    (\<lambda>taken. if taken then holding S n else ready S n (candidate_with n c)) (\<lambda>_. ready S n (candidate_with n c))"
proof (induction k)
  case (Suc k)
  have "locks.spec S n (if taken then holding S n else ready S n (candidate_with n c))
      (if taken then Ret True else acquire_rounds k (ls_request S n) local d)
      (\<lambda>taken. if taken then holding S n else ready S n (candidate_with n c)) (\<lambda>_. ready S n (candidate_with n c))" for taken
    using Suc.IH by (auto intro: locks.spec_Ret)
  then show ?case unfolding acquire_rounds.simps by (rule locks.spec_bind [OF spec_round [OF assms]]) simp
qed (auto intro: locks.spec_Ret)

lemma spec_acquire:
  assumes "is_nonce n" "setting_ok S" "owner_good S n x" "\<not> ow_released x" "identity_ok S n (ow_identity x)"
  shows "locks.spec S n (ready S n (Folder [])) (acquire_lock k (ls_request S n) x d)
    (\<lambda>taken. if taken then holding S n else (\<lambda>_. True)) (\<lambda>_ _. True)"
proof -
  let ?Q = "\<lambda>taken. if taken then holding S n else (\<lambda>_. True)"
  have rounds: "locks.spec S n (ready S n (candidate_with n (owner_payload x)))
      (acquire_rounds k (ls_request S n) (ow_identity x) d) ?Q (\<lambda>_ _. True)"
    by (rule locks.spec_post [OF spec_rounds [OF assms(1,2,5)]]) (simp_all split: if_splits)
  have taken: "locks.spec S n (ready S n (Folder [])) (prog_bind (write_candidate (ls_request S n) x)
      (\<lambda>_. acquire_rounds k (ls_request S n) (ow_identity x) d)) ?Q (\<lambda>_ _. True)"
    by (rule locks.spec_bind [OF spec_write_candidate [OF assms(1-4)] rounds]) simp
  have clean: "sound S n (\<lambda>_ _. True) (\<lambda>_. True) (clean_owner (own_candidate S n) n False None)"
    by (rule sound_clean [OF assms(2)]) (simp add: cleanable_def assms(1))
  have "locks.spec S n (\<lambda>_. True) (prog_bind (clean_owner (own_candidate S n) n False None) (\<lambda>_. Raise e)) ?Q (\<lambda>_ _. True)" for e
    by (rule locks.spec_bind [OF spec_any [OF clean]]) (auto intro: locks.spec_Raise)
  then show ?thesis
    unfolding acquire_lock_def prog_catch_def request_names [OF assms(1,2)]
    by (intro locks.spec_try [OF taken]) (auto intro: locks.spec_Ret)
qed

subsection \<open>The callback and the release\<close>

lemma spec_callback:
  "locks.spec S n (holding S n) run_callback (\<lambda>_. finished S n) (\<lambda>_. finished S n)"
  unfolding run_callback_def
proof (rule locks.spec_Call [OF stable_holding, where R = "\<lambda>_. finished S n"])
  fix w assume w: "lock_inv S w" "holding S n w" "runs_in S n w"
  then have "at_work S n w" by (auto simp: at_work_def runs_in_def lock_inv_def holding_def)
  with w show "lock_allowed S n CallbackReturns w" by (simp add: lock_allowed_def holding_def)
next
  fix w a t assume w: "lock_inv S w" "runs_in S n w" "lock_sys S n CallbackReturns w a t"
  from w(3) have t: "t = w\<lparr>lw_left := insert n (lw_left w)\<rparr>" by (auto elim: sys_callbackE)
  have later: "later_world w t" by (auto simp: t later_world_def)
  have "lock_inv S t" by (rule inv_later [OF w(1) later]) (use w(1) in \<open>auto simp: t lock_inv_def\<close>)
  moreover have "lock_rely S j w t" if "j \<noteq> n" for j using later that by (simp add: lock_rely_def t)
  moreover have "finished S n t" using w(2) by (simp add: finished_def born_def runs_in_def t)
  ultimately show "locks.step_ok S n CallbackReturns w a t \<and> finished S n t" by (simp add: locks.step_ok_def)
next
  fix a show "locks.spec S n (finished S n) (case a of
      Outcome (Inr v) \<Rightarrow> Ret v | Outcome (Inl e) \<Rightarrow> Raise e | _ \<Rightarrow> Raise (OsError EIO)) (\<lambda>_. finished S n) (\<lambda>_. finished S n)"
    by (auto intro!: locks.spec_Ret locks.spec_Raise split: reply.split sum.split)
qed

lemma sound_pending_add:
  assumes "setting_ok S" "is_lock_name lock" "\<And>w. P w \<Longrightarrow> releasing S lock x w"
  shows "sound S n R P (do_call (PendingAdd lock x))"
  unfolding do_call_def
proof (rule sound_Call)
  fix w a t assume w: "lock_inv S w" "P w" "lock_sys S n (PendingAdd lock x) w a t"
  from w(3) have t: "t = w\<lparr>lw_pending := (lw_pending w)(ls_process S n := lw_pending w (ls_process S n) @ [(lock, x)])\<rparr>"
    by (auto elim: sys_addE)
  have later: "later_world w t" by (simp add: t later_world_def)
  have good: "pending_good S t (lock, x)" using pending_later [OF later] assms(3) [OF w(2)] by (simp add: releasing_def)
  have "lock_inv S t"
  proof (rule inv_later [OF w(1) later])
    fix q p assume "p \<in> set (lw_pending t q)"
    then have "p \<in> set (lw_pending w q) \<or> p = (lock, x)" by (auto simp: t split: if_splits)
    with good show "p \<in> set (lw_pending w q) \<or> pending_good S t p" by blast
  qed (use w(1) in \<open>auto simp: t lock_inv_def\<close>)
  with later show "lock_inv S t \<and> later_world w t \<and> lw_left t = lw_left w \<and> lw_disk t = lw_disk w" by (simp add: t)
qed (auto intro: sound_Ret)

lemma spec_release_after:
  assumes "is_nonce n" "setting_ok S" "owner_good S n x"
  shows "locks.spec S n (finished S n) (release_after (ls_request S n) x) (\<lambda>_ _. True) (\<lambda>_ _. True)"
proof -
  let ?l = "ls_lock S n"
  note S = assms(2) setting_lock [OF assms(2), of n]
  have P: "releasing S ?l x w" if "finished S n w" for w
    using that assms(3) by (simp add: releasing_def pending_good_def Let_def finished_def owner_good_def)
  have "sound S n (\<lambda>_ _. True) (finished S n) (release_after (ls_request S n) x)"
    unfolding release_after_def request_names [OF assms(1,2)]
    by (intro sound_rules sound_release [OF S P] sound_pending_add [OF S P])
  with persistent_finished have "locks.spec S n (know S n (\<lambda>_ _. True) (finished S n)) (release_after (ls_request S n) x)
      (\<lambda>_. know S n (\<lambda>_ _. True) (finished S n)) (\<lambda>_. know S n (\<lambda>_ _. True) (finished S n))"
    by (simp add: sound_def)
  moreover have "know S n (\<lambda>_ _. True) (finished S n) = finished S n" by (simp add: know_def [abs_def])
  ultimately show ?thesis by (auto intro: locks.spec_post)
qed

subsection \<open>The whole attempt\<close>

lemma unfinished_bind:
  assumes "\<And>R P. learns S n R P p (\<lambda>x _. q x)"
    and "\<And>x. q x \<Longrightarrow> locks.spec S n (\<lambda>w. n \<notin> lw_left w) (f x) Q (\<lambda>_ _. True)"
  shows "locks.spec S n (\<lambda>w. n \<notin> lw_left w) (prog_bind p f) Q (\<lambda>_ _. True)"
proof (rule locks.spec_bind)
  have "locks.spec S n (know S n (\<lambda>_ l. \<not> l) (\<lambda>_. True)) p (\<lambda>x. know S n (\<lambda>_ l. \<not> l) (\<lambda>_. True \<and> q x)) (\<lambda>_. know S n (\<lambda>_ l. \<not> l) (\<lambda>_. True))"
    using assms(1) [of "\<lambda>_ l. \<not> l" "\<lambda>_. True"] persistent_intros(1) by (simp add: learns_def)
  then show "locks.spec S n (\<lambda>w. n \<notin> lw_left w) p (\<lambda>x w. n \<notin> lw_left w \<and> q x) (\<lambda>_ _. True)"
    by (rule locks.spec_post [OF locks.spec_pre]) (simp_all add: know_def)
next
  fix x show "locks.spec S n (\<lambda>w. n \<notin> lw_left w \<and> q x) (f x) Q (\<lambda>_ _. True)"
    using assms(2) [of x] by (cases "q x") (auto simp: locks.spec_def)
qed simp

lemma unfinished_sound:
  "(\<And>R P. sound S n R P p) \<Longrightarrow> (\<And>x. locks.spec S n (\<lambda>w. n \<notin> lw_left w) (f x) Q (\<lambda>_ _. True)) \<Longrightarrow>
     locks.spec S n (\<lambda>w. n \<notin> lw_left w) (prog_bind p f) Q (\<lambda>_ _. True)"
  by (rule unfinished_bind [where q = "\<lambda>_. True"]) (simp_all add: sound_learns)

lemma spec_under_lock:
  assumes "is_nonce n" "setting_ok S" "owner_good S n x" "\<not> ow_released x" "identity_ok S n (ow_identity x)"
  shows "locks.spec S n (\<lambda>w. n \<notin> lw_left w) (under_lock k (ls_request S n) x) (\<lambda>_ _. True) (\<lambda>_ _. True)"
proof -
  let ?r = "release_after (ls_request S n) x"
  have given_back: "locks.spec S n (finished S n) (prog_bind ?r f) (\<lambda>_ _. True) (\<lambda>_ _. True)"
    if "\<And>u. locks.spec S n (\<lambda>_. True) (f u) (\<lambda>_ _. True) (\<lambda>_ _. True)" for f :: "unit \<Rightarrow> json option program"
    by (rule locks.spec_bind [OF spec_release_after [OF assms(1-3)] that]) simp
  have called: "locks.spec S n (holding S n) (prog_bind run_callback (\<lambda>v. Ret (Some v))) (\<lambda>_. finished S n) (\<lambda>_. finished S n)"
    by (rule locks.spec_bind [OF spec_callback]) (auto intro: locks.spec_Ret)
  have held: "locks.spec S n (holding S n) (prog_finally (prog_bind run_callback (\<lambda>v. Ret (Some v))) ?r) (\<lambda>_ _. True) (\<lambda>_ _. True)"
    unfolding prog_finally_def
    by (rule locks.spec_try [OF called]) (auto intro!: given_back locks.spec_Ret locks.spec_Raise)
  have end_of: "locks.spec S n ((if taken then holding S n else (\<lambda>_. True)))
      (if \<not> taken then Ret None else prog_finally (prog_bind run_callback (\<lambda>v. Ret (Some v))) ?r)
      (\<lambda>_ _. True) (\<lambda>_ _. True)" for taken
    using held by (auto intro: locks.spec_Ret)
  show ?thesis
    unfolding under_lock_def request_names [OF assms(1,2)]
    by (intro unfinished_sound [OF sound_monotonic] locks.spec_bind [OF spec_make_candidate [OF assms(1,2)]]
        locks.spec_bind [OF spec_acquire [OF assms] end_of]) simp_all
qed

lemma learns_identity:
  assumes "setting_ok S"
  shows "learns S n R P (native_identity_call (ls_request S n)) (\<lambda>i _. identity_ok S n i)"
proof -
  let ?f = "\<lambda>a. case a of Realm (Some i) \<Rightarrow> Ret i
     | _ \<Rightarrow> if lr_platform (ls_request S n) \<notin> {''win32'', ''linux'', ''darwin''}
           then Raise (PyExn (harness_err SESSION_LOCKED ''Unsupported file-lock platform''))
           else Ret \<lparr> id_platform = lr_platform (ls_request S n), id_boot = ''unknown'', id_namespace = None \<rparr>"
  let ?Q = "\<lambda>a _. \<forall>i. a = Realm (Some i) \<longrightarrow> identity_ok S n i"
  have "learns S n R P (prog_bind (Call WhoAmI Ret) ?f) (\<lambda>i _. identity_ok S n i)"
  proof (rule learns_bind [OF learns_Call [where Q = ?Q]])
    fix w a t assume "lock_sys S n WhoAmI w a t"
    then show "t = w \<and> (\<forall>i. a = Realm (Some i) \<longrightarrow> identity_ok S n i)"
      by (auto simp: may_identify_def identity_ok_def elim!: sys_whoE)
  next
    fix a
    have "lr_platform (ls_request S n) \<in> {''linux'', ''darwin'', ''win32''}" using assms by (simp add: setting_ok_def)
    then have unknown: "identity_ok S n \<lparr> id_platform = lr_platform (ls_request S n), id_boot = ''unknown'', id_namespace = None \<rparr>"
      by (auto simp: identity_ok_def valid_identity_def is_bounded_def byte_of_def intro!: utf8_ok_ascii)
    then show "learns S n R (\<lambda>w. P w \<and> ?Q a w) (?f a) (\<lambda>i _. identity_ok S n i)"
      by (auto intro!: learns_Ret learns_Raise split: reply.split option.split)
  qed auto
  then show ?thesis by (simp add: native_identity_call_def prog_bind_def)
qed

lemma attempt_kept:
  assumes "setting_ok S"
  shows "locks.spec S n (\<lambda>w. n \<notin> lw_left w) (attempt S n) (\<lambda>_ _. True) (\<lambda>_ _. True)"
proof (cases "is_nonce n")
  case True
  note names = request_names [OF True assms]
  have under: "locks.spec S n (\<lambda>w. n \<notin> lw_left w) (under_lock k (ls_request S n)
      \<lparr> ow_pid = lr_pid (ls_request S n), ow_identity = i, ow_nonce = n, ow_released = False, ow_expires_at = e \<rparr>)
      (\<lambda>_ _. True) (\<lambda>_ _. True)" if "identity_ok S n i" "\<not> 9007199254740991 < \<bar>e\<bar>" for i e k
  proof (rule spec_under_lock [OF True assms])
    show "owner_good S n \<lparr> ow_pid = lr_pid (ls_request S n), ow_identity = i, ow_nonce = n, ow_released = False, ow_expires_at = e \<rparr>"
      using that True assms by (auto simp: owner_good_def valid_owner_def identity_ok_def setting_ok_def)
  qed (use that in simp_all)
  show ?thesis
    unfolding attempt_def with_file_owner_lock_def Let_def names using True
    by (auto intro!: locks.spec_Raise unfinished_sound [OF sound_wall_clock] unfinished_sound [OF sound_flush [OF assms]]
        unfinished_sound [OF sound_check_existing] unfinished_bind [OF learns_identity [OF assms]] under)
qed (auto simp: attempt_def intro: locks.spec_Ret)

end
