(* ===== verification/LockAlone.thy ===== *)
theory LockAlone
  imports LockTake
begin

section \<open>An attempt alone\<close>

text \<open>
  One attempt that meets no failure and runs while the others wait: \<open>serve_lock\<close> answers its calls as \<open>lock_sys\<close>
  allows, with the readings of a clock and the outcome of the callback as parameters. From here come the runs that
  the properties of \<open>LockProps\<close> speak of: what a free, an abandoned, a held lock does to an attempt.
\<close>

fun serve_lock :: "lock_setting \<Rightarrow> string \<Rightarrow> (nat \<Rightarrow> rat) \<Rightarrow> fault + json \<Rightarrow> call \<Rightarrow> lock_world \<times> nat \<Rightarrow> reply \<times> (lock_world \<times> nat)" where
  "serve_lock S n clock r (OnDisk c) (w, t) =
     (fst (serve c (lw_disk w)), (w\<lparr>lw_disk := snd (serve c (lw_disk w))\<rparr>, t))"
| "serve_lock S n clock r (SignalZero q) (w, t) =
     (if may_say_dead S (ls_process S n) q w then NoSuchProcess else Fine, (w, t))"
| "serve_lock S n clock r Monotonic (w, t) = (Time (clock t), (w, Suc t))"
| "serve_lock S n clock r WallClock (w, t) = (Time (clock t), (w, Suc t))"
| "serve_lock S n clock r TimeNs (w, t) = (Count 0, (w, t))"
| "serve_lock S n clock r WhoAmI (w, t) = (Realm (Some (ls_realm S (ls_process S n))), (w, t))"
| "serve_lock S n clock r Pause (w, t) = (Fine, (w, t))"
| "serve_lock S n clock r CallbackReturns (w, t) = (Outcome r, (w\<lparr>lw_left := insert n (lw_left w)\<rparr>, t))"
| "serve_lock S n clock r PendingList (w, t) = (Progresses (lw_pending w (ls_process S n)), (w, t))"
| "serve_lock S n clock r (PendingHas k) (w, t) =
     (if k \<in> (\<lambda>p. ow_nonce (snd p)) ` set (lw_pending w (ls_process S n)) then Yes else No, (w, t))"
| "serve_lock S n clock r (PendingAdd l x) (w, t) =
     (Fine, (w\<lparr>lw_pending := (lw_pending w)(ls_process S n := lw_pending w (ls_process S n) @ [(l, x)])\<rparr>, t))"
| "serve_lock S n clock r (PendingDrop k) (w, t) =
     (Fine, (w\<lparr>lw_pending := (lw_pending w)(ls_process S n :=
        filter (\<lambda>p. ow_nonce (snd p) \<noteq> k) (lw_pending w (ls_process S n)))\<rparr>, t))"
| "serve_lock S n clock r (GateEnter k) (w, t) = (Fine, (w\<lparr>lw_gates := (lw_gates w)(k \<mapsto> n)\<rparr>, t))"
| "serve_lock S n clock r (GateLeave k) (w, t) = (Fine, (w\<lparr>lw_gates := (lw_gates w)(k := None)\<rparr>, t))"
| "serve_lock S n clock r (IsUnlinked k) (w, t) = (if k \<in> lw_unlinked w then Yes else No, (w, t))"
| "serve_lock S n clock r (SetUnlinked k) (w, t) = (Fine, (w\<lparr>lw_unlinked := insert k (lw_unlinked w)\<rparr>, t))"

text \<open>It only answers what the world may answer.\<close>

definition alone_ok :: "lock_setting \<Rightarrow> string \<Rightarrow> lock_world \<times> nat \<Rightarrow> bool" where
  "alone_ok S n z = (runs_in S n (fst z) \<and> valid_identity (ls_realm S (ls_process S n))
     \<and> (\<forall>k. lw_gates (fst z) k = None \<or> lw_gates (fst z) k = Some n))"

lemma serve_lock_ok:
  assumes "alone_ok S n z"
  shows "lock_sys S n c (fst z) (fst (serve_lock S n clock r c z)) (fst (snd (serve_lock S n clock r c z)))
    \<and> alone_ok S n (snd (serve_lock S n clock r c z)) \<and> runs_in S n (fst z)"
proof -
  obtain w t where z: "z = (w, t)" by (cases z)
  from assms have w: "alone_ok S n (w, t)" unfolding z .
  show ?thesis unfolding z
  proof (cases c)
    case (SignalZero q)
    with w show "lock_sys S n c (fst (w, t)) (fst (serve_lock S n clock r c (w, t))) (fst (snd (serve_lock S n clock r c (w, t))))
        \<and> alone_ok S n (snd (serve_lock S n clock r c (w, t))) \<and> runs_in S n (fst (w, t))"
      by (auto simp: alone_ok_def intro: sys_dead sys_signal)
  next
    case (PendingHas k)
    with w sys_has [of S n k w] show "lock_sys S n c (fst (w, t)) (fst (serve_lock S n clock r c (w, t)))
        (fst (snd (serve_lock S n clock r c (w, t))))
        \<and> alone_ok S n (snd (serve_lock S n clock r c (w, t))) \<and> runs_in S n (fst (w, t))" by (simp add: alone_ok_def)
  next
    case (IsUnlinked k)
    with w sys_asked [of S n k w] show "lock_sys S n c (fst (w, t)) (fst (serve_lock S n clock r c (w, t)))
        (fst (snd (serve_lock S n clock r c (w, t))))
        \<and> alone_ok S n (snd (serve_lock S n clock r c (w, t))) \<and> runs_in S n (fst (w, t))" by (simp add: alone_ok_def)
  qed (use w in \<open>auto simp: alone_ok_def runs_in_def may_identify_def intro!: lock_sys.intros step_served\<close>)
qed

lemma lock_solo_prefix:
  assumes "alone_ok S n z" "T n = prog_bind p f" "exec (serve_lock S n clock r) p z = (Inr x, v)"
  shows "pool_runs (lock_sys S) (runs_in S) (world_event S) (fst z, T) (fst v, T(n := f x)) \<and> alone_ok S n v"
  by (rule solo_prefix [where I = "alone_ok S n" and serve = "serve_lock S n clock r" and shows_state = fst and p = p and h = Raise])
    (use serve_lock_ok assms in \<open>auto simp: prog_bind_def\<close>)

subsection \<open>The pieces of an attempt\<close>

lemma exec_lock_disk:
  "exec (serve_lock S n clock r) (on_disk c) (w, t) =
     (case fst (serve c (lw_disk w)) of Failed e \<Rightarrow> Inl (OsError e) | a \<Rightarrow> Inr a,
      (w\<lparr>lw_disk := snd (serve c (lw_disk w))\<rparr>, t))"
  by (simp add: on_disk_def split: reply.split)

lemma exec_finally:
  "exec answers (prog_finally p q) s =
     (case exec answers p s of
        (Inr x, t) \<Rightarrow> (case exec answers q t of (Inr _, u) \<Rightarrow> (Inr x, u) | (Inl e, u) \<Rightarrow> (Inl e, u))
      | (Inl e, t) \<Rightarrow> (case exec answers q t of (Inr _, u) \<Rightarrow> (Inl e, u) | (Inl f, u) \<Rightarrow> (Inl f, u)))"
  by (simp add: prog_finally_def exec_try exec_bind split: prod.split sum.split)

lemma exec_catch:
  "exec answers (prog_catch p h) s =
     (case exec answers p s of (Inr x, t) \<Rightarrow> (Inr x, t) | (Inl e, t) \<Rightarrow> exec answers (h e) t)"
  by (simp add: prog_catch_def exec_try split: prod.split sum.split)

lemmas exec_rules = exec_lock_disk exec_finally exec_catch exec_bind exec_try

lemma same_disk [simp]: "(w :: lock_world)\<lparr>lw_disk := lw_disk w\<rparr> = w"
  by simp

lemma exec_clock:
  "exec (serve_lock S n clock r) monotonic (w, t) = (Inr (clock t), (w, Suc t))"
  "exec (serve_lock S n clock r) wall_clock (w, t) = (Inr (clock t), (w, Suc t))"
  by (simp_all add: monotonic_def wall_clock_def)

lemma exec_flush:
  "lw_pending w (ls_process S n) = [] \<Longrightarrow> exec (serve_lock S n clock r) flush_pending (w, t) = (Inr (), (w, t))"
  by (simp add: flush_pending_def)

lemma exec_identity:
  "exec (serve_lock S n clock r) (native_identity_call R) (w, t) = (Inr (ls_realm S (ls_process S n)), (w, t))"
  by (simp add: native_identity_call_def)

text \<open>The name of the lock: free, or a folder.\<close>

definition not_a_file :: "disk \<Rightarrow> string \<Rightarrow> bool" where
  "not_a_file D d = (case D d of Some (Leaf _) \<Rightarrow> False | _ \<Rightarrow> True)"

lemma exec_check:
  assumes "not_a_file (lw_disk w) (lr_lock R)"
  shows "exec (serve_lock S n clock r) (check_existing R b) (w, t) = (Inr (), (w, t))"
proof (cases "lw_disk w (lr_lock R)")
  case None
  then show ?thesis by (simp add: check_existing_def lstat_def exec_rules)
next
  case (Some x)
  with assms show ?thesis by (cases x) (simp_all add: not_a_file_def check_existing_def lstat_def exec_rules)
qed

lemma exec_make:
  "lw_disk w d = None \<Longrightarrow> exec (serve_lock S n clock r) (on_disk (MakeDir d)) (w, t) =
     (Inr Fine, (w\<lparr>lw_disk := (lw_disk w)(d \<mapsto> Folder [])\<rparr>, t))"
  by (simp add: exec_rules)

lemma exec_write_candidate:
  assumes "lw_disk w (candidate_dir (lr_lock R) (lr_nonce R)) = Some (Folder [])"
  shows "exec (serve_lock S n clock r) (write_candidate R x) (w, t) =
    (Inr (), (w\<lparr>lw_disk := (lw_disk w)(candidate_dir (lr_lock R) (lr_nonce R) \<mapsto> candidate_with (lr_nonce R) (owner_payload x))\<rparr>, t))"
  using assms by (simp add: write_candidate_def Let_def exec_rules candidate_with_def)

lemma exec_publish:
  assumes "lw_disk w (candidate_dir (lr_lock R) (lr_nonce R)) = Some (Folder es)" "candidate_dir (lr_lock R) (lr_nonce R) \<noteq> lr_lock R"
    and "lw_disk w (lr_lock R) = None \<or> lw_disk w (lr_lock R) = Some (Folder fs)"
  shows "exec (serve_lock S n clock r) (publish_candidate R) (w, t) =
    (if lw_disk w (lr_lock R) \<in> {None, Some (Folder [])}
     then (Inr True, (w\<lparr>lw_disk := (lw_disk w)(candidate_dir (lr_lock R) (lr_nonce R) := None, lr_lock R \<mapsto> Folder es)\<rparr>, t))
     else (Inr False, (w, t)))"
  using assms(3)
proof
  assume "lw_disk w (lr_lock R) = None"
  with assms(1,2) show ?thesis by (simp add: publish_candidate_def exec_rules rename_folder_def)
next
  assume "lw_disk w (lr_lock R) = Some (Folder fs)"
  with assms(1,2) show ?thesis
    by (cases "fs = []") (simp_all add: publish_candidate_def exec_rules rename_folder_def held_errno_def)
qed

subsection \<open>Cleaning and looking\<close>

definition cleaned :: "string \<Rightarrow> bool \<Rightarrow> (string \<times> leaf) list \<Rightarrow> node option" where
  "cleaned m temporary es =
     (let fs = AList.delete (owner_file m) (if temporary then AList.delete (release_file m) es else es)
      in if fs = [] then None else Some (Folder fs))"

lemma exec_unlink_release:
  assumes "lw_disk w d = Some (Folder es)"
  shows "exec (serve_lock S n clock r) (unlink_missing_ok (In d f)) (w, t) =
    (Inr (), (w\<lparr>lw_disk := (lw_disk w)(d \<mapsto> Folder (AList.delete f es))\<rparr>, t))"
proof (cases "map_of es f")
  case None
  then have "AList.delete f es = es" by (simp add: delete_id map_of_eq_None_iff)
  with None assms show ?thesis by (simp add: unlink_missing_ok_def exec_rules fun_upd_idem)
next
  case (Some l)
  with assms show ?thesis by (simp add: unlink_missing_ok_def exec_rules)
qed

lemma exec_unlink_owner:
  assumes "lw_disk w d = Some (Folder es)" "map_of es (owner_file m) = Some l"
    and "\<forall>q. progress = Some q \<longrightarrow> q \<notin> lw_unlinked w"
  shows "exec (serve_lock S n clock r) (unlink_attempts 5 d m progress) (w, t) =
    (Inr True, (w\<lparr>lw_disk := (lw_disk w)(d \<mapsto> Folder (AList.delete (owner_file m) es)),
       lw_unlinked := set_option progress \<union> lw_unlinked w\<rparr>, t))"
  using assms by (cases progress) (simp_all add: numeral_eq_Suc exec_rules ask_def do_call_def)

lemma exec_rmdir:
  assumes "lw_disk w d = Some (Folder es)"
  shows "exec (serve_lock S n clock r) (rmdir_attempts 5 d) (w, t) =
    (Inr (), (w\<lparr>lw_disk := (lw_disk w)(d := if es = [] then None else Some (Folder es))\<rparr>, t))"
  using assms by (auto simp: numeral_eq_Suc exec_rules fun_upd_idem)

lemma exec_unlink_rmdir:
  assumes "lw_disk w d = Some (Folder es)" "map_of es (owner_file m) \<noteq> None"
    and "\<forall>q. progress = Some q \<longrightarrow> q \<notin> lw_unlinked w"
  shows "exec (serve_lock S n clock r) (prog_bind (unlink_attempts 5 d m progress)
      (\<lambda>unlinked. if unlinked then rmdir_attempts 5 d else Ret ())) (w, t) =
    (Inr (), (w\<lparr>lw_disk := (lw_disk w)(d := cleaned m False es), lw_unlinked := set_option progress \<union> lw_unlinked w\<rparr>, t))"
proof -
  from assms(2) obtain l where "map_of es (owner_file m) = Some l" by blast
  from exec_unlink_owner [OF assms(1) this assms(3)] show ?thesis
    by (simp add: exec_bind exec_rmdir cleaned_def Let_def)
qed

lemma exec_clean:
  assumes "lw_disk w d = Some (Folder es)" "map_of es (owner_file m) \<noteq> None"
    and "\<forall>q. progress = Some q \<longrightarrow> q \<notin> lw_unlinked w"
  shows "exec (serve_lock S n clock r) (clean_owner d m temporary progress) (w, t) =
    (Inr (), (w\<lparr>lw_disk := (lw_disk w)(d := cleaned m temporary es), lw_unlinked := set_option progress \<union> lw_unlinked w\<rparr>, t))"
proof (cases temporary)
  case True
  let ?w = "w\<lparr>lw_disk := (lw_disk w)(d \<mapsto> Folder (AList.delete (release_file m) es))\<rparr>"
  have "exec (serve_lock S n clock r) (prog_bind (unlink_attempts 5 d m progress)
      (\<lambda>unlinked. if unlinked then rmdir_attempts 5 d else Ret ())) (?w, t) =
    (Inr (), (w\<lparr>lw_disk := (lw_disk w)(d := cleaned m True es), lw_unlinked := set_option progress \<union> lw_unlinked w\<rparr>, t))"
    using exec_unlink_rmdir [of ?w d "AList.delete (release_file m) es" m progress] assms by (simp add: cleaned_def)
  then show ?thesis using True exec_unlink_release [OF assms(1)] by (simp add: clean_owner_def exec_bind del: exec.simps)
next
  case False
  then show ?thesis using exec_unlink_rmdir [OF assms] by (simp add: clean_owner_def exec_bind)
qed

text \<open>What an owner that is gone leaves: its record, and perhaps the half of a release, in any order.\<close>

definition left_behind :: "lock_owner \<Rightarrow> (string \<times> leaf) list \<Rightarrow> bool" where
  "left_behind x es =
     (let p = (owner_file (ow_nonce x), Reg (owner_payload x))
      in es = [p] \<or> (\<exists>c. length c \<le> 4096 \<and> (es = [p, (release_file (ow_nonce x), Reg c)] \<or> es = [(release_file (ow_nonce x), Reg c), p])))"

lemma exec_plain:
  assumes "lw_disk w d = Some (Folder es)" "\<forall>f \<in> set fs. \<exists>c. map_of es f = Some (Reg c) \<and> length c \<le> 4096"
  shows "exec (serve_lock S n clock r) (entries_plain d fs) (w, t) = (Inr True, (w, t))"
  using assms(2)
proof (induction fs)
  case (Cons f fs)
  then obtain c where "map_of es f = Some (Reg c)" "length c \<le> 4096" by auto
  with Cons assms(1) show ?case by (simp add: lstat_def exec_rules)
qed simp

lemma payload_short: "valid_owner x \<Longrightarrow> length (owner_payload x) \<le> 4096"
  using part_payload by (fastforce simp: owner_payload_def part_ok_def simp del: json_dumps.simps)

lemma release_no_match [simp]: "owner_match (release_file m) = None"
  using owner_match_Some release_is_not_owner by (cases "owner_match (release_file m)") fastforce+

lemma left_behind_facts:
  assumes "left_behind x es" "valid_owner x"
  shows "filter (\<lambda>f. owner_match f \<noteq> None) (map fst es) = [owner_file (ow_nonce x)]"
    "list_all (\<lambda>f. f = owner_file (ow_nonce x) \<or> f = release_file (ow_nonce x)) (map fst es)"
    "map_of es (owner_file (ow_nonce x)) = Some (Reg (owner_payload x))"
    "\<forall>f \<in> set (map fst es). \<exists>c. map_of es f = Some (Reg c) \<and> length c \<le> 4096"
    "cleaned (ow_nonce x) (release_file (ow_nonce x) \<in> set (map fst es)) es = None"
  using assms payload_short [OF assms(2)] owner_match_file [of "ow_nonce x"]
  by (auto simp: left_behind_def Let_def cleaned_def valid_owner_def)

text \<open>Such a lock of the same realm is taken away.\<close>

definition abandoned :: "lock_setting \<Rightarrow> string \<Rightarrow> lock_world \<Rightarrow> (string \<times> leaf) list \<Rightarrow> bool" where
  "abandoned S n w es =
     (\<exists>x. left_behind x es \<and> valid_owner x \<and> same_identity (ow_identity x) (ls_realm S (ls_process S n))
        \<and> (ow_released x \<or> may_say_dead S (ls_process S n) (ow_pid x) w))"

lemma exec_read_owner:
  assumes "lw_disk w d = Some (Folder es)" "map_of es f = Some (Reg c)" "length c \<le> 4096"
  shows "exec (serve_lock S n clock r) (read_owner_bytes d f) (w, t) = (Inr c, (w, t))"
  using assms by (simp add: read_owner_bytes_def exec_rules)

lemma exec_inspect_abandoned:
  assumes "lw_disk w d = Some (Folder es)" "abandoned S n w es"
  shows "exec (serve_lock S n clock r) (inspect_lock d (ls_realm S (ls_process S n))) (w, t) =
    (Inr Retry, (w\<lparr>lw_disk := (lw_disk w)(d := None)\<rparr>, t))"
proof -
  from assms(2) obtain x where x: "left_behind x es" "valid_owner x"
      "same_identity (ow_identity x) (ls_realm S (ls_process S n))"
      "ow_released x \<or> may_say_dead S (ls_process S n) (ow_pid x) w" unfolding abandoned_def by blast
  let ?m = "ow_nonce x"
  let ?run = "exec (serve_lock S n clock r)"
  note es = left_behind_facts [OF x(1,2)]
  have cleans: "?run (clean_owner d ?m (release_file ?m \<in> set (map fst es)) None) (w, t) =
      (Inr (), (w\<lparr>lw_disk := (lw_disk w)(d := None)\<rparr>, t))"
    using exec_clean [OF assms(1), of ?m None] es(3,5) by simp
  have gone: "?run (if ow_released x then Ret True else pid_is_dead (ow_pid x)) (w, t) = (Inr True, (w, t))"
    using x(4) by (auto simp: pid_is_dead_def)
  have owner: "?run (inspect_owner d (ls_realm S (ls_process S n)) (release_file ?m \<in> set (map fst es)) x) (w, t) =
      (Inr Retry, (w\<lparr>lw_disk := (lw_disk w)(d := None)\<rparr>, t))"
    using x(3) gone cleans by (simp add: inspect_owner_def exec_bind)
  have folder: "?run (inspect_folder d (ls_realm S (ls_process S n)) (map fst es)) (w, t) =
      (Inr Retry, (w\<lparr>lw_disk := (lw_disk w)(d := None)\<rparr>, t))"
    unfolding inspect_folder_def es(1)
    using owner es(2) exec_plain [OF assms(1) es(4)] exec_read_owner [OF assms(1) es(3) payload_short [OF x(2)]]
      parse_payload [OF x(2)] owner_match_file [of ?m] x(2)
    by (simp add: exec_bind valid_owner_def)
  have there: "?run (lstat (Top d)) (w, t) = (Inr IsFolder, (w, t))" "?run (list_dir d) (w, t) = (Inr (map fst es), (w, t))"
    using assms(1) by (simp_all add: lstat_def list_dir_def exec_rules)
  show ?thesis using folder there by (simp add: inspect_lock_def exec_catch exec_bind)
qed

subsection \<open>The rounds, the callback and the release\<close>

lemma exec_round:
  assumes "lw_pending w (ls_process S n) = []" "lw_disk w (lr_lock R) = None \<or> lw_disk w (lr_lock R) = Some (Folder fs)"
    and "lw_disk w (candidate_dir (lr_lock R) (lr_nonce R)) = Some (Folder es)" "candidate_dir (lr_lock R) (lr_nonce R) \<noteq> lr_lock R"
  shows "exec (serve_lock S n clock r) (acquire_round R local d) (w, t) =
    (if lw_disk w (lr_lock R) \<in> {None, Some (Folder [])}
     then (Inr True, (w\<lparr>lw_disk := (lw_disk w)(candidate_dir (lr_lock R) (lr_nonce R) := None, lr_lock R \<mapsto> Folder es)\<rparr>, t))
     else exec (serve_lock S n clock r) (prog_bind (inspect_lock (lr_lock R) local) (\<lambda>state. case state of
              Legacy \<Rightarrow> Raise (legacy_error R)
            | Retry \<Rightarrow> prog_bind monotonic (\<lambda>now. if now < d then Ret False else prog_bind (past_deadline R d) (\<lambda>_. Ret False))
            | Held \<Rightarrow> prog_bind (past_deadline R d) (\<lambda>_. Ret False))) (w, t))"
proof -
  have "not_a_file (lw_disk w) (lr_lock R)" using assms(2) by (auto simp: not_a_file_def)
  with assms show ?thesis
    by (simp add: acquire_round_def exec_bind exec_flush exec_check exec_publish [OF assms(3,4,2)])
qed

lemma exec_rounds_abandoned:
  assumes "lw_pending w (ls_process S n) = []" "lw_disk w (lr_lock R) = Some (Folder fs)" "abandoned S n w fs" "clock t < d"
    and "lw_disk w (candidate_dir (lr_lock R) (lr_nonce R)) = Some (Folder es)" "candidate_dir (lr_lock R) (lr_nonce R) \<noteq> lr_lock R"
  shows "exec (serve_lock S n clock r) (acquire_rounds (Suc (Suc k)) R (ls_realm S (ls_process S n)) d) (w, t) =
    (Inr True, (w\<lparr>lw_disk := (lw_disk w)(candidate_dir (lr_lock R) (lr_nonce R) := None, lr_lock R \<mapsto> Folder es)\<rparr>, Suc t))"
proof -
  have "fs \<noteq> []" using assms(3) by (auto simp: abandoned_def left_behind_def Let_def)
  let ?w = "w\<lparr>lw_disk := (lw_disk w)(lr_lock R := None)\<rparr>"
  have first: "exec (serve_lock S n clock r) (acquire_round R (ls_realm S (ls_process S n)) d) (w, t) = (Inr False, (?w, Suc t))"
    using exec_round [OF assms(1) _ assms(5,6)] assms(2,4) \<open>fs \<noteq> []\<close> exec_inspect_abandoned [OF assms(2,3)]
    by (simp add: exec_bind exec_clock)
  have "lw_pending ?w (ls_process S n) = []" using assms(1) by simp
  with assms(5,6) have second: "exec (serve_lock S n clock r) (acquire_round R (ls_realm S (ls_process S n)) d) (?w, Suc t) =
      (Inr True, (w\<lparr>lw_disk := (lw_disk w)(candidate_dir (lr_lock R) (lr_nonce R) := None, lr_lock R \<mapsto> Folder es)\<rparr>, Suc t))"
    by (subst exec_round [where es = es]) (auto simp: fun_upd_twist)
  show ?thesis by (simp add: exec_bind first second)
qed

lemma exec_rounds_free:
  assumes "lw_pending w (ls_process S n) = []" "lw_disk w (lr_lock R) \<in> {None, Some (Folder [])}"
    and "lw_disk w (candidate_dir (lr_lock R) (lr_nonce R)) = Some (Folder es)" "candidate_dir (lr_lock R) (lr_nonce R) \<noteq> lr_lock R"
  shows "exec (serve_lock S n clock r) (acquire_rounds (Suc k) R local d) (w, t) =
    (Inr True, (w\<lparr>lw_disk := (lw_disk w)(candidate_dir (lr_lock R) (lr_nonce R) := None, lr_lock R \<mapsto> Folder es)\<rparr>, t))"
proof -
  from assms(2) have "lw_disk w (lr_lock R) = None \<or> lw_disk w (lr_lock R) = Some (Folder [])" by auto
  with exec_round [OF assms(1) this assms(3,4)] assms(2) show ?thesis by (simp add: exec_bind)
qed

text \<open>The release of a lock that stands as it was taken: nothing is left of it.\<close>

lemma exec_release:
  assumes "valid_owner x" "\<not> ow_released x" "lw_disk w d = Some (candidate_with (ow_nonce x) (owner_payload x))"
    and "ow_nonce x \<notin> lw_unlinked w"
  shows "exec (serve_lock S n clock r) (release_lock d x) (w, t) =
    (Inr (), (w\<lparr>lw_disk := (lw_disk w)(d := None), lw_unlinked := insert (ow_nonce x) (lw_unlinked w)\<rparr>, t))"
proof -
  let ?m = "ow_nonce x" and ?run = "exec (serve_lock S n clock r)"
  let ?p = "owner_payload (x\<lparr>ow_released := True\<rparr>)"
  have d: "lw_disk w d = Some (Folder [(owner_file ?m, Reg (owner_payload x))])" using assms(3) by (simp add: candidate_with_def)
  have observe: "?run (observe_own d x) (w, t) = (Inr True, (w, t))"
    using exec_read_owner [OF d] payload_short [OF assms(1)] parse_payload [OF assms(1)] assms(2)
    by (simp add: observe_own_def exec_bind exec_try)
  let ?D = "\<lambda>es. w\<lparr>lw_disk := (lw_disk w)(d \<mapsto> Folder es)\<rparr>"
  have opened: "?run (on_disk (OpenWrite (In d (release_file ?m)))) (w, t) =
      (Inr Fine, (?D [(owner_file ?m, Reg (owner_payload x)), (release_file ?m, Reg [])], t))"
    using d by (simp add: exec_lock_disk)
  have filled: "?run (on_disk (WriteFile (In d (release_file ?m)) ?p)) (?D [(owner_file ?m, Reg (owner_payload x)), (release_file ?m, Reg [])], t) =
      (Inr Fine, (?D [(owner_file ?m, Reg (owner_payload x)), (release_file ?m, Reg ?p)], t))"
    by (simp add: exec_lock_disk)
  have moved: "?run (replace_attempts 5 d ?m) (?D [(owner_file ?m, Reg (owner_payload x)), (release_file ?m, Reg ?p)], t) =
      (Inr (), (?D [(owner_file ?m, Reg ?p)], t))"
    by (simp add: numeral_eq_Suc exec_rules rename_leaf_def)
  have cleans: "?run (clean_owner d ?m False (Some ?m)) (?D [(owner_file ?m, Reg ?p)], t) =
      (Inr (), (w\<lparr>lw_disk := (lw_disk w)(d := None), lw_unlinked := insert ?m (lw_unlinked w)\<rparr>, t))"
    using exec_clean [of "?D [(owner_file ?m, Reg ?p)]" d "[(owner_file ?m, Reg ?p)]" ?m "Some ?m"] assms(4)
    by (simp add: cleaned_def)
  show ?thesis
    using assms(4) observe opened filled moved cleans
    by (simp add: release_lock_def publish_release_def exec_bind ask_def)
qed

subsection \<open>The whole attempt\<close>

definition lock_is_free :: "lock_setting \<Rightarrow> string \<Rightarrow> lock_world \<Rightarrow> bool" where
  "lock_is_free S n w =
     (case lw_disk w (ls_lock S n) of
        None \<Rightarrow> True
      | Some (Folder es) \<Rightarrow> es = [] \<or> abandoned S n w es
      | Some (Leaf _) \<Rightarrow> False)"

text \<open>The process of the attempt has nothing pending, and its names are its own.\<close>

definition starts_fresh :: "lock_setting \<Rightarrow> string \<Rightarrow> lock_world \<Rightarrow> bool" where
  "starts_fresh S n w =
     (lw_pending w (ls_process S n) = [] \<and> lw_disk w (own_candidate S n) = None \<and> n \<notin> lw_unlinked w)"

definition expires_at :: "lock_setting \<Rightarrow> string \<Rightarrow> (nat \<Rightarrow> rat) \<Rightarrow> int" where
  "expires_at S n clock = \<lfloor>clock 0 + num_value_of (lr_ttl (ls_request S n))\<rfloor>"

definition own_record :: "lock_setting \<Rightarrow> string \<Rightarrow> (nat \<Rightarrow> rat) \<Rightarrow> lock_owner" where
  "own_record S n clock =
     \<lparr> ow_pid = ls_pid S (ls_process S n), ow_identity = ls_realm S (ls_process S n), ow_nonce = n, ow_released = False,
       ow_expires_at = expires_at S n clock \<rparr>"

definition deadline_of :: "lock_setting \<Rightarrow> string \<Rightarrow> (nat \<Rightarrow> rat) \<Rightarrow> rat" where
  "deadline_of S n clock = clock 1 + num_value_of (lr_wait (ls_request S n))"

definition arguments_ok :: "lock_setting \<Rightarrow> string \<Rightarrow> (nat \<Rightarrow> rat) \<Rightarrow> bool" where
  "arguments_ok S n clock =
     (lock_args_ok (lr_ttl (ls_request S n)) (lr_wait (ls_request S n)) \<and> \<bar>expires_at S n clock\<bar> \<le> 9007199254740991)"

lemma own_record_valid: "is_nonce n \<Longrightarrow> setting_ok S \<Longrightarrow> arguments_ok S n clock \<Longrightarrow> valid_owner (own_record S n clock)"
  by (simp add: own_record_def valid_owner_def setting_ok_def arguments_ok_def)

lemma lock_is_free_cases:
  assumes "lock_is_free S n w"
  obtains "lw_disk w (ls_lock S n) \<in> {None, Some (Folder [])}"
    | es where "lw_disk w (ls_lock S n) = Some (Folder es)" "abandoned S n w es"
  using assms by (auto simp: lock_is_free_def split: option.splits node.splits)

lemma exec_acquire:
  assumes "is_nonce n" "setting_ok S" "lock_is_free S n w" "lw_pending w (ls_process S n) = []" "clock t < d"
    and "lw_disk w (own_candidate S n) = Some (Folder [])" "ow_identity x = ls_realm S (ls_process S n)"
  shows "\<exists>u. exec (serve_lock S n clock r) (acquire_lock (Suc (Suc k)) (ls_request S n) x d) (w, t) =
    (Inr True, (w\<lparr>lw_disk := (lw_disk w)(own_candidate S n := None, ls_lock S n \<mapsto> candidate_with n (owner_payload x))\<rparr>, u))"
proof -
  note names = request_names [OF assms(1,2)]
  have ne: "own_candidate S n \<noteq> ls_lock S n" "ls_lock S n \<noteq> own_candidate S n" using lock_not_candidate [OF names(4)] by metis+
  let ?w = "w\<lparr>lw_disk := (lw_disk w)(own_candidate S n \<mapsto> candidate_with n (owner_payload x))\<rparr>"
  have candidate: "lw_disk ?w (candidate_dir (lr_lock (ls_request S n)) (lr_nonce (ls_request S n)))
      = Some (Folder [(owner_file n, Reg (owner_payload x))])" by (simp add: names candidate_with_def)
  have written: "exec (serve_lock S n clock r) (write_candidate (ls_request S n) x) (w, t) = (Inr (), (?w, t))"
    using exec_write_candidate [of w "ls_request S n"] assms(6) by (simp add: names)
  have "\<exists>u. exec (serve_lock S n clock r) (acquire_rounds (Suc (Suc k)) (ls_request S n) (ls_realm S (ls_process S n)) d) (?w, t) =
    (Inr True, (w\<lparr>lw_disk := (lw_disk w)(own_candidate S n := None, ls_lock S n \<mapsto> candidate_with n (owner_payload x))\<rparr>, u))"
    using assms(3)
  proof (cases rule: lock_is_free_cases)
    case 1
    then have "lw_disk ?w (lr_lock (ls_request S n)) \<in> {None, Some (Folder [])}" using ne by (simp add: names)
    from exec_rounds_free [OF _ this candidate, where S = S and n = n] assms(4) ne show ?thesis
      by (simp add: names candidate_with_def)
  next
    case (2 es)
    then have there: "lw_disk ?w (lr_lock (ls_request S n)) = Some (Folder es)" using ne by (simp add: names)
    have "abandoned S n ?w es" using 2 by (simp add: abandoned_def may_say_dead_def)
    from exec_rounds_abandoned [OF _ there this _ candidate, where clock = clock and t = t and d = d] assms(4,5) ne show ?thesis
      by (simp add: names candidate_with_def del: acquire_rounds.simps)
  qed
  then show ?thesis by (auto simp: acquire_lock_def exec_catch exec_bind written assms(7) simp del: acquire_rounds.simps)
qed

text \<open>The callback with the lock in hand, and what follows.\<close>

lemma exec_held:
  assumes "is_nonce n" "setting_ok S" "valid_owner x" "\<not> ow_released x" "ow_nonce x = n" "n \<notin> lw_unlinked w"
    and "lw_disk w (ls_lock S n) = Some (candidate_with n (owner_payload x))"
  shows "exec (serve_lock S n clock r) (prog_finally (prog_bind run_callback (\<lambda>v. Ret (Some v))) (release_after (ls_request S n) x)) (w, t) =
    (case r of Inr v \<Rightarrow> Inr (Some v) | Inl e \<Rightarrow> Inl e,
     (w\<lparr>lw_disk := (lw_disk w)(ls_lock S n := None), lw_left := insert n (lw_left w), lw_unlinked := insert n (lw_unlinked w)\<rparr>, t))"
proof -
  let ?w = "w\<lparr>lw_left := insert n (lw_left w)\<rparr>"
  have called: "exec (serve_lock S n clock r) run_callback (w, t) =
      (case r of Inr v \<Rightarrow> Inr v | Inl e \<Rightarrow> Inl e, (?w, t))"
    by (simp add: run_callback_def split: sum.split)
  have released: "exec (serve_lock S n clock r) (release_after (ls_request S n) x) (?w, t) =
      (Inr (), (w\<lparr>lw_disk := (lw_disk w)(ls_lock S n := None), lw_left := insert n (lw_left w), lw_unlinked := insert n (lw_unlinked w)\<rparr>, t))"
    using exec_release [OF assms(3,4), of ?w "ls_lock S n"] assms(5-7)
    by (simp add: release_after_def exec_catch request_names [OF assms(1,2)])
  show ?thesis using called released by (cases r) (simp_all add: exec_finally exec_bind)
qed

text \<open>Up to the callback, and whoever is alone takes a lock that is free or abandoned, runs the callback and leaves
  nothing behind.\<close>

lemma exec_acquired:
  assumes "is_nonce n" "setting_ok S" "lock_is_free S n w" "starts_fresh S n w" "clock t < d"
    and "ow_identity x = ls_realm S (ls_process S n)" "2 \<le> k"
  shows "\<exists>u. exec (serve_lock S n clock r) (acquire_lock k (ls_request S n) x d)
      (w\<lparr>lw_disk := (lw_disk w)(own_candidate S n \<mapsto> Folder [])\<rparr>, t) =
    (Inr True, (w\<lparr>lw_disk := (lw_disk w)(ls_lock S n \<mapsto> candidate_with n (owner_payload x))\<rparr>, u))"
proof -
  let ?w = "w\<lparr>lw_disk := (lw_disk w)(own_candidate S n \<mapsto> Folder [])\<rparr>"
  have "own_candidate S n \<noteq> ls_lock S n" using lock_not_candidate [OF setting_lock [OF assms(2)]] by metis
  then have same: "lw_disk ?w (ls_lock S n) = lw_disk w (ls_lock S n)" by simp
  have abandoned: "abandoned S n ?w = abandoned S n w" by (simp add: abandoned_def [abs_def] may_say_dead_def)
  from assms(3) have free: "lock_is_free S n ?w" unfolding lock_is_free_def same abandoned .
  from assms(7) have k: "k = Suc (Suc (k - 2))" by simp
  have "(lw_disk w)(own_candidate S n := None) = lw_disk w" using assms(4) by (simp add: starts_fresh_def fun_upd_idem)
  with exec_acquire [where clock = clock and t = t, OF assms(1,2) free _ assms(5) _ assms(6), of r "k - 2"] assms(4) k show ?thesis
    by (simp add: starts_fresh_def)
qed

lemma not_a_file_free: "lock_is_free S n w \<Longrightarrow> not_a_file (lw_disk w) (ls_lock S n)"
  by (auto simp: lock_is_free_def not_a_file_def split: option.splits node.splits)

lemma exec_under_lock:
  assumes "is_nonce n" "setting_ok S" "lock_is_free S n w" "starts_fresh S n w" "arguments_ok S n clock"
    and "clock 2 < deadline_of S n clock" "2 \<le> k"
  shows "\<exists>u. exec (serve_lock S n clock r) (under_lock k (ls_request S n) (own_record S n clock)) (w, 1) =
    (case r of Inr v \<Rightarrow> Inr (Some v) | Inl e \<Rightarrow> Inl e,
     (w\<lparr>lw_disk := (lw_disk w)(ls_lock S n := None), lw_left := insert n (lw_left w), lw_unlinked := insert n (lw_unlinked w)\<rparr>, u))"
proof -
  let ?x = "own_record S n clock"
  have x: "valid_owner ?x" "\<not> ow_released ?x" "ow_nonce ?x = n" "ow_identity ?x = ls_realm S (ls_process S n)"
    using own_record_valid [OF assms(1,2,5)] by (simp_all add: own_record_def)
  have d: "clock (Suc (Suc 0)) < clock (Suc 0) + num_value_of (lr_wait (ls_request S n))"
    using assms(6) by (simp add: deadline_of_def numeral_2_eq_2)
  from exec_acquired [where clock = clock and t = "Suc (Suc 0)", OF assms(1-4) d x(4) assms(7)] obtain u where taken:
    "exec (serve_lock S n clock r) (acquire_lock k (ls_request S n) ?x (clock (Suc 0) + num_value_of (lr_wait (ls_request S n))))
      (w\<lparr>lw_disk := (lw_disk w)(own_candidate S n \<mapsto> Folder [])\<rparr>, Suc (Suc 0)) =
    (Inr True, (w\<lparr>lw_disk := (lw_disk w)(ls_lock S n \<mapsto> candidate_with n (owner_payload ?x))\<rparr>, u))" by blast
  let ?w = "w\<lparr>lw_disk := (lw_disk w)(ls_lock S n \<mapsto> candidate_with n (owner_payload ?x))\<rparr>"
  have "exec (serve_lock S n clock r) (prog_finally (prog_bind run_callback (\<lambda>v. Ret (Some v))) (release_after (ls_request S n) ?x)) (?w, u) =
    (case r of Inr v \<Rightarrow> Inr (Some v) | Inl e \<Rightarrow> Inl e,
     (w\<lparr>lw_disk := (lw_disk w)(ls_lock S n := None), lw_left := insert n (lw_left w), lw_unlinked := insert n (lw_unlinked w)\<rparr>, u))"
    using exec_held [OF assms(1,2) x(1-3), of ?w] assms(4) by (simp add: starts_fresh_def)
  moreover have "lw_disk w (own_candidate S n) = None" using assms(4) by (simp add: starts_fresh_def)
  ultimately show ?thesis
    by (auto simp: under_lock_def exec_bind exec_clock exec_make request_names [OF assms(1,2)] taken simp del: serve_lock.simps)
qed

text \<open>All that comes before the candidate passes.\<close>

lemma attempt_under:
  assumes "is_nonce n" "setting_ok S" "not_a_file (lw_disk w) (ls_lock S n)" "starts_fresh S n w" "arguments_ok S n clock"
  shows "exec (serve_lock S n clock r) (attempt S n) (w, 0) =
    exec (serve_lock S n clock r) (under_lock (ls_rounds S n) (ls_request S n) (own_record S n clock)) (w, Suc 0)"
proof -
  have "lr_pid (ls_request S n) = ls_pid S (ls_process S n)" using assms(2) by (simp add: setting_ok_def)
  then have mine: "\<lparr> ow_pid = lr_pid (ls_request S n), ow_identity = ls_realm S (ls_process S n), ow_nonce = n,
      ow_released = False, ow_expires_at = \<lfloor>clock 0 + num_value_of (lr_ttl (ls_request S n))\<rfloor> \<rparr> = own_record S n clock"
    by (simp add: own_record_def expires_at_def)
  show ?thesis using assms(1,3-5)
    by (simp add: attempt_def with_file_owner_lock_def Let_def exec_bind exec_clock exec_flush exec_check exec_identity
        starts_fresh_def arguments_ok_def expires_at_def mine request_names [OF assms(1,2)])
qed

lemma exec_attempt:
  assumes "is_nonce n" "setting_ok S" "lock_is_free S n w" "starts_fresh S n w" "arguments_ok S n clock"
    and "clock 2 < deadline_of S n clock" "2 \<le> ls_rounds S n"
  shows "\<exists>u. exec (serve_lock S n clock r) (attempt S n) (w, 0) =
    (case r of Inr v \<Rightarrow> Inr (Some v) | Inl e \<Rightarrow> Inl e,
     (w\<lparr>lw_disk := (lw_disk w)(ls_lock S n := None), lw_left := insert n (lw_left w), lw_unlinked := insert n (lw_unlinked w)\<rparr>, u))"
  using exec_under_lock [OF assms, of r] attempt_under [OF assms(1,2) not_a_file_free [OF assms(3)] assms(4,5), of r] by simp

end
