(* ===== verification/LockHeld.thy ===== *)
theory LockHeld
  imports LockAlone
begin

section \<open>An attempt at a lock that is held\<close>

text \<open>
  What \<open>inspect_lock\<close> says of a lock directory that holds anything but the record of an owner known to be gone, and
  how long the rounds go on in front of it. Nothing on the disk changes.
\<close>

text \<open>The record of an owner that is known to be gone, beside whatever else.\<close>

definition recoverable :: "lock_setting \<Rightarrow> string \<Rightarrow> lock_world \<Rightarrow> (string \<times> leaf) list \<Rightarrow> bool" where
  "recoverable S n w es =
     (\<exists>m c x. map_of es (owner_file m) = Some (Reg c) \<and> parse_owner c (owner_file m) = Some x
        \<and> same_identity (ow_identity x) (ls_realm S (ls_process S n))
        \<and> (ow_released x \<or> may_say_dead S (ls_process S n) (ow_pid x) w))"

lemma exec_entries:
  assumes "lw_disk w d = Some (Folder es)" "set fs \<subseteq> fst ` set es"
  shows "exec (serve_lock S n clock r) (entries_plain d fs) (w, t) =
    (Inr (\<forall>f \<in> set fs. \<exists>c. map_of es f = Some (Reg c) \<and> length c \<le> 4096), (w, t))"
  using assms(2)
proof (induction fs)
  case (Cons f fs)
  then obtain l where l: "map_of es f = Some l" using weak_map_of_SomeI by fastforce
  with Cons assms(1) show ?case by (cases l) (auto simp: lstat_def exec_rules)
qed simp

lemma exec_inspect_owner_held:
  assumes "\<not> (same_identity (ow_identity x) (ls_realm S (ls_process S n))
      \<and> (ow_released x \<or> may_say_dead S (ls_process S n) (ow_pid x) w))"
  shows "exec (serve_lock S n clock r) (inspect_owner d (ls_realm S (ls_process S n)) temporary x) (w, t) = (Inr Held, (w, t))"
  using assms by (auto simp: inspect_owner_def exec_bind pid_is_dead_def)

lemma exec_inspect_held:
  assumes "lw_disk w d = Some (Folder es)" "\<not> recoverable S n w es"
  shows "exec (serve_lock S n clock r) (inspect_lock d (ls_realm S (ls_process S n))) (w, t) = (Inr Held, (w, t))"
proof -
  let ?run = "exec (serve_lock S n clock r)" and ?local = "ls_realm S (ls_process S n)"
  have there: "?run (lstat (Top d)) (w, t) = (Inr IsFolder, (w, t))" "?run (list_dir d) (w, t) = (Inr (map fst es), (w, t))"
    using assms(1) by (simp_all add: lstat_def list_dir_def exec_rules)
  have one: "?run (prog_bind (read_owner_bytes d f) (\<lambda>raw. case parse_owner raw f of None \<Rightarrow> Ret Held
      | Some x \<Rightarrow> inspect_owner d ?local b x)) (w, t) = (Inr Held, (w, t))"
    if f: "map_of es f = Some (Reg c)" "length c \<le> 4096" "owner_match f = Some m" for f c m b
  proof (cases "parse_owner c f")
    case None
    then show ?thesis by (simp add: exec_bind exec_read_owner [OF assms(1) f(1,2)])
  next
    case (Some x)
    with assms(2) f owner_match_Some [OF f(3)] have "\<not> (same_identity (ow_identity x) ?local
        \<and> (ow_released x \<or> may_say_dead S (ls_process S n) (ow_pid x) w))" unfolding recoverable_def by blast
    with Some show ?thesis by (simp add: exec_bind exec_read_owner [OF assms(1) f(1,2)] exec_inspect_owner_held)
  qed
  have "?run (inspect_folder d ?local (map fst es)) (w, t) = (Inr Held, (w, t))"
  proof (cases "\<exists>f. filter (\<lambda>f. owner_match f \<noteq> None) (map fst es) = [f]")
    case False
    then show ?thesis unfolding inspect_folder_def by (auto split: list.split)
  next
    case True
    then obtain f where f: "filter (\<lambda>f. owner_match f \<noteq> None) (map fst es) = [f]" by blast
    then have "f \<in> set (filter (\<lambda>f. owner_match f \<noteq> None) (map fst es))" by simp
    then obtain m where m: "f \<in> fst ` set es" "owner_match f = Some m" by auto
    note plain = exec_entries [OF assms(1), of "map fst es"]
    show ?thesis
    proof (cases "\<forall>f \<in> set (map fst es). \<exists>c. map_of es f = Some (Reg c) \<and> length c \<le> 4096")
      case True
      with m(1) obtain c where "map_of es f = Some (Reg c)" "length c \<le> 4096" by auto
      from one [OF this m(2)] plain True show ?thesis
        unfolding inspect_folder_def f by (simp add: m(2) exec_bind)
    next
      case False
      with plain show ?thesis unfolding inspect_folder_def f by (auto simp: m(2) exec_bind)
    qed
  qed
  with there show ?thesis by (simp add: inspect_lock_def exec_catch exec_bind)
qed

subsection \<open>The rounds\<close>

lemma exec_past_deadline:
  "exec (serve_lock S n clock r) (past_deadline R d) (w, t) =
     (if d \<le> clock t then Inl (locked_error R) else Inr (), (w, Suc t))"
  by (simp add: past_deadline_def exec_bind exec_clock do_call_def)

lemma exec_round_held:
  assumes "lw_pending w (ls_process S n) = []" "lw_disk w (lr_lock R) = Some (Folder fs)" "fs \<noteq> []" "\<not> recoverable S n w fs"
    and "lw_disk w (candidate_dir (lr_lock R) (lr_nonce R)) = Some (Folder es)" "candidate_dir (lr_lock R) (lr_nonce R) \<noteq> lr_lock R"
  shows "exec (serve_lock S n clock r) (acquire_round R (ls_realm S (ls_process S n)) d) (w, t) =
    (if d \<le> clock t then Inl (locked_error R) else Inr False, (w, Suc t))"
  using exec_round [OF assms(1) _ assms(5,6), of fs] assms(2,3) exec_inspect_held [OF assms(2,4)]
  by (simp add: exec_bind exec_past_deadline)

lemma exec_rounds_held:
  assumes "lw_pending w (ls_process S n) = []" "lw_disk w (lr_lock R) = Some (Folder fs)" "fs \<noteq> []" "\<not> recoverable S n w fs"
    and "lw_disk w (candidate_dir (lr_lock R) (lr_nonce R)) = Some (Folder es)" "candidate_dir (lr_lock R) (lr_nonce R) \<noteq> lr_lock R"
    and "i < k" "d \<le> clock (t + i)" "\<forall>j < i. clock (t + j) < d"
  shows "exec (serve_lock S n clock r) (acquire_rounds k R (ls_realm S (ls_process S n)) d) (w, t) = (Inl (locked_error R), (w, Suc (t + i)))"
  using assms(7-9)
proof (induction k arbitrary: t i)
  case (Suc k)
  note first = exec_round_held [OF assms(1-6), where clock = clock and t = t and d = d]
  show ?case
  proof (cases "d \<le> clock t")
    case True
    then have "i = 0" using Suc.prems(3) by (cases i) force+
    with True first show ?thesis by (simp add: exec_bind)
  next
    case False
    with Suc.prems(2) obtain j where j: "i = Suc j" by (cases i) auto
    have "\<forall>l < j. clock (Suc t + l) < d" using Suc.prems(3) j by auto
    with Suc.IH [of j "Suc t"] Suc.prems(1,2) j False first show ?thesis by (simp add: exec_bind)
  qed
qed simp

text \<open>The whole attempt reads the clock once for its record and once for its deadline, then once a round: it gives up at
  the first of these that is at its deadline or past it, and takes its candidate with it.\<close>

lemma exec_attempt_held:
  assumes "is_nonce n" "setting_ok S" "lw_disk w (ls_lock S n) = Some (Folder fs)" "fs \<noteq> []" "\<not> recoverable S n w fs"
    and "starts_fresh S n w" "arguments_ok S n clock" "i < ls_rounds S n" "deadline_of S n clock \<le> clock (2 + i)"
    and "\<forall>j < i. clock (2 + j) < deadline_of S n clock"
  shows "exec (serve_lock S n clock r) (attempt S n) (w, 0) = (Inl (locked_error (ls_request S n)), (w, 3 + i))"
proof -
  let ?run = "exec (serve_lock S n clock r)" and ?R = "ls_request S n" and ?c = "own_candidate S n" and ?x = "own_record S n clock"
  let ?d = "clock (Suc 0) + num_value_of (lr_wait ?R)"
  note names = request_names [OF assms(1,2)]
  have ne: "?c \<noteq> ls_lock S n" "ls_lock S n \<noteq> ?c" using lock_not_candidate [OF names(4)] by metis+
  have none: "lw_disk w ?c = None" using assms(6) by (simp add: starts_fresh_def)
  let ?w = "w\<lparr>lw_disk := (lw_disk w)(?c \<mapsto> Folder [])\<rparr>"
  let ?v = "w\<lparr>lw_disk := (lw_disk w)(?c \<mapsto> candidate_with n (owner_payload ?x))\<rparr>"
  have d: "?d \<le> clock (Suc (Suc 0) + i)" "\<forall>j < i. clock (Suc (Suc 0) + j) < ?d"
    using assms(9,10) by (simp_all add: deadline_of_def)
  have written: "?run (write_candidate ?R ?x) (?w, Suc (Suc 0)) = (Inr (), (?v, Suc (Suc 0)))"
    using exec_write_candidate [of ?w ?R] by (simp add: names)
  have "\<not> recoverable S n ?v fs" using assms(5) by (simp add: recoverable_def may_say_dead_def)
  then have waits: "?run (acquire_rounds (ls_rounds S n) ?R (ls_realm S (ls_process S n)) ?d) (?v, Suc (Suc 0)) =
      (Inl (locked_error ?R), (?v, 3 + i))"
    using exec_rounds_held [where clock = clock and t = "Suc (Suc 0)" and d = ?d and R = ?R and w = ?v and fs = fs
        and es = "[(owner_file n, Reg (owner_payload ?x))]" and i = i and k = "ls_rounds S n" and r = r] assms(3,4,6,8) d ne
    by (simp add: names starts_fresh_def candidate_with_def)
  have "cleaned n False [(owner_file n, Reg (owner_payload ?x))] = None" by (simp add: cleaned_def)
  then have cleans: "?run (clean_owner ?c n False None) (?v, 3 + i) = (Inr (), (w, 3 + i))"
    using exec_clean [of ?v ?c "[(owner_file n, Reg (owner_payload ?x))]" n None] none
    by (simp add: candidate_with_def fun_upd_idem)
  have "?run (acquire_lock (ls_rounds S n) ?R ?x ?d) (?w, Suc (Suc 0)) = (Inl (locked_error ?R), (w, 3 + i))"
    using written waits cleans by (simp add: acquire_lock_def exec_catch exec_bind names own_record_def)
  then have under: "?run (under_lock (ls_rounds S n) ?R ?x) (w, Suc 0) = (Inl (locked_error ?R), (w, 3 + i))"
    using none by (simp add: under_lock_def exec_bind exec_clock exec_make names)
  have "not_a_file (lw_disk w) (ls_lock S n)" using assms(3) by (simp add: not_a_file_def)
  with under show ?thesis
    using attempt_under [OF assms(1,2) _ assms(6,7), of r] by simp
qed

end
