(* ===== verification/LockShape.thy ===== *)
theory LockShape
  imports LockWorld
begin

section \<open>The shape of an attempt\<close>

text \<open>
  What can be read off the programs of the lock without running them: every part of an attempt but one makes no call
  of a callback (\<open>silent\<close>), and the whole brings back what the callback returns, or nothing (\<open>brings\<close>).
\<close>

text \<open>A program that never comes to a callback, one whose results satisfy a condition, and one that brings back what its
  callback returns.\<close>

primrec silent :: "'a program \<Rightarrow> bool" where
  "silent (Ret x) = True"
| "silent (Raise e) = True"
| "silent (Call c k) = (c \<noteq> CallbackReturns \<and> (\<forall>a. silent (k a)))"

primrec ends :: "('a \<Rightarrow> bool) \<Rightarrow> 'a program \<Rightarrow> bool" where
  "ends R (Ret x) = R x"
| "ends R (Raise e) = True"
| "ends R (Call c k) = (\<forall>a. ends R (k a))"

definition brings_back :: "(reply \<Rightarrow> json option program) \<Rightarrow> bool" where
  "brings_back k = ((\<forall>v. ends (\<lambda>x. x = Some v) (k (Outcome (Inr v)))) \<and> (\<forall>e. ends (\<lambda>_. False) (k (Outcome (Inl e)))))"

primrec brings :: "json option program \<Rightarrow> bool" where
  "brings (Ret x) = (x = None)"
| "brings (Raise e) = True"
| "brings (Call c k) = (if c = CallbackReturns then brings_back k else (\<forall>a. brings (k a)))"

lemma silent_try: "silent p \<Longrightarrow> (\<And>x. silent (f x)) \<Longrightarrow> (\<And>e. silent (h e)) \<Longrightarrow> silent (prog_try p f h)"
  by (induction p) auto

lemma silent_bind: "silent p \<Longrightarrow> (\<And>x. silent (f x)) \<Longrightarrow> silent (prog_bind p f)"
  unfolding prog_bind_def by (rule silent_try) auto

lemma silent_catch: "silent p \<Longrightarrow> (\<And>e. silent (h e)) \<Longrightarrow> silent (prog_catch p h)"
  unfolding prog_catch_def by (rule silent_try) auto

lemma silent_finally: "silent p \<Longrightarrow> silent q \<Longrightarrow> silent (prog_finally p q)"
  unfolding prog_finally_def by (rule silent_try) (auto intro: silent_bind)

lemma silent_simple: "silent (Ret x)" "silent (Raise e)"
  by simp_all

lemma silent_disk: "silent (on_disk c)"
  by (auto simp: on_disk_def split: reply.split)

lemma silent_do: "c \<noteq> CallbackReturns \<Longrightarrow> silent (do_call c)" "c \<noteq> CallbackReturns \<Longrightarrow> silent (ask c)"
  by (simp_all add: do_call_def ask_def)

lemma silent_clocks: "silent monotonic" "silent wall_clock" "silent (native_identity_call R)" "silent (pid_is_dead q)"
  by (auto simp: monotonic_def wall_clock_def native_identity_call_def pid_is_dead_def split: reply.split option.split)

lemmas silent_rules = silent_try silent_bind silent_catch silent_finally silent_simple silent_disk silent_do silent_clocks

lemma silent_looks: "silent (lstat p)" "silent (list_dir d)" "silent (read_owner_bytes d f)" "silent (unlink_missing_ok p)"
  by (auto simp: lstat_def list_dir_def read_owner_bytes_def unlink_missing_ok_def intro!: silent_rules split: reply.split)

lemma silent_unlink: "silent (unlink_attempts k d m progress)"
  by (induction k) (auto intro!: silent_rules split: option.split fault.split)

lemma silent_rmdir: "silent (rmdir_attempts k d)"
  by (induction k) (auto intro!: silent_rules split: fault.split)

lemma silent_clean: "silent (clean_owner d m temporary progress)"
  by (auto simp: clean_owner_def intro!: silent_rules silent_looks silent_unlink silent_rmdir)

lemma silent_plain: "silent (entries_plain d fs)"
  by (induction fs) (auto intro!: silent_rules silent_looks split: file_kind.split)

lemma silent_inspect: "silent (inspect_lock d i)"
  by (auto simp: inspect_lock_def inspect_folder_def inspect_owner_def intro!: silent_rules silent_looks silent_plain silent_clean
      split: file_kind.split fault.split list.split option.split)

lemma silent_replace: "silent (replace_attempts k d m)"
  by (induction k) (auto intro!: silent_rules split: fault.split)

lemma silent_release: "silent (release_lock d x)"
  by (auto simp: release_lock_def observe_own_def publish_release_def intro!: silent_rules silent_looks silent_clean silent_replace
      split: option.split)

lemma silent_flush_all: "silent (flush_all ps)"
  by (induction ps) (auto simp: flush_one_def intro!: silent_rules silent_release)

lemma silent_flush: "silent flush_pending"
  by (auto simp: flush_pending_def intro: silent_flush_all split: reply.split)

lemma silent_check: "silent (check_existing R b)"
  by (auto simp: check_existing_def intro!: silent_rules silent_looks split: file_kind.split)

lemma silent_round: "silent (acquire_round R i d)"
  by (auto simp: acquire_round_def publish_candidate_def past_deadline_def
      intro!: silent_rules silent_flush silent_check silent_inspect split: fault.split verdict.split)

lemma silent_rounds: "silent (acquire_rounds k R i d)"
  by (induction k) (auto intro!: silent_rules silent_round)

lemma silent_acquire: "silent (acquire_lock k R x d)"
  by (auto simp: acquire_lock_def write_candidate_def Let_def intro!: silent_rules silent_rounds silent_clean)

lemma brings_try: "silent p \<Longrightarrow> (\<And>x. brings (f x)) \<Longrightarrow> (\<And>e. brings (h e)) \<Longrightarrow> brings (prog_try p f h)"
  by (induction p) auto

lemma brings_bind: "silent p \<Longrightarrow> (\<And>x. brings (f x)) \<Longrightarrow> brings (prog_bind p f)"
  unfolding prog_bind_def by (rule brings_try) auto

lemma ends_try: "(\<And>x. ends R (f x)) \<Longrightarrow> (\<And>e. ends R (h e)) \<Longrightarrow> ends R (prog_try p f h)"
  by (induction p) auto

lemma ends_bind: "(\<And>x. ends R (f x)) \<Longrightarrow> ends R (prog_bind p f)"
  unfolding prog_bind_def by (rule ends_try) auto

lemma brings_callback: "brings (prog_finally (prog_bind run_callback (\<lambda>v. Ret (Some v))) q)"
  by (auto simp: prog_finally_def prog_bind_def run_callback_def brings_back_def intro: ends_try ends_bind)

lemma attempt_brings: "brings (attempt S n)"
  unfolding attempt_def with_file_owner_lock_def under_lock_def
  by (auto simp: Let_def intro!: brings_bind brings_callback silent_clocks silent_flush silent_check silent_disk silent_acquire)

end
