(* ===== verification/LockProps.thy ===== *)
theory LockProps
  imports LockHeld LockShape
begin

section \<open>What the owner-file lock guarantees\<close>

text \<open>
  The properties of \<open>stores/_file_owner_lock.py\<close>: mutual exclusion in any pool of attempts, and what one attempt does
  that is left alone with a lock that is free, abandoned or held. The instances are two processes and one lock.
\<close>

subsection \<open>Runs\<close>

abbreviation lock_runs :: "lock_setting \<Rightarrow> lock_world \<Rightarrow> lock_world \<times> (string \<Rightarrow> json option program) \<Rightarrow> bool" where
  "lock_runs S w\<^sub>0 y \<equiv> pool_runs (lock_sys S) (runs_in S) (world_event S) (w\<^sub>0, attempt S) y"

text \<open>An attempt is in its callback when the end of the callback is what it does next.\<close>

definition in_callback :: "json option program \<Rightarrow> bool" where
  "in_callback p = (\<exists>k. p = Call CallbackReturns k)"

text \<open>Before any attempt: nobody owns a lock who could still run, and the records in lock directories are those of
  attempts of dead processes.\<close>

definition fresh_start :: "lock_setting \<Rightarrow> lock_world \<Rightarrow> bool" where
  "fresh_start S w =
     (lw_left w = {} \<and> lw_alive w \<inter> lw_dead w = {} \<and> lw_pending w = (\<lambda>_. [])
      \<and> (\<forall>n. at_work S n w \<longrightarrow> \<not> owns S n (lw_disk w)) \<and> disk_records S w)"

lemma fresh_inv: "fresh_start S w \<Longrightarrow> lock_inv S w"
  by (auto simp: fresh_start_def lock_inv_def one_owner_def)

lemma attempts_allowed:
  assumes "setting_ok S" "fresh_start S w\<^sub>0" "lock_runs S w\<^sub>0 (w, T)" "T n = Call c k" "runs_in S n w"
  shows "lock_inv S w \<and> lock_allowed S n c w"
proof (rule locks.pool_allowed [OF assms(3) _ _ assms(4,5)])
  show "lock_inv S (fst (w\<^sub>0, attempt S))" using fresh_inv [OF assms(2)] by simp
next
  fix i show "locks.keeps S (snd (w\<^sub>0, attempt S) i) i (fst (w\<^sub>0, attempt S)) (\<lambda>_ _. True) (\<lambda>_ _. True)"
    using attempt_kept [OF assms(1), of i] fresh_inv [OF assms(2)] assms(2) by (simp add: locks.spec_def fresh_start_def)
qed

lemma callback_owns:
  assumes "setting_ok S" "fresh_start S w\<^sub>0" "lock_runs S w\<^sub>0 (w, T)" "in_callback (T n)" "runs_in S n w"
  shows "lock_inv S w \<and> at_work S n w \<and> owns S n (lw_disk w)"
proof -
  from assms(4) obtain k where "T n = Call CallbackReturns k" unfolding in_callback_def by blast
  from attempts_allowed [OF assms(1-3) this assms(5)] assms(5) show ?thesis
    by (auto simp: lock_allowed_def at_work_def runs_in_def lock_inv_def)
qed

subsection \<open>The way to the callback\<close>

text \<open>What holds of an attempt alone at its start and is kept by its calls holds when it comes to its callback.\<close>

definition call_closed ::
  "lock_setting \<Rightarrow> string \<Rightarrow> (nat \<Rightarrow> rat) \<Rightarrow> fault + json \<Rightarrow> (lock_world \<times> nat \<Rightarrow> json option program \<Rightarrow> bool) \<Rightarrow> bool" where
  "call_closed S n clock r to =
     (\<forall>z c k. to z (Call c k) \<longrightarrow> c \<noteq> CallbackReturns \<longrightarrow>
        to (snd (serve_lock S n clock r c z)) (k (fst (serve_lock S n clock r c z))))"

lemma closed_then:
  assumes "call_closed S n clock r to" "to z (prog_bind p f)" "silent p" "exec (serve_lock S n clock r) p z = (Inr y, v)"
  shows "to v (f y)"
  using assms(2-4)
proof (induction p arbitrary: z)
  case (Call c k)
  from Call.prems(1) have "to z (Call c (\<lambda>a. prog_bind (k a) f))" by (simp add: prog_bind_def)
  with assms(1) Call.prems(2) have "to (snd (serve_lock S n clock r c z)) (prog_bind (k (fst (serve_lock S n clock r c z))) f)"
    unfolding call_closed_def by (metis silent.simps(3))
  from Call.IH [OF _ this] Call.prems(2,3) show ?case by simp
qed (simp_all add: prog_bind_def)

definition called_back :: "lock_setting \<Rightarrow> string \<Rightarrow> (nat \<Rightarrow> rat) \<Rightarrow> json option program" where
  "called_back S n clock =
     prog_finally (prog_bind run_callback (\<lambda>v. Ret (Some v))) (release_after (ls_request S n) (own_record S n clock))"

lemma callback_path:
  assumes "is_nonce n" "setting_ok S" "lock_is_free S n w" "starts_fresh S n w" "arguments_ok S n clock"
    and "clock 2 < deadline_of S n clock" "2 \<le> ls_rounds S n"
    and "call_closed S n clock r to" "to (w, 0) (attempt S n)"
  shows "\<exists>u. to (w\<lparr>lw_disk := (lw_disk w)(ls_lock S n \<mapsto> candidate_with n (owner_payload (own_record S n clock)))\<rparr>, u) (called_back S n clock)"
proof -
  let ?R = "ls_request S n" and ?x = "own_record S n clock" and ?d = "clock (Suc 0) + num_value_of (lr_wait (ls_request S n))"
  let ?w = "w\<lparr>lw_disk := (lw_disk w)(own_candidate S n \<mapsto> Folder [])\<rparr>"
  let ?under = "\<lambda>i. under_lock (ls_rounds S n) ?R \<lparr> ow_pid = lr_pid ?R, ow_identity = i, ow_nonce = n, ow_released = False,
      ow_expires_at = \<lfloor>clock 0 + num_value_of (lr_ttl ?R)\<rfloor> \<rparr>"
  let ?rest = "prog_bind flush_pending (\<lambda>_. prog_bind (check_existing ?R False) (\<lambda>_. prog_bind (native_identity_call ?R) ?under))"
  note path = closed_then [OF assms(8)]
  have mine: "?under (ls_realm S (ls_process S n)) = under_lock (ls_rounds S n) ?R ?x"
    using assms(2) by (simp add: own_record_def expires_at_def setting_ok_def)
  have own: "ow_identity ?x = ls_realm S (ls_process S n)" by (simp add: own_record_def)
  have pending: "lw_pending w (ls_process S n) = []" and none: "lw_disk w (own_candidate S n) = None"
    using assms(4) by (simp_all add: starts_fresh_def)
  have no_file: "not_a_file (lw_disk w) (lr_lock ?R)" using not_a_file_free [OF assms(3)] by (simp add: request_names [OF assms(1,2)])
  have "\<exists>f. attempt S n = prog_bind wall_clock f \<and> f (clock 0) = ?rest"
    using assms(1,5) by (auto simp: attempt_def with_file_owner_lock_def arguments_ok_def expires_at_def Let_def
        request_names [OF assms(1,2)])
  then obtain f where f: "attempt S n = prog_bind wall_clock f" "f (clock 0) = ?rest" by blast
  from path [OF assms(9) [unfolded f(1)] silent_clocks(2) exec_clock(2)] have "to (w, Suc 0) ?rest" by (simp add: f(2))
  from path [OF path [OF path [OF this silent_flush exec_flush [OF pending]] silent_check exec_check [OF no_file]] silent_clocks(3) exec_identity]
  have "to (w, Suc 0) (under_lock (ls_rounds S n) ?R ?x)" unfolding mine .
  from path [OF path [OF this [unfolded under_lock_def request_names [OF assms(1,2)]] silent_clocks(1) exec_clock(1)] silent_disk exec_make [OF none]]
  have made: "to (?w, Suc (Suc 0)) (prog_bind (acquire_lock (ls_rounds S n) ?R ?x ?d)
      (\<lambda>taken. if \<not> taken then Ret None else called_back S n clock))" unfolding called_back_def .
  have "clock (Suc (Suc 0)) < ?d" using assms(6) by (simp add: deadline_of_def numeral_2_eq_2)
  from exec_acquired [where clock = clock and t = "Suc (Suc 0)", OF assms(1-4) this own assms(7)] obtain u where
    "exec (serve_lock S n clock r) (acquire_lock (ls_rounds S n) ?R ?x ?d) (?w, Suc (Suc 0)) =
      (Inr True, (w\<lparr>lw_disk := (lw_disk w)(ls_lock S n \<mapsto> candidate_with n (owner_payload ?x))\<rparr>, u))" by blast
  from path [OF made silent_acquire this] show ?thesis by auto
qed

lemma reaches_callback:
  assumes "is_nonce n" "setting_ok S" "lock_is_free S n w" "starts_fresh S n w" "arguments_ok S n clock"
    and "clock 2 < deadline_of S n clock" "2 \<le> ls_rounds S n" "alone_ok S n (w, 0)"
  shows "\<exists>v p. pool_runs (lock_sys S) (runs_in S) (world_event S) (w, T(n := attempt S n)) (v, T(n := p))
    \<and> in_callback p \<and> runs_in S n v"
proof -
  let ?to = "\<lambda>z p. pool_runs (lock_sys S) (runs_in S) (world_event S) (w, T(n := attempt S n)) (fst z, T(n := p)) \<and> alone_ok S n z"
  have "call_closed S n clock (Inr JNull) ?to"
    unfolding call_closed_def
  proof (intro allI impI)
    fix z c k assume z: "?to z (Call c k)"
    have "pool_runs (lock_sys S) (runs_in S) (world_event S) (fst z, T(n := prog_bind (Call c Ret) k))
        (fst (snd (serve_lock S n clock (Inr JNull) c z)), (T(n := prog_bind (Call c Ret) k))(n := k (fst (serve_lock S n clock (Inr JNull) c z))))
      \<and> alone_ok S n (snd (serve_lock S n clock (Inr JNull) c z))"
      by (rule lock_solo_prefix [where p = "Call c Ret" and clock = clock and r = "Inr JNull"]) (use z in simp_all)
    with z show "?to (snd (serve_lock S n clock (Inr JNull) c z)) (k (fst (serve_lock S n clock (Inr JNull) c z)))"
      by (auto simp: prog_bind_def intro: runs_trans)
  qed
  moreover have "?to (w, 0) (attempt S n)" using assms(8) by (simp add: runs_refl)
  ultimately obtain u where "?to (w\<lparr>lw_disk := (lw_disk w)(ls_lock S n \<mapsto> candidate_with n (owner_payload (own_record S n clock)))\<rparr>, u) (called_back S n clock)"
    using callback_path [OF assms(1-7)] by blast
  moreover have "in_callback (called_back S n clock)"
    by (simp add: called_back_def in_callback_def prog_finally_def prog_bind_def run_callback_def)
  ultimately show ?thesis by (auto simp: alone_ok_def)
qed

text \<open>An attempt alone is a run of the pool.\<close>

lemma attempt_solo:
  assumes "alone_ok S n (w, 0)" "exec (serve_lock S n clock r) (attempt S n) (w, 0) = (y, (v, u))"
  shows "pool_runs (lock_sys S) (runs_in S) (world_event S) (w, T(n := attempt S n)) (v, T(n := outcome_of y))"
proof -
  have "pool_runs (lock_sys S) (runs_in S) (world_event S) (fst (w, 0 :: nat), T(n := attempt S n))
      (fst (snd (exec (serve_lock S n clock r) (attempt S n) (w, 0))),
       (T(n := attempt S n))(n := outcome_of (fst (exec (serve_lock S n clock r) (attempt S n) (w, 0)))))"
    by (rule solo_run [where I = "alone_ok S n" and shows_state = fst]) (use serve_lock_ok assms(1) in auto)
  with assms(2) show ?thesis by simp
qed

subsection \<open>Two processes and a lock\<close>

definition nonce_of :: "char \<Rightarrow> string" where
  "nonce_of c = replicate 32 c"

definition small_realm :: identity where
  "small_realm = \<lparr> id_platform = ''linux'', id_boot = ''b'', id_namespace = Some ''pid:[1]'' \<rparr>"

text \<open>Process 0 has pid 1, process 1 has pid 2, the others had pid 3. All of them want one lock, for a second.\<close>

definition small_process :: "string \<Rightarrow> nat" where
  "small_process n = (if n = nonce_of (CHR ''a'') then 0 else if n = nonce_of (CHR ''b'') then 1 else 2)"

definition small_pid :: "nat \<Rightarrow> int" where
  "small_pid p = (if p = 0 then 1 else if p = 1 then 2 else 3)"

definition small_locks :: lock_setting where
  "small_locks =
     \<lparr> ls_process = small_process, ls_pid = small_pid, ls_realm = (\<lambda>_. small_realm),
       ls_request = (\<lambda>n. \<lparr> lr_lock = ''k.json.lock'', lr_key = ''k'', lr_ttl = JInt 60, lr_wait = JInt 1, lr_nonce = n,
          lr_pid = small_pid (small_process n), lr_platform = ''linux'' \<rparr>),
       ls_rounds = (\<lambda>_. 2) \<rparr>"

definition small_lock_world :: "disk \<Rightarrow> lock_world" where
  "small_lock_world D =
     \<lparr> lw_disk = D, lw_alive = {0, 1}, lw_dead = {2}, lw_left = {}, lw_unlinked = {}, lw_pending = (\<lambda>_. []),
       lw_gates = Map.empty \<rparr>"

text \<open>The record that the attempt \<open>n\<close> writes, and a lock directory with nothing but it.\<close>

definition small_record :: "string \<Rightarrow> lock_owner" where
  "small_record n =
     \<lparr> ow_pid = small_pid (small_process n), ow_identity = small_realm, ow_nonce = n, ow_released = False, ow_expires_at = 60 \<rparr>"

definition small_owned :: "string \<Rightarrow> disk" where
  "small_owned n = [''k.json.lock'' \<mapsto> candidate_with n (owner_payload (small_record n))]"

lemma small_fields [simp]:
  "ls_process small_locks = small_process" "ls_pid small_locks = small_pid" "ls_realm small_locks p = small_realm"
  "ls_rounds small_locks n = 2" "lw_disk (small_lock_world D) = D"
  by (simp_all add: small_locks_def small_lock_world_def)

lemma small_nonces:
  "is_nonce (nonce_of (CHR ''a''))" "is_nonce (nonce_of (CHR ''b''))" "is_nonce (nonce_of (CHR ''c''))"
  by (simp_all add: is_nonce_def nonce_of_def list_all_iff is_lower_hex_def is_digit_def byte_of_def)

lemma nonce_of_inj [simp]: "nonce_of c = nonce_of d \<longleftrightarrow> c = d"
  by (simp add: nonce_of_def)

lemma small_realm_valid: "valid_identity small_realm"
  by (auto simp: valid_identity_def small_realm_def is_bounded_def opt_text_def byte_of_def intro!: utf8_ok_ascii)

lemma small_locks_ok: "setting_ok small_locks"
  using small_realm_valid by (auto simp: setting_ok_def small_locks_def ls_lock_def is_lock_name_def small_pid_def)

lemma small_lock_name [simp]: "ls_lock small_locks n = ''k.json.lock''"
  by (simp add: small_locks_def ls_lock_def)

lemma small_record_valid: "is_nonce n \<Longrightarrow> valid_owner (small_record n)"
  using small_realm_valid by (simp add: valid_owner_def small_record_def small_pid_def)

lemma small_alone: "n \<in> {nonce_of (CHR ''a''), nonce_of (CHR ''b'')} \<Longrightarrow> alone_ok small_locks n (small_lock_world D, 0)"
  using small_realm_valid
  by (auto simp: alone_ok_def runs_in_def small_lock_world_def small_locks_def small_process_def)

lemma small_arguments: "0 \<le> clock 0 \<Longrightarrow> clock 0 \<le> 1 \<Longrightarrow> arguments_ok small_locks n clock"
  by (simp add: arguments_ok_def small_locks_def lock_args_ok_def finite_num_def expires_at_def num_value_of_def
      floor_le_iff le_floor_iff abs_le_iff)

lemma small_start: "starts_fresh small_locks n (small_lock_world D)" if "D (own_candidate small_locks n) = None"
  using that by (simp add: starts_fresh_def small_lock_world_def)

lemma small_candidate: "is_nonce n \<Longrightarrow> own_candidate small_locks n \<noteq> ''k.json.lock''"
  using lock_not_candidate [OF setting_lock [OF small_locks_ok]] small_lock_name by metis

lemma small_abandoned:
  assumes "is_nonce n" "small_process n = 2"
  shows "lock_is_free small_locks m (small_lock_world (small_owned n))"
proof -
  have "left_behind (small_record n) [(owner_file n, Reg (owner_payload (small_record n)))]"
    by (simp add: left_behind_def small_record_def)
  moreover have "may_say_dead small_locks (small_process m) (ow_pid (small_record n)) (small_lock_world (small_owned n))"
    using assms(2) by (simp add: may_say_dead_def small_lock_world_def small_record_def small_pid_def)
  moreover have "same_identity (ow_identity (small_record n)) small_realm"
    by (simp add: same_identity_def small_record_def small_realm_def)
  ultimately have "abandoned small_locks m (small_lock_world (small_owned n)) [(owner_file n, Reg (owner_payload (small_record n)))]"
    using small_record_valid [OF assms(1)] unfolding abandoned_def by auto
  then show ?thesis by (simp add: lock_is_free_def) (simp add: small_owned_def candidate_with_def)
qed

lemma small_held:
  assumes "is_nonce n" "small_process n \<in> {0, 1}"
  shows "\<not> recoverable small_locks m (small_lock_world D) [(owner_file n, Reg (owner_payload (small_record n)))]"
proof -
  have "parse_owner (owner_payload (small_record n)) (owner_file n) = Some (small_record n)"
    using parse_payload [OF small_record_valid [OF assms(1)]] by (simp add: small_record_def)
  then show ?thesis using assms(2)
    by (auto simp: recoverable_def may_say_dead_def small_lock_world_def small_locks_def small_record_def small_pid_def split: if_splits)
qed

lemma small_fresh: "fresh_start small_locks (small_lock_world Map.empty)"
  by (simp add: fresh_start_def small_lock_world_def owns_def disk_records_def)

subsection \<open>The properties\<close>

text \<open>C7: never two at once. However many attempts at however many locks run beside each other, in any number of
  processes, with any call failing, any write torn, any process killed at any moment and its pid used again, with
  locks that were left behind by the dead and releases left pending, and with every other file of the directory
  changing at will: two attempts at one lock whose processes
  live are never both in their callbacks, and the record of the one that is stands in the lock.\<close>

theorem one_callback_at_a_time:
  assumes "setting_ok S" "fresh_start S w\<^sub>0" "lock_runs S w\<^sub>0 (w, T)"
    and "in_callback (T n)" "runs_in S n w" "in_callback (T m)" "runs_in S m w" "ls_lock S n = ls_lock S m"
  shows "n = m \<and> owns S n (lw_disk w)"
  using callback_owns [OF assms(1-5)] callback_owns [OF assms(1-3,6,7)] assms(8) by (auto simp: lock_inv_def one_owner_def)

theorem one_callback_at_a_time_witness:
  "\<exists>w T. lock_runs small_locks (small_lock_world Map.empty) (w, T) \<and> in_callback (T (nonce_of (CHR ''a'')))
     \<and> owns small_locks (nonce_of (CHR ''a'')) (lw_disk w)
     \<and> (\<forall>m. in_callback (T m) \<and> runs_in small_locks m w \<longrightarrow> m = nonce_of (CHR ''a''))"
proof -
  let ?a = "nonce_of (CHR ''a'')" and ?w = "small_lock_world Map.empty"
  have "lock_is_free small_locks ?a ?w" by (simp add: lock_is_free_def small_lock_world_def)
  moreover have "starts_fresh small_locks ?a ?w" by (rule small_start) simp
  moreover have "(\<lambda>_. 0) 2 < deadline_of small_locks ?a (\<lambda>_. 0)"
    by (simp add: deadline_of_def small_locks_def num_value_of_def)
  moreover have "arguments_ok small_locks ?a (\<lambda>_. 0)" by (rule small_arguments) simp_all
  moreover have "alone_ok small_locks ?a (?w, 0)" by (rule small_alone) simp
  ultimately have "\<exists>v p. pool_runs (lock_sys small_locks) (runs_in small_locks) (world_event small_locks)
      (?w, (attempt small_locks)(?a := attempt small_locks ?a)) (v, (attempt small_locks)(?a := p)) \<and> in_callback p \<and> runs_in small_locks ?a v"
    by (intro reaches_callback [OF small_nonces(1) small_locks_ok]) simp_all
  then obtain v p where run: "pool_runs (lock_sys small_locks) (runs_in small_locks) (world_event small_locks)
      (?w, (attempt small_locks)(?a := attempt small_locks ?a)) (v, (attempt small_locks)(?a := p))"
    and p: "in_callback p" "runs_in small_locks ?a v" by blast
  from run have run: "lock_runs small_locks ?w (v, (attempt small_locks)(?a := p))" by simp
  let ?T = "(attempt small_locks)(?a := p)"
  have here: "in_callback (?T ?a)" using p(1) by simp
  have "?a = m \<and> owns small_locks ?a (lw_disk v)" if "in_callback (?T m)" "runs_in small_locks m v" for m
    by (rule one_callback_at_a_time [OF small_locks_ok small_fresh run here p(2) that]) simp
  with run here p(2) show ?thesis by blast
qed

text \<open>C39: a lock that is free, or was left behind by an owner of the same realm that is dead or has released it, is
  taken. Every run of an attempt that meets no failure while the others wait, whatever its clock says, enters its
  callback within two rounds if the wait is not over at its first look at the clock (with no time to wait even a
  free lock may be refused): it returns what the callback returns or raises what it raises, and leaves nothing
  of the lock or of its candidate. That run is one of the pool's: such an attempt can take its steps beside any
  others, and comes to its callback on the way.\<close>

theorem abandoned_lock_is_taken:
  assumes "is_nonce n" "setting_ok S" "lock_is_free S n w" "starts_fresh S n w" "arguments_ok S n clock" "alone_ok S n (w, 0)"
    and "clock 2 < deadline_of S n clock" "2 \<le> ls_rounds S n" "T n = attempt S n"
  shows "\<exists>v u. exec (serve_lock S n clock r) (attempt S n) (w, 0)
        = (case r of Inr x \<Rightarrow> Inr (Some x) | Inl e \<Rightarrow> Inl e, (v, u))
    \<and> pool_runs (lock_sys S) (runs_in S) (world_event S) (w, T)
        (v, T(n := (case r of Inr x \<Rightarrow> Ret (Some x) | Inl e \<Rightarrow> Raise e)))
    \<and> v = w\<lparr>lw_disk := (lw_disk w)(ls_lock S n := None), lw_left := insert n (lw_left w), lw_unlinked := insert n (lw_unlinked w)\<rparr>
    \<and> (\<exists>u p. pool_runs (lock_sys S) (runs_in S) (world_event S) (w, T) (u, T(n := p)) \<and> in_callback p)"
proof -
  obtain u where run: "exec (serve_lock S n clock r) (attempt S n) (w, 0) =
    (case r of Inr v \<Rightarrow> Inr (Some v) | Inl e \<Rightarrow> Inl e,
     (w\<lparr>lw_disk := (lw_disk w)(ls_lock S n := None), lw_left := insert n (lw_left w), lw_unlinked := insert n (lw_unlinked w)\<rparr>, u))"
    using exec_attempt [OF assms(1-5,7,8)] by blast
  have T: "T(n := attempt S n) = T" using assms(9) by auto
  have o: "outcome_of (case r of Inr v \<Rightarrow> Inr (Some v) | Inl e \<Rightarrow> Inl e) = (case r of Inr x \<Rightarrow> Ret (Some x) | Inl e \<Rightarrow> Raise e)"
    by (cases r) (simp_all add: outcome_of_def)
  obtain z p where "pool_runs (lock_sys S) (runs_in S) (world_event S) (w, T) (z, T(n := p))" "in_callback p"
    using reaches_callback [OF assms(1-5,7,8,6), of T] unfolding T by blast
  with attempt_solo [OF assms(6) run, of T] run show ?thesis unfolding T o by blast
qed

theorem abandoned_lock_is_taken_witness:
  "\<exists>v. lock_runs small_locks (small_lock_world (small_owned (nonce_of (CHR ''c''))))
      (v, (attempt small_locks)(nonce_of (CHR ''a'') := Ret (Some (JInt 7))))
    \<and> lw_disk v = Map.empty"
proof -
  let ?a = "nonce_of (CHR ''a'')" and ?w = "small_lock_world (small_owned (nonce_of (CHR ''c'')))"
  have "small_process (nonce_of (CHR ''c'')) = 2" by (simp add: small_process_def)
  from small_abandoned [OF small_nonces(3) this] have free: "lock_is_free small_locks ?a ?w" .
  have start: "starts_fresh small_locks ?a ?w"
    by (rule small_start) (use small_candidate [OF small_nonces(1)] in \<open>simp add: small_owned_def\<close>)
  have clock: "(\<lambda>_. 0) 2 < deadline_of small_locks ?a (\<lambda>_. 0)" by (simp add: deadline_of_def small_locks_def num_value_of_def)
  have ok: "arguments_ok small_locks ?a (\<lambda>_. 0)" "alone_ok small_locks ?a (?w, 0)"
    by (rule small_arguments; simp) (rule small_alone; simp)
  have "2 \<le> ls_rounds small_locks ?a" by simp
  from abandoned_lock_is_taken [where clock = "\<lambda>_. 0" and T = "attempt small_locks" and r = "Inr (JInt 7)",
      OF small_nonces(1) small_locks_ok free start ok clock this refl]
  show ?thesis by (auto simp: small_owned_def)
qed

text \<open>C40: a lock that is held is left alone, and the wait for it ends when it should. In front of a lock directory that is
  not empty and has no record of an owner of the same realm known to be dead or gone (it may hold the record of the
  living or of other realms, a half written one, or strangers' files), an attempt that meets no failure raises
  \<open>session_locked\<close> at its first reading of the clock, one a round, that is not before its deadline, the moment of
  its start and its whole wait later: neither before it nor after it (\<open>3 + i\<close> readings are made in all when it
  is that of round \<open>i\<close>). Its candidate is gone and nothing else on the disk has changed.\<close>

theorem held_lock_is_left_alone:
  assumes "is_nonce n" "setting_ok S" "lw_disk w (ls_lock S n) = Some (Folder es)" "es \<noteq> []" "\<not> recoverable S n w es"
    and "starts_fresh S n w" "arguments_ok S n clock" "i < ls_rounds S n"
    and "clock 1 + num_value_of (lr_wait (ls_request S n)) \<le> clock (2 + i)"
    and "\<forall>j < i. clock (2 + j) < clock 1 + num_value_of (lr_wait (ls_request S n))"
  shows "exec (serve_lock S n clock r) (attempt S n) (w, 0) =
    (Inl (PyExn (session_locked (lr_key (ls_request S n)) (py_str (lr_wait (ls_request S n))))), (w, 3 + i))"
  using exec_attempt_held [OF assms(1-8)] assms(9,10) by (simp add: locked_error_def deadline_of_def)

theorem held_lock_is_left_alone_witness:
  "exec (serve_lock (small_locks\<lparr>ls_rounds := \<lambda>_. 5\<rparr>) (nonce_of (CHR ''a'')) (\<lambda>k. of_nat k / 2) (Inr JNull))
      (attempt (small_locks\<lparr>ls_rounds := \<lambda>_. 5\<rparr>) (nonce_of (CHR ''a''))) (small_lock_world (small_owned (nonce_of (CHR ''b''))), 0) =
    (Inl (PyExn (session_locked ''k'' (py_str (JInt 1)))), (small_lock_world (small_owned (nonce_of (CHR ''b''))), 4))"
proof -
  let ?a = "nonce_of (CHR ''a'')" and ?b = "nonce_of (CHR ''b'')" and ?S = "small_locks\<lparr>ls_rounds := \<lambda>_. 5\<rparr>"
  let ?w = "small_lock_world (small_owned ?b)" and ?clock = "\<lambda>k. of_nat k / 2 :: rat"
  have ok: "setting_ok ?S" using small_locks_ok by (simp add: setting_ok_def ls_lock_def)
  have there: "lw_disk ?w (ls_lock ?S ?a) = Some (Folder [(owner_file ?b, Reg (owner_payload (small_record ?b)))])"
    by (simp add: small_owned_def candidate_with_def ls_lock_def small_locks_def)
  have "small_process ?b \<in> {0, 1}" by (simp add: small_process_def)
  from small_held [OF small_nonces(2) this] have lives: "\<not> recoverable ?S ?a ?w [(owner_file ?b, Reg (owner_payload (small_record ?b)))]"
    by (simp add: recoverable_def may_say_dead_def)
  have names: "own_candidate ?S ?a = own_candidate small_locks ?a" "ls_process ?S = ls_process small_locks"
    by (simp_all add: own_candidate_def ls_lock_def)
  have start: "starts_fresh ?S ?a ?w"
    using small_start [of "small_owned ?b" ?a] small_candidate [OF small_nonces(1)]
    unfolding starts_fresh_def names by (simp add: small_owned_def)
  have "arguments_ok small_locks ?a ?clock" by (rule small_arguments) simp_all
  then have args: "arguments_ok ?S ?a ?clock" by (simp add: arguments_ok_def expires_at_def)
  from held_lock_is_left_alone [OF small_nonces(1) ok there _ lives start args, of 1] show ?thesis
    by (simp add: small_locks_def num_value_of_def less_Suc_eq)
qed

end
