(* ===== verification/LockedUpdate.thy ===== *)
theory LockedUpdate
  imports LockProps
begin

section \<open>Updates of a stored document under its lock\<close>

text \<open>
  What the package does with a durable store is a locked read-compute-write (\<open>locked_update\<close> of \<open>Stores\<close>): here over the
  file store, with the owner-file lock of its key, in any number of processes. An attempt is in one of two phases:
  \<open>Locking\<close> runs the program of the lock, \<open>Working\<close> the callback in the place of its \<open>CallbackReturns\<close>, with what the
  lock does afterwards. \<open>update_step\<close> interleaves the calls of all of them, with processes killed and started, any
  call failing and any write torn. The list beside the world is the order of the commits: the renames that put a
  document in its place. An update works on what it finds, and nobody else does meanwhile: \<open>works\<close> is the
  rely-guarantee logic of the callbacks, for which the lock has to see that only its holder works.
\<close>

subsection \<open>The callback\<close>

type_synonym body = "pydict option \<Rightarrow> json pyres \<times> pydict option"

definition give :: "json pyres \<Rightarrow> json program" where
  "give r = (case r of Inr v \<Rightarrow> Ret v | Inl e \<Rightarrow> Raise (PyExn e))"

definition update_program :: "(string \<Rightarrow> string) \<Rightarrow> int \<Rightarrow> string \<Rightarrow> body \<Rightarrow> json program" where
  "update_program digest pid key body =
     prog_bind (file_get digest key) (\<lambda>stored.
       case body stored of
         (r, None) \<Rightarrow> give r
       | (r, Some d) \<Rightarrow> prog_bind (file_put digest pid key d None) (\<lambda>_. give r))"

text \<open>A setting: of every attempt, beside its lock, what it does to the document and what \<open>time_ns\<close> reads there.\<close>

record update_setting =
  us_locks :: lock_setting
  us_digest :: "string \<Rightarrow> string"
  us_ns :: "string \<Rightarrow> int"
  us_body :: "string \<Rightarrow> body"
  us_start :: "string \<Rightarrow> pydict option"

definition own_key :: "update_setting \<Rightarrow> string \<Rightarrow> string" where
  "own_key U n = lr_key (ls_request (us_locks U) n)"

definition own_lock :: "update_setting \<Rightarrow> string \<Rightarrow> string" where
  "own_lock U n = ls_lock (us_locks U) n"

definition own_pid :: "update_setting \<Rightarrow> string \<Rightarrow> int" where
  "own_pid U n = ls_pid (us_locks U) (ls_process (us_locks U) n)"

definition own_data :: "update_setting \<Rightarrow> string \<Rightarrow> string" where
  "own_data U n = path_for (us_digest U) (own_key U n)"

definition own_temp :: "update_setting \<Rightarrow> string \<Rightarrow> string" where
  "own_temp U n = temporary_for (us_digest U) (own_pid U n) (us_ns U n) (own_key U n)"

definition work_of :: "update_setting \<Rightarrow> string \<Rightarrow> json program" where
  "work_of U n = update_program (us_digest U) (own_pid U n) (own_key U n) (us_body U n)"

definition body_ok :: "body \<Rightarrow> bool" where
  "body_ok b = (\<forall>d d'. (\<forall>x. d = Some x \<longrightarrow> storable True (JDict x)) \<longrightarrow> snd (b d) = Some d' \<longrightarrow> storable True (JDict d'))"

definition update_ok :: "update_setting \<Rightarrow> bool" where
  "update_ok U =
     (setting_ok (us_locks U)
      \<and> (\<forall>n. own_lock U n = lock_path_for (us_digest U) (own_key U n) \<and> utf8_ok (own_key U n) \<and> body_ok (us_body U n))
      \<and> (\<forall>l d. us_start U l = Some d \<longrightarrow> storable True (JDict d)))"

subsection \<open>Steps\<close>

datatype phase =
    Locking "json option program"
  | Working "json program" "reply \<Rightarrow> json option program"

text \<open>What the calls of a callback do. A call may fail with any error, but nothing that is there is reported missing.\<close>

inductive work_sys :: "update_setting \<Rightarrow> string \<Rightarrow> call \<Rightarrow> disk \<Rightarrow> reply \<Rightarrow> disk \<Rightarrow> bool" for U n where
  work_disk: "disk_step c D a D' \<Longrightarrow> (a = Failed ENOENT \<Longrightarrow> fst (serve c D) = Failed ENOENT) \<Longrightarrow> work_sys U n (OnDisk c) D a D'"
| work_ns: "work_sys U n TimeNs D (Count (us_ns U n)) D"
| work_clock: "work_sys U n WallClock D (Time t) D"
| work_other: "c \<notin> range OnDisk \<union> {TimeNs, WallClock} \<Longrightarrow> work_sys U n c D a D"

inductive_cases work_diskE: "work_sys U n (OnDisk c) D a D'"
inductive_cases work_nsE: "work_sys U n TimeNs D a D'"

definition commits :: "update_setting \<Rightarrow> string \<Rightarrow> call \<Rightarrow> reply \<Rightarrow> bool" where
  "commits U n c a = (c = OnDisk (Rename (Top (own_temp U n)) (Top (own_data U n))) \<and> a = Fine)"

definition log_after :: "update_setting \<Rightarrow> string \<Rightarrow> call \<Rightarrow> reply \<Rightarrow> string list \<Rightarrow> string list" where
  "log_after U n c a L = (if commits U n c a then L @ [n] else L)"

text \<open>The events of the world outside leave the files of the store alone.\<close>

definition store_spared :: "update_setting \<Rightarrow> disk \<Rightarrow> disk \<Rightarrow> bool" where
  "store_spared U D D' = (\<forall>n. D' (own_data U n) = D (own_data U n) \<and> D' (own_temp U n) = D (own_temp U n))"

type_synonym update_state = "(lock_world \<times> string list) \<times> (string \<Rightarrow> phase)"

inductive update_step :: "update_setting \<Rightarrow> update_state \<Rightarrow> update_state \<Rightarrow> bool" for U where
  lock_call: "T n = Locking (Call c k) \<Longrightarrow> c \<noteq> CallbackReturns \<Longrightarrow> runs_in (us_locks U) n w \<Longrightarrow>
    lock_sys (us_locks U) n c w a t \<Longrightarrow> update_step U ((w, L), T) ((t, L), T(n := Locking (k a)))"
| enter: "T n = Locking (Call CallbackReturns r) \<Longrightarrow> runs_in (us_locks U) n w \<Longrightarrow>
    update_step U ((w, L), T) ((w, L), T(n := Working (work_of U n) r))"
| work: "T n = Working (Call c k) r \<Longrightarrow> runs_in (us_locks U) n w \<Longrightarrow> work_sys U n c (lw_disk w) a D \<Longrightarrow>
    update_step U ((w, L), T) ((w\<lparr>lw_disk := D\<rparr>, log_after U n c a L), T(n := Working (k a) r))"
| leave: "T n = Working (Ret v) r \<Longrightarrow> runs_in (us_locks U) n w \<Longrightarrow>
    update_step U ((w, L), T) ((w\<lparr>lw_left := insert n (lw_left w)\<rparr>, L), T(n := Locking (r (Outcome (Inr v)))))"
| leave_raising: "T n = Working (Raise e) r \<Longrightarrow> runs_in (us_locks U) n w \<Longrightarrow>
    update_step U ((w, L), T) ((w\<lparr>lw_left := insert n (lw_left w)\<rparr>, L), T(n := Locking (r (Outcome (Inl e)))))"
| outside: "world_event (us_locks U) w t \<Longrightarrow> store_spared U (lw_disk w) (lw_disk t) \<Longrightarrow>
    update_step U ((w, L), T) ((t, L), T)"

inductive update_runs :: "update_setting \<Rightarrow> update_state \<Rightarrow> update_state \<Rightarrow> bool" for U where
  updates_refl: "update_runs U x x"
| updates_step: "update_runs U x y \<Longrightarrow> update_step U y z \<Longrightarrow> update_runs U x z"

inductive_cases update_stepE: "update_step U x y"

definition all_start :: "update_setting \<Rightarrow> string \<Rightarrow> phase" where
  "all_start U n = Locking (attempt (us_locks U) n)"

subsection \<open>The document\<close>

text \<open>The commits of one lock, and what they make of the document they started from.\<close>

definition log_of :: "update_setting \<Rightarrow> string \<Rightarrow> string list \<Rightarrow> string list" where
  "log_of U n L = filter (\<lambda>m. own_lock U m = own_lock U n) L"

definition doc_after :: "update_setting \<Rightarrow> string \<Rightarrow> string list \<Rightarrow> pydict option" where
  "doc_after U n L = fold (\<lambda>m. body_doc (us_body U m)) L (us_start U (own_lock U n))"

definition holds_doc :: "node option \<Rightarrow> pydict option \<Rightarrow> bool" where
  "holds_doc x d =
     (case d of
        None \<Rightarrow> x = None
      | Some p \<Rightarrow> \<exists>key. utf8_ok key \<and> x = Some (Leaf (Reg (json_dumps_default (JDict (document_of key p None))))))"

definition documents_ok :: "update_setting \<Rightarrow> disk \<Rightarrow> string list \<Rightarrow> bool" where
  "documents_ok U D L =
     (distinct L \<and> (\<forall>n. holds_doc (D (own_data U n)) (doc_after U n (log_of U n L)))
      \<and> (\<forall>d. \<not> lockish (us_locks U) d \<longrightarrow> \<not> is_folder D d))"

end
