(* ===== verification/UpdateWork.thy ===== *)
theory UpdateWork
  imports LockedUpdate
begin

section \<open>What an update does while it holds the lock\<close>

text \<open>
  \<open>works\<close> is the pool of the callbacks alone. Its state is the disk, the commits and the attempts that hold their
  locks; a call of a callback is a call of a holder, and a holder relies on its document, its temporary file and the
  commits of its lock. \<open>update_kept\<close> is the specification of an update: it reads the document as the commits before it
  left it, answers what its body answers to that, and commits what its body writes, at most once.
\<close>

subsection \<open>Names\<close>

lemma lockish_last:
  assumes "setting_ok S" "lockish S d"
  shows "d = [] \<or> last d = CHR ''k'' \<or> is_lower_hex (last d)"
proof -
  have lock: "last e = CHR ''k''" if "is_lock_name e" for e using that by (auto simp: is_lock_name_def)
  have cand: "own_candidate S n = [] \<or> is_lower_hex (last (own_candidate S n))" for n
  proof (cases "is_nonce n")
    case True
    then have "n \<noteq> []" by (auto simp: is_nonce_def)
    with True have "is_lower_hex (last n)" using last_in_set by (auto simp: is_nonce_def list_all_iff)
    with True \<open>n \<noteq> []\<close> show ?thesis by (simp add: own_candidate_def candidate_dir_def)
  qed (simp add: own_candidate_def)
  from assms(2) lock setting_lock [OF assms(1)] cand show ?thesis unfolding lockish_def by blast
qed

lemma store_names:
  assumes "update_ok U"
  shows "\<not> lockish (us_locks U) (own_data U n)" "\<not> lockish (us_locks U) (own_temp U n)"
proof -
  have S: "setting_ok (us_locks U)" using assms by (simp add: update_ok_def)
  show "\<not> lockish (us_locks U) (own_data U n)"
    using lockish_last [OF S, of "own_data U n"] by (auto simp: own_data_def path_for_def is_lower_hex_def is_digit_def byte_of_def)
  show "\<not> lockish (us_locks U) (own_temp U n)"
    using lockish_last [OF S, of "own_temp U n"] by (auto simp: own_temp_def temporary_for_def is_lower_hex_def is_digit_def byte_of_def)
qed

lemma before_first: "a @ c # x = b @ c # y \<Longrightarrow> c \<notin> set a \<Longrightarrow> c \<notin> set b \<Longrightarrow> a = b \<and> x = y"
proof (induction a arbitrary: b)
  case Nil
  then show ?case by (cases b) auto
next
  case (Cons z a)
  then show ?case by (cases b) auto
qed

lemma after_last:
  assumes "x @ c # a = y @ c # b" "c \<notin> set a" "c \<notin> set b"
  shows "x = y \<and> a = b"
proof -
  from assms(1) have "rev (x @ c # a) = rev (y @ c # b)" by simp
  then have "rev a @ c # rev x = rev b @ c # rev y" by simp
  from before_first [OF this] assms(2,3) show ?thesis by simp
qed

lemma no_dot [simp]: "CHR ''.'' \<notin> set (show_int i)"
proof -
  have "CHR ''.'' \<notin> set (show_nat n)" for n
    using show_nat_digits [of n] by (auto simp: is_digit_def byte_of_def)
  then show ?thesis by (simp add: show_int_def)
qed

lemma temporary_stem:
  assumes "temporary_for g p ns k = temporary_for g p' ns' k'"
  shows "file_stem g k = file_stem g k'"
proof -
  have *: "temporary_for g p ns k = ((file_stem g k @ CHR ''.'' # show_int p) @ CHR ''.'' # show_int ns) @ ''.tmp''" for p ns k
    by (simp add: temporary_for_def)
  from assms have "(file_stem g k @ CHR ''.'' # show_int p) @ CHR ''.'' # show_int ns = (file_stem g k' @ CHR ''.'' # show_int p') @ CHR ''.'' # show_int ns'"
    unfolding * by simp
  from after_last [OF this] have "file_stem g k @ CHR ''.'' # show_int p = file_stem g k' @ CHR ''.'' # show_int p'" by simp
  from after_last [OF this] show ?thesis by simp
qed

text \<open>Files of one attempt are files of another only if they have one lock.\<close>

lemma same_lock:
  assumes "update_ok U"
  shows "own_data U n = own_data U m \<longleftrightarrow> own_lock U n = own_lock U m" "own_temp U n = own_temp U m \<Longrightarrow> own_lock U n = own_lock U m"
    "own_temp U n \<noteq> own_data U m" "own_data U m \<noteq> own_temp U n"
proof -
  have l: "own_lock U k = file_stem (us_digest U) (own_key U k) @ ''.json.lock''" for k
    using assms by (simp add: update_ok_def lock_path_for_def)
  show "own_data U n = own_data U m \<longleftrightarrow> own_lock U n = own_lock U m" by (simp add: own_data_def path_for_def l)
  show "own_lock U n = own_lock U m" if "own_temp U n = own_temp U m"
    using temporary_stem [OF that [unfolded own_temp_def]] by (simp add: l)
  show "own_temp U n \<noteq> own_data U m" "own_data U m \<noteq> own_temp U n"
    unfolding own_temp_def own_data_def using temporary_not_path by metis+
qed

lemma log_same: "own_lock U n = own_lock U m \<Longrightarrow> log_of U n L = log_of U m L"
  by (simp add: log_of_def)

lemma doc_same: "own_lock U n = own_lock U m \<Longrightarrow> doc_after U n L = doc_after U m L"
  by (simp add: doc_after_def)

lemma log_snoc: "log_of U n (L @ [m]) = (if own_lock U m = own_lock U n then log_of U n L @ [m] else log_of U n L)"
  by (simp add: log_of_def)

lemma doc_snoc: "doc_after U n (L @ [m]) = body_doc (us_body U m) (doc_after U n L)"
  by (simp add: doc_after_def)

lemma doc_storable:
  assumes "update_ok U"
  shows "doc_after U n L = Some d \<Longrightarrow> storable True (JDict d)"
proof (induction L arbitrary: d rule: rev_induct)
  case Nil
  with assms show ?case by (auto simp: doc_after_def update_ok_def)
next
  case (snoc m L)
  have "body_ok (us_body U m)" using assms by (simp add: update_ok_def)
  with snoc.IH have written: "snd (us_body U m (doc_after U n L)) = Some d' \<Longrightarrow> storable True (JDict d')" for d'
    unfolding body_ok_def by blast
  show ?case
  proof (cases "snd (us_body U m (doc_after U n L))")
    case None
    with snoc show ?thesis by (simp add: doc_snoc body_doc_def del: storable.simps)
  next
    case (Some d')
    with written [OF Some] snoc.prems show ?thesis by (simp add: doc_snoc body_doc_def del: storable.simps)
  qed
qed

subsection \<open>The pool of the callbacks\<close>

type_synonym work_state = "disk \<times> string list \<times> string set"

inductive held_sys :: "update_setting \<Rightarrow> string \<Rightarrow> call \<Rightarrow> work_state \<Rightarrow> reply \<Rightarrow> work_state \<Rightarrow> bool" for U n where
  "n \<in> W \<Longrightarrow> work_sys U n c D a D' \<Longrightarrow> held_sys U n c (D, L, W) a (D', log_after U n c a L, W)"

inductive_cases held_sysE: "held_sys U n c s a t"

definition work_rely :: "update_setting \<Rightarrow> string \<Rightarrow> work_state \<Rightarrow> work_state \<Rightarrow> bool" where
  "work_rely U n = (\<lambda>(D, L, W) (D', L', W'). n \<in> W' \<longrightarrow>
     n \<in> W \<and> D' (own_data U n) = D (own_data U n) \<and> D' (own_temp U n) = D (own_temp U n) \<and> log_of U n L' = log_of U n L)"

definition one_holder :: "update_setting \<Rightarrow> string set \<Rightarrow> bool" where
  "one_holder U W = (\<forall>n \<in> W. \<forall>m \<in> W. own_lock U n = own_lock U m \<longrightarrow> n = m)"

definition work_inv :: "update_setting \<Rightarrow> work_state \<Rightarrow> bool" where
  "work_inv U = (\<lambda>(D, L, W). documents_ok U D L \<and> one_holder U W)"

definition work_allowed :: "update_setting \<Rightarrow> string \<Rightarrow> call \<Rightarrow> work_state \<Rightarrow> bool" where
  "work_allowed U n c = (\<lambda>(D, L, W). \<forall>a D'. n \<in> W \<longrightarrow> work_sys U n c D a D' \<longrightarrow> only_at {own_temp U n, own_data U n} D D')"

interpretation works: rely_guarantee "held_sys U" "\<lambda>_ _. True" "\<lambda>_ _. False" "work_inv U" "work_rely U" "work_allowed U" for U
  by unfold_locales (auto simp: work_rely_def)

text \<open>A call keeps what it must when it touches the files of its own attempt only, and leaves its document, or commits
  the next one.\<close>

lemma work_step_ok:
  assumes "update_ok U" "work_inv U (D, L, W)" "n \<in> W" "only_at {own_temp U n, own_data U n} D D'"
    and "\<not> is_folder D' (own_temp U n)" "\<not> is_folder D' (own_data U n)"
    and "(L' = L \<and> D' (own_data U n) = D (own_data U n)) \<or>
      (L' = L @ [n] \<and> n \<notin> set L \<and> holds_doc (D' (own_data U n)) (body_doc (us_body U n) (doc_after U n (log_of U n L))))"
  shows "works.step_ok U n c (D, L, W) a (D', L', W)"
proof -
  from assms(2) have D: "distinct L" "\<And>m. holds_doc (D (own_data U m)) (doc_after U m (log_of U m L))" "one_holder U W"
    and F: "\<And>d. \<not> lockish (us_locks U) d \<Longrightarrow> \<not> is_folder D d" by (simp_all add: work_inv_def documents_ok_def)
  note S = same_lock [OF assms(1)]
  have away: "D' (own_data U m) = D (own_data U m)" "log_of U m L' = log_of U m L" if "own_lock U m \<noteq> own_lock U n" for m
    using that assms(4,7) S(1) [of m n] S(4) [of m n] by (auto simp: only_at_def log_snoc)
  have "holds_doc (D' (own_data U m)) (doc_after U m (log_of U m L'))" for m
  proof (cases "own_lock U m = own_lock U n")
    case False
    with away D(2) [of m] show ?thesis by simp
  next
    case True
    then have eq: "own_data U m = own_data U n" "\<And>L. log_of U m L = log_of U n L" "\<And>L. doc_after U m L = doc_after U n L"
      using S(1) log_same doc_same by metis+
    from assms(7) D(2) [of n] show ?thesis by (auto simp: eq log_snoc doc_snoc)
  qed
  moreover have "distinct L'" using assms(7) D(1) by auto
  moreover have "\<not> is_folder D' d" if "\<not> lockish (us_locks U) d" for d
    using that F assms(4-6) by (cases "d \<in> {own_temp U n, own_data U n}") (auto simp: only_at_def is_folder_def)
  ultimately have "work_inv U (D', L', W)" using D(3) by (simp add: work_inv_def documents_ok_def)
  moreover have "work_rely U m (D, L, W) (D', L', W)" if "m \<noteq> n" for m
  proof (cases "m \<in> W")
    case True
    with D(3) assms(3) that have ne: "own_lock U m \<noteq> own_lock U n" by (auto simp: one_holder_def)
    with S(2) [of m n] have "own_temp U m \<noteq> own_temp U n" by blast
    with assms(4) S(3) [of m n] have "D' (own_temp U m) = D (own_temp U m)" by (simp add: only_at_def)
    with away [OF ne] True show ?thesis by (simp add: work_rely_def)
  qed (simp add: work_rely_def)
  ultimately show ?thesis by (simp add: works.step_ok_def)
qed

subsection \<open>Assertions of a holder\<close>

text \<open>Of its document, its temporary file and the commits of its lock, as long as it holds it.\<close>

definition holder ::
  "update_setting \<Rightarrow> string \<Rightarrow> (node option \<Rightarrow> node option \<Rightarrow> string list \<Rightarrow> bool) \<Rightarrow> work_state \<Rightarrow> bool" where
  "holder U n P = (\<lambda>(D, L, W). n \<in> W \<longrightarrow> P (D (own_data U n)) (D (own_temp U n)) (log_of U n L))"

lemma stable_holder: "works.stable U n (holder U n P)"
  by (auto simp: works.stable_def holder_def work_rely_def)

lemma log_member [simp]: "n \<in> set (log_of U n L) \<longleftrightarrow> n \<in> set L"
  by (auto simp: log_of_def)

abbreviation kept ::
  "update_setting \<Rightarrow> string \<Rightarrow> (node option \<Rightarrow> node option \<Rightarrow> string list \<Rightarrow> bool) \<Rightarrow> 'a program
     \<Rightarrow> ('a \<Rightarrow> node option \<Rightarrow> node option \<Rightarrow> string list \<Rightarrow> bool) \<Rightarrow> (fault \<Rightarrow> node option \<Rightarrow> node option \<Rightarrow> string list \<Rightarrow> bool) \<Rightarrow> bool" where
  "kept U n P p Q E \<equiv> works.spec U n (holder U n P) p (\<lambda>x. holder U n (Q x)) (\<lambda>e. holder U n (E e))"

lemma kept_Ret: "(\<And>x t l. P x t l \<Longrightarrow> Q v x t l) \<Longrightarrow> kept U n P (Ret v) Q E"
  by (rule works.spec_Ret [OF stable_holder]) (auto simp: holder_def)

lemma kept_Raise: "(\<And>x t l. P x t l \<Longrightarrow> E e x t l) \<Longrightarrow> kept U n P (Raise e) Q E"
  by (rule works.spec_Raise [OF stable_holder]) (auto simp: holder_def)

lemma kept_try:
  "kept U n P p R F \<Longrightarrow> (\<And>x. kept U n (R x) (f x) Q E) \<Longrightarrow> (\<And>e. kept U n (F e) (h e) Q E) \<Longrightarrow> kept U n P (prog_try p f h) Q E"
  by (rule works.spec_try)

lemma kept_bind: "kept U n P p R E \<Longrightarrow> (\<And>x. kept U n (R x) (f x) Q E) \<Longrightarrow> kept U n P (prog_bind p f) Q E"
  unfolding prog_bind_def by (erule kept_try) (auto intro: kept_Raise)

lemma kept_pre: "kept U n P p Q E \<Longrightarrow> (\<And>x t l. P' x t l \<Longrightarrow> P x t l) \<Longrightarrow> kept U n P' p Q E"
  by (erule works.spec_pre) (auto simp: holder_def)

text \<open>Who does not hold its lock makes no call.\<close>

lemma kept_never: "kept U n (\<lambda>_ _ _. False) p Q E"
proof -
  have "works.keeps U p n s (\<lambda>x. holder U n (Q x)) (\<lambda>e. holder U n (E e))" if "holder U n (\<lambda>_ _ _. False) s" for s
    using that
  proof (induction p arbitrary: s)
    case (Call c k)
    have "n \<notin> snd (snd t)" if "work_rely U n s t" for t
      using Call.prems that by (auto simp: holder_def work_rely_def)
    then show ?case unfolding works.keeps.simps by (auto simp: work_allowed_def elim!: held_sysE)
  qed (auto simp: holder_def work_rely_def)
  then show ?thesis by (simp add: works.spec_def)
qed

lemma kept_fact: "(\<And>x t l. P x t l \<Longrightarrow> b) \<Longrightarrow> (b \<Longrightarrow> kept U n P p Q E) \<Longrightarrow> kept U n P p Q E"
  by (cases b) (auto intro: kept_pre [OF kept_never])

text \<open>A call of a holder, that commits or does not.\<close>

lemma kept_Call:
  assumes U: "update_ok U"
    and "\<And>D L W a D'. documents_ok U D L \<Longrightarrow> P (D (own_data U n)) (D (own_temp U n)) (log_of U n L) \<Longrightarrow> work_sys U n c D a D' \<Longrightarrow>
      only_at {own_temp U n, own_data U n} D D' \<and> \<not> is_folder D' (own_temp U n) \<and> \<not> is_folder D' (own_data U n)
      \<and> (if commits U n c a
         then n \<notin> set L \<and> holds_doc (D' (own_data U n)) (body_doc (us_body U n) (doc_after U n (log_of U n L)))
         else D' (own_data U n) = D (own_data U n))
      \<and> R a (D' (own_data U n)) (D' (own_temp U n)) (log_of U n (log_after U n c a L))"
    and "\<And>a. kept U n (R a) (k a) Q E"
  shows "kept U n P (Call c k) Q E"
proof (rule works.spec_Call [OF stable_holder])
  fix s assume s: "work_inv U s" "holder U n P s"
  with assms(2) show "work_allowed U n c s" by (cases s) (auto simp: work_inv_def holder_def work_allowed_def)
next
  fix s a t assume s: "work_inv U s" "holder U n P s" "held_sys U n c s a t"
  obtain D L W where D: "s = (D, L, W)" by (cases s)
  with s(3) obtain D' where t: "n \<in> W" "work_sys U n c D a D'" "t = (D', log_after U n c a L, W)" by (auto elim: held_sysE)
  have "documents_ok U D L" "P (D (own_data U n)) (D (own_temp U n)) (log_of U n L)"
    using s(1,2) D t(1) by (simp_all add: work_inv_def holder_def)
  note new = assms(2) [OF this t(2)]
  have "works.step_ok U n c (D, L, W) a (D', log_after U n c a L, W)"
    by (rule work_step_ok [OF U s(1) [unfolded D] t(1)]) (use new in \<open>auto simp: log_after_def split: if_splits\<close>)
  with new show "works.step_ok U n c s a t \<and> holder U n (R a) t" by (simp add: D t(3) holder_def)
qed (use assms(3) in auto)

subsection \<open>Reading and writing\<close>

text \<open>A call that changes no file.\<close>

lemma own_not_folder:
  assumes "update_ok U" "documents_ok U D L"
  shows "\<not> is_folder D (own_temp U n)" "\<not> is_folder D (own_data U n)"
  using assms(2) store_names [OF assms(1)] by (simp_all add: documents_ok_def)

lemma kept_quiet:
  assumes U: "update_ok U"
    and "\<And>D L a D'. documents_ok U D L \<Longrightarrow> P (D (own_data U n)) (D (own_temp U n)) (log_of U n L) \<Longrightarrow> work_sys U n c D a D' \<Longrightarrow>
      D' = D \<and> \<not> commits U n c a \<and> R a (D (own_data U n)) (D (own_temp U n)) (log_of U n L)"
    and "\<And>a. kept U n (R a) (k a) Q E"
  shows "kept U n P (Call c k) Q E"
proof (rule kept_Call [OF U _ assms(3)])
  fix D L W a D' assume s: "documents_ok U D L" "P (D (own_data U n)) (D (own_temp U n)) (log_of U n L)" "work_sys U n c D a D'"
  from assms(2) [OF s] own_not_folder [OF U s(1)]
  show "only_at {own_temp U n, own_data U n} D D' \<and> \<not> is_folder D' (own_temp U n) \<and> \<not> is_folder D' (own_data U n)
      \<and> (if commits U n c a
         then n \<notin> set L \<and> holds_doc (D' (own_data U n)) (body_doc (us_body U n) (doc_after U n (log_of U n L)))
         else D' (own_data U n) = D (own_data U n))
      \<and> R a (D' (own_data U n)) (D' (own_temp U n)) (log_of U n (log_after U n c a L))"
    by (simp add: only_at_def log_after_def)
qed

lemma holds_doc_inv: "documents_ok U D L \<Longrightarrow> holds_doc (D (own_data U n)) (doc_after U n (log_of U n L))"
  by (simp add: documents_ok_def)

text \<open>What the file says: the document after the commits so far.\<close>

definition reads :: "update_setting \<Rightarrow> string \<Rightarrow> string list \<Rightarrow> node option \<Rightarrow> node option \<Rightarrow> string list \<Rightarrow> bool" where
  "reads U n B x t l = (n \<notin> set l \<and> prefix B l \<and> holds_doc x (doc_after U n l))"

definition seen :: "update_setting \<Rightarrow> string \<Rightarrow> string list \<Rightarrow> pydict option \<Rightarrow> node option \<Rightarrow> node option \<Rightarrow> string list \<Rightarrow> bool" where
  "seen U n B d x t l = (n \<notin> set l \<and> prefix B l \<and> doc_after U n l = d)"

definition idle :: "string \<Rightarrow> string list \<Rightarrow> node option \<Rightarrow> node option \<Rightarrow> string list \<Rightarrow> bool" where
  "idle n B x t l = (n \<notin> set l \<and> prefix B l)"

lemma stored_document_read:
  assumes "holds_doc (Some (Leaf (Reg c))) d" "\<And>p. d = Some p \<Longrightarrow> storable True (JDict p)"
  shows "utf8_ok c \<and> read_document digest key c = Ret d"
proof -
  from assms(1) obtain p k where p: "d = Some p" "utf8_ok k" "c = json_dumps_default (JDict (document_of k p None))"
    by (auto simp: holds_doc_def split: option.splits)
  from document_read [OF p(2) assms(2) [OF p(1)], of None] p(1,3) show ?thesis
    by (simp add: read_document_def document_gets expiry_prints_def)
qed

lemma read_file_calls:
  assumes "work_sys U n (OnDisk (ReadFile (Top f))) D a D'"
  shows "D' = D \<and> (\<forall>c. a = Bytes c \<longrightarrow> D f = Some (Leaf (Reg c))) \<and> (a = Failed ENOENT \<longrightarrow> D f = None)"
  using assms
  by (auto elim!: work_diskE dest: read_step split: option.splits node.splits leaf.splits)

lemma kept_file_get:
  assumes U: "update_ok U"
  shows "kept U n (idle n B) (file_get (us_digest U) (own_key U n)) (seen U n B) (\<lambda>_. idle n B)"
proof -
  let ?P = "idle n B" and ?c = "ReadFile (Top (own_data U n))"
  let ?R = "\<lambda>a x t l. reads U n B x t l \<and> (\<forall>c. a = Bytes c \<longrightarrow> x = Some (Leaf (Reg c))) \<and> (a = Failed ENOENT \<longrightarrow> x = None)"
  have read: "kept U n ?P (on_disk ?c) ?R (\<lambda>e x t l. reads U n B x t l \<and> (e = OsError ENOENT \<longrightarrow> x = None))"
    unfolding on_disk_def
  proof (rule kept_quiet [OF U])
    fix D L a D' assume s: "documents_ok U D L" "?P (D (own_data U n)) (D (own_temp U n)) (log_of U n L)" "work_sys U n (OnDisk ?c) D a D'"
    from read_file_calls [OF s(3)] s(2) holds_doc_inv [OF s(1)]
    show "D' = D \<and> \<not> commits U n (OnDisk ?c) a \<and> ?R a (D (own_data U n)) (D (own_temp U n)) (log_of U n L)"
      by (simp add: commits_def reads_def idle_def)
  next
    fix a show "kept U n (?R a) (case a of Failed e \<Rightarrow> Raise (OsError e) | _ \<Rightarrow> Ret a) ?R
        (\<lambda>e x t l. reads U n B x t l \<and> (e = OsError ENOENT \<longrightarrow> x = None))"
      by (cases a) (auto intro: kept_Ret kept_Raise)
  qed
  have content: "kept U n ?P (read_state_text (own_data U n)) (\<lambda>c x t l. reads U n B x t l \<and> x = Some (Leaf (Reg c)))
      (\<lambda>e x t l. reads U n B x t l \<and> (e = OsError ENOENT \<longrightarrow> x = None))"
    unfolding read_state_text_def
  proof (rule kept_bind [OF read])
    fix a show "kept U n (?R a) (case a of Bytes c \<Rightarrow> if utf8_ok c then Ret c else Raise (PyExn (ValueErr ''invalid utf-8'')) | _ \<Rightarrow> Raise (OsError EIO))
        (\<lambda>c x t l. reads U n B x t l \<and> x = Some (Leaf (Reg c))) (\<lambda>e x t l. reads U n B x t l \<and> (e = OsError ENOENT \<longrightarrow> x = None))"
      by (cases a) (auto intro: kept_Ret kept_Raise)
  qed
  show ?thesis unfolding file_get_def own_data_def [symmetric]
  proof (rule kept_try [OF content])
    fix c show "kept U n (\<lambda>x t l. reads U n B x t l \<and> x = Some (Leaf (Reg c))) (read_document (us_digest U) (own_key U n) c) (seen U n B) (\<lambda>_. idle n B)"
    proof (rule kept_fact [where b = "\<exists>d. holds_doc (Some (Leaf (Reg c))) d \<and> (\<forall>p. d = Some p \<longrightarrow> storable True (JDict p))"])
      fix x t l assume "reads U n B x t l \<and> x = Some (Leaf (Reg c))"
      then show "\<exists>d. holds_doc (Some (Leaf (Reg c))) d \<and> (\<forall>p. d = Some p \<longrightarrow> storable True (JDict p))"
        using doc_storable [OF U] unfolding reads_def by blast
    next
      assume "\<exists>d. holds_doc (Some (Leaf (Reg c))) d \<and> (\<forall>p. d = Some p \<longrightarrow> storable True (JDict p))"
      then obtain d where "read_document (us_digest U) (own_key U n) c = Ret d" using stored_document_read by blast
      moreover have "seen U n B d x t l" if "reads U n B x t l \<and> x = Some (Leaf (Reg c))" for x t l
        using that stored_document_read [of c "doc_after U n l" "us_digest U" "own_key U n"] doc_storable [OF U] calculation
        by (auto simp: reads_def seen_def)
      ultimately show "kept U n (\<lambda>x t l. reads U n B x t l \<and> x = Some (Leaf (Reg c))) (read_document (us_digest U) (own_key U n) c) (seen U n B) (\<lambda>_. idle n B)"
        by (auto intro: kept_Ret)
    qed
  next
    fix e show "kept U n (\<lambda>x t l. reads U n B x t l \<and> (e = OsError ENOENT \<longrightarrow> x = None))
        (if e = OsError ENOENT then Ret None else Raise e) (seen U n B) (\<lambda>_. idle n B)"
      by (auto intro!: kept_Ret kept_Raise simp: reads_def seen_def idle_def holds_doc_def split: option.splits)
  qed
qed

text \<open>The answer \<open>r\<close> of an update is its body's to the document after some commits, which it follows with its own if the
  body writes.\<close>

definition served :: "update_setting \<Rightarrow> string \<Rightarrow> string list \<Rightarrow> json pyres \<Rightarrow> string list \<Rightarrow> bool" where
  "served U n B r l =
     (\<exists>K. prefix B K \<and> prefix K l \<and> fst (us_body U n (doc_after U n K)) = r
        \<and> (if snd (us_body U n (doc_after U n K)) = None then n \<notin> set l else prefix (K @ [n]) l))"

lemma seen_served: "seen U n B d x t l \<Longrightarrow> us_body U n d = (r, None) \<Longrightarrow> served U n B r l"
  unfolding seen_def served_def by (intro exI [of _ l]) auto

lemma seen_commits: "seen U n B d x t l \<Longrightarrow> us_body U n d = (r, Some d') \<Longrightarrow> served U n B r (l @ [n])"
  unfolding seen_def served_def by (intro exI [of _ l]) auto

lemma open_calls:
  assumes "work_sys U n (OnDisk (OpenWrite (Top f))) D a D'"
  shows "only_at {f} D D' \<and> (D' f = D f \<or> D' f = Some (Leaf (Reg []))) \<and> (a \<notin> range Failed \<longrightarrow> D' f = Some (Leaf (Reg [])))"
  using assms by (auto simp: only_at_def elim!: work_diskE disk_stepE split: option.splits node.splits leaf.splits if_splits)

lemma write_calls:
  assumes "work_sys U n (OnDisk (WriteFile (Top f) c)) D a D'" "D f = Some (Leaf (Reg b))"
  shows "only_at {f} D D' \<and> (\<exists>t. D' f = Some (Leaf (Reg t))) \<and> (a \<notin> range Failed \<longrightarrow> D' f = Some (Leaf (Reg c)))"
  using assms by (auto simp: only_at_def elim!: work_diskE disk_stepE)

lemma rename_calls:
  assumes "work_sys U n (OnDisk (Rename (Top f) (Top g))) D a D'" "D f = Some (Leaf (Reg c))" "f \<noteq> g"
  shows "(a \<in> range Failed \<and> D' = D) \<or> (a = Fine \<and> D' = D(f := None, g \<mapsto> Leaf (Reg c)))"
  using assms by (auto simp: rename_leaf_def elim!: work_diskE disk_stepE split: option.splits node.splits)

lemma unlink_calls:
  assumes "work_sys U n (OnDisk (Unlink (Top f))) D a D'"
  shows "only_at {f} D D' \<and> (D' f = D f \<or> D' f = None)"
  using assms by (auto intro!: unlink_step elim: work_diskE dest: unlink_step)

text \<open>A call on the temporary file.\<close>

lemma kept_temp:
  assumes U: "update_ok U" and "\<And>a. \<not> commits U n (OnDisk c) a"
    and "\<And>D l a D'. P (D (own_data U n)) (D (own_temp U n)) l \<Longrightarrow> work_sys U n (OnDisk c) D a D' \<Longrightarrow>
      only_at {own_temp U n} D D' \<and> (D' (own_temp U n) = D (own_temp U n) \<or> \<not> is_folder D' (own_temp U n))
      \<and> (case a of Failed e \<Rightarrow> E (OsError e) | _ \<Rightarrow> Q a) (D (own_data U n)) (D' (own_temp U n)) l"
  shows "kept U n P (on_disk c) Q E"
  unfolding on_disk_def
proof (rule kept_Call [OF U])
  fix D L W a D' assume s: "documents_ok U D L" "P (D (own_data U n)) (D (own_temp U n)) (log_of U n L)" "work_sys U n (OnDisk c) D a D'"
  have ne: "own_data U n \<noteq> own_temp U n" using same_lock(4) [OF U] .
  from assms(3) [OF s(2,3)] own_not_folder [OF U s(1), of n] ne assms(2) [of a]
  show "only_at {own_temp U n, own_data U n} D D' \<and> \<not> is_folder D' (own_temp U n) \<and> \<not> is_folder D' (own_data U n)
      \<and> (if commits U n (OnDisk c) a
         then n \<notin> set L \<and> holds_doc (D' (own_data U n)) (body_doc (us_body U n) (doc_after U n (log_of U n L)))
         else D' (own_data U n) = D (own_data U n))
      \<and> (case a of Failed e \<Rightarrow> E (OsError e) | _ \<Rightarrow> Q a) (D' (own_data U n)) (D' (own_temp U n)) (log_of U n (log_after U n (OnDisk c) a L))"
    by (auto simp: only_at_def log_after_def is_folder_def)
next
  fix a show "kept U n (case a of Failed e \<Rightarrow> E (OsError e) | _ \<Rightarrow> Q a) (case a of Failed e \<Rightarrow> Raise (OsError e) | _ \<Rightarrow> Ret a) Q E"
    by (cases a) (auto intro: kept_Ret kept_Raise)
qed

text \<open>The rename commits what has been written beside the document.\<close>

lemma kept_commit:
  assumes U: "update_ok U" and body: "us_body U n d = (r, Some d')" and c: "holds_doc (Some (Leaf (Reg c))) (Some d')"
  shows "kept U n (\<lambda>x t l. seen U n B d x t l \<and> t = Some (Leaf (Reg c))) (on_disk (Rename (Top (own_temp U n)) (Top (own_data U n))))
    (\<lambda>_ x t l. served U n B r l) (\<lambda>_. idle n B)"
  unfolding on_disk_def
proof (rule kept_Call [OF U])
  let ?temp = "own_temp U n" and ?data = "own_data U n"
  let ?W = "\<lambda>b x t l. seen U n B d x t l \<and> t = Some (Leaf (Reg b))"
  have ne: "?temp \<noteq> ?data" using same_lock(3) [OF U] .
  have idle: "seen U n B d x t l \<Longrightarrow> idle n B x u l" for x t u l by (simp add: seen_def idle_def)
  let ?R = "\<lambda>a x t l. case a of Failed e \<Rightarrow> idle n B x t l | _ \<Rightarrow> served U n B r l"
  fix D L W a D' assume s: "documents_ok U D L" "?W c (D ?data) (D ?temp) (log_of U n L)" "work_sys U n (OnDisk (Rename (Top ?temp) (Top ?data))) D a D'"
  from s(2) have l: "n \<notin> set L" "doc_after U n (log_of U n L) = d" by (simp_all add: seen_def)
  from rename_calls [OF s(3) _ ne] s(2) consider e where "a = Failed e" "D' = D" | "a = Fine" "D' = D(?temp := None, ?data \<mapsto> Leaf (Reg c))"
    by blast
  then show "only_at {?temp, ?data} D D' \<and> \<not> is_folder D' ?temp \<and> \<not> is_folder D' ?data
      \<and> (if commits U n (OnDisk (Rename (Top ?temp) (Top ?data))) a
         then n \<notin> set L \<and> holds_doc (D' ?data) (body_doc (us_body U n) (doc_after U n (log_of U n L)))
         else D' ?data = D ?data)
      \<and> ?R a (D' ?data) (D' ?temp) (log_of U n (log_after U n (OnDisk (Rename (Top ?temp) (Top ?data))) a L))"
  proof cases
    case 1
    have "idle n B (D ?data) (D ?temp) (log_of U n L)" using idle s(2) by blast
    with 1 own_not_folder [OF U s(1), of n] show ?thesis by (simp add: commits_def only_at_def log_after_def)
  next
    case 2
    have "served U n B r (log_of U n L @ [n])" using s(2) body seen_commits by blast
    with 2 l body c ne show ?thesis
      by (simp add: commits_def only_at_def log_after_def is_folder_def log_snoc body_doc_def)
  qed
next
  fix a show "kept U n (\<lambda>x t l. case a of Failed e \<Rightarrow> idle n B x t l | _ \<Rightarrow> served U n B r l)
      (case a of Failed e \<Rightarrow> Raise (OsError e) | _ \<Rightarrow> Ret a) (\<lambda>_ x t l. served U n B r l) (\<lambda>_. idle n B)"
    by (cases a) (auto intro: kept_Ret kept_Raise)
qed

lemma kept_write:
  assumes U: "update_ok U" and body: "us_body U n d = (r, Some d')" and c: "holds_doc (Some (Leaf (Reg c))) (Some d')"
  shows "kept U n (seen U n B d) (write_and_replace (own_temp U n) (own_data U n) c) (\<lambda>_ x t l. served U n B r l) (\<lambda>_. idle n B)"
proof -
  let ?temp = "own_temp U n" and ?data = "own_data U n"
  let ?S = "\<lambda>x t l. seen U n B d x t l" and ?W = "\<lambda>b x t l. seen U n B d x t l \<and> t = Some (Leaf (Reg b))"
  have idle: "seen U n B d x t l \<Longrightarrow> idle n B x u l" for x t u l by (simp add: seen_def idle_def)
  have other: "seen U n B d x t l = seen U n B d x u l" for x t u l by (simp add: seen_def)
  have opened: "kept U n ?S (on_disk (OpenWrite (Top ?temp))) (\<lambda>_. ?W []) (\<lambda>_. idle n B)"
  proof (rule kept_temp [OF U])
    fix D l a D' assume s: "seen U n B d (D ?data) (D ?temp) l" "work_sys U n (OnDisk (OpenWrite (Top ?temp))) D a D'"
    from open_calls [OF s(2)] idle [OF s(1)] s(1)
    show "only_at {?temp} D D' \<and> (D' ?temp = D ?temp \<or> \<not> is_folder D' ?temp)
        \<and> (case a of Failed e \<Rightarrow> idle n B | _ \<Rightarrow> ?W []) (D ?data) (D' ?temp) l"
      by (auto simp: is_folder_def other [of _ "D ?temp" _ "D' ?temp"] split: reply.split)
  qed (simp add: commits_def)
  have written: "kept U n (?W []) (on_disk (WriteFile (Top ?temp) c)) (\<lambda>_. ?W c) (\<lambda>_. idle n B)"
  proof (rule kept_temp [OF U])
    fix D l a D' assume s: "?W [] (D ?data) (D ?temp) l" "work_sys U n (OnDisk (WriteFile (Top ?temp) c)) D a D'"
    from s(1) have "D ?temp = Some (Leaf (Reg []))" by simp
    from write_calls [OF s(2) this] idle [of "D ?data" "D ?temp" l] s(1)
    show "only_at {?temp} D D' \<and> (D' ?temp = D ?temp \<or> \<not> is_folder D' ?temp)
        \<and> (case a of Failed e \<Rightarrow> idle n B | _ \<Rightarrow> ?W c) (D ?data) (D' ?temp) l"
      by (auto simp: is_folder_def seen_def split: reply.split)
  qed (simp add: commits_def)
  note moved = kept_commit [OF assms, of B]
  have gone: "kept U n (idle n B) (on_disk (Unlink (Top ?temp))) (\<lambda>_. idle n B) (\<lambda>_. idle n B)"
  proof (rule kept_temp [OF U])
    fix D l a D' assume s: "idle n B (D ?data) (D ?temp) l" "work_sys U n (OnDisk (Unlink (Top ?temp))) D a D'"
    from unlink_calls [OF s(2)] s(1)
    show "only_at {?temp} D D' \<and> (D' ?temp = D ?temp \<or> \<not> is_folder D' ?temp)
        \<and> (case a of Failed e \<Rightarrow> idle n B | _ \<Rightarrow> idle n B) (D ?data) (D' ?temp) l"
      by (auto simp: is_folder_def idle_def split: reply.split)
  qed (simp add: commits_def)
  have undo: "kept U n (idle n B) (prog_bind (unlink_missing_ok (Top ?temp)) (\<lambda>_. Raise e)) (\<lambda>_ x t l. served U n B r l) (\<lambda>_. idle n B)" for e
    unfolding unlink_missing_ok_def
    by (rule kept_bind [OF kept_try [OF gone]]) (auto intro: kept_Ret kept_Raise)
  show ?thesis
    unfolding write_and_replace_def prog_catch_def replace_state_file_def
    by (intro kept_bind [OF opened] kept_bind [OF written] kept_try [OF kept_bind [OF moved]])
      (auto intro: kept_Ret kept_Raise undo split: fault.split)
qed

lemma kept_file_put:
  assumes U: "update_ok U" and body: "us_body U n d = (r, Some d')"
  shows "kept U n (seen U n B d) (file_put (us_digest U) (own_pid U n) (own_key U n) d' None) (\<lambda>_ x t l. served U n B r l) (\<lambda>_. idle n B)"
proof -
  have now: "kept U n (seen U n B d) time_ns (\<lambda>ns x t l. seen U n B d x t l \<and> ns = us_ns U n) (\<lambda>_. idle n B)"
    unfolding time_ns_def
  proof (rule kept_quiet [OF U, where R = "\<lambda>a x t l. seen U n B d x t l \<and> a = Count (us_ns U n)"])
    fix a show "kept U n (\<lambda>x t l. seen U n B d x t l \<and> a = Count (us_ns U n)) (case a of Count n \<Rightarrow> Ret n | _ \<Rightarrow> Raise (OsError EIO))
        (\<lambda>ns x t l. seen U n B d x t l \<and> ns = us_ns U n) (\<lambda>_. idle n B)"
      by (cases a) (auto intro!: kept_Ret kept_Raise)
  qed (auto elim: work_nsE simp: commits_def)
  let ?c = "json_dumps_default (JDict (document_of (own_key U n) d' None))"
  have "holds_doc (Some (Leaf (Reg ?c))) (Some d')" using U by (auto simp: holds_doc_def update_ok_def)
  from kept_write [OF U body this] have replaced: "kept U n (seen U n B d) (write_and_replace (own_temp U n) (own_data U n) ?c)
      (\<lambda>_ x t l. served U n B r l) (\<lambda>_. idle n B)" .
  have "kept U n (\<lambda>x t l. seen U n B d x t l \<and> ns = us_ns U n)
      (write_and_replace (temporary_for (us_digest U) (own_pid U n) ns (own_key U n)) (own_data U n) ?c) (\<lambda>_ x t l. served U n B r l) (\<lambda>_. idle n B)" for ns
  proof (rule kept_fact [where b = "ns = us_ns U n"])
    assume ns: "ns = us_ns U n"
    show "kept U n (\<lambda>x t l. seen U n B d x t l \<and> ns = us_ns U n)
        (write_and_replace (temporary_for (us_digest U) (own_pid U n) ns (own_key U n)) (own_data U n) ?c) (\<lambda>_ x t l. served U n B r l) (\<lambda>_. idle n B)"
      unfolding ns own_temp_def [symmetric] by (rule kept_pre [OF replaced]) simp
  qed simp
  then show ?thesis unfolding file_put_def own_data_def [symmetric]
    by (intro kept_bind [OF now]) (simp add: expiry_of_def prog_bind_def)
qed

lemma update_kept:
  assumes U: "update_ok U"
  shows "kept U n (idle n B) (work_of U n) (\<lambda>v x t l. served U n B (Inr v) l) (\<lambda>_ _ _ _. True)"
proof -
  have give: "kept U n P (give r) (\<lambda>v x t l. served U n B (Inr v) l) (\<lambda>_ _ _ _. True)"
    if "\<And>x t l. P x t l \<Longrightarrow> served U n B r l" for P r
    using that by (cases r) (auto simp: give_def intro!: kept_Ret kept_Raise)
  have "kept U n (seen U n B d) (case us_body U n d of (r, None) \<Rightarrow> give r
      | (r, Some d') \<Rightarrow> prog_bind (file_put (us_digest U) (own_pid U n) (own_key U n) d' None) (\<lambda>_. give r))
      (\<lambda>v x t l. served U n B (Inr v) l) (\<lambda>_ _ _ _. True)" for d
  proof -
    obtain r w where b: "us_body U n d = (r, w)" by (cases "us_body U n d")
    show ?thesis
    proof (cases w)
      case None
      with b show ?thesis using seen_served by (auto intro!: give)
    next
      case (Some d')
      with b have "us_body U n d = (r, Some d')" by simp
      from works.spec_post [OF kept_file_put [OF U this]]
      have "kept U n (seen U n B d) (file_put (us_digest U) (own_pid U n) (own_key U n) d' None) (\<lambda>_ x t l. served U n B r l) (\<lambda>_ _ _ _. True)"
        by (auto simp: holder_def)
      then show ?thesis unfolding b Some prod.case option.case by (rule kept_bind) (auto intro: give)
    qed
  qed
  with works.spec_post [OF kept_file_get [OF U]] show ?thesis
    unfolding work_of_def update_program_def
    by (intro kept_bind [where R = "seen U n B"]) (auto simp: holder_def)
qed

end
