(* ===== verification/UpdateRuns.thy ===== *)
theory UpdateRuns
  imports UpdateWork
begin

section \<open>Runs of updates\<close>

text \<open>
  A run of updates is a run of the lock's attempts, in which the callbacks are events on files that the lock does not
  use: so only holders work. And it is a run of the callbacks, for which the lock's steps are those of others. Both
  are the invariant \<open>updates_inv\<close> of \<open>update_step\<close>, with what each attempt has done so far (\<open>phase_ok\<close>).
\<close>

subsection \<open>The invariant\<close>

fun lock_part :: "phase \<Rightarrow> json option program" where
  "lock_part (Locking p) = p"
| "lock_part (Working b r) = Call CallbackReturns r"

definition holders :: "update_setting \<Rightarrow> lock_world \<Rightarrow> string set" where
  "holders U w = {n. at_work (us_locks U) n w \<and> owns (us_locks U) n (lw_disk w)}"

definition held_state :: "update_setting \<Rightarrow> lock_world \<Rightarrow> string list \<Rightarrow> work_state" where
  "held_state U w L = (lw_disk w, L, holders U w)"

text \<open>Before its callback, in it, and after it.\<close>

definition phase_ok :: "update_setting \<Rightarrow> (string \<Rightarrow> string list) \<Rightarrow> lock_world \<Rightarrow> string list \<Rightarrow> string \<Rightarrow> phase \<Rightarrow> bool" where
  "phase_ok U B w L n ph =
     (case ph of
        Locking p \<Rightarrow>
          (brings p \<and> n \<notin> set L \<and> prefix (B n) (log_of U n L))
          \<or> (n \<in> lw_left w \<and> ((\<exists>v. ends (\<lambda>x. x = Some v) p \<and> served U n (B n) (Inr v) (log_of U n L)) \<or> ends (\<lambda>_. False) p))
      | Working b r \<Rightarrow>
          born (us_locks U) n w \<and> brings_back r
          \<and> works.keeps U b n (held_state U w L) (\<lambda>v. holder U n (\<lambda>x t l. served U n (B n) (Inr v) l)) (\<lambda>_. holder U n (\<lambda>_ _ _. True)))"

definition updates_inv :: "update_setting \<Rightarrow> lock_world \<Rightarrow> (string \<Rightarrow> string list) \<Rightarrow> update_state \<Rightarrow> bool" where
  "updates_inv U w\<^sub>0 B = (\<lambda>((w, L), T).
     update_ok U \<and> fresh_start (us_locks U) w\<^sub>0 \<and> lock_runs (us_locks U) w\<^sub>0 (w, lock_part \<circ> T)
     \<and> documents_ok U (lw_disk w) L \<and> (\<forall>n. phase_ok U B w L n (T n)))"

lemma updates_invD:
  assumes "updates_inv U w\<^sub>0 B ((w, L), T)"
  shows "update_ok U" "setting_ok (us_locks U)" "fresh_start (us_locks U) w\<^sub>0" "lock_runs (us_locks U) w\<^sub>0 (w, lock_part \<circ> T)"
    "documents_ok U (lw_disk w) L" "phase_ok U B w L n (T n)"
  using assms by (simp_all add: updates_inv_def update_ok_def)

lemma served_later:
  assumes "served U n B r l" "prefix l l'" "n \<in> set l' \<Longrightarrow> n \<in> set l"
  shows "served U n B r l'"
proof -
  from assms(1) obtain K where K: "prefix B K" "prefix K l" "fst (us_body U n (doc_after U n K)) = r"
    "if snd (us_body U n (doc_after U n K)) = None then n \<notin> set l else prefix (K @ [n]) l" unfolding served_def by blast
  then have "prefix K l'" "if snd (us_body U n (doc_after U n K)) = None then n \<notin> set l' else prefix (K @ [n]) l'"
    using assms(2,3) prefix_order.trans by (blast, metis)
  with K show ?thesis unfolding served_def by blast
qed

text \<open>What the steps of the others do to the phase of an attempt.\<close>

lemma phase_later:
  assumes "phase_ok U B w L m ph" "later_world w t" "prefix (log_of U m L) (log_of U m L')" "m \<in> set L' \<Longrightarrow> m \<in> set L"
    and "\<And>b r. ph = Working b r \<Longrightarrow> work_rely U m (held_state U w L) (held_state U t L')"
  shows "phase_ok U B t L' m ph"
proof (cases ph)
  case (Locking p)
  have "lw_left w \<subseteq> lw_left t" using assms(2) by (simp add: later_world_def)
  with assms(1,3,4) served_later [of U m "B m" _ "log_of U m L" "log_of U m L'"] show ?thesis
    unfolding phase_ok_def Locking phase.case using prefix_order.trans by fastforce
next
  case (Working b r)
  with assms(1) have old: "born (us_locks U) m w" "brings_back r" and kept: "works.keeps U b m (held_state U w L)
      (\<lambda>v. holder U m (\<lambda>x t l. served U m (B m) (Inr v) l)) (\<lambda>_. holder U m (\<lambda>_ _ _. True))" by (simp_all add: phase_ok_def)
  from works.keeps_later [OF kept assms(5) [OF Working]] born_later [OF assms(2) old(1)] old(2) show ?thesis
    by (simp add: phase_ok_def Working)
qed

lemma in_work:
  assumes "updates_inv U w\<^sub>0 B ((w, L), T)" "lock_part (T n) = Call CallbackReturns r" "runs_in (us_locks U) n w"
  shows "lock_inv (us_locks U) w" "n \<in> holders U w" "n \<notin> lw_left w"
proof -
  note inv = updates_invD [OF assms(1)]
  have "in_callback ((lock_part \<circ> T) n)" using assms(2) by (simp add: in_callback_def)
  from callback_owns [OF inv(2-4) this assms(3)]
  show "lock_inv (us_locks U) w" "n \<in> holders U w" "n \<notin> lw_left w" by (auto simp: holders_def at_work_def)
qed

lemma still_holds:
  assumes "updates_inv U w\<^sub>0 B ((w, L), T)" "T m = Working b r" "at_work (us_locks U) m w"
  shows "m \<in> holders U w"
proof -
  from updates_invD(6) [OF assms(1), of m] assms(2,3) have "runs_in (us_locks U) m w"
    by (auto simp: phase_ok_def born_def runs_in_def at_work_def)
  with in_work(2) [OF assms(1)] assms(2) show ?thesis by simp
qed

text \<open>Steps that leave the files of the store alone.\<close>

lemma phases_elsewhere:
  assumes "updates_inv U w\<^sub>0 B ((w, L), T)" "later_world w t" "store_spared U (lw_disk w) (lw_disk t)"
  shows "phase_ok U B t L m (T m)"
proof (rule phase_later [OF updates_invD(6) [OF assms(1)] assms(2)])
  fix b r assume m: "T m = Working b r"
  have "m \<in> holders U w" if "m \<in> holders U t"
    using that still_holds [OF assms(1) m] at_work_later [OF assms(2)] by (simp add: holders_def)
  then show "work_rely U m (held_state U w L) (held_state U t L)"
    using assms(3) by (simp add: work_rely_def held_state_def store_spared_def)
qed simp_all

lemma documents_elsewhere:
  assumes "documents_ok U D L" "store_spared U D D'" "\<And>d. \<not> lockish (us_locks U) d \<Longrightarrow> is_folder D' d \<Longrightarrow> is_folder D d"
  shows "documents_ok U D' L"
  using assms by (auto simp: documents_ok_def store_spared_def)

lemma sys_later:
  "lock_sys S n c w a t \<Longrightarrow> later_world w t \<and> (\<forall>x. c = OnDisk x \<longrightarrow> disk_step x (lw_disk w) a (lw_disk t))
     \<and> (c \<notin> range OnDisk \<longrightarrow> lw_disk t = lw_disk w)"
  by (cases rule: lock_sys.cases) (auto simp: later_world_def)

lemma lock_spares:
  assumes "updates_inv U w\<^sub>0 B ((w, L), T)" "T n = Locking (Call c k)" "runs_in (us_locks U) n w" "lock_sys (us_locks U) n c w a t"
  shows "spares (us_locks U) (lw_disk w) (lw_disk t)"
proof -
  note inv = updates_invD [OF assms(1)]
  have "(lock_part \<circ> T) n = Call c k" using assms(2) by simp
  from attempts_allowed [OF inv(2-4) this assms(3)] sys_later [OF assms(4)] show ?thesis
    by (cases "c \<in> range OnDisk") (auto simp: lock_allowed_def)
qed

lemma spares_store:
  assumes "update_ok U" "spares (us_locks U) D D'"
  shows "store_spared U D D'" "\<not> lockish (us_locks U) d \<Longrightarrow> is_folder D' d \<Longrightarrow> is_folder D d"
  using assms(2) store_names [OF assms(1)] by (simp_all add: store_spared_def spares_def is_folder_def)

lemma holders_once: "lock_inv (us_locks U) w \<Longrightarrow> one_holder U (holders U w)"
  by (auto simp: lock_inv_def one_owner_def one_holder_def holders_def own_lock_def)

subsection \<open>Every step keeps it\<close>

lemma lock_run_call:
  assumes "lock_runs S w\<^sub>0 (w, lock_part \<circ> T)" "lock_part (T n) = Call c k" "runs_in S n w" "lock_sys S n c w a t"
  shows "lock_runs S w\<^sub>0 (t, lock_part \<circ> T(n := Locking (k a)))"
proof -
  have same: "lock_part \<circ> T(n := Locking (k a)) = (lock_part \<circ> T)(n := k a)" by (auto simp: fun_eq_iff)
  show ?thesis unfolding same
    by (rule runs_step [OF assms(1)], rule step_call [where c = c and sys = "lock_sys S"]) (use assms(2-4) in auto)
qed

lemma lock_run_event: "lock_runs S w\<^sub>0 (w, P) \<Longrightarrow> world_event S w t \<Longrightarrow> lock_runs S w\<^sub>0 (t, P)"
  by (erule runs_step) (rule step_event)

lemma lock_call_ok:
  assumes "updates_inv U w\<^sub>0 B ((w, L), T)" "T n = Locking (Call c k)" "c \<noteq> CallbackReturns" "runs_in (us_locks U) n w"
    and "lock_sys (us_locks U) n c w a t"
  shows "updates_inv U w\<^sub>0 B ((t, L), T(n := Locking (k a)))"
proof -
  note inv = updates_invD [OF assms(1)]
  note spared = spares_store [OF inv(1) lock_spares [OF assms(1,2,4,5)]]
  have later: "later_world w t" using sys_later [OF assms(5)] by simp
  note old = phases_elsewhere [OF assms(1) later spared(1)]
  have "phase_ok U B t L n (Locking (k a))" using old [of n] assms(2,3) by (auto simp: phase_ok_def)
  with old have "phase_ok U B t L m ((T(n := Locking (k a))) m)" for m by simp
  moreover have "lock_part (T n) = Call c k" using assms(2) by simp
  note lock_run_call [OF inv(4) this assms(4,5)]
  moreover have "documents_ok U (lw_disk t) L" by (rule documents_elsewhere [OF inv(5) spared])
  ultimately show ?thesis using inv(1,3) by (simp add: updates_inv_def)
qed

lemma enter_ok:
  assumes "updates_inv U w\<^sub>0 B ((w, L), T)" "T n = Locking (Call CallbackReturns r)" "runs_in (us_locks U) n w"
  shows "updates_inv U w\<^sub>0 B ((w, L), T(n := Working (work_of U n) r))"
proof -
  note inv = updates_invD [OF assms(1)]
  have "lock_part (T n) = Call CallbackReturns r" using assms(2) by simp
  note here = in_work [OF assms(1) this assms(3)]
  have n: "brings_back r" "n \<notin> set L" "prefix (B n) (log_of U n L)" using inv(6) [of n] here(3) by (auto simp: phase_ok_def assms(2))
  have "work_inv U (held_state U w L)" using inv(5) holders_once [OF here(1)] by (simp add: work_inv_def held_state_def)
  moreover have "holder U n (idle n (B n)) (held_state U w L)" using n by (simp add: holder_def held_state_def idle_def)
  ultimately have "works.keeps U (work_of U n) n (held_state U w L) (\<lambda>v. holder U n (\<lambda>x t l. served U n (B n) (Inr v) l)) (\<lambda>_. holder U n (\<lambda>_ _ _. True))"
    using update_kept [OF inv(1), of n "B n"] unfolding works.spec_def by blast
  then have "phase_ok U B w L n (Working (work_of U n) r)" using n(1) assms(3) by (simp add: phase_ok_def born_def runs_in_def)
  moreover have "lock_part \<circ> T(n := Working (work_of U n) r) = lock_part \<circ> T" using assms(2) by (auto simp: fun_eq_iff)
  ultimately show ?thesis using inv by (simp add: updates_inv_def)
qed

lemma work_ok:
  assumes "updates_inv U w\<^sub>0 B ((w, L), T)" "T n = Working (Call c k) r" "runs_in (us_locks U) n w" "work_sys U n c (lw_disk w) a D"
  shows "updates_inv U w\<^sub>0 B ((w\<lparr>lw_disk := D\<rparr>, log_after U n c a L), T(n := Working (k a) r))"
proof -
  let ?t = "w\<lparr>lw_disk := D\<rparr>" and ?L = "log_after U n c a L" and ?Q = "\<lambda>v. holder U n (\<lambda>x t l. served U n (B n) (Inr v) l)"
  note inv = updates_invD [OF assms(1)]
  have "lock_part (T n) = Call CallbackReturns r" using assms(2) by simp
  note here = in_work [OF assms(1) this assms(3)]
  have n: "born (us_locks U) n w" "brings_back r" "works.keeps U (Call c k) n (held_state U w L) ?Q (\<lambda>_. holder U n (\<lambda>_ _ _. True))"
    using inv(6) [of n] by (simp_all add: phase_ok_def assms(2))
  have "work_inv U (held_state U w L)" using inv(5) holders_once [OF here(1)] by (simp add: work_inv_def held_state_def)
  with n(3) works.rely_refl [of U n "held_state U w L"]
  have allowed: "work_allowed U n c (held_state U w L)" and after: "\<And>a u. held_sys U n c (held_state U w L) a u \<Longrightarrow>
      works.step_ok U n c (held_state U w L) a u \<and> works.keeps U (k a) n u ?Q (\<lambda>_. holder U n (\<lambda>_ _ _. True))"
    unfolding works.keeps.simps by blast+
  have own: "only_at {own_temp U n, own_data U n} (lw_disk w) D"
    using allowed here(2) assms(4) by (auto simp: work_allowed_def held_state_def)
  then have names: "D d = lw_disk w d" if "lockish (us_locks U) d" for d
    using own that store_names [OF inv(1), of n] unfolding only_at_def by (metis insertE singletonD)
  then have same: "holders U ?t = holders U w" by (simp add: holders_def owns_def)
  have "held_sys U n c (held_state U w L) a (held_state U ?t ?L)"
    unfolding held_state_def same using here(2) assms(4) by (simp add: held_sys.intros)
  from after [OF this] have ok: "work_inv U (held_state U ?t ?L)" "\<And>m. m \<noteq> n \<Longrightarrow> work_rely U m (held_state U w L) (held_state U ?t ?L)"
    and rest: "works.keeps U (k a) n (held_state U ?t ?L) ?Q (\<lambda>_. holder U n (\<lambda>_ _ _. True))" by (simp_all add: works.step_ok_def)
  have docs: "documents_ok U D ?L" using ok(1) by (simp add: work_inv_def held_state_def)
  have "phase_ok U B ?t ?L m ((T(n := Working (k a) r)) m)" for m
  proof (cases "m = n")
    case True
    with n rest show ?thesis by (simp add: phase_ok_def)
  next
    case False
    have "phase_ok U B ?t ?L m (T m)"
      by (rule phase_later [OF inv(6)]) (use False ok(2) in \<open>auto simp: log_after_def log_snoc split: if_splits\<close>)
    with False show ?thesis by simp
  qed
  moreover have "world_event (us_locks U) w ?t"
  proof (rule elsewhere, intro allI impI)
    fix d assume "D d \<noteq> lw_disk w d"
    with names docs show "\<not> lockish (us_locks U) d \<and> \<not> is_folder D d" by (auto simp: documents_ok_def)
  qed
  from lock_run_event [OF inv(4) this] have "lock_runs (us_locks U) w\<^sub>0 (?t, lock_part \<circ> T)" .
  moreover have "lock_part \<circ> T(n := Working (k a) r) = lock_part \<circ> T" using assms(2) by (auto simp: fun_eq_iff)
  ultimately show ?thesis using inv(1,3) docs by (simp add: updates_inv_def)
qed

lemma leave_ok:
  assumes "updates_inv U w\<^sub>0 B ((w, L), T)" "T n = Working b r" "runs_in (us_locks U) n w"
    and "b = Ret v \<and> x = Inr v \<or> b = Raise e \<and> x = Inl e"
  shows "updates_inv U w\<^sub>0 B ((w\<lparr>lw_left := insert n (lw_left w)\<rparr>, L), T(n := Locking (r (Outcome x))))"
proof -
  let ?t = "w\<lparr>lw_left := insert n (lw_left w)\<rparr>"
  note inv = updates_invD [OF assms(1)]
  have at: "lock_part (T n) = Call CallbackReturns r" using assms(2) by simp
  note here = in_work [OF assms(1) at assms(3)]
  have n: "brings_back r" "works.keeps U b n (held_state U w L) (\<lambda>v. holder U n (\<lambda>x t l. served U n (B n) (Inr v) l)) (\<lambda>_. holder U n (\<lambda>_ _ _. True))"
    using inv(6) [of n] by (simp_all add: phase_ok_def assms(2))
  have "work_inv U (held_state U w L)" using inv(5) holders_once [OF here(1)] by (simp add: work_inv_def held_state_def)
  with n(2) works.rely_refl [of U n "held_state U w L"] here(2) have "served U n (B n) (Inr v) (log_of U n L)" if "b = Ret v" for v
    using that by (auto simp: holder_def held_state_def)
  with n(1) assms(4) have "phase_ok U B ?t L n (Locking (r (Outcome x)))" by (auto simp: phase_ok_def brings_back_def)
  moreover have "phase_ok U B ?t L m (T m)" for m
    by (rule phases_elsewhere [OF assms(1)]) (auto simp: later_world_def store_spared_def)
  moreover note lock_run_call [OF inv(4) at assms(3) sys_callback [where r = x]]
  ultimately show ?thesis using inv(1,3,5) by (simp add: updates_inv_def)
qed

lemma outside_ok:
  assumes "updates_inv U w\<^sub>0 B ((w, L), T)" "world_event (us_locks U) w t" "store_spared U (lw_disk w) (lw_disk t)"
  shows "updates_inv U w\<^sub>0 B ((t, L), T)"
proof -
  note inv = updates_invD [OF assms(1)]
  have "is_folder (lw_disk w) d" if "is_folder (lw_disk t) d" for d
    using that event_folders [OF assms(2), of d] by (auto simp: is_folder_def split: option.splits node.splits)
  then have "documents_ok U (lw_disk t) L" by (intro documents_elsewhere [OF inv(5) assms(3)])
  moreover have "phase_ok U B t L m (T m)" for m
    by (rule phases_elsewhere [OF assms(1) event_later(1) [OF assms(2)] assms(3)])
  moreover have "lock_runs (us_locks U) w\<^sub>0 (t, lock_part \<circ> T)" by (rule lock_run_event [OF inv(4) assms(2)])
  ultimately show ?thesis using inv(1,3) by (simp add: updates_inv_def)
qed

lemma step_keeps:
  assumes "update_step U x y" "updates_inv U w\<^sub>0 B x"
  shows "updates_inv U w\<^sub>0 B y"
  using assms
proof (cases rule: update_step.cases)
  case (lock_call T n c k w a t L)
  with assms(2) show ?thesis by (auto intro: lock_call_ok)
next
  case (enter T n r w L)
  with assms(2) show ?thesis by (auto intro: enter_ok)
next
  case (work T n c k r w a D L)
  with assms(2) show ?thesis by (auto intro: work_ok)
next
  case (leave T n v r w L)
  with assms(2) show ?thesis by (auto intro: leave_ok)
next
  case (leave_raising T n e r w L)
  with assms(2) show ?thesis by (auto intro: leave_ok)
next
  case (outside w t L T)
  with assms(2) show ?thesis by (auto intro: outside_ok)
qed

lemma runs_keep: "update_runs U x y \<Longrightarrow> updates_inv U w\<^sub>0 B x \<Longrightarrow> updates_inv U w\<^sub>0 B y"
  by (induction rule: update_runs.induct) (auto intro: step_keeps)

end
