(* ===== verification/UpdateProps.thy ===== *)
theory UpdateProps
  imports UpdateRuns
begin

section \<open>Locked updates are serializable\<close>

text \<open>
  The properties of the updates of \<open>LockedUpdate\<close>, from the invariant of \<open>UpdateRuns\<close>, and the run of an update that
  meets no failure while the others wait. The instances are two processes that count in one document.
\<close>

subsection \<open>From the start\<close>

lemma updates_start:
  assumes "update_ok U" "fresh_start (us_locks U) w\<^sub>0" "documents_ok U (lw_disk w\<^sub>0) []"
  shows "updates_inv U w\<^sub>0 (\<lambda>_. []) ((w\<^sub>0, []), all_start U)"
proof -
  have "lock_part \<circ> all_start U = attempt (us_locks U)" by (simp add: fun_eq_iff all_start_def)
  moreover have "phase_ok U (\<lambda>_. []) w\<^sub>0 [] n (all_start U n)" for n
    by (simp add: phase_ok_def all_start_def attempt_brings log_of_def)
  ultimately show ?thesis using assms by (simp add: updates_inv_def runs_refl)
qed

lemma updates_reached:
  assumes "update_ok U" "fresh_start (us_locks U) w\<^sub>0" "documents_ok U (lw_disk w\<^sub>0) []"
    and "update_runs U ((w\<^sub>0, []), all_start U) x"
  shows "updates_inv U w\<^sub>0 (\<lambda>_. []) x"
  using runs_keep [OF assms(4) updates_start [OF assms(1-3)]] .

lemma answer_served:
  assumes "updates_inv U w\<^sub>0 B ((w, L), T)" "T n = Locking (Ret (Some v))"
  shows "served U n (B n) (Inr v) (log_of U n L)"
  using updates_invD(6) [OF assms(1), of n] by (simp add: phase_ok_def assms(2))

text \<open>An attempt that has not left its callback may be watched from now on.\<close>

lemma watched:
  assumes "updates_inv U w\<^sub>0 (\<lambda>_. []) ((w, L), T)" "T n = Locking p" "n \<notin> lw_left w"
  shows "updates_inv U w\<^sub>0 (\<lambda>m. if m = n then log_of U n L else []) ((w, L), T)"
proof -
  note inv = updates_invD [OF assms(1)]
  have "phase_ok U (\<lambda>m. if m = n then log_of U n L else []) w L m (T m)" for m
    using inv(6) [of m] assms(2,3) by (cases "m = n") (auto simp: phase_ok_def)
  with inv show ?thesis by (simp add: updates_inv_def)
qed

subsection \<open>An update alone\<close>

lemma updates_trans: "update_runs U y z \<Longrightarrow> update_runs U x y \<Longrightarrow> update_runs U x z"
  by (induction rule: update_runs.induct) (auto intro: updates_step)

lemma updates_single: "update_step U x y \<Longrightarrow> update_runs U x y"
  by (rule updates_step [OF updates_refl])

lemma update_closed:
  "call_closed (us_locks U) n clock r (\<lambda>z p. alone_ok (us_locks U) n z \<and> update_runs U x ((fst z, L), T(n := Locking p)))"
  unfolding call_closed_def
proof (intro allI impI)
  fix z c k
  assume z: "alone_ok (us_locks U) n z \<and> update_runs U x ((fst z, L), T(n := Locking (Call c k)))" and c: "c \<noteq> CallbackReturns"
  let ?z = "snd (serve_lock (us_locks U) n clock r c z)" and ?a = "fst (serve_lock (us_locks U) n clock r c z)"
  note ok = serve_lock_ok [OF conjunct1 [OF z], of c clock r]
  have "update_step U ((fst z, L), T(n := Locking (Call c k))) ((fst ?z, L), (T(n := Locking (Call c k)))(n := Locking (k ?a)))"
    by (rule lock_call) (use c ok in auto)
  with z ok show "alone_ok (us_locks U) n ?z \<and> update_runs U x ((fst ?z, L), T(n := Locking (k ?a)))"
    by (auto intro: updates_step)
qed

lemma work_served: "sw_ns s = us_ns U n \<Longrightarrow> work_sys U n c (sw_disk s) (fst (serve_store c s)) (sw_disk (snd (serve_store c s)))
    \<and> sw_ns (snd (serve_store c s)) = us_ns U n"
  by (cases c) (auto intro!: work_disk step_served work_ns work_clock work_other simp flip: work_ns)

lemma work_solo:
  assumes "T n = Working p r" "runs_in (us_locks U) n w" "sw_disk s = lw_disk w" "sw_ns s = us_ns U n"
  shows "\<exists>L'. set L' \<subseteq> insert n (set L) \<and> prefix L L' \<and> update_runs U ((w, L), T)
      ((w\<lparr>lw_disk := sw_disk (snd (exec serve_store p s))\<rparr>, L'), T(n := Working (outcome_of (fst (exec serve_store p s))) r))"
  using assms
proof (induction p arbitrary: w s T L)
  case (Ret v)
  then have "T(n := Working (outcome_of (Inr v)) r) = T" by (auto simp: outcome_of_def)
  with Ret(3) show ?case by (auto intro!: exI [of _ L] updates_refl)
next
  case (Raise e)
  then have "T(n := Working (outcome_of (Inl e)) r) = T" by (auto simp: outcome_of_def)
  with Raise(3) show ?case by (auto intro!: exI [of _ L] updates_refl)
next
  case (Call c k)
  let ?a = "fst (serve_store c s)" and ?s = "snd (serve_store c s)"
  let ?w = "w\<lparr>lw_disk := sw_disk ?s\<rparr>" and ?T = "T(n := Working (k ?a) r)" and ?L = "log_after U n c ?a L"
  have step: "update_step U ((w, L), T) ((?w, ?L), ?T)"
    by (rule work [where T = T and c = c]) (use work_served [of s U n c] Call.prems in simp_all)
  have "?T n = Working (k ?a) r" "runs_in (us_locks U) n ?w" "sw_disk ?s = lw_disk ?w" "sw_ns ?s = us_ns U n"
    using Call.prems work_served [of s U n c] by (simp_all add: runs_in_def)
  from Call.IH [where T = ?T and w = ?w and s = ?s and L = ?L, OF rangeI this] obtain L' where L': "set L' \<subseteq> insert n (set ?L)" "prefix ?L L'"
    "update_runs U ((?w, ?L), ?T) ((?w\<lparr>lw_disk := sw_disk (snd (exec serve_store (k ?a) ?s))\<rparr>, L'),
       ?T(n := Working (outcome_of (fst (exec serve_store (k ?a) ?s))) r))" unfolding lock_world.simps by (auto simp del: fun_upd_apply)
  have "prefix L ?L" "set ?L \<subseteq> insert n (set L)" by (auto simp: log_after_def)
  with L' updates_trans [OF L'(3) updates_single [OF step]] show ?case
    by (intro exI [of _ L']) (auto simp: split_beta simp del: fun_upd_apply intro: prefix_order.trans)
qed

lemma update_alone:
  assumes "is_nonce n" "setting_ok (us_locks U)" "lock_is_free (us_locks U) n w" "starts_fresh (us_locks U) n w"
    and "arguments_ok (us_locks U) n clock" "clock 2 < deadline_of (us_locks U) n clock" "2 \<le> ls_rounds (us_locks U) n"
    and "alone_ok (us_locks U) n (w, 0)" "T n = Locking (attempt (us_locks U) n)" "sw_ns s = us_ns U n"
    and "sw_disk s = (lw_disk w)(own_lock U n \<mapsto> candidate_with n (owner_payload (own_record (us_locks U) n clock)))"
    and "exec serve_store (work_of U n) s = (Inr v, s')" "sw_disk s' (own_lock U n) = sw_disk s (own_lock U n)"
  shows "\<exists>L'. set L' \<subseteq> insert n (set L) \<and> prefix L L' \<and> update_runs U ((w, L), T)
      ((w\<lparr>lw_disk := (sw_disk s')(own_lock U n := None), lw_left := insert n (lw_left w), lw_unlinked := insert n (lw_unlinked w)\<rparr>, L'),
       T(n := Locking (Ret (Some v))))"
proof -
  let ?S = "us_locks U" and ?x = "own_record (us_locks U) n clock"
  let ?w = "w\<lparr>lw_disk := sw_disk s\<rparr>" and ?v = "w\<lparr>lw_disk := sw_disk s', lw_left := insert n (lw_left w)\<rparr>"
  let ?last = "w\<lparr>lw_disk := (sw_disk s')(own_lock U n := None), lw_left := insert n (lw_left w), lw_unlinked := insert n (lw_unlinked w)\<rparr>"
  let ?to = "\<lambda>M z p. alone_ok ?S n z \<and> update_runs U ((w, L), T) ((fst z, M), T(n := Locking p))"
  let ?rest = "prog_bind (release_after (ls_request ?S n) ?x) (\<lambda>_. Ret (Some v))"
  have "T(n := Locking (attempt ?S n)) = T" using assms(9) by auto
  then have "?to L (w, 0) (attempt ?S n)" using assms(8) by (simp add: updates_refl)
  from callback_path [OF assms(1-7) update_closed [where r = "Inr JNull"] this] obtain u where
    called: "?to L (?w, u) (called_back ?S n clock)" unfolding assms(11) own_lock_def by blast
  obtain k where k: "called_back ?S n clock = Call CallbackReturns k" "k (Outcome (Inr v)) = ?rest"
    by (auto simp: called_back_def prog_finally_def prog_bind_def run_callback_def)
  from called have runs: "runs_in ?S n ?w" by (simp add: alone_ok_def)
  have "update_runs U ((w, L), T) ((?w, L), T(n := Working (work_of U n) k))"
    using updates_step [OF conjunct2 [OF called] enter [where n = n and r = k]] runs k(1) by simp
  moreover obtain L' where L': "set L' \<subseteq> insert n (set L)" "prefix L L'" and
    "update_runs U ((?w, L), T(n := Working (work_of U n) k)) ((w\<lparr>lw_disk := sw_disk s'\<rparr>, L'), T(n := Working (Ret v) k))"
    using work_solo [of "T(n := Working (work_of U n) k)" n "work_of U n" k U ?w s L] runs assms(10,12) by (auto simp: outcome_of_def)
  ultimately have "update_runs U ((w, L), T) ((w\<lparr>lw_disk := sw_disk s'\<rparr>, L'), T(n := Working (Ret v) k))"
    using updates_trans by blast
  from updates_step [OF this leave [where n = n and r = k and v = v]] runs
  have left: "update_runs U ((w, L), T) ((?v, L'), T(n := Locking ?rest))" by (simp add: k(2) runs_in_def)
  have there: "lw_disk ?v (own_lock U n) = Some (candidate_with (ow_nonce ?x) (owner_payload ?x))"
    using assms(11,13) by (simp add: own_record_def)
  have own: "\<not> ow_released ?x" "ow_nonce ?x \<notin> lw_unlinked ?v" using assms(4) by (simp_all add: own_record_def starts_fresh_def)
  from exec_release [OF own_record_valid [OF assms(1,2,5)] own(1) there own(2), where t = u]
  have released: "exec (serve_lock ?S n clock (Inr JNull)) (release_after (ls_request ?S n) ?x) (?v, u) = (Inr (), (?last, u))"
    by (simp add: release_after_def exec_catch request_names [OF assms(1,2)] own_lock_def own_record_def)
  have silent: "silent (release_after (ls_request ?S n) ?x)" by (auto simp: release_after_def intro!: silent_rules silent_release)
  have "?to L' (?v, u) ?rest" using called left by (simp add: alone_ok_def runs_in_def)
  from closed_then [OF update_closed [where x = "((w, L), T)" and L = L' and T = T] this silent released]
  have "?to L' (?last, u) (Ret (Some v))" .
  with L' show ?thesis by auto
qed

subsection \<open>Two processes and a document\<close>

text \<open>The attempts of \<open>small_locks\<close>, with the key \<open>''k''\<close> and what each of them does to the document.\<close>

definition pair_updates :: "(string \<Rightarrow> body) \<Rightarrow> pydict option \<Rightarrow> update_setting" where
  "pair_updates b d =
     \<lparr> us_locks = small_locks, us_digest = (\<lambda>k. k), us_ns = (\<lambda>_. 0), us_body = b, us_start = (\<lambda>_. d) \<rparr>"

lemma pair_fields [simp]:
  "us_locks (pair_updates b d) = small_locks" "us_body (pair_updates b d) = b" "us_start (pair_updates b d) l = d"
  "us_ns (pair_updates b d) n = 0" "us_digest (pair_updates b d) k = k"
  "own_key (pair_updates b d) n = ''k''" "own_lock (pair_updates b d) n = ''k.json.lock''" "own_data (pair_updates b d) n = ''k.json''"
  by (simp_all add: pair_updates_def own_key_def own_lock_def own_data_def path_for_def file_stem_def small_locks_def ls_lock_def)

lemma utf8_k: "utf8_ok ''k''"
  by (auto simp: byte_of_def intro!: ascii_text_utf8)

lemma pair_ok:
  assumes "\<And>n. body_ok (b n)" "\<And>x. d = Some x \<Longrightarrow> storable True (JDict x)"
  shows "update_ok (pair_updates b d)"
  using assms small_locks_ok utf8_k by (simp add: update_ok_def lock_path_for_def file_stem_def)

definition doc_file :: "pydict option \<Rightarrow> node option" where
  "doc_file d = map_option (\<lambda>p. Leaf (Reg (json_dumps_default (JDict (document_of ''k'' p None))))) d"

definition doc_world :: "pydict option \<Rightarrow> string set \<Rightarrow> lock_world" where
  "doc_world d M = (small_lock_world (Map.empty(''k.json'' := doc_file d)))\<lparr>lw_left := M, lw_unlinked := M\<rparr>"

lemma doc_disk [simp]: "lw_disk (doc_world d M) = Map.empty(''k.json'' := doc_file d)"
  by (simp add: doc_world_def small_lock_world_def)

lemma pair_start: "fresh_start small_locks (doc_world d {})" "documents_ok (pair_updates b d) (Map.empty(''k.json'' := doc_file d)) []"
proof -
  show "fresh_start small_locks (doc_world d {})"
    by (auto simp: fresh_start_def owns_def disk_records_def doc_file_def) (auto simp: doc_world_def small_lock_world_def)
  show "documents_ok (pair_updates b d) (Map.empty(''k.json'' := doc_file d)) []"
    using utf8_k by (auto simp: documents_ok_def holds_doc_def log_of_def doc_after_def is_folder_def doc_file_def split: option.split)
qed

lemma exec_pair_work:
  assumes "b n d = (Inr v, Some d')" "\<And>x. d = Some x \<Longrightarrow> storable True (JDict x)"
    and "sw_disk s ''k.json'' = doc_file d" "sw_disk s (own_temp (pair_updates b d\<^sub>0) n) = None" "sw_ns s = 0"
  shows "exec serve_store (work_of (pair_updates b d\<^sub>0) n) s = (Inr v, s\<lparr>sw_disk := (sw_disk s)(''k.json'' := doc_file (Some d'))\<rparr>)"
proof -
  let ?U = "pair_updates b d\<^sub>0"
  have path: "path_for (us_digest ?U) ''k'' = ''k.json''" by (simp add: path_for_def file_stem_def)
  have got: "exec serve_store (file_get (us_digest ?U) ''k'') s = (Inr d, s)"
  proof (cases d)
    case None
    with assms(3) show ?thesis
      by (simp add: file_get_def read_state_text_def exec_try exec_bind exec_on_disk path doc_file_def)
  next
    case (Some x)
    with assms(3) exec_file_get [where t = None and key = "''k''" and digest = "us_digest ?U" and w = s, unfolded path,
        OF _ utf8_k assms(2)] show ?thesis
      by (simp add: doc_file_def expiry_prints_def has_expired_def)
  qed
  have temp: "temporary_for (us_digest ?U) (own_pid ?U n) (sw_ns s) ''k'' = own_temp ?U n"
    using assms(5) by (simp add: own_temp_def)
  have "holds_file (sw_disk s) (own_temp ?U n)" "holds_file (sw_disk s) ''k.json''"
    using assms(3,4) by (cases d; simp add: holds_file_def doc_file_def)+
  from exec_file_put [where digest = "us_digest ?U" and pid = "own_pid ?U n" and key = "''k''" and w = s, unfolded path temp,
      OF this, where ttl = None and d = d']
  have put: "exec serve_store (file_put (us_digest ?U) (own_pid ?U n) ''k'' d' None) s =
      (Inr (), s\<lparr>sw_disk := (sw_disk s)(''k.json'' := doc_file (Some d'))\<rparr>)"
    using assms(4) by (simp add: doc_file_def fun_upd_idem)
  show ?thesis by (simp add: work_of_def update_program_def exec_bind got assms(1) put give_def)
qed

text \<open>The names of candidates and of temporary files are not those of the lock and the document.\<close>

lemma pair_names:
  assumes "is_nonce m"
  shows "own_candidate small_locks m \<noteq> ''k.json.lock''" "own_candidate small_locks m \<noteq> ''k.json''"
    "own_temp (pair_updates b d) n \<noteq> ''k.json.lock''" "own_temp (pair_updates b d) n \<noteq> ''k.json''"
proof -
  let ?U = "pair_updates (\<lambda>_ _. (Inr JNull, None)) None"
  have U: "update_ok ?U" by (rule pair_ok) (auto simp: body_ok_def)
  have temp: "own_temp (pair_updates b d) n = own_temp ?U n" by (simp add: own_temp_def own_pid_def) (simp add: pair_updates_def)
  show "own_candidate small_locks m \<noteq> ''k.json.lock''" by (rule small_candidate [OF assms])
  have "lockish small_locks (own_candidate small_locks m)" "lockish small_locks ''k.json.lock''"
    using lockish_names [of small_locks] small_lock_name by metis+
  with store_names [OF U] show "own_candidate small_locks m \<noteq> ''k.json''" "own_temp (pair_updates b d) n \<noteq> ''k.json.lock''"
    unfolding pair_fields temp by metis+
  show "own_temp (pair_updates b d) n \<noteq> ''k.json''" unfolding temp using same_lock(3) [OF U, of n n] by simp
qed

lemma pair_update:
  assumes "is_nonce n" "n \<in> {nonce_of (CHR ''a''), nonce_of (CHR ''b'')}" "n \<notin> M" "T n = Locking (attempt small_locks n)"
    and "b n d = (Inr v, Some d')" "\<And>x. d = Some x \<Longrightarrow> storable True (JDict x)"
  shows "\<exists>L'. set L' \<subseteq> insert n (set L) \<and> prefix L L' \<and> update_runs (pair_updates b d\<^sub>0) ((doc_world d M, L), T)
      ((doc_world (Some d') (insert n M), L'), T(n := Locking (Ret (Some v))))"
proof -
  let ?w = "doc_world d M" and ?c = "candidate_with n (owner_payload (own_record small_locks n (\<lambda>_. 0)))"
  let ?s = "\<lparr> sw_disk = (lw_disk ?w)(''k.json.lock'' \<mapsto> ?c), sw_now = 0, sw_ns = 0 \<rparr>"
  let ?u = "?s\<lparr>sw_disk := (sw_disk ?s)(''k.json'' := doc_file (Some d'))\<rparr>"
  note names = pair_names [OF assms(1)]
  have free: "lock_is_free small_locks n ?w" by (simp add: lock_is_free_def)
  have start: "starts_fresh small_locks n ?w" using assms(3) names by (simp add: starts_fresh_def) (simp add: doc_world_def small_lock_world_def)
  have clock: "(\<lambda>_. 0) 2 < deadline_of small_locks n (\<lambda>_. 0)" "arguments_ok small_locks n (\<lambda>_. 0)"
    by (simp add: deadline_of_def small_locks_def num_value_of_def, rule small_arguments) simp_all
  have alone: "alone_ok small_locks n (?w, 0)"
    using small_alone [OF assms(2), of Map.empty] by (simp add: alone_ok_def runs_in_def doc_world_def small_lock_world_def)
  have ran: "exec serve_store (work_of (pair_updates b d\<^sub>0) n) ?s = (Inr v, ?u)"
    by (rule exec_pair_work [where d = d]) (use names assms(5,6) in simp_all)
  have over: "?w\<lparr>lw_disk := (sw_disk ?u)(''k.json.lock'' := None), lw_left := insert n (lw_left ?w), lw_unlinked := insert n (lw_unlinked ?w)\<rparr>
      = doc_world (Some d') (insert n M)"
    by (simp add: doc_world_def small_lock_world_def fun_eq_iff)
  have kept: "sw_disk ?u ''k.json.lock'' = sw_disk ?s ''k.json.lock''" "sw_ns ?s = 0" "2 \<le> ls_rounds small_locks n"
    "sw_disk ?s = (lw_disk ?w)(''k.json.lock'' \<mapsto> ?c)" by simp_all
  from update_alone [where U = "pair_updates b d\<^sub>0" and T = T and L = L and n = n and w = ?w and s = ?s and s' = ?u and clock = "\<lambda>_. 0",
      unfolded pair_fields over, OF assms(1) small_locks_ok free start clock(2,1) kept(3) alone assms(4) kept(2) kept(4) ran kept(1)]
  show ?thesis .
qed

text \<open>One update after the other.\<close>

lemma pair_twice:
  assumes "b (nonce_of (CHR ''a'')) d = (Inr v\<^sub>1, Some d\<^sub>1)" "b (nonce_of (CHR ''b'')) (Some d\<^sub>1) = (Inr v\<^sub>2, Some d\<^sub>2)"
    and "\<And>x. d = Some x \<Longrightarrow> storable True (JDict x)" "storable True (JDict d\<^sub>1)"
  shows "\<exists>L T L' T'. set L' \<subseteq> {nonce_of (CHR ''a''), nonce_of (CHR ''b'')}
     \<and> update_runs (pair_updates b d) ((doc_world d {}, []), all_start (pair_updates b d)) ((doc_world (Some d\<^sub>1) {nonce_of (CHR ''a'')}, L), T)
     \<and> T (nonce_of (CHR ''b'')) = Locking (attempt small_locks (nonce_of (CHR ''b'')))
     \<and> update_runs (pair_updates b d) ((doc_world (Some d\<^sub>1) {nonce_of (CHR ''a'')}, L), T)
         ((doc_world (Some d\<^sub>2) {nonce_of (CHR ''b''), nonce_of (CHR ''a'')}, L'), T')
     \<and> T' (nonce_of (CHR ''a'')) = Locking (Ret (Some v\<^sub>1)) \<and> T' (nonce_of (CHR ''b'')) = Locking (Ret (Some v\<^sub>2))"
proof -
  let ?a = "nonce_of (CHR ''a'')" and ?b = "nonce_of (CHR ''b'')" and ?U = "pair_updates b d"
  let ?T = "all_start ?U" and ?T1 = "(all_start ?U)(?a := Locking (Ret (Some v\<^sub>1)))"
  have start: "?T n = Locking (attempt small_locks n)" for n by (simp add: all_start_def)
  from pair_update [where T = ?T and n = ?a and M = "{}" and L = "[]" and d\<^sub>0 = d and b = b and d = d, OF small_nonces(1) _ _ start assms(1,3)] obtain L where
    L: "set L \<subseteq> {?a}" "update_runs ?U ((doc_world d {}, []), ?T) ((doc_world (Some d\<^sub>1) {?a}, L), ?T1)" by auto
  have b: "?T1 ?b = Locking (attempt small_locks ?b)" using start by simp
  from pair_update [where T = ?T1 and n = ?b and M = "{?a}" and L = L and d\<^sub>0 = d and b = b and d = "Some d\<^sub>1", OF small_nonces(2) _ _ b assms(2)] assms(4) obtain L' where
    L': "set L' \<subseteq> insert ?b (set L)"
    "update_runs ?U ((doc_world (Some d\<^sub>1) {?a}, L), ?T1) ((doc_world (Some d\<^sub>2) {?b, ?a}, L'), ?T1(?b := Locking (Ret (Some v\<^sub>2))))"
    by auto
  from L'(1) L(1) have "set L' \<subseteq> {?a, ?b}" by blast
  with L(2) L'(2) b show ?thesis
    by (intro exI [of _ L] exI [of _ ?T1] exI [of _ L'] exI [of _ "?T1(?b := Locking (Ret (Some v\<^sub>2)))"]) simp
qed

text \<open>They count in the document, and answer what it says then.\<close>

definition counted :: "int \<Rightarrow> pydict" where
  "counted i = [(''n'', JInt i)]"

definition count_body :: body where
  "count_body d = (let i = (case dget (case d of None \<Rightarrow> [] | Some p \<Rightarrow> p) ''n'' of JInt j \<Rightarrow> j + 1 | _ \<Rightarrow> 1)
     in (Inr (JInt i), Some (counted i)))"

abbreviation small_updates :: update_setting where
  "small_updates \<equiv> pair_updates (\<lambda>_. count_body) None"

lemma counted_storable: "storable True (JDict (counted i))"
  by (auto simp: counted_def text_ok_def byte_of_def intro!: ascii_text_utf8)

lemma small_updates_ok: "update_ok small_updates"
  by (rule pair_ok) (use counted_storable in \<open>auto simp: body_ok_def count_body_def Let_def simp del: storable.simps\<close>)

lemma count_twice:
  "count_body None = (Inr (JInt 1), Some (counted 1))" "count_body (Some (counted 1)) = (Inr (JInt 2), Some (counted 2))"
  by (simp_all add: count_body_def counted_def dget_Cons Let_def)

lemmas counting = pair_twice [where b = "\<lambda>_. count_body", OF count_twice _ counted_storable, simplified]

subsection \<open>The properties\<close>

text \<open>C5: the file of a document is what its commits make of it. However many updates of however many documents run
  beside each other, in any number of processes, with any call failing, any write torn, any process killed at any
  moment and its pid used again: at every moment the file of a document is what the bodies of the updates that have
  committed make of the document it started from, one after the other in the order of the commits, whole and with
  nothing lost; and no update commits twice.\<close>

theorem documents_follow_commits:
  assumes "update_ok U" "fresh_start (us_locks U) w\<^sub>0" "documents_ok U (lw_disk w\<^sub>0) []"
    and "update_runs U ((w\<^sub>0, []), all_start U) ((w, L), T)"
  shows "distinct L \<and> (\<forall>n. holds_doc (lw_disk w (own_data U n)) (doc_after U n (log_of U n L)))"
  using updates_invD(5) [OF updates_reached [OF assms]] by (simp add: documents_ok_def)

theorem documents_follow_commits_witness:
  "\<exists>L T. update_runs small_updates ((doc_world None {}, []), all_start small_updates)
       ((doc_world (Some (counted 2)) {nonce_of (CHR ''b''), nonce_of (CHR ''a'')}, L), T)
     \<and> distinct L \<and> set L \<subseteq> {nonce_of (CHR ''a''), nonce_of (CHR ''b'')}
     \<and> holds_doc (doc_file (Some (counted 2))) (doc_after small_updates (nonce_of (CHR ''a'')) (log_of small_updates (nonce_of (CHR ''a'')) L))"
proof -
  let ?n = "nonce_of (CHR ''a'')"
  obtain L T where L: "set L \<subseteq> {nonce_of (CHR ''a''), nonce_of (CHR ''b'')}"
    and run: "update_runs small_updates ((doc_world None {}, []), all_start small_updates)
       ((doc_world (Some (counted 2)) {nonce_of (CHR ''b''), nonce_of (CHR ''a'')}, L), T)"
    using counting updates_trans by blast
  have start: "fresh_start (us_locks small_updates) (doc_world None {})" "documents_ok small_updates (lw_disk (doc_world None {})) []"
    using pair_start by simp_all
  note result = documents_follow_commits [OF small_updates_ok start run]
  then have "holds_doc (doc_file (Some (counted 2))) (doc_after small_updates ?n (log_of small_updates ?n L))"
    by (metis doc_disk fun_upd_same pair_fields(8))
  with result run L show ?thesis by blast
qed

text \<open>C2: updates take effect one at a time, between their start and their end. An update that returns has done what its
  body says to the document as the commits before it left it: it returns the body's answer, and what the body
  writes is the next commit (or there is none of it). All commits of the lock made before a moment at which it had
  not left its callback, so also of every update that returned before it began, precede it.\<close>

theorem answers_follow_commits:
  assumes "update_ok U" "fresh_start (us_locks U) w\<^sub>0" "documents_ok U (lw_disk w\<^sub>0) []"
    and "update_runs U ((w\<^sub>0, []), all_start U) ((w, L), T)" "T n = Locking p" "n \<notin> lw_left w"
    and "update_runs U ((w, L), T) ((w', L'), T')" "T' n = Locking (Ret (Some v))"
  shows "\<exists>K. prefix (log_of U n L) K \<and> prefix K (log_of U n L')
    \<and> fst (us_body U n (doc_after U n K)) = Inr v
    \<and> (if snd (us_body U n (doc_after U n K)) = None then n \<notin> set L' else prefix (K @ [n]) (log_of U n L'))"
  using answer_served [OF runs_keep [OF assms(7) watched [OF updates_reached [OF assms(1-4)] assms(5,6)]] assms(8)]
  by (simp only: served_def log_member if_True simp_thms)

theorem answers_follow_commits_witness:
  "\<exists>L T K. update_runs small_updates ((doc_world None {}, []), all_start small_updates)
       ((doc_world (Some (counted 2)) {nonce_of (CHR ''b''), nonce_of (CHR ''a'')}, L), T)
     \<and> T (nonce_of (CHR ''b'')) = Locking (Ret (Some (JInt 2)))
     \<and> fst (count_body (doc_after small_updates (nonce_of (CHR ''b'')) K)) = Inr (JInt 2)
     \<and> prefix (K @ [nonce_of (CHR ''b'')]) (log_of small_updates (nonce_of (CHR ''b'')) L)"
proof -
  let ?a = "nonce_of (CHR ''a'')" and ?b = "nonce_of (CHR ''b'')"
  obtain L T L' T' where
    run: "update_runs small_updates ((doc_world None {}, []), all_start small_updates) ((doc_world (Some (counted 1)) {?a}, L), T)"
    and b: "T ?b = Locking (attempt small_locks ?b)"
    and run': "update_runs small_updates ((doc_world (Some (counted 1)) {?a}, L), T) ((doc_world (Some (counted 2)) {?b, ?a}, L'), T')"
    and ret: "T' ?b = Locking (Ret (Some (JInt 2)))" using counting by blast
  have start: "fresh_start (us_locks small_updates) (doc_world None {})" "documents_ok small_updates (lw_disk (doc_world None {})) []"
    using pair_start by simp_all
  have "?b \<notin> lw_left (doc_world (Some (counted 1)) {?a})" by (simp add: doc_world_def)
  from answers_follow_commits [OF small_updates_ok start run b this run' ret] obtain K where
    K: "fst (count_body (doc_after small_updates ?b K)) = Inr (JInt 2)"
    "if snd (count_body (doc_after small_updates ?b K)) = None then ?b \<notin> set L' else prefix (K @ [?b]) (log_of small_updates ?b L')"
    by auto
  have "snd (count_body d) \<noteq> None" for d by (simp add: count_body_def Let_def)
  with K updates_trans [OF run' run] ret show ?thesis by auto
qed

end
