(* ===== verification/TaskSpec.thy ===== *)
theory TaskSpec
  imports Tasks
begin

section \<open>What a task list promises, and that the code keeps it\<close>

text \<open>
  The abstract task list: entries of an id, an instruction and a \<open>hold\<close>, in insertion order, with
  the operations of the contract \<open>AgentTaskSource\<close> written as they are meant. \<open>abs_doc\<close> reads an
  abstract list off a stored document that is \<open>wf_doc\<close>; the refinement lemmas say that each body of
  \<open>Tasks\<close> keeps \<open>wf_doc\<close> and acts on the abstract list as its specification does, results and
  refusals included.
\<close>

named_theorems task_simps \<open>reading the fields of a record after an update\<close>

datatype hold = Todo | Held string int | Done | Failed

type_synonym entry = "string \<times> string \<times> hold"

subsection \<open>The specification\<close>

abbreviation e_id :: "entry \<Rightarrow> string" where "e_id e \<equiv> fst e"
abbreviation e_hold :: "entry \<Rightarrow> hold" where "e_hold e \<equiv> snd (snd e)"
abbreviation e_work :: "entry \<Rightarrow> string \<times> string" where "e_work e \<equiv> (fst e, fst (snd e))"

definition set_hold :: "hold \<Rightarrow> entry \<Rightarrow> entry" where
  "set_hold h e = (fst e, fst (snd e), h)"

fun lapse :: "rat \<Rightarrow> hold \<Rightarrow> hold" where
  "lapse now (Held w u) = (if of_int u \<le> now then Todo else Held w u)"
| "lapse now h = h"

definition spec_expire :: "rat \<Rightarrow> entry list \<Rightarrow> entry list" where
  "spec_expire now es = map (\<lambda>e. set_hold (lapse now (e_hold e)) e) es"

definition claimable :: "entry \<Rightarrow> bool" where
  "claimable e = (e_hold e = Todo)"

definition spec_claim :: "string \<Rightarrow> rat \<Rightarrow> rat \<Rightarrow> entry list \<Rightarrow> entry option \<times> entry list" where
  "spec_claim w lease now es =
     (let es = spec_expire now es; h = Held w (timestamp (now + lease))
      in case find claimable es of
           None \<Rightarrow> (None, es)
         | Some e \<Rightarrow> (Some (set_hold h e), update_first claimable (set_hold h) es))"

datatype refusal = NoSuchTask | Terminal | NotClaimed | HeldBy string

fun refusal_code :: "refusal \<Rightarrow> error_code" where
  "refusal_code NoSuchTask = TASK_NOT_FOUND"
| "refusal_code Terminal = TASK_ALREADY_TERMINAL"
| "refusal_code NotClaimed = TASK_LEASE_NOT_HELD"
| "refusal_code (HeldBy w) = TASK_LEASE_NOT_HELD"

definition spec_refuses :: "string \<Rightarrow> string \<Rightarrow> entry list \<Rightarrow> refusal option" where
  "spec_refuses i w es =
     (case find (\<lambda>e. e_id e = i) es of
        None \<Rightarrow> Some NoSuchTask
      | Some e \<Rightarrow>
          (case e_hold e of
             Todo \<Rightarrow> Some NotClaimed
           | Held v u \<Rightarrow> if v = w then None else Some (HeldBy v)
           | _ \<Rightarrow> Some Terminal))"

definition spec_rehold ::
  "string \<Rightarrow> string \<Rightarrow> hold \<Rightarrow> rat \<Rightarrow> entry list \<Rightarrow> (refusal + unit) \<times> entry list" where
  "spec_rehold i w h now es =
     (case spec_refuses i w (spec_expire now es) of
        Some r \<Rightarrow> (Inl r, es)
      | None \<Rightarrow> (Inr (), update_first (\<lambda>e. e_id e = i) (set_hold h) (spec_expire now es)))"

fun outcome_hold :: "task_outcome \<Rightarrow> hold" where
  "outcome_hold OUTCOME_DONE = Done"
| "outcome_hold OUTCOME_FAILED = Failed"

definition spec_release ::
  "string \<Rightarrow> string \<Rightarrow> task_outcome \<Rightarrow> rat \<Rightarrow> entry list \<Rightarrow> (refusal + unit) \<times> entry list" where
  "spec_release i w outcome now es = spec_rehold i w (outcome_hold outcome) now es"

definition spec_extend ::
  "string \<Rightarrow> string \<Rightarrow> rat \<Rightarrow> rat \<Rightarrow> entry list \<Rightarrow> (refusal + unit) \<times> entry list" where
  "spec_extend i w granted now es = spec_rehold i w (Held w (timestamp (now + granted))) now es"

definition spec_pending :: "rat \<Rightarrow> entry list \<Rightarrow> nat" where
  "spec_pending now es = length (filter claimable (spec_expire now es))"

subsection \<open>From stored documents to abstract lists\<close>

fun str_val :: "json \<Rightarrow> string" where
  "str_val (JStr s) = s" | "str_val _ = []"

fun int_val :: "json \<Rightarrow> int" where
  "int_val (JInt i) = i" | "int_val _ = 0"

definition abs_hold :: "pydict \<Rightarrow> hold" where
  "abs_hold r =
     (case task_state_of (dget r ''state'') of
        Some CLAIMED \<Rightarrow> Held (str_val (dget r ''claimed_by'')) (int_val (dget r ''claimed_until''))
      | Some DONE \<Rightarrow> Done
      | Some FAILED \<Rightarrow> Failed
      | _ \<Rightarrow> Todo)"

definition abs_record :: "pydict \<Rightarrow> entry" where
  "abs_record r = (str_val (dget r ''id''), str_val (dget r ''instruction''), abs_hold r)"

text \<open>A record as the code writes them: an id that is not blank, one of the four states, a holder
  and an integer expiry exactly when it is claimed.\<close>

definition wf_record :: "pydict \<Rightarrow> bool" where
  "wf_record r =
     ((\<exists>i. dget r ''id'' = JStr i \<and> i \<noteq> []) \<and> (\<exists>x. dget r ''instruction'' = JStr x)
      \<and> (case task_state_of (dget r ''state'') of
           None \<Rightarrow> False
         | Some CLAIMED \<Rightarrow> (\<exists>w. dget r ''claimed_by'' = JStr w \<and> w \<noteq> []) \<and> (\<exists>u. dget r ''claimed_until'' = JInt u)
         | Some s \<Rightarrow> dget r ''claimed_by'' = JNull \<and> dget r ''claimed_until'' = JNull))"

definition wf_doc :: "pydict option \<Rightarrow> bool" where
  "wf_doc d = (list_all wf_record (snd (tasks_read d)) \<and> distinct (map (\<lambda>r. dget r ''id'') (snd (tasks_read d))))"

definition abs_doc :: "pydict option \<Rightarrow> entry list" where
  "abs_doc d = map abs_record (snd (tasks_read d))"

text \<open>The snapshot of an entry.\<close>

definition entry_task :: "entry \<Rightarrow> stored_task" where
  "entry_task e =
     \<lparr> st_id = fst e, st_instruction = fst (snd e),
       st_state = (case e_hold e of Todo \<Rightarrow> TODO | Held _ _ \<Rightarrow> CLAIMED | Done \<Rightarrow> DONE | Failed \<Rightarrow> FAILED),
       st_claimed_by = (case e_hold e of Held w _ \<Rightarrow> Some w | _ \<Rightarrow> None),
       st_claimed_until = (case e_hold e of Held _ u \<Rightarrow> Some u | _ \<Rightarrow> None) \<rparr>"

subsection \<open>Records\<close>

lemma task_state_of_value [simp]: "task_state_of (JStr (state_value s)) = Some s"
  by (cases s) (simp_all add: task_state_of_def)

lemma task_state_of_words [simp]:
  "task_state_of (JStr ''todo'') = Some TODO" "task_state_of (JStr ''claimed'') = Some CLAIMED"
  "task_state_of (JStr ''done'') = Some DONE" "task_state_of (JStr ''failed'') = Some FAILED"
  by (simp_all add: task_state_of_def)

lemma task_state_of_Some [simp]: "task_state_of v = Some s \<longleftrightarrow> v = JStr (state_value s)"
  by (cases s) (auto simp: task_state_of_def)

lemma state_value_inj [simp]: "state_value a = state_value b \<longleftrightarrow> a = b"
  by (cases a; cases b) simp_all

lemma record_updates [task_simps]:
  "dget (back_to_todo r) k =
     (if k = ''claimed_until'' then JNull else if k = ''claimed_by'' then JNull
      else if k = ''state'' then JStr (state_value TODO) else dget r k)"
  "dget (claimed_record w u r) k =
     (if k = ''claimed_until'' then JInt u else if k = ''claimed_by'' then JStr w
      else if k = ''state'' then JStr (state_value CLAIMED) else dget r k)"
  "dget (settle_record outcome r) k =
     (if k = ''claimed_until'' then JNull else if k = ''claimed_by'' then JNull
      else if k = ''state'' then JStr (state_value (outcome_state outcome)) else dget r k)"
  by (simp_all add: back_to_todo_def claimed_record_def settle_record_def dget_dput)

lemma abs_hold_state:
  assumes "dget r ''state'' = JStr (state_value s)"
  shows "abs_hold r =
    (case s of TODO \<Rightarrow> Todo | DONE \<Rightarrow> Done | FAILED \<Rightarrow> Failed
     | CLAIMED \<Rightarrow> Held (str_val (dget r ''claimed_by'')) (int_val (dget r ''claimed_until'')))"
  using assms by (simp add: abs_hold_def split: task_state.split)

lemma abs_back_to_todo [simp]: "abs_record (back_to_todo r) = set_hold Todo (abs_record r)"
  by (simp add: abs_record_def set_hold_def abs_hold_state [of _ TODO] task_simps)

lemma abs_claimed_record [simp]: "abs_record (claimed_record w u r) = set_hold (Held w u) (abs_record r)"
  by (simp add: abs_record_def set_hold_def abs_hold_state [of _ CLAIMED] task_simps)

lemma abs_settle_record [simp]:
  "abs_record (settle_record outcome r) = set_hold (outcome_hold outcome) (abs_record r)"
  by (cases outcome)
    (simp_all add: abs_record_def set_hold_def abs_hold_state [of _ DONE] abs_hold_state [of _ FAILED] task_simps)

lemma wf_back_to_todo [simp]: "wf_record r \<Longrightarrow> wf_record (back_to_todo r)"
  by (auto simp: wf_record_def task_simps)

lemma wf_claimed_record [simp]: "wf_record r \<Longrightarrow> w \<noteq> [] \<Longrightarrow> wf_record (claimed_record w u r)"
  by (auto simp: wf_record_def task_simps)

lemma wf_settle_record [simp]: "wf_record r \<Longrightarrow> wf_record (settle_record outcome r)"
  by (cases outcome) (auto simp: wf_record_def task_simps)

lemma wf_cases:
  assumes "wf_record r"
  obtains (todo) "dget r ''state'' = JStr (state_value TODO)" "abs_hold r = Todo"
      "dget r ''claimed_by'' = JNull" "dget r ''claimed_until'' = JNull"
  | (claimed) w u where "dget r ''state'' = JStr (state_value CLAIMED)" "abs_hold r = Held w u"
      "dget r ''claimed_by'' = JStr w" "dget r ''claimed_until'' = JInt u" "w \<noteq> []"
  | (success) "dget r ''state'' = JStr (state_value DONE)" "abs_hold r = Done"
      "dget r ''claimed_by'' = JNull" "dget r ''claimed_until'' = JNull"
  | (failure) "dget r ''state'' = JStr (state_value FAILED)" "abs_hold r = Failed"
      "dget r ''claimed_by'' = JNull" "dget r ''claimed_until'' = JNull"
proof -
  from assms obtain s where s: "dget r ''state'' = JStr (state_value s)"
    and f: "case s of CLAIMED \<Rightarrow> (\<exists>w. dget r ''claimed_by'' = JStr w \<and> w \<noteq> []) \<and> (\<exists>u. dget r ''claimed_until'' = JInt u)
        | _ \<Rightarrow> dget r ''claimed_by'' = JNull \<and> dget r ''claimed_until'' = JNull"
    unfolding wf_record_def by (auto split: option.splits task_state.splits)
  show thesis
    using abs_hold_state [OF s] s f by (cases s) (auto intro: todo claimed success failure)
qed

lemma wf_id: "wf_record r \<Longrightarrow> dget r ''id'' = JStr (e_id (abs_record r)) \<and> e_id (abs_record r) \<noteq> []"
  by (auto simp: wf_record_def abs_record_def)

lemma wf_lapsed: "wf_record r \<Longrightarrow> lapsed now r \<longleftrightarrow> lapse now (abs_hold r) \<noteq> abs_hold r"
  by (erule wf_cases) (auto simp: lapsed_def)

lemma lapse_changed: "lapse now h \<noteq> h \<Longrightarrow> lapse now h = Todo"
  by (cases h) (auto split: if_splits)

lemma wf_is_todo: "wf_record r \<Longrightarrow> is_todo r \<longleftrightarrow> claimable (abs_record r)"
  by (erule wf_cases) (auto simp: is_todo_def claimable_def abs_record_def)

lemma wf_has_id: "wf_record r \<Longrightarrow> has_id i r \<longleftrightarrow> e_id (abs_record r) = i"
  using wf_id [of r] by (auto simp: has_id_def)

lemma abs_record_hold [simp]: "e_hold (abs_record r) = abs_hold r"
  by (simp add: abs_record_def)

lemma set_hold_same [simp]: "set_hold (e_hold e) e = e"
  by (simp add: set_hold_def)

lemma set_hold_fields [simp]:
  "e_id (set_hold h e) = e_id e" "fst (snd (set_hold h e)) = fst (snd e)" "e_hold (set_hold h e) = h"
  by (simp_all add: set_hold_def)

lemma int_or_none_simps [simp]: "int_or_none JNull = Inr None" "int_or_none (JInt i) = Inr (Some i)"
  by (simp_all add: int_or_none_def)

lemma wf_to_task: "wf_record r \<Longrightarrow> to_task r = Inr (entry_task (abs_record r))"
proof -
  assume wf: "wf_record r"
  then obtain i x where ix: "dget r ''id'' = JStr i" "dget r ''instruction'' = JStr x"
    by (auto simp: wf_record_def)
  then have "dget_or r ''id'' (JStr []) = JStr i" "dget_or r ''instruction'' (JStr []) = JStr x"
    by (auto simp: dget_def dget_or_def split: option.splits)
  with wf ix show ?thesis
    by (elim wf_cases) (simp_all add: to_task_def state_of_def entry_task_def abs_record_def)
qed

subsection \<open>Lists of records\<close>

lemma find_map_abs:
  assumes "\<And>r. r \<in> set rs \<Longrightarrow> P r = Q (f r)"
  shows "find Q (map f rs) = map_option f (find P rs)"
  using assms by (induction rs) auto

lemma update_first_map:
  assumes "\<And>r. r \<in> set rs \<Longrightarrow> P r = Q (f r)" and "\<And>r. r \<in> set rs \<Longrightarrow> P r \<Longrightarrow> f (g r) = h (f r)"
  shows "map f (update_first P g rs) = update_first Q h (map f rs)"
  using assms by (induction rs) auto

lemma list_all_update_first:
  assumes "list_all R rs" and "\<And>r. r \<in> set rs \<Longrightarrow> P r \<Longrightarrow> R (g r)"
  shows "list_all R (update_first P g rs)"
  using assms by (induction rs) auto

lemma tasks_read_write [simp]: "snd (tasks_read (Some (tasks_write stored records))) = records"
  by (simp add: tasks_read_def tasks_write_def)

lemma expire_wf: "list_all wf_record rs \<Longrightarrow> list_all wf_record (fst (expire rs now))"
  by (induction rs) (auto simp: Let_def split: prod.splits)

lemma expire_ids: "map (\<lambda>r. dget r ''id'') (fst (expire rs now)) = map (\<lambda>r. dget r ''id'') rs"
  by (induction rs) (auto simp: Let_def task_simps split: prod.splits)

lemma expire_abs:
  "list_all wf_record rs \<Longrightarrow> map abs_record (fst (expire rs now)) = spec_expire now (map abs_record rs)"
proof (induction rs)
  case Nil
  then show ?case by (simp add: spec_expire_def)
next
  case (Cons r rs)
  then have "abs_record (if lapsed now r then back_to_todo r else r)
      = set_hold (lapse now (abs_hold r)) (abs_record r)"
    using wf_lapsed [of r now] lapse_changed [of now "abs_hold r"] set_hold_same [of "abs_record r"]
    by (auto simp del: set_hold_same)
  with Cons show ?case by (auto simp: spec_expire_def Let_def split: prod.splits if_splits)
qed

lemma expire_unmoved: "snd (expire rs now) = False \<Longrightarrow> fst (expire rs now) = rs"
  by (induction rs) (auto simp: Let_def split: prod.splits if_splits)

text \<open>The records of a well-formed document after \<open>_expire\<close>.\<close>

lemma expired_doc:
  assumes "wf_doc d" and "expire (snd (tasks_read d)) now = (rs, moved)"
  shows "list_all wf_record rs" and "map abs_record rs = spec_expire now (abs_doc d)"
    and "distinct (map (\<lambda>r. dget r ''id'') rs)" and "\<not> moved \<Longrightarrow> rs = snd (tasks_read d)"
proof -
  have rs: "rs = fst (expire (snd (tasks_read d)) now)" "moved = snd (expire (snd (tasks_read d)) now)"
    using assms(2) by simp_all
  show "list_all wf_record rs" and "map abs_record rs = spec_expire now (abs_doc d)"
    and "distinct (map (\<lambda>r. dget r ''id'') rs)" and "\<not> moved \<Longrightarrow> rs = snd (tasks_read d)"
    using assms(1) by (simp_all add: rs wf_doc_def abs_doc_def expire_wf expire_abs expire_ids expire_unmoved)
qed

lemma wf_doc_write:
  "list_all wf_record rs \<Longrightarrow> distinct (map (\<lambda>r. dget r ''id'') rs) \<Longrightarrow> wf_doc (Some (tasks_write stored rs))"
  by (simp add: wf_doc_def)

lemma abs_doc_write [simp]: "abs_doc (Some (tasks_write stored rs)) = map abs_record rs"
  by (simp add: abs_doc_def)

text \<open>A document that holds nothing but a list of records.\<close>

definition task_doc :: "pydict list \<Rightarrow> pydict option" where
  "task_doc records = Some [(''tasks'', JList (map JDict records))]"

lemma tasks_read_doc [simp]: "snd (tasks_read (task_doc records)) = records"
  by (simp add: tasks_read_def task_doc_def dget_Cons)

lemma wf_task_doc [simp]:
  "wf_doc (task_doc records) \<longleftrightarrow> list_all wf_record records \<and> distinct (map (\<lambda>r. dget r ''id'') records)"
  by (simp add: wf_doc_def)

lemma abs_task_doc [simp]: "abs_doc (task_doc records) = map abs_record records"
  by (simp add: abs_doc_def)

lemma wf_doc_None [simp]: "wf_doc None"
  by (simp add: wf_doc_def tasks_read_def)

lemma abs_doc_None [simp]: "abs_doc None = []"
  by (simp add: abs_doc_def tasks_read_def)

lemma distinct_abs_ids: "wf_doc d \<Longrightarrow> distinct (map e_id (abs_doc d))"
proof -
  assume wf: "wf_doc d"
  then have "map (\<lambda>r. dget r ''id'') (snd (tasks_read d)) = map JStr (map e_id (abs_doc d))"
    by (auto simp: wf_doc_def abs_doc_def list_all_iff wf_id)
  with wf show ?thesis by (metis distinct_map wf_doc_def)
qed

end
