(* ===== verification/TaskRefine.thy ===== *)
theory TaskRefine
  imports TaskSpec
begin

section \<open>The task list's bodies implement their specification\<close>

text \<open>
  One refinement lemma per callback of \<open>Tasks\<close>: on a well-formed document the body returns what the
  specification returns, refuses with the code the specification's refusal has, keeps the document
  well-formed, and writes the list the specification computes. Then the calls of a source as steps
  of a run (\<open>task_call\<close>, \<open>call_doc\<close>, \<open>call_spec\<close>), whose refinement lifts to every run.
\<close>

subsection \<open>Claiming\<close>

lemma claim_target:
  assumes wf: "list_all wf_record rs" and w: "w \<noteq> []" and f: "find is_todo rs = Some r"
  shows "map abs_record (update_first is_todo (\<lambda>_. claimed_record w u r) rs)
           = update_first claimable (set_hold (Held w u)) (map abs_record rs)"
    and "list_all wf_record (update_first is_todo (\<lambda>_. claimed_record w u r) rs)"
    and "map (\<lambda>x. dget x ''id'') (update_first is_todo (\<lambda>_. claimed_record w u r) rs)
           = map (\<lambda>x. dget x ''id'') rs"
proof -
  from update_first_split [OF f, of "\<lambda>_. claimed_record w u r"]
  obtain ys zs where s: "rs = ys @ r # zs" "is_todo r" "\<forall>y \<in> set ys. \<not> is_todo y"
    and up: "update_first is_todo (\<lambda>_. claimed_record w u r) rs = ys @ claimed_record w u r # zs" by auto
  have r: "wf_record r" and yz: "list_all wf_record ys" "list_all wf_record zs" using wf s by auto
  have "update_first claimable (set_hold (Held w u)) (map abs_record (ys @ r # zs))
      = map abs_record ys @ set_hold (Held w u) (abs_record r) # map abs_record zs"
    using yz(1) s(2,3) r by (induction ys) (auto simp: wf_is_todo)
  then show "map abs_record (update_first is_todo (\<lambda>_. claimed_record w u r) rs)
           = update_first claimable (set_hold (Held w u)) (map abs_record rs)"
    unfolding up by (simp add: s(1))
  show "list_all wf_record (update_first is_todo (\<lambda>_. claimed_record w u r) rs)"
    using r yz w by (simp add: up)
  show "map (\<lambda>x. dget x ''id'') (update_first is_todo (\<lambda>_. claimed_record w u r) rs)
           = map (\<lambda>x. dget x ''id'') rs"
    unfolding up by (simp add: s(1) task_simps)
qed

lemma take_body_refines:
  assumes wf: "wf_doc d" and w: "w \<noteq> []"
  shows "fst (take_body w lease now d) = Inr (map_option entry_task (fst (spec_claim w lease now (abs_doc d))))"
    and "wf_doc (body_doc (take_body w lease now) d)"
    and "abs_doc (body_doc (take_body w lease now) d) = snd (spec_claim w lease now (abs_doc d))"
proof -
  obtain stored rs0 where tr: "tasks_read d = (stored, rs0)" by (cases "tasks_read d")
  obtain rs moved where e: "expire (snd (tasks_read d)) now = (rs, moved)"
    by (cases "expire (snd (tasks_read d)) now")
  then have e0: "expire rs0 now = (rs, moved)" by (simp add: tr)
  note x = expired_doc [OF wf e]
  have f: "find claimable (spec_expire now (abs_doc d)) = map_option abs_record (find is_todo rs)"
    unfolding x(2) [symmetric]
    by (rule find_map_abs) (use x(1) wf_is_todo in \<open>auto simp: list_all_iff\<close>)
  have d_eq: "wf_doc (body_doc (take_body w lease now) d)
      \<and> abs_doc (body_doc (take_body w lease now) d) = snd (spec_claim w lease now (abs_doc d))
      \<and> fst (take_body w lease now d) = Inr (map_option entry_task (fst (spec_claim w lease now (abs_doc d))))"
  proof (cases "find is_todo rs")
    case None
    have "abs_doc d = spec_expire now (abs_doc d)" if "\<not> moved"
      using x(2) x(4) [OF that] by (simp add: abs_doc_def)
    with None e0 f x wf show ?thesis
      by (cases moved) (auto simp: take_body_def body_doc_def spec_claim_def Let_def wf_doc_write tr)
  next
    case (Some r)
    let ?u = "timestamp (now + lease)"
    let ?t = "claimed_record w ?u r"
    have r: "wf_record r" using Some x(1) by (auto simp: list_all_iff dest: find_SomeD)
    note up = claim_target [OF x(1) w Some, of ?u]
    have t: "to_task ?t = Inr (entry_task (set_hold (Held w ?u) (abs_record r)))"
      using wf_to_task [of ?t] r w by simp
    have b: "take_body w lease now d = (Inr (Some (entry_task (set_hold (Held w ?u) (abs_record r)))),
        Some (tasks_write stored (update_first is_todo (\<lambda>_. ?t) rs)))"
      using Some e0 t by (simp add: take_body_def Let_def tr)
    have "wf_doc (Some (tasks_write stored (update_first is_todo (\<lambda>_. ?t) rs)))"
      by (rule wf_doc_write) (use up x(3) in simp_all)
    then show ?thesis using f Some up(1) x(2)
      by (simp add: b body_doc_def spec_claim_def Let_def)
  qed
  then show "fst (take_body w lease now d)
        = Inr (map_option entry_task (fst (spec_claim w lease now (abs_doc d))))"
    and "wf_doc (body_doc (take_body w lease now) d)"
    and "abs_doc (body_doc (take_body w lease now) d) = snd (spec_claim w lease now (abs_doc d))"
    by blast+
qed

subsection \<open>Releasing and extending\<close>

definition refines_refusal :: "'a pyres \<Rightarrow> refusal + unit \<Rightarrow> bool" where
  "refines_refusal r s =
     (case s of Inl x \<Rightarrow> (case r of Inl e \<Rightarrow> is_code e (refusal_code x) | Inr _ \<Rightarrow> False)
              | Inr _ \<Rightarrow> (case r of Inl _ \<Rightarrow> False | Inr _ \<Rightarrow> True))"

lemma held_record_refines:
  assumes wf: "list_all wf_record rs"
  shows "case spec_refuses i w (map abs_record rs) of
           Some x \<Rightarrow> \<exists>e. held_record detail i w rs = Inl e \<and> is_code e (refusal_code x)
         | None \<Rightarrow> \<exists>r u. held_record detail i w rs = Inr r \<and> find (has_id i) rs = Some r \<and> wf_record r
                       \<and> abs_hold r = Held w u"
proof -
  have f: "find (\<lambda>e. e_id e = i) (map abs_record rs) = map_option abs_record (find (has_id i) rs)"
    by (rule find_map_abs) (use wf wf_has_id in \<open>auto simp: list_all_iff\<close>)
  show ?thesis
  proof (cases "find (has_id i) rs")
    case None
    with f show ?thesis by (simp add: spec_refuses_def held_record_def locate_def code_simps)
  next
    case (Some r)
    then have r: "wf_record r" using wf by (auto simp: list_all_iff dest: find_SomeD)
    then show ?thesis
      by (rule wf_cases)
        (use Some f r in \<open>auto simp: spec_refuses_def held_record_def locate_def state_of_def
            is_terminal_def code_simps\<close>)
  qed
qed

text \<open>Rewriting the record that was found, for both operations.\<close>

lemma rehold_target:
  assumes wf: "list_all wf_record rs" and f: "find (has_id i) rs = Some r"
    and g: "abs_record r' = set_hold h (abs_record r)" "wf_record r'"
  shows "map abs_record (update_first (has_id i) (\<lambda>_. r') rs)
           = update_first (\<lambda>e. e_id e = i) (set_hold h) (map abs_record rs)"
    and "list_all wf_record (update_first (has_id i) (\<lambda>_. r') rs)"
    and "map (\<lambda>x. dget x ''id'') (update_first (has_id i) (\<lambda>_. r') rs) = map (\<lambda>x. dget x ''id'') rs"
    and "k r = r' \<Longrightarrow> update_first (has_id i) k rs = update_first (has_id i) (\<lambda>_. r') rs"
proof -
  from update_first_split [OF f, of "\<lambda>_. r'"]
  obtain ys zs where s: "rs = ys @ r # zs" "has_id i r" "\<forall>y \<in> set ys. \<not> has_id i y"
    and up: "update_first (has_id i) (\<lambda>_. r') rs = ys @ r' # zs" by auto
  have r: "wf_record r" and yz: "list_all wf_record ys" "list_all wf_record zs" using wf s by auto
  have "update_first (\<lambda>e. e_id e = i) (set_hold h) (map abs_record (ys @ r # zs))
      = map abs_record ys @ set_hold h (abs_record r) # map abs_record zs"
    using yz(1) s(2,3) r by (induction ys) (auto simp: wf_has_id)
  then show "map abs_record (update_first (has_id i) (\<lambda>_. r') rs)
           = update_first (\<lambda>e. e_id e = i) (set_hold h) (map abs_record rs)"
    unfolding up by (simp add: s(1) g)
  show "list_all wf_record (update_first (has_id i) (\<lambda>_. r') rs)"
    using yz g by (simp add: up)
  have "e_id (abs_record r') = e_id (abs_record r)" by (simp add: g)
  then have "dget r' ''id'' = dget r ''id''" using wf_id [OF r] wf_id [OF g(2)] by simp
  then show "map (\<lambda>x. dget x ''id'') (update_first (has_id i) (\<lambda>_. r') rs) = map (\<lambda>x. dget x ''id'') rs"
    unfolding up by (simp add: s(1))
  show "update_first (has_id i) k rs = update_first (has_id i) (\<lambda>_. r') rs" if "k r = r'"
    using s(2,3) that unfolding up unfolding s(1) by (induction ys) auto
qed

lemma settle_body_refines:
  assumes wf: "wf_doc d"
  shows "refines_refusal (fst (settle_body i w outcome now d)) (fst (spec_release i w outcome now (abs_doc d)))"
    and "wf_doc (body_doc (settle_body i w outcome now) d)"
    and "abs_doc (body_doc (settle_body i w outcome now) d) = snd (spec_release i w outcome now (abs_doc d))"
proof -
  obtain stored rs0 where tr: "tasks_read d = (stored, rs0)" by (cases "tasks_read d")
  obtain rs moved where e: "expire (snd (tasks_read d)) now = (rs, moved)"
    by (cases "expire (snd (tasks_read d)) now")
  then have e0: "expire rs0 now = (rs, moved)" by (simp add: tr)
  note x = expired_doc [OF wf e]
  let ?m = not_claimed_detail
  have "refines_refusal (fst (settle_body i w outcome now d)) (fst (spec_release i w outcome now (abs_doc d)))
      \<and> wf_doc (body_doc (settle_body i w outcome now) d)
      \<and> abs_doc (body_doc (settle_body i w outcome now) d) = snd (spec_release i w outcome now (abs_doc d))"
  proof (cases "spec_refuses i w (map abs_record rs)")
    case (Some r)
    with held_record_refines [OF x(1), where i = i and w = w and detail = ?m]
    obtain ex where "held_record ?m i w rs = Inl ex" "is_code ex (refusal_code r)" by auto
    with Some e0 x(2) wf tr show ?thesis
      by (simp add: settle_body_def spec_release_def spec_rehold_def body_doc_def refines_refusal_def)
  next
    case None
    with held_record_refines [OF x(1), where i = i and w = w and detail = ?m]
    obtain r where h: "held_record ?m i w rs = Inr r" "find (has_id i) rs = Some r" "wf_record r" by auto
    note up = rehold_target(1-3) [OF x(1) h(2) abs_settle_record [of outcome r] wf_settle_record [OF h(3), of outcome]]
      rehold_target(4) [OF x(1) h(2) abs_settle_record [of outcome r] wf_settle_record [OF h(3), of outcome],
        where k = "settle_record outcome", OF refl]
    have "wf_doc (Some (tasks_write stored (update_first (has_id i) (settle_record outcome) rs)))"
      by (rule wf_doc_write) (use up x(3) in simp_all)
    with None e0 x(2) h up tr show ?thesis
      by (simp add: settle_body_def spec_release_def spec_rehold_def body_doc_def refines_refusal_def)
  qed
  then show "refines_refusal (fst (settle_body i w outcome now d)) (fst (spec_release i w outcome now (abs_doc d)))"
    and "wf_doc (body_doc (settle_body i w outcome now) d)"
    and "abs_doc (body_doc (settle_body i w outcome now) d) = snd (spec_release i w outcome now (abs_doc d))"
    by blast+
qed

lemma extended_record:
  assumes "wf_record r" and "abs_hold r = Held w u"
  shows "abs_record (dput ''claimed_until'' (JInt v) r) = set_hold (Held w v) (abs_record r)"
    and "wf_record (dput ''claimed_until'' (JInt v) r)"
proof -
  have s: "dget r ''state'' = JStr (state_value CLAIMED)" "dget r ''claimed_by'' = JStr w" "w \<noteq> []"
    using assms by (auto elim: wf_cases)
  then have "abs_hold (dput ''claimed_until'' (JInt v) r) = Held w v"
    by (subst abs_hold_state [of _ CLAIMED]) (simp_all add: dget_dput)
  then show "abs_record (dput ''claimed_until'' (JInt v) r) = set_hold (Held w v) (abs_record r)"
    by (simp add: abs_record_def set_hold_def dget_dput)
  show "wf_record (dput ''claimed_until'' (JInt v) r)"
    using assms(1) s by (auto simp: wf_record_def dget_dput)
qed

lemma hold_body_refused:
  assumes wf: "wf_doc d" and x: "spec_refuses i w (spec_expire now (abs_doc d)) = Some x"
  shows "\<exists>e. hold_body i w granted now d = (Inl e, None) \<and> is_code e (refusal_code x)"
proof -
  obtain stored rs0 where tr: "tasks_read d = (stored, rs0)" by (cases "tasks_read d")
  obtain rs moved where e: "expire (snd (tasks_read d)) now = (rs, moved)"
    by (cases "expire (snd (tasks_read d)) now")
  then have e0: "expire rs0 now = (rs, moved)" by (simp add: tr)
  note y = expired_doc [OF wf e]
  with x have "spec_refuses i w (map abs_record rs) = Some x" by simp
  with held_record_refines [OF y(1), where i = i and w = w and detail = lease_expired_detail]
  show ?thesis using e0 by (auto simp: hold_body_def tr)
qed

lemma hold_body_refines:
  assumes wf: "wf_doc d"
  shows "refines_refusal (fst (hold_body i w granted now d)) (fst (spec_extend i w granted now (abs_doc d)))"
    and "wf_doc (body_doc (hold_body i w granted now) d)"
    and "abs_doc (body_doc (hold_body i w granted now) d) = snd (spec_extend i w granted now (abs_doc d))"
    and "fst (hold_body i w granted now d) = Inr t \<Longrightarrow> st_claimed_until t = Some (timestamp (now + granted))
           \<and> st_id t = i \<and> st_claimed_by t = Some w"
proof -
  obtain stored rs0 where tr: "tasks_read d = (stored, rs0)" by (cases "tasks_read d")
  obtain rs moved where e: "expire (snd (tasks_read d)) now = (rs, moved)"
    by (cases "expire (snd (tasks_read d)) now")
  then have e0: "expire rs0 now = (rs, moved)" by (simp add: tr)
  note x = expired_doc [OF wf e]
  let ?m = lease_expired_detail
  let ?u = "timestamp (now + granted)"
  have "refines_refusal (fst (hold_body i w granted now d)) (fst (spec_extend i w granted now (abs_doc d)))
      \<and> wf_doc (body_doc (hold_body i w granted now) d)
      \<and> abs_doc (body_doc (hold_body i w granted now) d) = snd (spec_extend i w granted now (abs_doc d))
      \<and> (fst (hold_body i w granted now d) = Inr t \<longrightarrow> st_claimed_until t = Some ?u
           \<and> st_id t = i \<and> st_claimed_by t = Some w)"
  proof (cases "spec_refuses i w (map abs_record rs)")
    case (Some r)
    with held_record_refines [OF x(1), where i = i and w = w and detail = ?m]
    obtain ex where "held_record ?m i w rs = Inl ex" "is_code ex (refusal_code r)" by auto
    with Some e0 x(2) wf tr show ?thesis
      by (simp add: hold_body_def spec_extend_def spec_rehold_def body_doc_def refines_refusal_def)
  next
    case None
    with held_record_refines [OF x(1), where i = i and w = w and detail = ?m]
    obtain r u where h: "held_record ?m i w rs = Inr r" "find (has_id i) rs = Some r" "wf_record r"
      "abs_hold r = Held w u" by auto
    let ?r = "dput ''claimed_until'' (JInt ?u) r"
    note ext = extended_record [OF h(3,4), of ?u]
    note up = rehold_target(1-3) [OF x(1) h(2) ext]
    have t: "to_task ?r = Inr (entry_task (set_hold (Held w ?u) (abs_record r)))"
      using wf_to_task [OF ext(2)] ext(1) by simp
    have id: "e_id (abs_record r) = i"
      using h(2,3) by (auto dest: find_SomeD simp: wf_has_id)
    have "wf_doc (Some (tasks_write stored (update_first (has_id i) (\<lambda>_. ?r) rs)))"
      by (rule wf_doc_write) (use up x(3) in simp_all)
    with None e0 x(2) h up t id tr show ?thesis
      by (auto simp: hold_body_def spec_extend_def spec_rehold_def body_doc_def refines_refusal_def
          entry_task_def Let_def)
  qed
  then show "refines_refusal (fst (hold_body i w granted now d)) (fst (spec_extend i w granted now (abs_doc d)))"
    and "wf_doc (body_doc (hold_body i w granted now) d)"
    and "abs_doc (body_doc (hold_body i w granted now) d) = snd (spec_extend i w granted now (abs_doc d))"
    and "fst (hold_body i w granted now d) = Inr t \<Longrightarrow> st_claimed_until t = Some ?u
           \<and> st_id t = i \<and> st_claimed_by t = Some w"
    by blast+
qed

subsection \<open>Adding\<close>

text \<open>The ids a batch gets, and the entries after it; \<open>None\<close> when one is blank or taken.\<close>

fun spec_add :: "entry list \<Rightarrow> (string \<times> string option) list \<Rightarrow> entry list option" where
  "spec_add es [] = Some es"
| "spec_add es ((instruction, given) # rest) =
     (let i = (case given of Some i \<Rightarrow> i | None \<Rightarrow> ''t-'' @ show_nat (length es + 1))
      in if i = [] \<or> i \<in> e_id ` set es then None else spec_add (es @ [(i, instruction, Todo)]) rest)"

text \<open>The same in one look at the whole batch, without its loop. The ids of a batch on a list of
  \<open>n\<close> tasks, a missing one made up from the number of tasks before it; a batch is accepted when
  no id is blank, given twice, or on the list; and what an accepted batch puts on the list.\<close>

definition batch_ids :: "nat \<Rightarrow> (string \<times> string option) list \<Rightarrow> string list" where
  "batch_ids n items =
     map2 (\<lambda>k item. case snd item of Some i \<Rightarrow> i | None \<Rightarrow> ''t-'' @ show_nat (k + 1)) [n ..< n + length items] items"

definition acceptable :: "string list \<Rightarrow> string list \<Rightarrow> bool" where
  "acceptable present ids = ([] \<notin> set ids \<and> distinct ids \<and> set ids \<inter> set present = {})"

definition landed :: "(string \<times> string) list \<Rightarrow> (string \<times> string option) list \<Rightarrow> (string \<times> string) list" where
  "landed works items =
     (let ids = batch_ids (length works) items
      in if acceptable (map fst works) ids then zip ids (map fst items) else [])"

lemma batch_ids_Nil [simp]: "batch_ids n [] = []"
  by (simp add: batch_ids_def)

lemma batch_ids_Cons [simp]:
  "batch_ids n (item # rest) = (case snd item of Some i \<Rightarrow> i | None \<Rightarrow> ''t-'' @ show_nat (n + 1)) # batch_ids (Suc n) rest"
proof -
  have "[n ..< n + length (item # rest)] = n # [Suc n ..< Suc n + length rest]" by (simp add: upt_rec)
  then show ?thesis by (simp only: batch_ids_def zip_Cons_Cons list.map prod.case)
qed

lemma length_batch_ids [simp]: "length (batch_ids n items) = length items"
  by (simp add: batch_ids_def)

lemma acceptable_Nil [simp]: "acceptable present []"
  by (simp add: acceptable_def)

lemma acceptable_Cons [simp]:
  "acceptable present (i # ids) \<longleftrightarrow> i \<noteq> [] \<and> i \<notin> set present \<and> acceptable (present @ [i]) ids"
  by (auto simp: acceptable_def)

lemma spec_add_batch:
  "spec_add es items =
     (if acceptable (map e_id es) (batch_ids (length es) items)
      then Some (es @ map (\<lambda>(i, x). (i, x, Todo)) (zip (batch_ids (length es) items) (map fst items))) else None)"
proof (induction items arbitrary: es)
  case Nil
  then show ?case by simp
next
  case (Cons item rest)
  obtain x given where item: "item = (x, given)" by (cases item)
  define i where "i = (case given of Some i \<Rightarrow> i | None \<Rightarrow> ''t-'' @ show_nat (length es + 1))"
  have i: "(case given of None \<Rightarrow> ''t-'' @ show_nat (length es + 1) | Some i \<Rightarrow> i) = i" by (simp add: i_def)
  show ?case unfolding item spec_add.simps batch_ids_Cons snd_conv i Let_def
    by (auto simp: Cons.IH)
qed

lemma new_record_facts [simp]:
  assumes "i \<noteq> []"
  shows "wf_record (new_record i x)" and "abs_record (new_record i x) = (i, x, Todo)"
    and "dget (new_record i x) ''id'' = JStr i"
  using assms by (auto simp: wf_record_def abs_record_def abs_hold_def new_record_def dget_def)

text \<open>Why a batch is refused: the first id that cannot be accepted after the ones before it.\<close>

definition refuses_batch :: "exn \<Rightarrow> string list \<Rightarrow> string list \<Rightarrow> bool" where
  "refuses_batch e present ids =
     (\<exists>k < length ids. acceptable present (take k ids) \<and> \<not> acceptable present (take (Suc k) ids)
        \<and> is_code e (if ids ! k = [] then TASK_IDENTIFIER_BLANK else DUPLICATE_TASK_ID))"

lemma refuses_batch_first:
  "i = [] \<or> i \<in> set present \<Longrightarrow> is_code e (if i = [] then TASK_IDENTIFIER_BLANK else DUPLICATE_TASK_ID)
     \<Longrightarrow> refuses_batch e present (i # ids)"
  unfolding refuses_batch_def by (intro exI [of _ 0]) auto

lemma refuses_batch_later:
  assumes "refuses_batch e (present @ [i]) ids" and "i \<noteq> []" and "i \<notin> set present"
  shows "refuses_batch e present (i # ids)"
proof -
  from assms(1) obtain k where "k < length ids" "acceptable (present @ [i]) (take k ids)"
    "\<not> acceptable (present @ [i]) (take (Suc k) ids)"
    "is_code e (if ids ! k = [] then TASK_IDENTIFIER_BLANK else DUPLICATE_TASK_ID)"
    unfolding refuses_batch_def by blast
  with assms(2,3) show ?thesis unfolding refuses_batch_def by (intro exI [of _ "Suc k"]) auto
qed

lemma append_loop_refines:
  assumes "list_all wf_record rs" and "distinct (map (\<lambda>r. dget r ''id'') rs)"
  shows "case spec_add (map abs_record rs) items of
           None \<Rightarrow> \<exists>e. append_loop rs added items = Inl e
                   \<and> refuses_batch e (map (\<lambda>r. e_id (abs_record r)) rs) (batch_ids (length rs) items)
         | Some es \<Rightarrow> \<exists>rs' ts. append_loop rs added items = Inr (rs', added @ ts) \<and> map abs_record rs' = es
                   \<and> ts = map entry_task (drop (length rs) es)
                   \<and> list_all wf_record rs' \<and> distinct (map (\<lambda>r. dget r ''id'') rs')"
  using assms
proof (induction items arbitrary: rs added)
  case Nil
  then show ?case by simp
next
  case (Cons item rest)
  obtain x given where item: "item = (x, given)" by (cases item)
  define i where "i = (case given of Some i \<Rightarrow> i | None \<Rightarrow> ''t-'' @ show_nat (length rs + 1))"
  have i_eq: "(case given of None \<Rightarrow> ''t-'' @ show_nat (length rs + 1) | Some i \<Rightarrow> i) = i"
    by (simp add: i_def)
  have taken: "list_ex (has_id i) rs \<longleftrightarrow> i \<in> e_id ` set (map abs_record rs)"
    using Cons.prems(1) by (force simp: list_ex_iff list_all_iff wf_has_id)
  have ids: "JStr i \<in> (\<lambda>r. dget r ''id'') ` set rs \<longleftrightarrow> list_ex (has_id i) rs"
    by (force simp: list_ex_iff has_id_def)
  note unfold = item append_loop.simps(2) spec_add.simps(2) Let_def length_map i_eq
  show ?case
  proof (cases "i = [] \<or> list_ex (has_id i) rs")
    case True
    then have "spec_add (map abs_record rs) (item # rest) = None" unfolding unfold using taken by simp
    moreover from True have "\<exists>e. append_loop rs added (item # rest) = Inl e
        \<and> is_code e (if i = [] then TASK_IDENTIFIER_BLANK else DUPLICATE_TASK_ID)"
      unfolding unfold by (cases "i = []") (simp_all add: require_identifier_def code_simps)
    moreover have "i = [] \<or> i \<in> set (map (\<lambda>r. e_id (abs_record r)) rs)" using True taken by auto
    ultimately show ?thesis using refuses_batch_first by (fastforce simp: item i_def)
  next
    case False
    then have ni: "i \<noteq> []" "\<not> list_ex (has_id i) rs" by auto
    let ?rs = "rs @ [new_record i x]" and ?t = "entry_task (i, x, Todo)"
    have fresh: "i \<notin> set (map (\<lambda>r. e_id (abs_record r)) rs)" using ni(2) taken by auto
    have t: "to_task (new_record i x) = Inr ?t" using wf_to_task [of "new_record i x"] ni by simp
    have a: "map abs_record ?rs = map abs_record rs @ [(i, x, Todo)]" using ni by simp
    have s: "spec_add (map abs_record rs) (item # rest) = spec_add (map abs_record ?rs) rest"
      unfolding unfold using ni taken by simp
    have l: "append_loop rs added (item # rest) = append_loop ?rs (added @ [?t]) rest"
      unfolding unfold using ni by (simp add: require_identifier_def t)
    have "list_all wf_record ?rs" and "distinct (map (\<lambda>r. dget r ''id'') ?rs)"
      using Cons.prems ni ids by auto
    note IH = Cons.IH [OF this, of "added @ [?t]"]
    show ?thesis
    proof (cases "spec_add (map abs_record ?rs) rest")
      case None
      with IH obtain e where e: "append_loop ?rs (added @ [?t]) rest = Inl e"
        "refuses_batch e (map (\<lambda>r. e_id (abs_record r)) rs @ [i]) (batch_ids (Suc (length rs)) rest)"
        using ni by auto
      from refuses_batch_later [OF e(2) ni(1) fresh]
      have "refuses_batch e (map (\<lambda>r. e_id (abs_record r)) rs) (batch_ids (length rs) (item # rest))"
        unfolding item batch_ids_Cons snd_conv i_eq .
      with e(1) None show ?thesis unfolding s l by (simp del: batch_ids_Cons)
    next
      case (Some es)
      with IH obtain rs' ts where r: "append_loop ?rs (added @ [?t]) rest = Inr (rs', (added @ [?t]) @ ts)"
        "map abs_record rs' = es" "ts = map entry_task (drop (length ?rs) es)"
        "list_all wf_record rs'" "distinct (map (\<lambda>r. dget r ''id'') rs')"
        by auto
      obtain fs where "es = map abs_record ?rs @ fs" using Some by (auto simp: spec_add_batch split: if_splits)
      then have "drop (length rs) es = (i, x, Todo) # drop (length ?rs) es" unfolding a by simp
      with r Some show ?thesis unfolding s l by simp
    qed
  qed
qed

lemma append_body_refines:
  assumes wf: "wf_doc d"
  shows "wf_doc (body_doc (append_body items) d)"
    and "abs_doc (body_doc (append_body items) d)
           = (case spec_add (abs_doc d) items of None \<Rightarrow> abs_doc d | Some es \<Rightarrow> es)"
    and "(\<exists>ts. fst (append_body items d) = Inr ts) \<longleftrightarrow> spec_add (abs_doc d) items \<noteq> None"
    and "case spec_add (abs_doc d) items of
           None \<Rightarrow> \<exists>e. append_body items d = (Inl e, None)
                   \<and> refuses_batch e (map e_id (abs_doc d)) (batch_ids (length (abs_doc d)) items)
         | Some es \<Rightarrow> fst (append_body items d) = Inr (map entry_task (drop (length (abs_doc d)) es))"
proof -
  obtain stored rs where t: "tasks_read d = (stored, rs)" by (cases "tasks_read d")
  with wf have "list_all wf_record rs" "distinct (map (\<lambda>r. dget r ''id'') rs)" by (simp_all add: wf_doc_def)
  note a = append_loop_refines [OF this, where added = "[]" and items = items]
  have d: "abs_doc d = map abs_record rs" using t by (simp add: abs_doc_def)
  have "wf_doc (body_doc (append_body items) d)
      \<and> abs_doc (body_doc (append_body items) d)
           = (case spec_add (abs_doc d) items of None \<Rightarrow> abs_doc d | Some es \<Rightarrow> es)
      \<and> ((\<exists>ts. fst (append_body items d) = Inr ts) \<longleftrightarrow> spec_add (abs_doc d) items \<noteq> None)"
  proof (cases "spec_add (abs_doc d) items")
    case None
    with a d t wf show ?thesis by (auto simp: append_body_def body_doc_def)
  next
    case (Some es)
    with a d t show ?thesis by (auto simp: append_body_def body_doc_def wf_doc_write)
  qed
  then show "wf_doc (body_doc (append_body items) d)"
    and "abs_doc (body_doc (append_body items) d)
           = (case spec_add (abs_doc d) items of None \<Rightarrow> abs_doc d | Some es \<Rightarrow> es)"
    and "(\<exists>ts. fst (append_body items d) = Inr ts) \<longleftrightarrow> spec_add (abs_doc d) items \<noteq> None"
    by blast+
  show "case spec_add (abs_doc d) items of
           None \<Rightarrow> \<exists>e. append_body items d = (Inl e, None)
                   \<and> refuses_batch e (map e_id (abs_doc d)) (batch_ids (length (abs_doc d)) items)
         | Some es \<Rightarrow> fst (append_body items d) = Inr (map entry_task (drop (length (abs_doc d)) es))"
    using a d t by (cases "spec_add (abs_doc d) items") (auto simp: append_body_def comp_def)
qed

end
