(* ===== verification/TaskRuns.thy ===== *)
theory TaskRuns
  imports TaskRefine
begin

section \<open>Runs of a task list\<close>

text \<open>
  A run is the sequence of calls that workers make on one list, in the order the store's lock lets
  them in (\<open>LockProps\<close> says why there is one). \<open>call_doc\<close> is what a call does to the stored
  document, \<open>call_spec\<close> what it does to the abstract list; \<open>run_refines\<close> relates the two over a
  whole run. The lemmas about \<open>hold_of\<close> say how one task's hold moves, and the theorems state the
  contract: a terminal task stays terminal, a live claim is exclusive, a lapsed one is not a failure,
  the order never changes, and a worker that claims and releases drains the list.
\<close>

datatype task_call =
    AddCall "(string \<times> string option) list"
  | ClaimCall string rat rat
  | ReleaseCall string string task_outcome rat
  | ExtendCall string string rat rat

fun call_doc :: "task_call \<Rightarrow> pydict option \<Rightarrow> pydict option" where
  "call_doc (AddCall items) = body_doc (append_body items)"
| "call_doc (ClaimCall w lease now) = body_doc (take_body w lease now)"
| "call_doc (ReleaseCall i w outcome now) = body_doc (settle_body i w outcome now)"
| "call_doc (ExtendCall i w granted now) = body_doc (hold_body i w granted now)"

fun call_spec :: "task_call \<Rightarrow> entry list \<Rightarrow> entry list" where
  "call_spec (AddCall items) es = (case spec_add es items of None \<Rightarrow> es | Some es' \<Rightarrow> es')"
| "call_spec (ClaimCall w lease now) es = snd (spec_claim w lease now es)"
| "call_spec (ReleaseCall i w outcome now) es = snd (spec_release i w outcome now es)"
| "call_spec (ExtendCall i w granted now) es = snd (spec_extend i w granted now es)"

text \<open>The worker of a claim is not blank: \<open>claim\<close> refuses a blank one before it takes the lock.\<close>

fun call_ok :: "task_call \<Rightarrow> bool" where
  "call_ok (ClaimCall w lease now) = (w \<noteq> [])"
| "call_ok _ = True"

fun call_time :: "task_call \<Rightarrow> rat option" where
  "call_time (AddCall items) = None"
| "call_time (ClaimCall w lease now) = Some now"
| "call_time (ReleaseCall i w outcome now) = Some now"
| "call_time (ExtendCall i w granted now) = Some now"

definition run_doc :: "task_call list \<Rightarrow> pydict option \<Rightarrow> pydict option" where
  "run_doc cs d = fold call_doc cs d"

lemma call_refines:
  assumes "wf_doc d" and "call_ok c"
  shows "wf_doc (call_doc c d)" and "abs_doc (call_doc c d) = call_spec c (abs_doc d)"
  using assms take_body_refines settle_body_refines hold_body_refines append_body_refines
  by (cases c; simp)+

lemma run_refines:
  "wf_doc d \<Longrightarrow> list_all call_ok cs \<Longrightarrow>
     wf_doc (run_doc cs d) \<and> abs_doc (run_doc cs d) = fold call_spec cs (abs_doc d)"
  by (induction cs arbitrary: d) (auto simp: run_doc_def call_refines)

subsection \<open>The hold of one task\<close>

definition hold_of :: "entry list \<Rightarrow> string \<Rightarrow> hold option" where
  "hold_of es i = map_option e_hold (find (\<lambda>e. e_id e = i) es)"

lemma hold_of_Cons: "hold_of (e # es) i = (if e_id e = i then Some (e_hold e) else hold_of es i)"
  by (simp add: hold_of_def)

lemma hold_of_Nil [simp]: "hold_of [] i = None"
  by (simp add: hold_of_def)

lemma hold_of_expire: "hold_of (spec_expire now es) i = map_option (lapse now) (hold_of es i)"
  by (induction es) (auto simp: spec_expire_def hold_of_Cons)

lemma hold_of_append: "hold_of es i = Some h \<Longrightarrow> hold_of (es @ fs) i = Some h"
  by (induction es) (auto simp: hold_of_Cons)

lemma hold_of_member: "distinct (map e_id es) \<Longrightarrow> e \<in> set es \<Longrightarrow> hold_of es (e_id e) = Some (e_hold e)"
  by (induction es) (auto simp: hold_of_Cons image_iff)

lemma hold_of_update_id:
  "hold_of (update_first (\<lambda>e. e_id e = j) (set_hold h) es) i
     = (if i = j then map_option (\<lambda>_. h) (hold_of es i) else hold_of es i)"
  by (induction es) (auto simp: hold_of_Cons)

lemma hold_of_update_claimable:
  "hold_of es i = Some h \<Longrightarrow> h \<noteq> Todo \<Longrightarrow> hold_of (update_first claimable (set_hold h') es) i = Some h"
  by (induction es) (auto simp: hold_of_Cons claimable_def split: if_splits)

lemma spec_refuses_None: "spec_refuses i w es = None \<longleftrightarrow> (\<exists>u. hold_of es i = Some (Held w u))"
  by (auto simp: spec_refuses_def hold_of_def split: option.splits hold.splits if_splits)

lemma spec_refuses_Some:
  "spec_refuses i w es =
     (case hold_of es i of
        None \<Rightarrow> Some NoSuchTask
      | Some Todo \<Rightarrow> Some NotClaimed
      | Some (Held v u) \<Rightarrow> if v = w then None else Some (HeldBy v)
      | Some _ \<Rightarrow> Some Terminal)"
  by (auto simp: spec_refuses_def hold_of_def split: option.splits hold.splits)

lemma spec_add_prefix: "spec_add es items = Some es' \<Longrightarrow> \<exists>fs. es' = es @ fs \<and> (\<forall>f \<in> set fs. e_hold f = Todo)"
proof (induction items arbitrary: es)
  case Nil
  then show ?case by simp
next
  case (Cons item rest)
  obtain x given where "item = (x, given)" by (cases item)
  with Cons show ?case by (force simp: Let_def split: if_splits)
qed

lemma hold_of_add:
  assumes "hold_of es i = Some h"
  shows "hold_of (call_spec (AddCall items) es) i = Some h"
proof (cases "spec_add es items")
  case None
  with assms show ?thesis by simp
next
  case (Some es')
  with spec_add_prefix [OF Some] assms show ?thesis by (auto simp: hold_of_append)
qed

lemma hold_of_claim:
  assumes "hold_of es i = Some h" and "lapse now h \<noteq> Todo"
  shows "hold_of (call_spec (ClaimCall w lease now) es) i = Some (lapse now h)"
  using assms
  by (auto simp: spec_claim_def Let_def hold_of_expire split: option.split intro!: hold_of_update_claimable)

lemma hold_of_rehold:
  "hold_of (snd (spec_rehold j w h now es)) i =
     (if spec_refuses j w (spec_expire now es) \<noteq> None then hold_of es i
      else if i = j then Some h else map_option (lapse now) (hold_of es i))"
proof (cases "spec_refuses j w (spec_expire now es)")
  case None
  then obtain u where "hold_of (spec_expire now es) j = Some (Held w u)" by (auto simp: spec_refuses_None)
  with None show ?thesis by (auto simp: spec_rehold_def hold_of_update_id hold_of_expire)
next
  case (Some r)
  then show ?thesis by (simp add: spec_rehold_def)
qed

subsection \<open>Terminal tasks\<close>

definition terminal_hold :: "hold \<Rightarrow> bool" where
  "terminal_hold h = (h = Done \<or> h = Failed)"

lemma terminal_step:
  assumes "hold_of es i = Some h" and "terminal_hold h"
  shows "hold_of (call_spec c es) i = Some h"
proof (cases c)
  case (AddCall items)
  with hold_of_add [OF assms(1)] show ?thesis by simp
next
  case (ClaimCall w lease now)
  have "lapse now h = h" "h \<noteq> Todo" using assms(2) by (auto simp: terminal_hold_def)
  with hold_of_claim [OF assms(1), of now] ClaimCall show ?thesis by simp
next
  case (ReleaseCall j w outcome now)
  then show ?thesis using assms
    by (auto simp: spec_release_def hold_of_rehold spec_refuses_None hold_of_expire terminal_hold_def
        split: if_splits)
next
  case (ExtendCall j w granted now)
  then show ?thesis using assms
    by (auto simp: spec_extend_def hold_of_rehold spec_refuses_None hold_of_expire terminal_hold_def
        split: if_splits)
qed

lemma terminal_run:
  "hold_of es i = Some h \<Longrightarrow> terminal_hold h \<Longrightarrow> hold_of (fold call_spec cs es) i = Some h"
  by (induction cs arbitrary: es) (auto simp: terminal_step)

subsection \<open>Live claims\<close>

text \<open>The calls that may end or move a claim before it lapses: its holder's own.\<close>

fun touches :: "string \<Rightarrow> string \<Rightarrow> task_call \<Rightarrow> bool" where
  "touches i w (ReleaseCall j v _ _) = (j = i \<and> v = w)"
| "touches i w (ExtendCall j v _ _) = (j = i \<and> v = w)"
| "touches i w _ = False"

definition before :: "int \<Rightarrow> task_call \<Rightarrow> bool" where
  "before u c = (case call_time c of None \<Rightarrow> True | Some now \<Rightarrow> now < of_int u)"

lemma live_claim_step:
  assumes "hold_of es i = Some (Held w u)" and "before u c" and "\<not> touches i w c"
  shows "hold_of (call_spec c es) i = Some (Held w u)"
proof (cases c)
  case (AddCall items)
  with hold_of_add [OF assms(1)] show ?thesis by simp
next
  case (ClaimCall v lease now)
  then have "lapse now (Held w u) = Held w u" using assms(2) by (simp add: before_def)
  with hold_of_claim [OF assms(1), of now] ClaimCall show ?thesis by simp
next
  case (ReleaseCall j v outcome now)
  then show ?thesis using assms
    by (auto simp: spec_release_def hold_of_rehold spec_refuses_None hold_of_expire before_def split: if_splits)
next
  case (ExtendCall j v granted now)
  then show ?thesis using assms
    by (auto simp: spec_extend_def hold_of_rehold spec_refuses_None hold_of_expire before_def split: if_splits)
qed

lemma live_claim_run:
  "hold_of es i = Some (Held w u) \<Longrightarrow> list_all (before u) cs \<Longrightarrow> list_all (\<lambda>c. \<not> touches i w c) cs \<Longrightarrow>
     hold_of (fold call_spec cs es) i = Some (Held w u)"
  by (induction cs arbitrary: es) (auto simp: live_claim_step)

lemma spec_claim_Some:
  assumes "fst (spec_claim w lease now es) = Some e" and "distinct (map e_id es)"
  shows "e_hold e = Held w (timestamp (now + lease))"
    and "hold_of (snd (spec_claim w lease now es)) (e_id e) = Some (Held w (timestamp (now + lease)))"
    and "hold_of (spec_expire now es) (e_id e) = Some Todo"
    and "\<exists>ys f zs. spec_expire now es = ys @ f # zs \<and> e_work f = e_work e \<and> (\<forall>y \<in> set ys. \<not> claimable y)"
proof -
  let ?h = "Held w (timestamp (now + lease))" and ?es = "spec_expire now es"
  from assms(1) obtain f where f: "find claimable ?es = Some f" and e: "e = set_hold ?h f"
    by (auto simp: spec_claim_def Let_def split: option.splits)
  have d: "distinct (map e_id ?es)" using assms(2) by (simp add: spec_expire_def comp_def)
  from update_first_split [OF f, of "set_hold ?h"] obtain ys zs where s: "?es = ys @ f # zs"
    "claimable f" "\<forall>y \<in> set ys. \<not> claimable y" and u: "update_first claimable (set_hold ?h) ?es = ys @ e # zs"
    using e by auto
  show "e_hold e = ?h" using e by simp
  have "distinct (map e_id (ys @ e # zs))" using d e by (simp add: s(1))
  from hold_of_member [OF this, of e] show "hold_of (snd (spec_claim w lease now es)) (e_id e) = Some ?h"
    using f u e by (simp add: spec_claim_def Let_def)
  show "hold_of ?es (e_id e) = Some Todo"
    using hold_of_member [OF d, of f] s(1,2) e by (simp add: claimable_def)
  show "\<exists>ys f zs. ?es = ys @ f # zs \<and> e_work f = e_work e \<and> (\<forall>y \<in> set ys. \<not> claimable y)"
    using s e by (intro exI [of _ ys] exI [of _ f] exI [of _ zs]) simp
qed

subsection \<open>Order\<close>

lemma spec_expire_work [simp]: "map e_work (spec_expire now es) = map e_work es"
  by (simp add: spec_expire_def comp_def)

lemma update_first_work [simp]: "map e_work (update_first P (set_hold h) es) = map e_work es"
  by (rule map_update_first) simp

text \<open>What one call does to the ids and instructions on the list: an accepted batch goes to its end.\<close>

fun call_order :: "task_call \<Rightarrow> (string \<times> string) list \<Rightarrow> (string \<times> string) list" where
  "call_order (AddCall items) works = works @ landed works items"
| "call_order _ works = works"

lemma map_e_id: "map fst (map e_work es) = map e_id es"
  by simp

lemma landed_spec_add:
  "map e_work (call_spec (AddCall items) es) = map e_work es @ landed (map e_work es) items"
proof -
  have "map (e_work \<circ> (\<lambda>(i, x). (i, x, Todo))) zs = zs" for zs by (simp add: comp_def map_idI split: prod.splits)
  then show ?thesis by (simp add: spec_add_batch landed_def Let_def map_e_id del: map_map) (simp add: comp_def)
qed

lemma call_spec_order: "map e_work (call_spec c es) = call_order c (map e_work es)"
proof (cases c)
  case (AddCall items)
  then show ?thesis by (simp only: landed_spec_add call_order.simps)
next
  case (ClaimCall w lease now)
  then show ?thesis by (auto simp: spec_claim_def Let_def split: option.split)
next
  case (ReleaseCall j w outcome now)
  then show ?thesis by (auto simp: spec_release_def spec_rehold_def split: option.split)
next
  case (ExtendCall j w granted now)
  then show ?thesis by (auto simp: spec_extend_def spec_rehold_def split: option.split)
qed

lemma run_spec_order: "map e_work (fold call_spec cs es) = fold call_order cs (map e_work es)"
  by (induction cs arbitrary: es) (simp_all add: call_spec_order)

subsection \<open>Counting\<close>

lemma pending_count_spec: "wf_doc d \<Longrightarrow> pending_count now d = spec_pending now (abs_doc d)"
proof -
  assume wf: "wf_doc d"
  obtain rs moved where e: "expire (snd (tasks_read d)) now = (rs, moved)"
    by (cases "expire (snd (tasks_read d)) now")
  note x = expired_doc [OF wf e]
  have "filter is_todo rs = filter (\<lambda>r. claimable (abs_record r)) rs"
    using x(1) by (auto simp: list_all_iff wf_is_todo intro: filter_cong)
  then show ?thesis
    using e by (simp add: pending_count_def spec_pending_def x(2) [symmetric] filter_map comp_def)
qed

lemma spec_pending_zero: "spec_pending now es = 0 \<longleftrightarrow> fst (spec_claim w lease now es) = None"
  by (auto simp: spec_pending_def spec_claim_def Let_def find_None_iff_all filter_empty_conv split: option.split
      dest: find_SomeD)

lemma filter_update_first:
  "find P xs = Some x \<Longrightarrow> \<not> P (f x) \<Longrightarrow> length (filter P xs) = Suc (length (filter P (update_first P f xs)))"
  by (induction xs) (auto split: if_splits)

lemma lapse_idem: "lapse now (lapse now h) = lapse now h"
  by (cases h) auto

lemma spec_expire_idem: "spec_expire now (spec_expire now es) = spec_expire now es"
  by (simp add: spec_expire_def lapse_idem set_hold_def)

lemma spec_expire_claimed:
  assumes "now < of_int u"
  shows "spec_expire now (update_first claimable (set_hold (Held w u)) (spec_expire now es))
           = update_first claimable (set_hold (Held w u)) (spec_expire now es)"
  using assms
  by (induction es) (auto simp: spec_expire_def lapse_idem claimable_def set_hold_def)

lemma spec_pending_claim:
  assumes "fst (spec_claim w lease now es) = Some e" and "now < of_int (timestamp (now + lease))"
  shows "spec_pending now es = Suc (spec_pending now (snd (spec_claim w lease now es)))"
proof -
  let ?h = "Held w (timestamp (now + lease))"
  from assms(1) obtain f where f: "find claimable (spec_expire now es) = Some f"
    by (auto simp: spec_claim_def Let_def split: option.splits)
  have "\<not> claimable (set_hold ?h f)" by (simp add: claimable_def)
  from filter_update_first [where P = claimable and f = "set_hold ?h", OF f this] f spec_expire_claimed [OF assms(2), of w es] show ?thesis
    by (simp add: spec_pending_def spec_claim_def Let_def)
qed

subsection \<open>Leases\<close>

lemma require_lease_Inr:
  assumes "require_lease v = Inr lease"
  shows "\<exists>i. lease = of_int i \<and> 1 \<le> i"
proof -
  from assms have "rat_is_integer lease" and pos: "0 < lease"
    by (auto simp: require_lease_def split: option.splits pyfloat.splits if_splits)
  then obtain i where i: "lease = of_int i" using rat_is_integerD by blast
  with pos have "1 \<le> i" by simp
  with i show ?thesis by blast
qed

text \<open>A granted lease is still running when it is granted.\<close>

lemma lease_runs:
  assumes "require_lease v = Inr lease" and "0 \<le> now"
  shows "now < of_int (timestamp (now + lease))" and "of_int (timestamp (now + lease)) \<le> now + lease"
proof -
  obtain i where i: "lease = of_int i" "1 \<le> i" using require_lease_Inr [OF assms(1)] by blast
  then have "timestamp (now + lease) = rat_trunc now + i"
    unfolding timestamp_def using assms(2) by (simp add: rat_trunc_add_int)
  moreover have "now < of_int (rat_trunc now) + 1" using assms(2) by (rule rat_trunc_less)
  moreover have "of_int (rat_trunc now) \<le> now" using assms(2) by (rule rat_trunc_le)
  moreover have "(1::rat) \<le> of_int i" using i by simp
  ultimately show "now < of_int (timestamp (now + lease))" and "of_int (timestamp (now + lease)) \<le> now + lease"
    using i by simp_all
qed

end
