(* ===== verification/TaskProps.thy ===== *)
theory TaskProps
  imports TaskRuns
begin

section \<open>What the task list guarantees\<close>

text \<open>
  The properties of \<open>tasks.py\<close>, on the documents its callbacks read and write. A history is a list
  of calls in the order the store's lock lets them in; \<open>run_doc\<close> replays it on a stored document.
\<close>

subsection \<open>One claim, its lease and what follows\<close>

lemma claim_result:
  assumes "wf_doc d" and "w \<noteq> []" and "take_body w lease now d = (Inr (Some t), d')"
  shows "\<exists>e. fst (spec_claim w lease now (abs_doc d)) = Some e \<and> t = entry_task e
           \<and> e_id e = st_id t \<and> e_hold e = Held w (timestamp (now + lease))"
proof -
  from take_body_refines(1) [OF assms(1,2), of lease now] assms(3)
  have "map_option entry_task (fst (spec_claim w lease now (abs_doc d))) = Some t" by simp
  then obtain e where e: "fst (spec_claim w lease now (abs_doc d)) = Some e" "t = entry_task e" by blast
  with spec_claim_Some(1) [OF e(1) distinct_abs_ids [OF assms(1)]] show ?thesis
    by (auto simp: entry_task_def)
qed

lemma claimed_hold:
  assumes "wf_doc d" and "w \<noteq> []" and "take_body w lease now d = (Inr (Some t), d')"
  shows "hold_of (abs_doc (call_doc (ClaimCall w lease now) d)) (st_id t) = Some (Held w (timestamp (now + lease)))"
proof -
  obtain e where e: "fst (spec_claim w lease now (abs_doc d)) = Some e" "e_id e = st_id t"
    using claim_result [OF assms] by auto
  with spec_claim_Some(2) [OF e(1) distinct_abs_ids [OF assms(1)]] take_body_refines(3) [OF assms(1,2)]
  show ?thesis by simp
qed

lemma wf_run_doc: "wf_doc d \<Longrightarrow> list_all call_ok cs \<Longrightarrow> wf_doc (run_doc cs d)"
  by (simp add: run_refines)

lemma abs_run_doc: "wf_doc d \<Longrightarrow> list_all call_ok cs \<Longrightarrow> abs_doc (run_doc cs d) = fold call_spec cs (abs_doc d)"
  by (simp add: run_refines)

lemma run_doc_Cons: "run_doc (c # cs) d = run_doc cs (call_doc c d)"
  by (simp add: run_doc_def)

subsection \<open>The properties\<close>

text \<open>C3: every history of calls on a well-formed list, refused calls included, keeps every record
  well formed (four states, a holder and an expiry exactly when claimed, ids distinct and not blank)
  and moves the list as the specification of the contract \<open>AgentTaskSource\<close> does.\<close>

theorem task_history_refines_spec:
  assumes "wf_doc d" and "list_all call_ok cs"
  shows "wf_doc (run_doc cs d) \<and> abs_doc (run_doc cs d) = fold call_spec cs (abs_doc d)"
  using assms by (rule run_refines)

theorem task_history_refines_spec_witness:
  "abs_doc (run_doc [AddCall [(''read'', None), (''write'', None)], ClaimCall ''w'' 300 1000,
      ReleaseCall ''t-1'' ''w'' OUTCOME_DONE 1001, ReleaseCall ''t-1'' ''v'' OUTCOME_FAILED 1002] None)
     = [(''t-1'', ''read'', Done), (''t-2'', ''write'', Todo)]"
proof -
  have n: "show_nat (Suc 0) = ''1''" "show_nat (Suc (Suc 0)) = ''2''"
    by code_simp+
  have t: "timestamp 1300 = 1300" by (simp add: timestamp_def)
  let ?cs = "[AddCall [(''read'', None), (''write'', None)], ClaimCall ''w'' 300 1000,
      ReleaseCall ''t-1'' ''w'' OUTCOME_DONE 1001, ReleaseCall ''t-1'' ''v'' OUTCOME_FAILED 1002]"
  from task_history_refines_spec [of None ?cs] show ?thesis
    by (simp add: spec_claim_def spec_release_def spec_rehold_def spec_refuses_def spec_expire_def Let_def
        set_hold_def claimable_def n t)
qed

text \<open>C9: a claim hands out the first task, in insertion order, that is open once lapsed claims are
  counted as open: every task before it in the list is claimed live or terminal. The snapshot and the
  stored list show it held by the worker until \<open>int(now + lease)\<close>, and nothing else of the list
  changes. When there is no open task the answer is \<open>None\<close>.\<close>

theorem claim_takes_first_open:
  assumes "wf_doc d" and "w \<noteq> []"
  shows "case find claimable (spec_expire now (abs_doc d)) of
           None \<Rightarrow> fst (take_body w lease now d) = Inr None
                 \<and> abs_doc (body_doc (take_body w lease now) d) = spec_expire now (abs_doc d)
         | Some e \<Rightarrow> fst (take_body w lease now d)
                     = Inr (Some \<lparr> st_id = e_id e, st_instruction = fst (snd e), st_state = CLAIMED,
                                   st_claimed_by = Some w, st_claimed_until = Some (timestamp (now + lease)) \<rparr>)
                 \<and> (\<exists>ys zs. spec_expire now (abs_doc d) = ys @ e # zs \<and> (\<forall>y \<in> set ys. e_hold y \<noteq> Todo)
                     \<and> abs_doc (body_doc (take_body w lease now) d)
                       = ys @ (e_id e, fst (snd e), Held w (timestamp (now + lease))) # zs)"
proof (cases "find claimable (spec_expire now (abs_doc d))")
  case None
  with take_body_refines [OF assms, of lease now] show ?thesis by (simp add: spec_claim_def Let_def)
next
  case (Some e)
  note u = update_first_split [OF Some, of "set_hold (Held w (timestamp (now + lease)))"]
  from Some take_body_refines(1) [OF assms, of lease now]
  have "fst (take_body w lease now d) = Inr (Some (entry_task (set_hold (Held w (timestamp (now + lease))) e)))"
    by (simp add: spec_claim_def Let_def)
  moreover have "abs_doc (body_doc (take_body w lease now) d)
      = update_first claimable (set_hold (Held w (timestamp (now + lease)))) (spec_expire now (abs_doc d))"
    using Some take_body_refines(3) [OF assms, of lease now] by (simp add: spec_claim_def Let_def)
  ultimately show ?thesis using Some u by (auto simp: entry_task_def set_hold_def claimable_def)
qed

theorem claim_takes_first_open_witness:
  "fst (take_body ''v'' 300 2000 (task_doc [
       settle_record OUTCOME_FAILED (new_record ''a'' ''one''),
       claimed_record ''w'' 1500 (new_record ''b'' ''two''), new_record ''c'' ''three'']))
     = Inr (Some \<lparr> st_id = ''b'', st_instruction = ''two'', st_state = CLAIMED,
                   st_claimed_by = Some ''v'', st_claimed_until = Some 2300 \<rparr>)"
proof -
  let ?d = "task_doc [settle_record OUTCOME_FAILED (new_record ''a'' ''one''),
       claimed_record ''w'' 1500 (new_record ''b'' ''two''), new_record ''c'' ''three'']"
  have a: "abs_doc ?d = [(''a'', ''one'', Failed), (''b'', ''two'', Held ''w'' 1500), (''c'', ''three'', Todo)]"
    by (simp add: set_hold_def)
  have t: "timestamp 2300 = 2300" by (simp add: timestamp_def)
  from claim_takes_first_open [of ?d "''v''" 300 2000]
  show ?thesis unfolding a by (simp add: spec_expire_def set_hold_def claimable_def t task_simps)
qed

text \<open>C6: a live claim is exclusive. After a claim by one worker, and whatever anyone else does until
  the lease is over (claims, additions, releases and extensions by other workers), a claim by any
  worker before that moment never returns the same task.\<close>

theorem live_claim_exclusive:
  assumes "wf_doc d" and "w \<noteq> []" and "v \<noteq> []"
    and first: "take_body w lease now d = (Inr (Some t), d1)"
    and calls: "list_all call_ok cs" "list_all (before (timestamp (now + lease))) cs"
      "list_all (\<lambda>c. \<not> touches (st_id t) w c) cs"
    and time: "now' < of_int (timestamp (now + lease))"
    and second: "take_body v lease' now' (run_doc (ClaimCall w lease now # cs) d) = (Inr (Some t'), d2)"
  shows "st_id t' \<noteq> st_id t"
proof -
  let ?u = "timestamp (now + lease)"
  let ?d = "call_doc (ClaimCall w lease now) d"
  have wf: "wf_doc ?d" using call_refines(1) [OF assms(1), of "ClaimCall w lease now"] assms(2) by simp
  have wf': "wf_doc (run_doc cs ?d)" using wf calls(1) by (rule wf_run_doc)
  have "hold_of (abs_doc (run_doc cs ?d)) (st_id t) = Some (Held w ?u)"
    using claimed_hold [OF assms(1,2) first] calls(2,3) abs_run_doc [OF wf calls(1)]
    by (simp add: live_claim_run)
  with time have h: "hold_of (spec_expire now' (abs_doc (run_doc cs ?d))) (st_id t) = Some (Held w ?u)"
    by (simp add: hold_of_expire)
  from second have second': "take_body v lease' now' (run_doc cs ?d) = (Inr (Some t'), d2)"
    by (simp only: run_doc_Cons)
  obtain e where e: "fst (spec_claim v lease' now' (abs_doc (run_doc cs ?d))) = Some e" "e_id e = st_id t'"
    using claim_result [OF wf' assms(3) second'] by blast
  from spec_claim_Some(3) [OF e(1) distinct_abs_ids [OF wf']] e(2) h show ?thesis by auto
qed

theorem live_claim_exclusive_witness:
  "st_id (entry_task (''b'', ''two'', Held ''v'' 1301)) \<noteq> st_id (entry_task (''a'', ''one'', Held ''w'' 1300))"
proof -
  let ?d = "task_doc [new_record ''a'' ''one'', new_record ''b'' ''two'']"
  have wf: "wf_doc ?d" by simp
  have n: "timestamp 1300 = 1300" "timestamp 1301 = 1301" by (simp_all add: timestamp_def)
  obtain r1 d1 where t1: "take_body ''w'' 300 1000 ?d = (r1, d1)"
    by (cases "take_body ''w'' 300 1000 ?d")
  obtain r2 d2 where t2: "take_body ''v'' 300 1001 (run_doc [ClaimCall ''w'' 300 1000] ?d) = (r2, d2)"
    by (cases "take_body ''v'' 300 1001 (run_doc [ClaimCall ''w'' 300 1000] ?d)")
  have "r1 = Inr (Some (entry_task (''a'', ''one'', Held ''w'' 1300)))"
    using take_body_refines(1) [OF wf, of "''w''" 300 1000] t1
    by (simp add: spec_claim_def spec_expire_def claimable_def set_hold_def Let_def n)
  moreover have "r2 = Inr (Some (entry_task (''b'', ''two'', Held ''v'' 1301)))"
    using take_body_refines(1) [OF wf_run_doc [OF wf, of "[ClaimCall ''w'' 300 1000]"], of "''v''" 300 1001]
      abs_run_doc [OF wf, of "[ClaimCall ''w'' 300 1000]"] t2
    by (simp add: spec_claim_def spec_expire_def claimable_def set_hold_def Let_def n)
  ultimately show ?thesis
    using live_claim_exclusive [OF wf, of "''w''" "''v''" 300 1000 "entry_task (''a'', ''one'', Held ''w'' 1300)"
      d1 "[]" 1001 300 "entry_task (''b'', ''two'', Held ''v'' 1301)" d2] t1 t2 by (simp add: n)
qed

text \<open>C8: who may release. At any moment, a release goes through exactly when the task is held by
  that worker under a lease that is not over; it records the outcome and clears the claim. Otherwise
  nothing is written, and the code says why: no such task, a terminal task, or a lease that this
  worker does not hold, which is what a holder whose lease lapsed is told whether or not somebody
  else has the task by now.\<close>

theorem release_only_by_live_holder:
  assumes "wf_doc d"
  shows "case hold_of (spec_expire now (abs_doc d)) i of
           None \<Rightarrow> (\<exists>e. settle_body i w outcome now d = (Inl e, None) \<and> is_code e TASK_NOT_FOUND)
         | Some Todo \<Rightarrow> (\<exists>e. settle_body i w outcome now d = (Inl e, None) \<and> is_code e TASK_LEASE_NOT_HELD)
         | Some (Held v u) \<Rightarrow>
             (if v = w then (\<exists>d'. settle_body i w outcome now d = (Inr (), Some d')
                          \<and> hold_of (abs_doc (Some d')) i = Some (outcome_hold outcome))
              else (\<exists>e. settle_body i w outcome now d = (Inl e, None) \<and> is_code e TASK_LEASE_NOT_HELD))
         | Some _ \<Rightarrow> (\<exists>e. settle_body i w outcome now d = (Inl e, None) \<and> is_code e TASK_ALREADY_TERMINAL)"
proof -
  note r = settle_body_refines [OF assms, of i w outcome now]
  have w: "\<exists>e. settle_body i w outcome now d = (Inl e, None)" if "\<exists>e. fst (settle_body i w outcome now d) = Inl e"
    using that by (auto simp: settle_body_def Let_def split: prod.splits sum.splits)
  have w': "\<exists>d'. settle_body i w outcome now d = (Inr (), Some d')" if "\<exists>x. fst (settle_body i w outcome now d) = Inr x"
    using that by (auto simp: settle_body_def Let_def split: prod.splits sum.splits)
  show ?thesis
  proof (cases "spec_refuses i w (spec_expire now (abs_doc d))")
    case None
    then obtain u where u: "hold_of (spec_expire now (abs_doc d)) i = Some (Held w u)"
      by (auto simp: spec_refuses_None)
    from None r(1) have "\<exists>x. fst (settle_body i w outcome now d) = Inr x"
      by (auto simp: refines_refusal_def spec_release_def spec_rehold_def split: sum.splits)
    then obtain d' where d': "settle_body i w outcome now d = (Inr (), Some d')" using w' by blast
    have "hold_of (abs_doc (Some d')) i = Some (outcome_hold outcome)"
      using r(3) d' None by (simp add: body_doc_def spec_release_def hold_of_rehold)
    with d' u show ?thesis by simp
  next
    case (Some x)
    with r(1) obtain e where e: "fst (settle_body i w outcome now d) = Inl e" "is_code e (refusal_code x)"
      by (auto simp: refines_refusal_def spec_release_def spec_rehold_def split: sum.splits)
    then have e': "settle_body i w outcome now d = (Inl e, None)" using w by force
    from Some e(2) e' show ?thesis
      by (auto simp: spec_refuses_Some split: option.splits hold.splits if_splits)
  qed
qed

theorem release_only_by_live_holder_witness:
  "\<exists>e. settle_body ''a'' ''w'' OUTCOME_DONE 1600 (task_doc [claimed_record ''w'' 1500 (new_record ''a'' ''one'')])
        = (Inl e, None) \<and> is_code e TASK_LEASE_NOT_HELD"
  using release_only_by_live_holder [where d = "task_doc [claimed_record ''w'' 1500 (new_record ''a'' ''one'')]"
      and now = 1600 and i = "''a''" and w = "''w''" and outcome = OUTCOME_DONE]
  by (simp add: spec_expire_def hold_of_def set_hold_def task_simps)

text \<open>C10: \<open>done\<close> and \<open>failed\<close> are terminal. Whatever calls follow, a task released as one of them
  stays so, keeps its place, and every later release or extension of it by anyone is refused with
  nothing written.\<close>

theorem terminal_is_final:
  assumes "wf_doc d" and "list_all call_ok cs"
    and "hold_of (abs_doc d) i = Some h" and "terminal_hold h"
  shows "hold_of (abs_doc (run_doc cs d)) i = Some h
       \<and> (\<exists>e. settle_body i w outcome now (run_doc cs d) = (Inl e, None) \<and> is_code e TASK_ALREADY_TERMINAL)
       \<and> (\<exists>e. hold_body i w granted now (run_doc cs d) = (Inl e, None) \<and> is_code e TASK_ALREADY_TERMINAL)"
proof -
  have wf: "wf_doc (run_doc cs d)" using assms(1,2) by (rule wf_run_doc)
  have h: "hold_of (abs_doc (run_doc cs d)) i = Some h"
    using assms by (simp add: abs_run_doc terminal_run)
  with assms(4) have x: "spec_refuses i w (spec_expire now (abs_doc (run_doc cs d))) = Some Terminal"
    by (auto simp: spec_refuses_Some hold_of_expire terminal_hold_def)
  obtain e where e: "fst (settle_body i w outcome now (run_doc cs d)) = Inl e" "is_code e TASK_ALREADY_TERMINAL"
    using settle_body_refines(1) [OF wf, of i w outcome now] x
    by (auto simp: refines_refusal_def spec_release_def spec_rehold_def split: sum.splits)
  then have "settle_body i w outcome now (run_doc cs d) = (Inl e, None)"
    by (auto simp: settle_body_def Let_def split: prod.splits sum.splits)
  moreover have "\<exists>e. hold_body i w granted now (run_doc cs d) = (Inl e, None) \<and> is_code e TASK_ALREADY_TERMINAL"
    using hold_body_refused [OF wf x, of granted] by simp
  ultimately show ?thesis using h e(2) by blast
qed

theorem terminal_is_final_witness:
  "hold_of (abs_doc (run_doc [ClaimCall ''v'' 300 5000, ReleaseCall ''a'' ''v'' OUTCOME_FAILED 5001]
      (task_doc [settle_record OUTCOME_DONE (new_record ''a'' ''one'')]))) ''a'' = Some Done"
  using terminal_is_final [of "task_doc [settle_record OUTCOME_DONE (new_record ''a'' ''one'')]"
      "[ClaimCall ''v'' 300 5000, ReleaseCall ''a'' ''v'' OUTCOME_FAILED 5001]" "''a''" Done]
  by (simp add: hold_of_def set_hold_def terminal_hold_def task_simps)

text \<open>The calls that may close a task are the releases of it.\<close>

fun releases :: "string \<Rightarrow> task_call \<Rightarrow> bool" where
  "releases i (ReleaseCall j _ _ _) = (j = i)"
| "releases i _ = False"

lemma unreleased_step:
  assumes "hold_of es i = Some h" and "\<not> terminal_hold h" and "\<not> releases i c"
  shows "\<exists>h'. hold_of (call_spec c es) i = Some h' \<and> \<not> terminal_hold h'"
proof -
  have l: "\<not> terminal_hold (lapse now h)" for now using assms(2) by (cases h) (auto simp: terminal_hold_def)
  have u: "\<exists>h'. hold_of (update_first claimable (set_hold (Held w x)) fs) i = Some h' \<and> \<not> terminal_hold h'"
    if "hold_of fs i = Some g" "\<not> terminal_hold g" for w x fs g
    using that by (induction fs) (auto simp: hold_of_Cons terminal_hold_def split: if_splits)
  show ?thesis
  proof (cases c)
    case (AddCall items)
    with hold_of_add [OF assms(1)] assms(2) show ?thesis by auto
  next
    case (ClaimCall w lease now)
    have g: "hold_of (spec_expire now es) i = Some (lapse now h)" using assms(1) by (simp add: hold_of_expire)
    with ClaimCall l u [OF g] show ?thesis by (auto simp: spec_claim_def Let_def split: option.split)
  next
    case (ReleaseCall j w outcome now)
    with assms l show ?thesis by (auto simp: spec_release_def hold_of_rehold)
  next
    case (ExtendCall j w granted now)
    with assms l show ?thesis by (auto simp: spec_extend_def hold_of_rehold terminal_hold_def)
  qed
qed

lemma unreleased_run:
  "hold_of es i = Some h \<Longrightarrow> \<not> terminal_hold h \<Longrightarrow> list_all (\<lambda>c. \<not> releases i c) cs \<Longrightarrow>
     \<exists>h'. hold_of (fold call_spec cs es) i = Some h' \<and> \<not> terminal_hold h'"
proof (induction cs arbitrary: es h)
  case Nil
  then show ?case by simp
next
  case (Cons c cs)
  from unreleased_step [OF Cons.prems(1,2), of c] Cons.prems(3)
  obtain h' where "hold_of (call_spec c es) i = Some h'" "\<not> terminal_hold h'" by auto
  with Cons.IH Cons.prems(3) show ?case by simp
qed

text \<open>C12: a lapsed lease is not a failure. A claim whose expiry has come makes the task open again
  (at its expiry, not one tick later): the count of open tasks includes it, and no history of calls
  that names neither its worker nor any other holder of it as its releaser ever shows it failed or
  done.\<close>

theorem lapse_is_not_failure:
  assumes "wf_doc d" and "list_all call_ok cs" and "list_all (\<lambda>c. \<not> releases i c) cs"
    and "hold_of (abs_doc d) i = Some (Held w u)" and "of_int u \<le> now"
  shows "hold_of (spec_expire now (abs_doc d)) i = Some Todo \<and> 0 < pending_count now d
       \<and> (\<exists>h. hold_of (abs_doc (run_doc cs d)) i = Some h \<and> h \<noteq> Failed \<and> h \<noteq> Done)"
proof -
  have h: "hold_of (spec_expire now (abs_doc d)) i = Some Todo"
    using assms(4,5) by (simp add: hold_of_expire)
  then obtain e where "e \<in> set (spec_expire now (abs_doc d))" "claimable e"
    by (auto simp: hold_of_def claimable_def dest: find_SomeD)
  then have "filter claimable (spec_expire now (abs_doc d)) \<noteq> []" by (auto simp: filter_empty_conv)
  then have "0 < pending_count now d" by (simp add: pending_count_spec [OF assms(1)] spec_pending_def)
  moreover have "\<exists>h. hold_of (abs_doc (run_doc cs d)) i = Some h \<and> \<not> terminal_hold h"
    using unreleased_run [OF assms(4) _ assms(3)] abs_run_doc [OF assms(1,2)] by (simp add: terminal_hold_def)
  ultimately show ?thesis using h by (auto simp: terminal_hold_def)
qed

theorem lapse_is_not_failure_witness:
  "0 < pending_count 1500 (task_doc [claimed_record ''w'' 1500 (new_record ''a'' ''one'')])"
  using lapse_is_not_failure [of "task_doc [claimed_record ''w'' 1500 (new_record ''a'' ''one'')]"
      "[ClaimCall ''v'' 300 1500, ExtendCall ''a'' ''v'' 300 1600]" "''a''" "''w''" 1500 1500]
  by (simp add: hold_of_def set_hold_def)

subsection \<open>Counting down and draining\<close>

text \<open>C13: \<open>pending()\<close> is what ends a work loop. It is zero exactly when a claim at that moment would
  return \<open>None\<close>, and a claim that returns a task, under any lease the code accepts, lowers it by
  exactly one: the lease it grants is still running when it is granted.\<close>

theorem pending_counts_claims:
  assumes "wf_doc d" and "w \<noteq> []" and "require_lease v = Inr lease" and "0 \<le> now"
  shows "(pending_count now d = 0 \<longleftrightarrow> fst (take_body w lease now d) = Inr None)
       \<and> (pending_count now d \<noteq> 0 \<longrightarrow>
            pending_count now d = Suc (pending_count now (body_doc (take_body w lease now) d)))"
proof -
  note r = take_body_refines [OF assms(1,2), of lease now]
  have z: "pending_count now d = 0 \<longleftrightarrow> fst (spec_claim w lease now (abs_doc d)) = None"
    using spec_pending_zero by (simp add: pending_count_spec [OF assms(1)])
  have "pending_count now d = Suc (pending_count now (body_doc (take_body w lease now) d))"
    if "pending_count now d \<noteq> 0"
  proof -
    from that z obtain e where e: "fst (spec_claim w lease now (abs_doc d)) = Some e" by auto
    from spec_pending_claim [OF e lease_runs(1) [OF assms(3,4)]] show ?thesis
      by (simp add: pending_count_spec [OF assms(1)] pending_count_spec [OF r(2)] r(3))
  qed
  with z r(1) show ?thesis by auto
qed

theorem pending_counts_claims_witness:
  "pending_count 10 (body_doc (take_body ''w'' 300 10) (task_doc [new_record ''a'' ''one'', new_record ''b'' ''two''])) = 1"
proof -
  have "require_lease (JInt 300) = Inr 300"
    by (simp add: require_lease_def int_overflows_def float_limit_def rat_is_integer_def)
  from pending_counts_claims [OF _ _ this, of "task_doc [new_record ''a'' ''one'', new_record ''b'' ''two'']" "''w''" 10]
  have "pending_count 10 (task_doc [new_record ''a'' ''one'', new_record ''b'' ''two''])
      = Suc (pending_count 10 (body_doc (take_body ''w'' 300 10)
          (task_doc [new_record ''a'' ''one'', new_record ''b'' ''two''])))"
    by (simp add: pending_count_spec spec_pending_def spec_expire_def set_hold_def claimable_def)
  then show ?thesis
    by (simp add: pending_count_spec spec_pending_def spec_expire_def set_hold_def claimable_def)
qed

text \<open>
  The work loop of the package's README: claim, do the work, release with what the work showed, until
  a claim returns \<open>None\<close>. \<open>tc n\<close> and \<open>tr n\<close> are the clock at the \<open>n\<close>th claim and release; \<open>None\<close> is a
  call that raised or a loop that ran out of fuel.
\<close>

fun drain ::
  "string \<Rightarrow> rat \<Rightarrow> (stored_task \<Rightarrow> task_outcome) \<Rightarrow> (nat \<Rightarrow> rat) \<Rightarrow> (nat \<Rightarrow> rat) \<Rightarrow> nat \<Rightarrow> nat
     \<Rightarrow> pydict option \<Rightarrow> (nat \<times> pydict option) option" where
  "drain w lease work tc tr 0 n d = None"
| "drain w lease work tc tr (Suc fuel) n d =
     (case fst (take_body w lease (tc n) d) of
        Inl e \<Rightarrow> None
      | Inr None \<Rightarrow> Some (n, body_doc (take_body w lease (tc n)) d)
      | Inr (Some t) \<Rightarrow>
          (let d1 = body_doc (take_body w lease (tc n)) d;
               settle = settle_body (st_id t) w (work t) (tr n)
           in case fst (settle d1) of
                Inl e \<Rightarrow> None
              | Inr _ \<Rightarrow> drain w lease work tc tr fuel (Suc n) (body_doc settle d1)))"

definition open_count :: "entry list \<Rightarrow> nat" where
  "open_count es = length (filter (\<lambda>e. \<not> terminal_hold (e_hold e)) es)"

lemma open_count_expire [simp]: "open_count (spec_expire now es) = open_count es"
proof -
  have "terminal_hold (lapse now h) = terminal_hold h" for h by (cases h) (auto simp: terminal_hold_def)
  then show ?thesis by (simp add: open_count_def spec_expire_def filter_map comp_def)
qed

lemma open_count_claim [simp]:
  "open_count (update_first claimable (set_hold (Held w u)) es) = open_count es"
  by (induction es) (auto simp: open_count_def claimable_def terminal_hold_def)

lemma open_count_settle:
  "hold_of es i = Some h \<Longrightarrow> \<not> terminal_hold h \<Longrightarrow>
     Suc (open_count (update_first (\<lambda>e. e_id e = i) (set_hold (outcome_hold x)) es)) = open_count es"
  by (induction es) (cases x; auto simp: open_count_def hold_of_Cons terminal_hold_def split: if_splits)+

text \<open>One turn of the loop: the release of what was just claimed goes through and closes one task.\<close>

lemma drain_turn:
  assumes "wf_doc d" and "w \<noteq> []" and t: "fst (take_body w lease now d) = Inr (Some t)"
    and "later < of_int (timestamp (now + lease))"
  shows "let d1 = body_doc (take_body w lease now) d; settle = settle_body (st_id t) w outcome later
     in fst (settle d1) = Inr () \<and> wf_doc (body_doc settle d1)
        \<and> Suc (open_count (abs_doc (body_doc settle d1))) = open_count (abs_doc d)"
proof -
  let ?d1 = "body_doc (take_body w lease now) d" and ?h = "Held w (timestamp (now + lease))"
  note r = take_body_refines [OF assms(1,2), of lease now]
  obtain d' where "take_body w lease now d = (Inr (Some t), d')" using t by (cases "take_body w lease now d") auto
  from claimed_hold [OF assms(1,2) this] claim_result [OF assms(1,2) this]
  have h: "hold_of (abs_doc ?d1) (st_id t) = Some ?h"
    and c: "fst (spec_claim w lease now (abs_doc d)) \<noteq> None" by auto
  have o: "open_count (abs_doc ?d1) = open_count (abs_doc d)"
    using c r(3) by (auto simp: spec_claim_def Let_def split: option.splits)
  note s = settle_body_refines [OF r(2), of "st_id t" w outcome later]
  have x: "hold_of (spec_expire later (abs_doc ?d1)) (st_id t) = Some ?h"
    using h assms(4) by (simp add: hold_of_expire)
  then have n: "spec_refuses (st_id t) w (spec_expire later (abs_doc ?d1)) = None"
    by (simp add: spec_refuses_Some)
  have "fst (settle_body (st_id t) w outcome later ?d1) = Inr ()"
    using s(1) n by (auto simp: refines_refusal_def spec_release_def spec_rehold_def split: sum.splits)
  moreover have "Suc (open_count (abs_doc (body_doc (settle_body (st_id t) w outcome later) ?d1)))
      = open_count (abs_doc ?d1)"
    using s(3) n open_count_settle [OF x] by (simp add: spec_release_def spec_rehold_def terminal_hold_def)
  ultimately show ?thesis using s(2) o by (simp add: Let_def)
qed

lemma drain_total:
  assumes "w \<noteq> []" and "\<And>n. tr n < of_int (timestamp (tc n + lease))"
  shows "wf_doc d \<Longrightarrow> open_count (abs_doc d) < fuel \<Longrightarrow>
     \<exists>m d'. drain w lease work tc tr fuel n d = Some (m, d') \<and> wf_doc d' \<and> m \<le> n + open_count (abs_doc d)
            \<and> pending_count (tc m) d' = 0"
proof (induction fuel arbitrary: n d)
  case 0
  then show ?case by simp
next
  case (Suc fuel)
  note r = take_body_refines [OF Suc.prems(1) assms(1), of lease "tc n"]
  show ?case
  proof (cases "fst (spec_claim w lease (tc n) (abs_doc d))")
    case None
    with r(1) have t: "fst (take_body w lease (tc n) d) = Inr None" by simp
    have "spec_pending (tc n) (snd (spec_claim w lease (tc n) (abs_doc d))) = 0"
      using None spec_pending_zero [of "tc n" "abs_doc d" w lease]
      by (auto simp: spec_claim_def spec_pending_def Let_def spec_expire_idem split: option.splits)
    with t r(2,3) show ?thesis by (auto simp: pending_count_spec)
  next
    case (Some e)
    with r(1) have t: "fst (take_body w lease (tc n) d) = Inr (Some (entry_task e))" by simp
    from drain_turn [OF Suc.prems(1) assms(1) t assms(2), of "work (entry_task e)"]
    show ?thesis using t Suc.IH [of "body_doc (settle_body (st_id (entry_task e)) w (work (entry_task e)) (tr n))
        (body_doc (take_body w lease (tc n)) d)" "Suc n"] Suc.prems(2)
      by (auto simp: Let_def)
  qed
qed

text \<open>C11: the work loop ends. A worker that works the list alone (no call of anyone else comes between
  its own) and releases each task while the lease it was claimed under is still running leaves the
  loop after at most as many turns as there are tasks not yet terminal, with no call refused on the
  way and, at the clock of its last claim, no open task left.\<close>

theorem work_loop_drains:
  assumes "wf_doc d" and "w \<noteq> []" and "\<forall>n. tr n < of_int (timestamp (tc n + lease))"
  shows "\<exists>m d'. drain w lease work tc tr (Suc (open_count (abs_doc d))) 0 d = Some (m, d')
           \<and> m \<le> open_count (abs_doc d) \<and> wf_doc d' \<and> pending_count (tc m) d' = 0
           \<and> fst (take_body w lease (tc m) d') = Inr None"
proof -
  obtain m d' where m: "drain w lease work tc tr (Suc (open_count (abs_doc d))) 0 d = Some (m, d')" "wf_doc d'"
    "m \<le> open_count (abs_doc d)" "pending_count (tc m) d' = 0"
    using drain_total [of w tr tc lease d "Suc (open_count (abs_doc d))" work 0] assms by auto
  have "fst (take_body w lease (tc m) d') = Inr None"
    using take_body_refines(1) [OF m(2) assms(2)] spec_pending_zero m(4)
    by (simp add: pending_count_spec [OF m(2)])
  with m show ?thesis by blast
qed

theorem work_loop_drains_witness:
  "\<exists>m d'. drain ''w'' 300 (\<lambda>_. OUTCOME_DONE) (\<lambda>n. of_nat n) (\<lambda>n. of_nat n + 100) 3 0
      (task_doc [new_record ''a'' ''one'', new_record ''b'' ''two'']) = Some (m, d') \<and> m \<le> 2"
proof -
  have "timestamp (of_nat n + 300) = int n + 300" for n
    using rat_trunc_of_int [of "int n + 300"] by (simp add: timestamp_def)
  then have l: "\<forall>n. of_nat n + 100 < (of_int (timestamp (of_nat n + 300)) :: rat)" by simp
  show ?thesis
    using work_loop_drains [OF _ _ l, of "task_doc [new_record ''a'' ''one'', new_record ''b'' ''two'']" "''w''"
        "\<lambda>_. OUTCOME_DONE"]
    by (auto simp: open_count_def terminal_hold_def numeral_3_eq_3)
qed

subsection \<open>Adding and order\<close>

text \<open>C15: insertion order is the order. Whatever calls are made, the ids and instructions on the list
  are the old ones in their old order followed, call by call, by those of the accepted batches, each
  in the order it was given: claims, releases and extensions add nothing, a refused batch adds
  nothing, and no call sorts, drops, rewrites or reorders a task.\<close>

theorem order_is_insertion_order:
  assumes "wf_doc d" and "list_all call_ok cs"
  shows "map e_work (abs_doc (run_doc cs d))
       = fold (\<lambda>c works. case c of AddCall items \<Rightarrow> works @ landed works items | _ \<Rightarrow> works) cs
           (map e_work (abs_doc d))"
proof -
  have "(\<lambda>c works. case c of AddCall items \<Rightarrow> works @ landed works items | _ \<Rightarrow> works) = call_order"
    by (intro ext) (simp split: task_call.split)
  then show ?thesis by (simp add: abs_run_doc [OF assms] run_spec_order)
qed

theorem order_is_insertion_order_witness:
  "map e_work (abs_doc (run_doc [ClaimCall ''w'' 300 5, AddCall [(''two'', Some ''b''), (''three'', None)],
        AddCall [(''four'', Some ''c''), (''five'', Some ''a'')], ReleaseCall ''a'' ''w'' OUTCOME_DONE 6]
      (task_doc [new_record ''a'' ''one''])))
   = [(''a'', ''one''), (''b'', ''two''), (''t-3'', ''three'')]"
proof -
  have n: "show_nat (Suc (Suc (Suc 0))) = ''3''" by code_simp
  show ?thesis
    using order_is_insertion_order [of "task_doc [new_record ''a'' ''one'']" "[ClaimCall ''w'' 300 5,
        AddCall [(''two'', Some ''b''), (''three'', None)], AddCall [(''four'', Some ''c''), (''five'', Some ''a'')],
        ReleaseCall ''a'' ''w'' OUTCOME_DONE 6]"]
    by (simp add: landed_def Let_def n numeral_eq_Suc)
qed

text \<open>C16: a batch of tasks lands whole or not at all, its missing ids made up from the number of tasks
  before each (\<open>t-1\<close>, \<open>t-2\<close> and on). When no id is blank, on the list already or given twice in the
  batch, the tasks are on the list after the old ones, in the order given, all open, and the call
  returns their snapshots in that order. Otherwise nothing is written and the call raises for the
  first id that cannot follow the ones before it: \<open>task_identifier_blank\<close> when it is blank,
  \<open>duplicate_task_id\<close> when it is taken.\<close>

theorem add_many_all_or_nothing:
  assumes "wf_doc d"
  shows "let present = map e_id (abs_doc d); ids = batch_ids (length (abs_doc d)) items;
             new = map2 (\<lambda>i item. (i, fst item, Todo)) ids items
     in if acceptable present ids
        then fst (append_body items d) = Inr (map entry_task new)
           \<and> abs_doc (body_doc (append_body items) d) = abs_doc d @ new
        else \<exists>e k. append_body items d = (Inl e, None) \<and> k < length ids
               \<and> acceptable present (take k ids) \<and> \<not> acceptable present (take (Suc k) ids)
               \<and> is_code e (if ids ! k = [] then TASK_IDENTIFIER_BLANK else DUPLICATE_TASK_ID)"
proof -
  have n: "map (\<lambda>(i, x). (i, x, Todo)) (zip is (map fst items)) = map2 (\<lambda>i item. (i, fst item, Todo)) is items" for "is"
    by (simp add: zip_map2 comp_def split_def)
  note r = append_body_refines(2,4) [OF assms, of items]
  show ?thesis
  proof (cases "acceptable (map e_id (abs_doc d)) (batch_ids (length (abs_doc d)) items)")
    case True
    with r show ?thesis by (simp add: spec_add_batch n Let_def)
  next
    case False
    with r(2) obtain e where "append_body items d = (Inl e, None)"
      "refuses_batch e (map e_id (abs_doc d)) (batch_ids (length (abs_doc d)) items)"
      by (auto simp: spec_add_batch)
    with False show ?thesis unfolding refuses_batch_def Let_def if_not_P [OF False] by blast
  qed
qed

theorem add_many_all_or_nothing_witness:
  "(\<exists>e. append_body [(''x'', Some ''b''), (''y'', Some ''a''), (''z'', Some [])] (task_doc [new_record ''a'' ''one''])
         = (Inl e, None) \<and> is_code e DUPLICATE_TASK_ID)
   \<and> abs_doc (body_doc (append_body [(''x'', Some ''b''), (''y'', None)]) (task_doc [new_record ''a'' ''one'']))
       = [(''a'', ''one'', Todo), (''b'', ''x'', Todo), (''t-3'', ''y'', Todo)]"
proof -
  let ?d = "task_doc [new_record ''a'' ''one'']"
  have wf: "wf_doc ?d" by simp
  have n: "show_nat (Suc (Suc (Suc 0))) = ''3''" by code_simp
  show ?thesis
    using add_many_all_or_nothing [OF wf, of "[(''x'', Some ''b''), (''y'', Some ''a''), (''z'', Some [])]"]
      add_many_all_or_nothing [OF wf, of "[(''x'', Some ''b''), (''y'', None)]"]
    by (auto simp: Let_def n numeral_eq_Suc less_Suc_eq)
qed

subsection \<open>Extending a lease\<close>

lemma granted_lease_bounds:
  assumes "granted_lease i lease L b m1 m2 = Inr granted"
  shows "exhaustion L b m1 = None" and "granted \<le> lease"
    and "\<And>r. remaining_seconds L b m2 = Some r \<Longrightarrow> 0 < r \<and> granted \<le> of_int r"
  using assms by (auto simp: granted_lease_def split: option.splits if_splits)

lemma granted_within_run:
  assumes "granted_lease i lease L b m1 m2 = Inr granted" and s: "rb_max_seconds b = Some s"
  shows "granted \<le> of_int s - elapsed_seconds L m2"
proof -
  have "remaining_seconds L b m2 = Some (max 0 (rat_trunc (of_int s - elapsed_seconds L m2)))"
    using s by (simp add: remaining_seconds_def)
  with granted_lease_bounds(3) [OF assms(1)]
  have p: "0 < rat_trunc (of_int s - elapsed_seconds L m2)"
    "granted \<le> of_int (max 0 (rat_trunc (of_int s - elapsed_seconds L m2)))" by fastforce+
  then have "0 \<le> of_int s - elapsed_seconds L m2"
    by (auto simp: rat_trunc_def split: if_splits)
  from rat_trunc_le [OF this] p show ?thesis by (simp add: max_def)
qed

text \<open>C14: a lease extension is bounded by the run. It goes through only for the worker that holds the
  task live, only for a run that was not exhausted when it asked (not cancelled, with a step left, with
  metered money left, with time left), and never for longer than the lease asked for. Under a wall-clock budget the new expiry is at most what the run had left when it asked
  (\<open>m2\<close>) past the task clock \<open>now\<close> the callback read under the lock. So with the callback's look at the
  clock at \<open>m\<close> it lies past the moment the run's budget ends by at most \<open>m - m2\<close>, the time the call
  waited for the lock; a call that did not wait stays within the budget.\<close>

theorem extension_bounded_by_run:
  assumes "wf_doc d" and "granted_lease i lease L b m1 m2 = Inr granted" and "0 < lease" and "0 \<le> now"
    and "hold_body i w granted now d = (Inr t, d')"
  shows "\<exists>u. hold_of (spec_expire now (abs_doc d)) i = Some (Held w u)
       \<and> \<not> rl_cancelled L \<and> rl_steps L < rb_max_steps b
       \<and> (\<forall>c. rb_max_cost_usd b = Some c \<longrightarrow> rl_unmetered_runs L \<le> 0 \<and> \<not> pf_le c (rl_cost_usd L))
       \<and> hold_of (abs_doc d') i = Some (Held w (timestamp (now + granted)))
       \<and> of_int (timestamp (now + granted)) \<le> now + lease
       \<and> (\<forall>s. rb_max_seconds b = Some s \<longrightarrow>
            m1 < rl_started_at L + of_int s \<and> m2 < rl_started_at L + of_int s
            \<and> of_int (timestamp (now + granted)) \<le> now + (rl_started_at L + of_int s - m2)
            \<and> (\<forall>m. of_int (timestamp (now + granted)) \<le> (now + (rl_started_at L + of_int s - m)) + (m - m2)))"
proof -
  note g = granted_lease_bounds [OF assms(2)]
  note r = hold_body_refines [OF assms(1), of i w granted now]
  have n: "spec_refuses i w (spec_expire now (abs_doc d)) = None"
    using r(1) assms(5) by (auto simp: refines_refusal_def spec_extend_def spec_rehold_def split: option.splits)
  then obtain u where u: "hold_of (spec_expire now (abs_doc d)) i = Some (Held w u)"
    by (auto simp: spec_refuses_None)
  have "d' \<noteq> None" using assms(5) by (auto simp: hold_body_def Let_def split: prod.splits sum.splits)
  then have d: "body_doc (hold_body i w granted now) d = d'" using assms(5) by (auto simp: body_doc_def)
  have h: "hold_of (abs_doc d') i = Some (Held w (timestamp (now + granted)))"
    using r(3) n by (simp add: d spec_extend_def hold_of_rehold)
  have pos: "0 < granted"
    using assms(2,3) by (auto simp: granted_lease_def split: option.splits if_splits)
  then have ts: "of_int (timestamp (now + granted)) \<le> now + granted"
    using assms(4) by (simp add: timestamp_def rat_trunc_le)
  have b: "of_int (timestamp (now + granted)) \<le> now + (rl_started_at L + of_int s - m2)"
    "m2 < rl_started_at L + of_int s" "m1 < rl_started_at L + of_int s"
    if s: "rb_max_seconds b = Some s" for s
    using ts granted_within_run [OF assms(2) s] pos g(1) s by (auto simp: elapsed_seconds_def exhaustion_None_iff)
  show ?thesis
    using u h ts g(1,2) b by (intro exI [of _ u]) (auto simp: exhaustion_None_iff)
qed

theorem extension_bounded_by_run_witness:
  "hold_of (abs_doc (snd (hold_body ''a'' ''w'' 60 1000 (task_doc [claimed_record ''w'' 1200 (new_record ''a'' ''one'')]))))
     ''a'' = Some (Held ''w'' 1060)"
proof -
  let ?d = "task_doc [claimed_record ''w'' 1200 (new_record ''a'' ''one'')]"
  let ?L = "ledger_start ''r'' 0" and ?b = "\<lparr>rb_max_steps = 8, rb_max_cost_usd = None, rb_max_seconds = Some 60, rb_max_output = None\<rparr>"
  have g: "granted_lease ''a'' 300 ?L ?b 0 0 = Inr 60"
    by (simp add: granted_lease_def exhaustion_def ledger_start_def remaining_seconds_def elapsed_seconds_def)
  obtain t d' where h: "hold_body ''a'' ''w'' 60 1000 ?d = (Inr t, d')"
    using hold_body_refines(1) [of ?d "''a''" "''w''" 60 1000]
    by (cases "hold_body ''a'' ''w'' 60 1000 ?d")
      (auto simp: refines_refusal_def spec_extend_def spec_rehold_def spec_refuses_def spec_expire_def set_hold_def
        task_simps split: sum.splits)
  have t: "timestamp 1060 = 1060" by (simp add: timestamp_def)
  from extension_bounded_by_run [OF _ g _ _ h] h show ?thesis by (simp add: t task_simps)
qed

text \<open>The wait counts: a run of sixty seconds that started at task clock 990 asks at its fiftieth
  second, is granted its last ten, and gets the lock at its seventieth, when the budget is over. Its
  lease is then extended to twenty seconds past the end of the budget.\<close>

lemma extension_outlives_run:
  assumes "rb_max_seconds b = Some 60" and "rb_max_steps b = 8" and "rb_max_cost_usd b = None"
  shows "granted_lease ''a'' 300 (ledger_start ''r'' 0) b 50 50 = Inr 10
       \<and> exhaustion (ledger_start ''r'' 0) b 70 \<noteq> None
       \<and> fst (spec_extend ''a'' ''w'' 10 1060 [(''a'', ''one'', Held ''w'' 1200)]) = Inr ()
       \<and> snd (spec_extend ''a'' ''w'' 10 1060 [(''a'', ''one'', Held ''w'' 1200)]) = [(''a'', ''one'', Held ''w'' 1070)]"
proof -
  have t: "timestamp 1070 = 1070" by (simp add: timestamp_def)
  have r: "rat_trunc 10 = 10" using rat_trunc_of_int [of 10] by simp
  show ?thesis using assms
    by (simp add: granted_lease_def exhaustion_def ledger_start_def remaining_seconds_def elapsed_seconds_def
        spec_extend_def spec_rehold_def spec_refuses_def spec_expire_def hold_of_def set_hold_def t r)
qed

subsection \<open>The completion tool\<close>

text \<open>C18: over any task source, even one that checks nothing itself, the completion tool closes a
  task only when the source shows it claimed by the tool's own worker and the model stated an outcome
  that is exactly \<open>done\<close> or \<open>failed\<close>; it then releases that task, as that worker, with that outcome,
  and reports the state it recorded. In every other case the source's release is never called: the
  tool raises in the state the lookup left.\<close>

theorem completion_tool_closes_own_claim_only:
  "case completion_handle source worker args s of
     (Inr r, t) \<Rightarrow>
       (\<exists>i task outcome s1. dget args ''task_id'' = JStr i \<and> i \<noteq> []
          \<and> src_find source i s = (Inr (Some task), s1)
          \<and> at_state task = IsState CLAIMED \<and> at_claimed_by task = Some (JStr worker)
          \<and> map_of args ''outcome'' = Some (JStr (outcome_value outcome))
          \<and> src_release source task worker outcome s1 = (Inr (), t)
          \<and> r = [(''task_id'', JStr i), (''state'', JStr (outcome_value outcome))])
   | (Inl e, t) \<Rightarrow>
       (\<exists>i task outcome s1. src_find source i s = (Inr (Some task), s1) \<and> holds_claim worker task
          \<and> src_release source task worker outcome s1 = (Inl e, t))
       \<or> t = s \<or> (\<exists>i. t = snd (src_find source i s))"
proof -
  have o: "state_value (outcome_state x) = outcome_value x" for x by (cases x) simp_all
  have p: "completion_outcome args = Inr x \<Longrightarrow> map_of args ''outcome'' = Some (JStr (outcome_value x))" for x
    by (auto simp: completion_outcome_def split: option.splits if_splits)
  show ?thesis
  proof (cases "dget args ''task_id''")
    case (JStr i)
    show ?thesis
    proof (cases "i = []")
      case True
      with JStr show ?thesis
        by (simp add: completion_handle_def require_identifier_def act_bind_def act_lift_def)
    next
      case False
      obtain f s1 where f: "src_find source i s = (f, s1)" by (cases "src_find source i s")
      note run = completion_handle_def require_identifier_def act_bind_def act_lift_def act_raise_def act_return_def
      show ?thesis
      proof (cases f)
        case (Inl e)
        with JStr False f show ?thesis by (simp add: run) (metis snd_conv)
      next
        case (Inr found)
        show ?thesis
        proof (cases "\<exists>task x. found = Some task \<and> holds_claim worker task \<and> completion_outcome args = Inr x")
          case True
          then obtain task x where tx: "found = Some task" "holds_claim worker task" "completion_outcome args = Inr x"
            by blast
          obtain q t where q: "src_release source task worker x s1 = (q, t)"
            by (cases "src_release source task worker x s1")
          from tx(2) have h: "at_state task = IsState CLAIMED" "at_claimed_by task = Some (JStr worker)"
            by (simp_all add: holds_claim_def holder_of_def)
          show ?thesis
            using JStr False f Inr tx q h p [OF tx(3)] by (cases q) (simp_all add: run o, metis+)
        next
          case no: False
          have "\<exists>e. completion_handle source worker args s = (Inl e, s1)"
            using JStr False f Inr no
            by (cases found; cases "completion_outcome args") (auto simp: run)
          with f show ?thesis by auto (metis snd_conv)
        qed
      qed
    qed
  qed (simp_all add: completion_handle_def act_raise_def)
qed

end
