(* ===== verification/TaskFiles.thy ===== *)
theory TaskFiles
  imports UpdateProps TaskProps
begin

section \<open>A task list in files\<close>

text \<open>
  The composition of the task list with the store it is kept in: the calls on a list as updates of its document
  (\<open>call_body\<close>), made by attempts in any number of processes. First, what the calls write can be stored when what they
  are given can; then the order of the commits is a history of the calls, as the contract of \<open>TaskSpec\<close> speaks of.
\<close>

subsection \<open>Documents that can be stored\<close>

definition keepable :: "pydict \<Rightarrow> bool" where
  "keepable d = storable True (JDict d)"

lemma keepable_get: "keepable d \<Longrightarrow> storable True (dget d k)"
  by (cases "map_of d k") (auto simp: keepable_def dget_def dest: map_of_SomeD)

lemma set_update: "set (AList.update k v d) \<subseteq> insert (k, v) (set d)"
  by (induction d) auto

lemma keepable_put:
  assumes "keepable d" "utf8_ok k" "storable True v"
  shows "keepable (dput k v d)"
  using assms set_update [of k v d] distinct_dput [of d k v] by (fastforce simp: keepable_def text_ok_def dput_def)

lemma keepable_dicts: "\<forall>x \<in> set xs. storable True x \<Longrightarrow> r \<in> set (dicts_of xs) \<Longrightarrow> keepable r"
proof (induction xs)
  case (Cons x xs)
  then show ?case by (cases x) (auto simp: keepable_def dicts_of_def List.map_filter_def)
qed (simp add: dicts_of_def List.map_filter_def)

lemma task_words:
  "utf8_ok ''tasks''" "utf8_ok ''id''" "utf8_ok ''instruction''" "utf8_ok ''state''" "utf8_ok ''claimed_by''" "utf8_ok ''claimed_until''"
  by (auto simp: byte_of_def intro!: ascii_text_utf8)

lemma task_values: "storable True (JStr (state_value s))" "storable True JNull" "storable True (JInt i)" "utf8_ok x \<Longrightarrow> storable True (JStr x)"
  by (cases s; auto simp: text_ok_def byte_of_def intro!: ascii_text_utf8) (simp_all add: text_ok_def)

lemma keepable_read:
  assumes "\<And>d. document = Some d \<Longrightarrow> keepable d" "tasks_read document = (stored, records)"
  shows "keepable stored" "r \<in> set records \<Longrightarrow> keepable r"
proof -
  have stored: "stored = (case document of None \<Rightarrow> [] | Some d \<Rightarrow> d)" and
    records: "records = (case dget stored ''tasks'' of JList entries \<Rightarrow> dicts_of entries | _ \<Rightarrow> [])"
    using assms(2) by (auto simp: tasks_read_def Let_def)
  have "keepable []" by (simp add: keepable_def)
  with assms(1) show "keepable stored" by (simp add: stored split: option.split)
  from keepable_get [OF this, of "''tasks''"] show "r \<in> set records \<Longrightarrow> keepable r"
    by (cases "dget stored ''tasks''") (auto simp: records intro: keepable_dicts)
qed

lemma keepable_write: "keepable stored \<Longrightarrow> (\<And>r. r \<in> set records \<Longrightarrow> keepable r) \<Longrightarrow> keepable (tasks_write stored records)"
  unfolding tasks_write_def by (rule keepable_put) (auto simp: task_words keepable_def)

lemma keepable_records:
  "keepable r \<Longrightarrow> keepable (back_to_todo r)"
  "keepable r \<Longrightarrow> utf8_ok w \<Longrightarrow> keepable (claimed_record w until r)"
  "keepable r \<Longrightarrow> keepable (settle_record outcome r)"
  "keepable r \<Longrightarrow> keepable (dput ''claimed_until'' (JInt until) r)"
  unfolding back_to_todo_def claimed_record_def settle_record_def
  by (intro keepable_put task_words task_values; assumption)+

lemma keepable_new: "utf8_ok i \<Longrightarrow> utf8_ok x \<Longrightarrow> keepable (new_record i x)"
  using task_words task_values(1) [of TODO] by (simp add: keepable_def new_record_def text_ok_def)

lemma keepable_expire: "(\<And>r. r \<in> set rs \<Longrightarrow> keepable r) \<Longrightarrow> r \<in> set (fst (expire rs now)) \<Longrightarrow> keepable r"
  by (induction rs) (auto simp: split_beta Let_def intro: keepable_records split: if_splits)

lemma keepable_update:
  "(\<And>r. r \<in> set rs \<Longrightarrow> keepable r) \<Longrightarrow> (\<And>r. r \<in> set rs \<Longrightarrow> keepable (f r)) \<Longrightarrow> r \<in> set (update_first P f rs) \<Longrightarrow> keepable r"
  by (induction rs) (auto split: if_splits)

lemma keepable_rewrite:
  assumes "keepable stored" "\<And>r. r \<in> set rs \<Longrightarrow> keepable r" "\<And>r. keepable r \<Longrightarrow> keepable (f r)"
  shows "keepable (tasks_write stored (update_first P f rs))"
proof (rule keepable_write [OF assms(1)])
  fix r assume "r \<in> set (update_first P f rs)"
  with keepable_update [of rs f r P] assms(2,3) show "keepable r" by blast
qed

lemma made_up_id: "utf8_ok (''t-'' @ show_nat n)"
  using show_nat_digits [of n] by (intro utf8_ok_ascii) (auto simp: is_digit_def byte_of_def)

subsection \<open>Calls as updates\<close>

text \<open>A task as a value that a callback returns.\<close>

definition task_json :: "stored_task \<Rightarrow> json" where
  "task_json t = JDict
     [(''claimed_by'', opt_str (st_claimed_by t)), (''claimed_until'', opt_int (st_claimed_until t)), (''id'', JStr (st_id t)),
      (''instruction'', JStr (st_instruction t)), (''state'', JStr (state_value (st_state t)))]"

definition answer :: "('a \<Rightarrow> json) \<Rightarrow> 'a pyres \<times> pydict option \<Rightarrow> json pyres \<times> pydict option" where
  "answer f y = (map_sum id f (fst y), snd y)"

fun call_body :: "task_call \<Rightarrow> body" where
  "call_body (AddCall items) d = answer (\<lambda>ts. JList (map task_json ts)) (append_body items d)"
| "call_body (ClaimCall w lease now) d = answer (\<lambda>t. case t of None \<Rightarrow> JNull | Some t \<Rightarrow> task_json t) (take_body w lease now d)"
| "call_body (ReleaseCall i w outcome now) d = answer (\<lambda>_. JNull) (settle_body i w outcome now d)"
| "call_body (ExtendCall i w granted now) d = answer task_json (hold_body i w granted now d)"

lemma call_body_doc: "body_doc (call_body c) d = call_doc c d"
  by (cases c) (simp_all add: answer_def body_doc_def)

text \<open>What a call writes of what it is given is text that can be stored.\<close>

fun call_text_ok :: "task_call \<Rightarrow> bool" where
  "call_text_ok (AddCall items) = (\<forall>(x, given) \<in> set items. utf8_ok x \<and> (case given of None \<Rightarrow> True | Some i \<Rightarrow> utf8_ok i))"
| "call_text_ok (ClaimCall w lease now) = utf8_ok w"
| "call_text_ok _ = True"

lemma keepable_append:
  assumes "append_loop records added items = Inr (records', added')" "call_text_ok (AddCall items)" "\<And>r. r \<in> set records \<Longrightarrow> keepable r"
  shows "r \<in> set records' \<Longrightarrow> keepable r"
  using assms
proof (induction records added items rule: append_loop.induct)
  case (2 records added x given rest)
  let ?i = "case given of Some i \<Rightarrow> i | None \<Rightarrow> ''t-'' @ show_nat (length records + 1)"
  have "utf8_ok ?i" "utf8_ok x" using 2(4) made_up_id by (auto split: option.splits)
  then have "keepable (new_record ?i x)" by (rule keepable_new)
  then have new: "\<And>r. r \<in> set (records @ [new_record ?i x]) \<Longrightarrow> keepable r" using 2(5) by auto
  from 2(3) obtain t where steps: "require_identifier ?i ''task'' = Inr ()" "\<not> list_ex (has_id ?i) records"
    "to_task (new_record ?i x) = Inr t" "append_loop (records @ [new_record ?i x]) (added @ [t]) rest = Inr (records', added')"
    by (auto simp: Let_def split: sum.splits if_splits)
  have "call_text_ok (AddCall rest)" using 2(4) by simp
  from 2(1) [OF refl steps(2) 2(2) steps(4) this new] show ?case .
qed simp

lemma keepable_take:
  assumes "\<And>x. d = Some x \<Longrightarrow> keepable x" "utf8_ok w" "snd (take_body w lease now d) = Some d'"
  shows "keepable d'"
proof -
  obtain stored rs where r: "tasks_read d = (stored, rs)" by fastforce
  note s = keepable_read [OF assms(1) r]
  have e: "\<And>r. r \<in> set (fst (expire rs now)) \<Longrightarrow> keepable r" using keepable_expire s(2) by blast
  show ?thesis
  proof (cases "find is_todo (fst (expire rs now))")
    case None
    with assms(3) have "d' = tasks_write stored (fst (expire rs now))"
      by (auto simp: take_body_def r Let_def split_beta split: if_splits)
    then show ?thesis by (auto intro!: keepable_write s(1) intro: e)
  next
    case (Some x)
    with assms(3) have d': "d' = tasks_write stored (update_first is_todo (\<lambda>_. claimed_record w (timestamp (now + lease)) x) (fst (expire rs now)))"
      by (simp add: take_body_def r Let_def split_beta)
    have new: "keepable (claimed_record w (timestamp (now + lease)) x)"
      using keepable_records(2) [OF e assms(2)] find_SomeD [OF Some] by blast
    show ?thesis unfolding d' by (rule keepable_rewrite [OF s(1) e]) (assumption | rule new)+
  qed
qed

lemma call_body_ok:
  assumes "call_text_ok c"
  shows "body_ok (call_body c)"
  unfolding body_ok_def keepable_def [symmetric]
proof (intro allI impI)
  fix d d' assume d: "\<forall>x. d = Some x \<longrightarrow> keepable x" and w: "snd (call_body c d) = Some d'"
  obtain stored rs where r: "tasks_read d = (stored, rs)" by fastforce
  have s: "keepable stored" "\<And>r. r \<in> set rs \<Longrightarrow> keepable r" using keepable_read [OF _ r] d by blast+
  have e: "\<And>now r. r \<in> set (fst (expire rs now)) \<Longrightarrow> keepable r" using keepable_expire s(2) by blast
  have u: "(\<And>r. keepable r \<Longrightarrow> keepable (f r)) \<Longrightarrow> keepable (tasks_write stored (update_first P f (fst (expire rs now))))" for f P now
    by (rule keepable_rewrite [OF s(1) e])
  show "keepable d'"
  proof (cases c)
    case (AddCall items)
    with w r obtain rs' added where "append_loop rs [] items = Inr (rs', added)" "d' = tasks_write stored rs'"
      by (auto simp: answer_def append_body_def split: sum.splits)
    with keepable_append [OF _ _ s(2)] assms AddCall keepable_write [OF s(1)] show ?thesis by blast
  next
    case (ClaimCall v lease now)
    with w assms have "snd (take_body v lease now d) = Some d'" "utf8_ok v" by (simp_all add: answer_def)
    then show ?thesis using keepable_take d by blast
  next
    case (ReleaseCall i v outcome now)
    with w r have "d' = tasks_write stored (update_first (has_id i) (settle_record outcome) (fst (expire rs now)))"
      by (auto simp: answer_def settle_body_def Let_def split_beta split: sum.splits)
    then show ?thesis using u keepable_records(3) by blast
  next
    case (ExtendCall i v granted now)
    with w r obtain x where x: "held_record lease_expired_detail i v (fst (expire rs now)) = Inr x"
      "d' = tasks_write stored (update_first (has_id i) (\<lambda>_. dput ''claimed_until'' (JInt (timestamp (now + granted))) x) (fst (expire rs now)))"
      by (auto simp: answer_def hold_body_def Let_def split_beta split: sum.splits)
    from x(1) have "x \<in> set (fst (expire rs now))"
      by (auto simp: held_record_def locate_def split: sum.splits option.splits if_splits dest: find_SomeD)
    from keepable_records(4) [OF e [OF this]] show ?thesis unfolding x(2) by (rule u)
  qed
qed

subsection \<open>The commits of a list\<close>

text \<open>The attempts at one lock are calls on one list; \<open>calls_in\<close> is the history of them that has been committed.\<close>

definition calls_at :: "update_setting \<Rightarrow> (string \<Rightarrow> task_call) \<Rightarrow> string \<Rightarrow> bool" where
  "calls_at U c n = (wf_doc (us_start U (own_lock U n)) \<and>
     (\<forall>m. own_lock U m = own_lock U n \<longrightarrow> us_body U m = call_body (c m) \<and> call_ok (c m)))"

definition calls_in :: "update_setting \<Rightarrow> (string \<Rightarrow> task_call) \<Rightarrow> string \<Rightarrow> string list \<Rightarrow> task_call list" where
  "calls_in U c n L = map c (log_of U n L)"

lemma log_own: "m \<in> set (log_of U n L) \<Longrightarrow> own_lock U m = own_lock U n"
  by (simp add: log_of_def)

lemma doc_after_calls:
  assumes "calls_at U c n" "\<forall>m \<in> set K. own_lock U m = own_lock U n"
  shows "doc_after U n K = run_doc (map c K) (us_start U (own_lock U n))" "list_all call_ok (map c K)"
proof -
  from assms(2) show "doc_after U n K = run_doc (map c K) (us_start U (own_lock U n))"
  proof (induction K rule: rev_induct)
    case (snoc m K)
    with assms(1) have "us_body U m = call_body (c m)" by (simp add: calls_at_def)
    with snoc call_body_doc [of "c m"] show ?case by (simp add: doc_snoc run_doc_def)
  qed (simp add: doc_after_def run_doc_def)
  from assms show "list_all call_ok (map c K)" by (auto simp: list_all_iff calls_at_def)
qed

lemma list_after:
  assumes "calls_at U c n" "\<forall>m \<in> set K. own_lock U m = own_lock U n"
  shows "wf_doc (doc_after U n K)" "abs_doc (doc_after U n K) = fold call_spec (map c K) (abs_doc (us_start U (own_lock U n)))"
  using doc_after_calls [OF assms] run_refines assms(1) by (simp_all add: calls_at_def)

lemma task_json_id: "task_json t = task_json t' \<Longrightarrow> st_id t = st_id t'"
  by (simp add: task_json_def)

lemma claim_writes: "fst (take_body w lease now d) = Inr (Some t) \<Longrightarrow> snd (take_body w lease now d) \<noteq> None"
  by (auto simp: take_body_def Let_def split: prod.splits option.splits if_splits)

lemma claim_answer:
  assumes "fst (call_body (ClaimCall w lease now) d) = Inr (task_json t)"
  obtains t' d' where "take_body w lease now d = (Inr (Some t'), Some d')" "st_id t' = st_id t"
proof -
  from assms obtain x where x: "fst (take_body w lease now d) = Inr x" "(case x of None \<Rightarrow> JNull | Some t \<Rightarrow> task_json t) = task_json t"
    by (cases "fst (take_body w lease now d)") (auto simp: answer_def)
  then obtain t' where t': "x = Some t'" "task_json t' = task_json t"
    by (cases x) (auto simp: task_json_def)
  with x(1) claim_writes [of w lease now d t'] obtain d' where "take_body w lease now d = (Inr (Some t'), Some d')"
    by (cases "take_body w lease now d") auto
  with t'(2) that task_json_id show ?thesis by blast
qed

text \<open>Two claims of one list, of which one is committed before the other begins, while both leases run.\<close>

lemma claims_differ:
  assumes U: "calls_at U c n" "own_lock U m = own_lock U n" "\<forall>k \<in> set (K @ n # K'). own_lock U k = own_lock U n"
    and first: "c n = ClaimCall w lease now" "take_body w lease now (doc_after U n K) = (Inr (Some t), d)"
    and second: "c m = ClaimCall v lease' now'" "take_body v lease' now' (doc_after U n (K @ n # K')) = (Inr (Some t'), d')"
    and calls: "list_all (before (timestamp (now + lease))) (map c K')" "list_all (\<lambda>k. \<not> touches (st_id t) w k) (map c K')"
    and time: "now' < of_int (timestamp (now + lease))"
  shows "st_id t' \<noteq> st_id t"
proof -
  have "call_ok (c n)" "call_ok (c m)" using U(1,2) unfolding calls_at_def by blast+
  then have names: "w \<noteq> []" "v \<noteq> []" using first(1) second(1) by simp_all
  have K: "\<forall>k \<in> set K. own_lock U k = own_lock U n" using U(3) by simp
  note wf = list_after(1) [OF U(1) K]
  note wf' = list_after(1) [OF U(1,3)]
  have "doc_after U n (K @ [n]) = call_doc (ClaimCall w lease now) (doc_after U n K)"
    using doc_after_calls(1) [OF U(1), of "K @ [n]"] doc_after_calls(1) [OF U(1) K] K first(1) by (simp add: run_doc_def)
  with claimed_hold [OF wf names(1) first(2)] have now_held: "hold_of (abs_doc (doc_after U n (K @ [n]))) (st_id t) = Some (Held w (timestamp (now + lease)))"
    by simp
  have Kn: "\<forall>k \<in> set (K @ [n]). own_lock U k = own_lock U n" using K by simp
  have "abs_doc (doc_after U n (K @ n # K')) = fold call_spec (map c K') (abs_doc (doc_after U n (K @ [n])))"
    unfolding list_after(2) [OF U(1,3)] list_after(2) [OF U(1) Kn] by simp
  with live_claim_run [OF now_held calls] have "hold_of (abs_doc (doc_after U n (K @ n # K'))) (st_id t) = Some (Held w (timestamp (now + lease)))"
    by simp
  with time have held: "hold_of (spec_expire now' (abs_doc (doc_after U n (K @ n # K')))) (st_id t) = Some (Held w (timestamp (now + lease)))"
    by (simp add: hold_of_expire)
  obtain e where e: "fst (spec_claim v lease' now' (abs_doc (doc_after U n (K @ n # K')))) = Some e" "e_id e = st_id t'"
    using claim_result [OF wf' names(2) second(2)] by blast
  from spec_claim_Some(3) [OF e(1) distinct_abs_ids [OF wf']] e(2) held show ?thesis by auto
qed

end
