(* ===== verification/TaskFileProps.thy ===== *)
theory TaskFileProps
  imports TaskFiles
begin

section \<open>What a task list in files guarantees\<close>

text \<open>
  The contract of the task list, for workers in any number of processes that share nothing but a directory: from the
  properties of the updates under a lock, and the lemmas about histories of calls.
\<close>

subsection \<open>Claims of two attempts\<close>

lemma claim_committed:
  assumes "updates_inv U w\<^sub>0 (\<lambda>_. []) ((w, L), T)" "us_body U n = call_body (ClaimCall x lease now)"
    and "T n = Locking (Ret (Some (task_json t)))"
  obtains K t' d where "prefix (K @ [n]) (log_of U n L)" "take_body x lease now (doc_after U n K) = (Inr (Some t'), Some d)" "st_id t' = st_id t"
proof -
  from answer_served [OF assms(1,3)] obtain K where K: "fst (us_body U n (doc_after U n K)) = Inr (task_json t)"
    "if snd (us_body U n (doc_after U n K)) = None then n \<notin> set (log_of U n L) else prefix (K @ [n]) (log_of U n L)"
    unfolding served_def by blast
  from claim_answer [OF K(1) [unfolded assms(2)]] obtain t' d where
    t: "take_body x lease now (doc_after U n K) = (Inr (Some t'), Some d)" "st_id t' = st_id t" .
  with K(2) assms(2) have "prefix (K @ [n]) (log_of U n L)" by (simp add: answer_def)
  with t that show ?thesis by blast
qed

lemma claims_apart:
  assumes "calls_at U c n" "own_lock U m = own_lock U n" "\<forall>k \<in> set l. own_lock U k = own_lock U n"
    and first: "c n = ClaimCall x lease now" "take_body x lease now (doc_after U n K) = (Inr (Some t), Some d)"
    and second: "c m = ClaimCall y lease' now'" "take_body y lease' now' (doc_after U m K') = (Inr (Some t'), Some d')"
    and order: "prefix (K @ [n]) l" "prefix (K' @ [m]) l" "prefix (K @ [n]) (K' @ [m])" "n \<noteq> m"
    and calls: "\<forall>k \<in> set (map c l). before (timestamp (now + lease)) k \<and> \<not> touches (st_id t) x k"
  shows "st_id t' \<noteq> st_id t"
proof -
  from order(3,4) have "prefix (K @ [n]) K'" by (metis last_snoc prefix_snoc)
  then obtain K2 where K2: "K' = K @ n # K2" by (auto elim!: prefixE)
  have all: "set (K' @ [m]) \<subseteq> set l" using order(2) set_mono_prefix by blast
  then have names: "\<forall>k \<in> set (K @ n # K2). own_lock U k = own_lock U n" using assms(3) unfolding K2 [symmetric] by auto
  have "list_all (before (timestamp (now + lease))) (map c K2)" "list_all (\<lambda>k. \<not> touches (st_id t) x k) (map c K2)"
    using all calls by (auto simp: K2 list_all_iff)
  note calls = this
  have "before (timestamp (now + lease)) (c m)" using all assms(12) by auto
  then have time: "now' < of_int (timestamp (now + lease))" by (simp add: before_def second(1))
  have "take_body y lease' now' (doc_after U n (K @ n # K2)) = (Inr (Some t'), Some d')"
    using second(2) unfolding K2 doc_same [OF assms(2)] .
  from claims_differ [OF assms(1,2) names first second(1) this calls time] show ?thesis .
qed

subsection \<open>Two processes that claim\<close>

definition two_claims :: "string \<Rightarrow> task_call" where
  "two_claims n = (if n = nonce_of (CHR ''a'') then ClaimCall ''w'' 300 1000 else ClaimCall ''v'' 300 1001)"

definition two_tasks :: pydict where
  "two_tasks = [(''tasks'', JList (map JDict [new_record ''a'' ''one'', new_record ''b'' ''two'']))]"

abbreviation small_tasks :: update_setting where
  "small_tasks \<equiv> pair_updates (\<lambda>n. call_body (two_claims n)) (Some two_tasks)"

lemma two_tasks_doc: "Some two_tasks = task_doc [new_record ''a'' ''one'', new_record ''b'' ''two'']"
  by (simp add: two_tasks_def task_doc_def)

lemma two_tasks_keepable: "keepable two_tasks"
proof -
  have "tasks_write [] [new_record ''a'' ''one'', new_record ''b'' ''two''] = two_tasks"
    by (simp add: tasks_write_def two_tasks_def dput_def)
  moreover have "utf8_ok ''a''" "utf8_ok ''one''" "utf8_ok ''b''" "utf8_ok ''two''"
    by (auto simp: byte_of_def intro!: ascii_text_utf8)
  then have "keepable (tasks_write [] [new_record ''a'' ''one'', new_record ''b'' ''two''])"
    by (intro keepable_write) (auto intro: keepable_new simp: keepable_def [of "[]"])
  ultimately show ?thesis by simp
qed

lemma two_claims_ok: "body_ok (call_body (two_claims n))"
  by (rule call_body_ok) (auto simp: two_claims_def byte_of_def intro!: ascii_text_utf8)

lemma small_tasks_ok: "update_ok small_tasks" "calls_at small_tasks two_claims n"
proof -
  show "update_ok small_tasks"
    using two_claims_ok two_tasks_keepable by (intro pair_ok) (simp_all add: keepable_def del: storable.simps)
  have "wf_doc (Some two_tasks)" unfolding two_tasks_doc by simp
  then show "calls_at small_tasks two_claims n" by (simp add: calls_at_def two_claims_def)
qed

lemma written_keepable: "body_ok b \<Longrightarrow> (\<And>x. d = Some x \<Longrightarrow> keepable x) \<Longrightarrow> b d = (r, Some d') \<Longrightarrow> keepable d'"
  unfolding body_ok_def keepable_def by (metis snd_conv)

text \<open>A claim of an open task, run.\<close>

lemma claim_run:
  assumes "wf_doc d" "w \<noteq> []" "fst (spec_claim w lease now (abs_doc d)) = Some e"
  obtains d' where "call_body (ClaimCall w lease now) d = (Inr (task_json (entry_task e)), Some d')"
    "wf_doc (Some d')" "abs_doc (Some d') = snd (spec_claim w lease now (abs_doc d))"
proof -
  have r: "fst (take_body w lease now d) = Inr (Some (entry_task e))"
    using take_body_refines(1) [OF assms(1,2), of lease now] assms(3) by simp
  with claim_writes obtain d' where d': "snd (take_body w lease now d) = Some d'" by blast
  have "call_doc (ClaimCall w lease now) d = Some d'" by (simp add: body_doc_def d')
  with call_refines [OF assms(1), of "ClaimCall w lease now"] assms(2) have "wf_doc (Some d')" "abs_doc (Some d') = snd (spec_claim w lease now (abs_doc d))"
    by simp_all
  moreover from r d' have "call_body (ClaimCall w lease now) d = (Inr (task_json (entry_task e)), Some d')" by (simp add: answer_def)
  ultimately show ?thesis using that by blast
qed

lemma two_runs:
  "\<exists>L T d. update_runs small_tasks ((doc_world (Some two_tasks) {}, []), all_start small_tasks)
       ((doc_world (Some d) {nonce_of (CHR ''b''), nonce_of (CHR ''a'')}, L), T)
     \<and> set L \<subseteq> {nonce_of (CHR ''a''), nonce_of (CHR ''b'')}
     \<and> T (nonce_of (CHR ''a'')) = Locking (Ret (Some (task_json (entry_task (''a'', ''one'', Held ''w'' 1300)))))
     \<and> T (nonce_of (CHR ''b'')) = Locking (Ret (Some (task_json (entry_task (''b'', ''two'', Held ''v'' 1301)))))"
proof -
  have n: "timestamp 1300 = 1300" "timestamp 1301 = 1301" by (simp_all add: timestamp_def)
  have wf: "wf_doc (Some two_tasks)" unfolding two_tasks_doc by simp
  have "abs_doc (Some two_tasks) = [(''a'', ''one'', Todo), (''b'', ''two'', Todo)]" unfolding two_tasks_doc by simp
  then have first: "spec_claim ''w'' 300 1000 (abs_doc (Some two_tasks)) =
      (Some (''a'', ''one'', Held ''w'' 1300), [(''a'', ''one'', Held ''w'' 1300), (''b'', ''two'', Todo)])"
    by (simp add: spec_claim_def spec_expire_def claimable_def set_hold_def Let_def n)
  obtain d1 where d1: "call_body (ClaimCall ''w'' 300 1000) (Some two_tasks) = (Inr (task_json (entry_task (''a'', ''one'', Held ''w'' 1300))), Some d1)"
    "wf_doc (Some d1)" "abs_doc (Some d1) = [(''a'', ''one'', Held ''w'' 1300), (''b'', ''two'', Todo)]"
    using claim_run [OF wf, of "''w''" 300 1000 "(''a'', ''one'', Held ''w'' 1300)"] unfolding first by auto
  have second: "spec_claim ''v'' 300 1001 (abs_doc (Some d1)) =
      (Some (''b'', ''two'', Held ''v'' 1301), [(''a'', ''one'', Held ''w'' 1300), (''b'', ''two'', Held ''v'' 1301)])"
    unfolding d1(3) by (simp add: spec_claim_def spec_expire_def claimable_def set_hold_def Let_def n)
  obtain d2 where d2: "call_body (ClaimCall ''v'' 300 1001) (Some d1) = (Inr (task_json (entry_task (''b'', ''two'', Held ''v'' 1301))), Some d2)"
    using claim_run [OF d1(2), of "''v''" 300 1001 "(''b'', ''two'', Held ''v'' 1301)"] unfolding second by auto
  have claims: "two_claims (nonce_of (CHR ''a'')) = ClaimCall ''w'' 300 1000" "two_claims (nonce_of (CHR ''b'')) = ClaimCall ''v'' 300 1001"
    by (simp_all add: two_claims_def)
  have keep: "x = two_tasks" "keepable x" if "Some two_tasks = Some x" for x using that two_tasks_keepable by simp_all
  have "keepable d1"
    by (rule written_keepable [OF two_claims_ok [of "nonce_of (CHR ''a'')", unfolded claims] _ d1(1)]) (rule keep)
  then have d1_ok: "storable True (JDict d1)" unfolding keepable_def .
  have start_ok: "storable True (JDict x)" if "Some two_tasks = Some x" for x using keep(2) [OF that] unfolding keepable_def .
  note runs = pair_twice [where b = "\<lambda>n. call_body (two_claims n)" and d = "Some two_tasks", unfolded claims, OF d1(1) d2 start_ok d1_ok]
  then show ?thesis using updates_trans by blast
qed

subsection \<open>The properties\<close>

text \<open>C4: a task list in files is the abstract list. Whatever attempts in whatever processes add, claim, release and
  extend, with any call on the disk failing, any write torn and any process killed: at every moment the file of the
  list holds a well-formed document, and it is the list that the contract gives for the calls committed so far.\<close>

theorem task_files_follow_spec:
  assumes "update_ok U" "fresh_start (us_locks U) w\<^sub>0" "documents_ok U (lw_disk w\<^sub>0) []"
    and "update_runs U ((w\<^sub>0, []), all_start U) ((w, L), T)" "calls_at U c n"
  shows "\<exists>d. holds_doc (lw_disk w (own_data U n)) d \<and> wf_doc d
    \<and> abs_doc d = fold call_spec (calls_in U c n L) (abs_doc (us_start U (own_lock U n)))"
proof -
  have "holds_doc (lw_disk w (own_data U n)) (doc_after U n (log_of U n L))"
    using updates_invD(5) [OF updates_reached [OF assms(1-4)]] by (simp add: documents_ok_def)
  moreover have "\<forall>m \<in> set (log_of U n L). own_lock U m = own_lock U n" using log_own by blast
  note list_after [OF assms(5) this]
  ultimately show ?thesis unfolding calls_in_def by blast
qed

theorem task_files_follow_spec_witness:
  "\<exists>L T d d'. update_runs small_tasks ((doc_world (Some two_tasks) {}, []), all_start small_tasks)
       ((doc_world (Some d) {nonce_of (CHR ''b''), nonce_of (CHR ''a'')}, L), T)
     \<and> holds_doc (doc_file (Some d)) d' \<and> wf_doc d'
     \<and> abs_doc d' = fold call_spec (calls_in small_tasks two_claims (nonce_of (CHR ''a'')) L) [(''a'', ''one'', Todo), (''b'', ''two'', Todo)]"
proof -
  let ?n = "nonce_of (CHR ''a'')"
  obtain L T d where run: "update_runs small_tasks ((doc_world (Some two_tasks) {}, []), all_start small_tasks)
       ((doc_world (Some d) {nonce_of (CHR ''b''), ?n}, L), T)" using two_runs by blast
  have start: "fresh_start (us_locks small_tasks) (doc_world (Some two_tasks) {})" "documents_ok small_tasks (lw_disk (doc_world (Some two_tasks) {})) []"
    using pair_start by simp_all
  have none: "abs_doc (Some two_tasks) = [(''a'', ''one'', Todo), (''b'', ''two'', Todo)]" unfolding two_tasks_doc by simp
  from task_files_follow_spec [OF small_tasks_ok(1) start run small_tasks_ok(2) [of ?n]] obtain d' where
    "holds_doc (doc_file (Some d)) d'" "wf_doc d'" "abs_doc d' = fold call_spec (calls_in small_tasks two_claims ?n L) (abs_doc (Some two_tasks))"
    by auto
  with run show ?thesis unfolding none by blast
qed

text \<open>C1: no task is in two hands, whatever processes the hands are in. Of two claims that were answered a task, by
  workers in any two processes, the tasks differ as long as the calls that have been committed were made before
  either lease is over and neither worker has released or extended the task: however often calls failed, writes
  were torn and processes killed in between.\<close>

theorem claims_of_processes_differ:
  assumes "update_ok U" "fresh_start (us_locks U) w\<^sub>0" "documents_ok U (lw_disk w\<^sub>0) []"
    and "update_runs U ((w\<^sub>0, []), all_start U) ((w, L), T)" "calls_at U c n" "own_lock U m = own_lock U n" "n \<noteq> m"
    and "c n = ClaimCall x lease now" "T n = Locking (Ret (Some (task_json t)))"
    and "c m = ClaimCall y lease' now'" "T m = Locking (Ret (Some (task_json t')))"
    and "\<forall>k \<in> set (calls_in U c n L). before (timestamp (now + lease)) k \<and> before (timestamp (now' + lease')) k
      \<and> \<not> touches (st_id t) x k \<and> \<not> touches (st_id t') y k"
  shows "st_id t \<noteq> st_id t'"
proof -
  note inv = updates_reached [OF assms(1-4)]
  have body: "us_body U k = call_body (c k)" if "own_lock U k = own_lock U n" for k
    using assms(5) that unfolding calls_at_def by blast
  note bodies = body [OF refl, unfolded assms(8)] body [OF assms(6), unfolded assms(10)]
  have at: "calls_at U c m" "log_of U m L = log_of U n L"
    using assms(5) log_same [OF assms(6)] unfolding calls_at_def assms(6) by blast+
  obtain K u d where K: "prefix (K @ [n]) (log_of U n L)" "take_body x lease now (doc_after U n K) = (Inr (Some u), Some d)" "st_id u = st_id t"
    using claim_committed [OF inv bodies(1) assms(9)] .
  obtain K' u' d' where K': "prefix (K' @ [m]) (log_of U n L)" "take_body y lease' now' (doc_after U m K') = (Inr (Some u'), Some d')"
    "st_id u' = st_id t'" using claim_committed [OF inv bodies(2) assms(11)] unfolding at(2) .
  have names: "\<forall>k \<in> set (log_of U n L). own_lock U k = own_lock U n" "\<forall>k \<in> set (log_of U n L). own_lock U k = own_lock U m"
    using log_own assms(6) by auto
  have calls: "\<forall>k \<in> set (map c (log_of U n L)). before (timestamp (now + lease)) k \<and> \<not> touches (st_id u) x k"
    "\<forall>k \<in> set (map c (log_of U n L)). before (timestamp (now' + lease')) k \<and> \<not> touches (st_id u') y k"
    using assms(12) K(3) K'(3) unfolding calls_in_def by simp_all
  from prefix_same_cases [OF K(1) K'(1)] show ?thesis
  proof
    assume "prefix (K @ [n]) (K' @ [m])"
    from claims_apart [OF assms(5,6) names(1) assms(8) K(2) assms(10) K'(2) K(1) K'(1) this assms(7) calls(1)] K(3) K'(3)
    show ?thesis by simp
  next
    assume "prefix (K' @ [m]) (K @ [n])"
    from claims_apart [OF at(1) assms(6) [symmetric] names(2) assms(10) K'(2) assms(8) K(2) K'(1) K(1) this assms(7) [symmetric] calls(2)] K(3) K'(3)
    show ?thesis by simp
  qed
qed

theorem claims_of_processes_differ_witness:
  "\<exists>w L T t t'. update_runs small_tasks ((doc_world (Some two_tasks) {}, []), all_start small_tasks) ((w, L), T)
     \<and> T (nonce_of (CHR ''a'')) = Locking (Ret (Some (task_json t))) \<and> T (nonce_of (CHR ''b'')) = Locking (Ret (Some (task_json t')))
     \<and> st_id t \<noteq> st_id t'"
proof -
  let ?a = "nonce_of (CHR ''a'')" and ?b = "nonce_of (CHR ''b'')"
  let ?t = "entry_task (''a'', ''one'', Held ''w'' 1300)" and ?t' = "entry_task (''b'', ''two'', Held ''v'' 1301)"
  obtain L T d where run: "update_runs small_tasks ((doc_world (Some two_tasks) {}, []), all_start small_tasks) ((doc_world (Some d) {?b, ?a}, L), T)"
    and T: "T ?a = Locking (Ret (Some (task_json ?t)))" "T ?b = Locking (Ret (Some (task_json ?t')))" using two_runs by blast
  have start: "fresh_start (us_locks small_tasks) (doc_world (Some two_tasks) {})" "documents_ok small_tasks (lw_disk (doc_world (Some two_tasks) {})) []"
    using pair_start by simp_all
  have claims: "two_claims ?a = ClaimCall ''w'' 300 1000" "two_claims ?b = ClaimCall ''v'' 300 1001" by (simp_all add: two_claims_def)
  have n: "timestamp 1300 = 1300" "timestamp 1301 = 1301" by (simp_all add: timestamp_def)
  have calls: "\<forall>k \<in> set (calls_in small_tasks two_claims ?a L). before (timestamp (1000 + 300)) k \<and> before (timestamp (1001 + 300)) k
      \<and> \<not> touches (st_id ?t) ''w'' k \<and> \<not> touches (st_id ?t') ''v'' k"
    by (auto simp: calls_in_def two_claims_def before_def n)
  have names: "own_lock small_tasks ?b = own_lock small_tasks ?a" "?a \<noteq> ?b" by simp_all
  from claims_of_processes_differ [OF small_tasks_ok(1) start run small_tasks_ok(2) names claims(1) T(1) claims(2) T(2) calls] run T
  show ?thesis by blast
qed

end
