(* ===== verification/Attachments.thy ===== *)
theory Attachments
  imports Errors
begin

section \<open>Attachments\<close>

text \<open>
  \<open>attachments.py\<close>: which media a turn will carry. An attachment is a media object, with its answers to
  \<open>is_url()\<close> and \<open>is_file()\<close> and what \<open>to_dict()\<close> returns, or a value that is serialized already.
  \<open>b64_loop\<close> is the lenient decoder of \<open>binascii\<close>: it counts the bytes it writes.
\<close>

datatype attachment =
    MediaObject (mo_type: string) (mo_is_url: bool) (mo_is_file: bool) (mo_to_dict: json)
  | Serialized json

definition MEDIA_KINDS :: "string list" where
  "MEDIA_KINDS = [''image'', ''audio'', ''video'', ''document'']"

definition non_empty_string :: "json \<Rightarrow> bool" where
  "non_empty_string v = (case v of JStr s \<Rightarrow> s \<noteq> [] | _ \<Rightarrow> False)"

subsection \<open>Base64\<close>

definition b64_char :: "char \<Rightarrow> bool" where
  "b64_char c = (let b = byte_of c in (65 \<le> b \<and> b \<le> 90) \<or> (97 \<le> b \<and> b \<le> 122) \<or> (48 \<le> b \<and> b \<le> 57)
     \<or> c = CHR ''+'' \<or> c = CHR ''/'')"

text \<open>The position in the group of four, the pads since the last data character, the bytes written; the
  result is none when \<open>binascii.Error\<close> is raised. Characters outside the alphabet are skipped.\<close>

fun b64_loop :: "nat \<Rightarrow> nat \<Rightarrow> nat \<Rightarrow> string \<Rightarrow> nat option" where
  "b64_loop quad pads written [] = (if quad = 0 then Some written else None)"
| "b64_loop quad pads written (c # s) =
     (if c = CHR ''=''
      then (if 2 \<le> quad then (if 4 \<le> quad + (pads + 1) then Some written else b64_loop quad (pads + 1) written s)
            else b64_loop quad pads written s)
      else if b64_char c
      then b64_loop ((quad + 1) mod 4) 0 (if quad = 0 then written else written + 1) s
      else b64_loop quad pads written s)"

definition is_ascii :: "string \<Rightarrow> bool" where
  "is_ascii s = list_all (\<lambda>c. byte_of c < 128) s"

text \<open>\<open>_carries_bytes\<close>: \<open>b64decode\<close> raises a plain \<open>ValueError\<close> for a text that is not ASCII, and only
  \<open>binascii.Error\<close> is caught.\<close>

definition carries_bytes :: "json \<Rightarrow> bool pyres" where
  "carries_bytes v =
     (case v of
        JStr s \<Rightarrow>
          if \<not> is_ascii s then Inl (ValueErr ''string argument should contain only ASCII characters'')
          else Inr (case b64_loop 0 0 0 (s @ ''=='') of None \<Rightarrow> False | Some n \<Rightarrow> 0 < n)
      | _ \<Rightarrow> Inr False)"

subsection \<open>Admission\<close>

fun py_type_name :: "json \<Rightarrow> string" where
  "py_type_name JNull = ''NoneType''"
| "py_type_name (JBool b) = ''bool''"
| "py_type_name (JInt i) = ''int''"
| "py_type_name (JFloat f) = ''float''"
| "py_type_name (JStr s) = ''str''"
| "py_type_name (JList xs) = ''list''"
| "py_type_name (JDict d) = ''dict''"

text \<open>The serialized form, or the refusal of media that came from a URL or a file.\<close>

definition serialized :: "nat \<Rightarrow> attachment \<Rightarrow> (string \<times> json) pyres" where
  "serialized index a =
     (case a of
        MediaObject type is_url is_file d \<Rightarrow>
          if is_url then Inl (attachment_by_reference index ''a URL'')
          else if is_file then Inl (attachment_by_reference index ''a file path'')
          else Inr (type, d)
      | Serialized v \<Rightarrow> Inr (py_type_name v, v))"

text \<open>\<open>data.get("kind") not in _MEDIA_KINDS\<close>, which raises for a list or a dict.\<close>

definition media_kind :: "json \<Rightarrow> bool pyres" where
  "media_kind v =
     (case v of
        JStr s \<Rightarrow> Inr (s \<in> set MEDIA_KINDS)
      | JList _ \<Rightarrow> Inl (TypeErr (''unhashable type: '' @ str_repr ''list''))
      | JDict _ \<Rightarrow> Inl (TypeErr (''unhashable type: '' @ str_repr ''dict''))
      | _ \<Rightarrow> Inr False)"

definition carries_chunks :: "pydict \<Rightarrow> bool" where
  "carries_chunks d =
     (dget d ''kind'' = JStr ''document'' \<and> (case dget d ''chunks'' of JList xs \<Rightarrow> xs \<noteq> [] | _ \<Rightarrow> False))"

definition admit_data :: "nat \<Rightarrow> pydict \<Rightarrow> pydict pyres" where
  "admit_data index d =
     res_bind (media_kind (dget d ''kind'')) (\<lambda>media.
       if \<not> media
       then Inl (attachment_not_media index ''an object with no image, document, audio or video kind'')
       else if as_str (dget d ''url'') \<noteq> None then Inl (attachment_by_reference index ''a URL'')
       else if as_str (dget d ''local_path'') \<noteq> None \<or> as_str (dget d ''storage_path'') \<noteq> None
       then Inl (attachment_by_reference index ''a file path'')
       else res_bind (carries_bytes (dget d ''base64'')) (\<lambda>bytes.
         if bytes \<or> non_empty_string (dget d ''file_id'') \<or> carries_chunks d then Inr d
         else Inl (attachment_empty index)))"

definition admit_one :: "nat \<Rightarrow> attachment \<Rightarrow> pydict pyres" where
  "admit_one index a =
     res_bind (serialized index a) (\<lambda>(type, v).
       case v of
         JDict d \<Rightarrow> admit_data index d
       | _ \<Rightarrow> Inl (attachment_not_media index (''a '' @ type)))"

definition admit_attachments :: "string \<Rightarrow> attachment list \<Rightarrow> pydict list pyres" where
  "admit_attachments prompt attachments =
     (if attachments = [] then Inr []
      else if prompt = [] then Inl attachment_without_prompt
      else res_map (\<lambda>(index, a). admit_one index a) (enumerate 0 attachments))"

subsection \<open>What is admitted\<close>

text \<open>All of a turn's attachments, in order, each of a media kind, by value and not empty.\<close>

lemma admitted_data:
  assumes "admit_data i d = Inr d'"
  shows "d' = d \<and> media_kind (dget d ''kind'') = Inr True \<and> as_str (dget d ''url'') = None \<and> as_str (dget d ''local_path'') = None
    \<and> as_str (dget d ''storage_path'') = None
    \<and> (carries_bytes (dget d ''base64'') = Inr True \<or> non_empty_string (dget d ''file_id'') \<or> carries_chunks d)"
proof -
  obtain media where m: "media_kind (dget d ''kind'') = Inr media"
    using assms by (cases "media_kind (dget d ''kind'')") (simp_all add: admit_data_def)
  have k: "media_kind (dget d ''kind'') = Inr True"
    using assms m by (cases media) (simp_all add: admit_data_def)
  have guards: "(if A then Inl e else if B then Inl e' else R) = Inr x \<Longrightarrow> \<not> A \<and> \<not> B \<and> R = Inr x" for A B :: bool and e e' :: exn and R and x :: pydict
    by (simp split: if_split_asm)
  have "(if as_str (dget d ''url'') \<noteq> None then Inl (attachment_by_reference i ''a URL'')
      else if as_str (dget d ''local_path'') \<noteq> None \<or> as_str (dget d ''storage_path'') \<noteq> None
      then Inl (attachment_by_reference i ''a file path'')
      else res_bind (carries_bytes (dget d ''base64'')) (\<lambda>bytes.
        if bytes \<or> non_empty_string (dget d ''file_id'') \<or> carries_chunks d then Inr d
        else Inl (attachment_empty i))) = Inr d'"
    using assms by (simp only: admit_data_def k res_bind.simps not_True_eq_False if_False)
  note rest = guards [OF this]
  then have refs: "as_str (dget d ''url'') = None" "as_str (dget d ''local_path'') = None" "as_str (dget d ''storage_path'') = None"
    by blast+
  from rest obtain bytes where "carries_bytes (dget d ''base64'') = Inr bytes"
    "(if bytes \<or> non_empty_string (dget d ''file_id'') \<or> carries_chunks d then Inr d else Inl (attachment_empty i)) = Inr d'"
    unfolding res_bind_eq_Inr by blast
  with k refs show ?thesis by (cases bytes) (simp_all split: if_split_asm)
qed

lemma admitted_one:
  assumes "admit_one i a = Inr d"
  shows "admit_data i d = Inr d"
proof -
  from assms obtain type v where "(case v of JDict d \<Rightarrow> admit_data i d | _ \<Rightarrow> Inl (attachment_not_media i (''a '' @ type))) = Inr d"
    unfolding admit_one_def res_bind_eq_Inr by (metis (no_types, lifting) case_prod_conv surj_pair)
  then obtain d\<^sub>0 where "admit_data i d\<^sub>0 = Inr d" by (cases v) simp_all
  with admitted_data [OF this] show ?thesis by simp
qed

lemma admitted_all:
  assumes "admit_attachments prompt xs = Inr ds" "xs \<noteq> []"
  shows "prompt \<noteq> [] \<and> length ds = length xs \<and> (\<forall>i < length xs. admit_one i (xs ! i) = Inr (ds ! i))"
proof -
  from assms have "prompt \<noteq> []" and all: "res_map (\<lambda>(index, a). admit_one index a) (enumerate 0 xs) = Inr ds"
    by (auto simp: admit_attachments_def split: if_splits)
  from all have "list_all2 (\<lambda>x d. (case x of (index, a) \<Rightarrow> admit_one index a) = Inr d) (enumerate 0 xs) ds"
    by (simp add: res_map_Inr_iff)
  then show ?thesis using \<open>prompt \<noteq> []\<close> by (auto simp: list_all2_conv_all_nth nth_enumerate_eq)
qed

text \<open>A text that is not ASCII is not refused with a code of the package.\<close>

lemma non_ascii_escapes:
  assumes "dget d ''kind'' = JStr ''image''" "dget d ''url'' = JNull" "dget d ''local_path'' = JNull" "dget d ''storage_path'' = JNull"
    and "dget d ''base64'' = JStr s" "\<not> is_ascii s"
  shows "\<exists>m. admit_data i d = Inl (ValueErr m)"
  using assms by (simp add: admit_data_def carries_bytes_def media_kind_def MEDIA_KINDS_def)

end
