(* ===== verification/Events.thy ===== *)
theory Events
  imports Errors
begin

section \<open>Events\<close>

text \<open>
  \<open>events.py\<close>: what happened during a run. A listener is a function of the host: it runs in the state of
  the caller and may raise. \<open>emit\<close> gives every listener its turn and then warns about the failures; it
  returns them, as the warnings it issues.
\<close>

datatype event =
    RunStarted (e_run_id: string) (e_session_key: string) (e_mode: string) (e_provider: string)
      (e_model: string) (e_root_run_id: string) (e_depth: int) (e_at: string)
  | RunFinished (e_run_id: string) (e_session_key: string) (e_finish_reason: string)
      (e_tool_calls: "string list") (e_steps: int) (e_cost_usd: "pyfloat option") (e_at: string)
  | RunFailed (e_run_id: string) (e_session_key: string) (e_failure: string) (e_steps: int) (e_at: string)

fun event_type :: "event \<Rightarrow> string" where
  "event_type (RunStarted _ _ _ _ _ _ _ _) = ''run.started''"
| "event_type (RunFinished _ _ _ _ _ _ _) = ''run.finished''"
| "event_type (RunFailed _ _ _ _ _) = ''run.failed''"

fun event_dict :: "event \<Rightarrow> pydict" where
  "event_dict (RunStarted r k m p l root_run d t) =
     [(''type'', JStr ''run.started''), (''run_id'', JStr r), (''session_key'', JStr k), (''mode'', JStr m),
      (''provider'', JStr p), (''model'', JStr l), (''root_run_id'', JStr root_run), (''depth'', JInt d), (''at'', JStr t)]"
| "event_dict (RunFinished r k f c s u t) =
     [(''type'', JStr ''run.finished''), (''run_id'', JStr r), (''session_key'', JStr k), (''finish_reason'', JStr f),
      (''tool_calls'', JList (map JStr c)), (''steps'', JInt s),
      (''cost_usd'', case u of None \<Rightarrow> JNull | Some x \<Rightarrow> JFloat x), (''at'', JStr t)]"
| "event_dict (RunFailed r k f s t) =
     [(''type'', JStr ''run.failed''), (''run_id'', JStr r), (''session_key'', JStr k), (''failure'', JStr f),
      (''steps'', JInt s), (''at'', JStr t)]"

type_synonym 'w listener = "event \<Rightarrow> ('w, unit) py"

text \<open>Registered listeners, each under the identity of the object; the same one may be registered twice.\<close>

type_synonym 'w listeners = "(nat \<times> 'w listener) list"

definition listen :: "nat \<Rightarrow> 'w listener \<Rightarrow> 'w listeners \<Rightarrow> 'w listeners" where
  "listen i f ls = ls @ [(i, f)]"

text \<open>\<open>stop()\<close>: \<open>if listener in listeners: listeners.remove(listener)\<close>, the first occurrence.\<close>

fun stop_listening :: "nat \<Rightarrow> 'w listeners \<Rightarrow> 'w listeners" where
  "stop_listening i [] = []"
| "stop_listening i ((j, f) # ls) = (if j = i then ls else (j, f) # stop_listening i ls)"

fun emit_loop :: "event \<Rightarrow> 'w listeners \<Rightarrow> ('w, exn list) py" where
  "emit_loop ev [] w = (Inr [], w)"
| "emit_loop ev ((_, f) # ls) w =
     (case f ev w of
        (r, w') \<Rightarrow>
          (case emit_loop ev ls w' of
             (Inl e, u) \<Rightarrow> (Inl e, u)
           | (Inr failures, u) \<Rightarrow> (Inr ((case r of Inl e \<Rightarrow> [e] | Inr _ \<Rightarrow> []) @ failures), u)))"

definition warning_text :: "event \<Rightarrow> exn \<Rightarrow> string" where
  "warning_text ev failure =
     ''A prism-harness event listener raised while handling ['' @ event_type ev @ '']: '' @ exn_str failure"

definition emit :: "event \<Rightarrow> 'w listeners \<Rightarrow> ('w, string list) py" where
  "emit ev ls = act_bind (emit_loop ev ls) (\<lambda>failures. act_return (map (warning_text ev) failures))"

text \<open>Every listener hears the event, in order, whatever the others do; nothing is raised.\<close>

definition heard :: "event \<Rightarrow> 'w listeners \<Rightarrow> 'w \<Rightarrow> 'w" where
  "heard ev ls w = fold (\<lambda>(i, f) w. snd (f ev w)) ls w"

lemma emit_loop_run: "\<exists>failures. emit_loop ev ls w = (Inr failures, heard ev ls w)"
proof (induction ls arbitrary: w)
  case Nil
  then show ?case by (simp add: heard_def)
next
  case (Cons l ls)
  obtain i f where l: "l = (i, f)" by force
  obtain r u where f: "f ev w = (r, u)" by force
  from Cons.IH [of u] obtain failures where "emit_loop ev ls u = (Inr failures, heard ev ls u)" by blast
  with l f show ?case by (simp add: heard_def)
qed

lemma emit_run: "\<exists>warnings. emit ev ls w = (Inr warnings, heard ev ls w)"
  using emit_loop_run [of ev ls w] by (auto simp: emit_def run_simps)

end
