(* ===== verification/Structured.thy ===== *)
theory Structured
  imports Errors
begin

section \<open>Documents and the schemas they answer\<close>

text \<open>
  \<open>structured.py\<close>: the check of a model's document against a JSON schema. \<open>check_schema\<close> is
  \<open>_check\<close>, with \<open>_check_any_of\<close>, \<open>_check_object\<close> and \<open>_check_array\<close> inlined as \<open>any_of_problems\<close>,
  \<open>object_problems\<close> and \<open>array_problems\<close> over the recursive calls' results. \<open>fits\<close> says, without
  messages, what it means for a value to satisfy a schema; the theorems say that the list of problems
  is empty exactly then, and that it names every miss and not only the first.
\<close>

subsection \<open>Descriptions\<close>

text \<open>\<open>str(value)\<close> of a number, whole floats as integers.\<close>

definition number_text :: "json \<Rightarrow> string" where
  "number_text v =
     (case v of JFloat (Fin q) \<Rightarrow> if rat_is_integer q then show_int (rat_trunc q) else py_str v | _ \<Rightarrow> py_str v)"

text \<open>The character \<open>U+2026\<close> in UTF-8.\<close>

definition ellipsis :: string where
  "ellipsis = [CHR 0xE2, CHR 0x80, CHR 0xA6]"

fun describe :: "json \<Rightarrow> string" where
  "describe JNull = ''null''"
| "describe (JBool b) = (if b then ''true'' else ''false'')"
| "describe (JList xs) = ''an array''"
| "describe (JDict d) = ''an object''"
| "describe (JStr s) =
     ''the string '' @ [quote_char] @ (if utf8_length s > 40 then utf8_take 40 s @ ellipsis else s) @ [quote_char]"
| "describe v = ''the number '' @ number_text v"

fun literal_text :: "json \<Rightarrow> string" where
  "literal_text JNull = ''null''"
| "literal_text (JBool b) = (if b then ''true'' else ''false'')"
| "literal_text (JInt i) = number_text (JInt i)"
| "literal_text (JFloat f) = number_text (JFloat f)"
| "literal_text v = py_str v"

definition members_text :: "json list \<Rightarrow> string" where
  "members_text vs =
     join_with '', '' (map (\<lambda>v. case v of JStr s \<Rightarrow> [CHR 0x27] @ s @ [CHR 0x27] | _ \<Rightarrow> literal_text v) vs)"

subsection \<open>Types and members\<close>

fun is_bool :: "json \<Rightarrow> bool" where
  "is_bool (JBool b) = True" | "is_bool v = False"

definition same_value :: "json \<Rightarrow> json \<Rightarrow> bool" where
  "same_value member value = (if is_bool member \<noteq> is_bool value then False else py_eq member value)"

definition declared_types :: "pydict \<Rightarrow> string list" where
  "declared_types schema =
     (case dget schema ''type'' of JStr t \<Rightarrow> [t] | JList ts \<Rightarrow> strs_of ts | _ \<Rightarrow> [])"

definition matches_type :: "string \<Rightarrow> json \<Rightarrow> bool" where
  "matches_type declared v =
     (if declared = ''boolean'' then is_bool v
      else if declared = ''string'' then as_str v \<noteq> None
      else if declared = ''number'' then as_num v \<noteq> None
      else if declared = ''integer'' then as_int v \<noteq> None
      else if declared = ''null'' then v = JNull
      else if declared = ''array'' then as_list v \<noteq> None
      else if declared = ''object'' then as_dict v \<noteq> None
      else True)"

definition schema_name :: "pydict \<Rightarrow> string" where
  "schema_name schema = (case dget schema ''name'' of JStr n \<Rightarrow> if n \<noteq> [] then n else ''document'' | _ \<Rightarrow> ''document'')"

subsection \<open>The check\<close>

text \<open>A size that shrinks into a schema's branches, properties and items.\<close>

fun json_size :: "json \<Rightarrow> nat" where
  "json_size (JList xs) = Suc (sum_list (map json_size xs))"
| "json_size (JDict d) = Suc (sum_list (map (\<lambda>kv. json_size (snd kv)) d))"
| "json_size v = 1"

lemma json_size_item: "x \<in> set xs \<Longrightarrow> json_size x < json_size (JList xs)"
  using member_le_sum_list [of "json_size x" "map json_size xs"] by (auto simp: less_Suc_eq_le)

lemma json_size_value: "kv \<in> set d \<Longrightarrow> json_size (snd kv) < json_size (JDict d)"
  using member_le_sum_list [of "json_size (snd kv)" "map (\<lambda>kv. json_size (snd kv)) d"]
  by (auto simp: less_Suc_eq_le)

lemma json_size_dget: "dget d k = v \<Longrightarrow> v \<noteq> JNull \<Longrightarrow> json_size v < json_size (JDict d)"
  using json_size_value by (fastforce simp: dget_def dest: map_of_SomeD split: option.splits)

definition any_of_problems :: "bool list \<Rightarrow> json \<Rightarrow> string \<Rightarrow> string list" where
  "any_of_problems passed value path =
     (if list_ex (\<lambda>b. b) passed then []
      else [path @ '' is '' @ describe value @ '', which satisfies none of the alternatives the schema allows.''])"

definition required_problems :: "pydict \<Rightarrow> pydict \<Rightarrow> string \<Rightarrow> string list" where
  "required_problems schema d path =
     (case dget schema ''required'' of
        JList names \<Rightarrow> concat (map (\<lambda>n. case n of
            JStr k \<Rightarrow> if map_of d k = None then [path @ ''.'' @ k @ '' is required and missing.''] else []
          | _ \<Rightarrow> []) names)
      | _ \<Rightarrow> [])"

definition properties_of :: "pydict \<Rightarrow> pydict" where
  "properties_of schema = (case dget schema ''properties'' of JDict p \<Rightarrow> p | _ \<Rightarrow> [])"

definition closed_problems :: "pydict \<Rightarrow> pydict \<Rightarrow> string \<Rightarrow> string list" where
  "closed_problems schema d path =
     (if dget schema ''additionalProperties'' = JBool False
      then concat (map (\<lambda>kv. if map_of (properties_of schema) (fst kv) = None
             then [path @ ''.'' @ fst kv @ '' was returned, and the schema declares no such property.''] else []) d)
      else [])"

function check_schema :: "pydict \<Rightarrow> json \<Rightarrow> string \<Rightarrow> string list" where
  "check_schema schema value path =
     (case as_list (dget schema ''anyOf'') of
        Some branches \<Rightarrow>
          any_of_problems
            (map (\<lambda>b. case as_dict b of Some s \<Rightarrow> check_schema s value path = [] | None \<Rightarrow> False) branches)
            value path
      | None \<Rightarrow>
     (case as_list (dget schema ''enum'') of
        Some members \<Rightarrow>
          if list_ex (\<lambda>m. same_value m value) members then []
          else [path @ '' is '' @ describe value @ '', which is not one of '' @ members_text members @ ''.'']
      | None \<Rightarrow>
          let types = declared_types schema
          in if types = [] then []
             else if \<not> list_ex (\<lambda>t. matches_type t value) types
             then [path @ '' is '' @ describe value @ '', and the schema asks for ''
                   @ members_text (map JStr types) @ ''.'']
             else
               (case (if ''object'' \<in> set types then as_dict value else None) of
                  Some d \<Rightarrow>
                    required_problems schema d path
                    @ concat (map (\<lambda>kp. case (as_dict (snd kp), map_of d (fst kp)) of
                          (Some p, Some w) \<Rightarrow> check_schema p w (path @ ''.'' @ fst kp)
                        | _ \<Rightarrow> []) (properties_of schema))
                    @ closed_problems schema d path
                | None \<Rightarrow>
               (case (if ''array'' \<in> set types then as_list value else None) of
                  Some xs \<Rightarrow>
                    (case as_dict (dget schema ''items'') of
                       Some items \<Rightarrow>
                         concat (map (\<lambda>ix. check_schema items (snd ix) (path @ ''['' @ show_nat (fst ix) @ '']''))
                           (enumerate 0 xs))
                     | None \<Rightarrow> [])
                | None \<Rightarrow> []))))"
  by pat_completeness auto

lemma any_of_shrinks:
  assumes "as_list (dget schema k) = Some bs" and "b \<in> set bs" and "as_dict b = Some s"
  shows "json_size (JDict s) < json_size (JDict schema)"
proof -
  have "dget schema k = JList bs" "b = JDict s" using assms(1,3) by simp_all
  with json_size_dget [of schema k] json_size_item [OF assms(2)] show ?thesis by fastforce
qed

lemma property_shrinks:
  assumes "kp \<in> set (properties_of schema)" and "as_dict (snd kp) = Some p"
  shows "json_size (JDict p) < json_size (JDict schema)"
proof -
  have "dget schema ''properties'' = JDict (properties_of schema)"
    using assms(1) by (auto simp: properties_of_def split: json.splits)
  from json_size_dget [OF this] json_size_value [OF assms(1)] assms(2) show ?thesis by simp
qed

lemma items_shrinks: "as_dict (dget schema k) = Some p \<Longrightarrow> json_size (JDict p) < json_size (JDict schema)"
  using json_size_dget [of schema k "JDict p"] by simp

termination check_schema
proof (relation "measure (\<lambda>(s, v, p). json_size (JDict s))", goal_cases)
  case 1
  then show ?case by simp
qed (simp_all only: in_measure prod.case, erule items_shrinks,
     metis prod.inject property_shrinks, erule (2) any_of_shrinks)

declare check_schema.simps [simp del]

definition schema_problems :: "pydict \<Rightarrow> json \<Rightarrow> string \<Rightarrow> string list" where
  "schema_problems schema document name = check_schema schema document name"

subsection \<open>What it means to satisfy a schema\<close>

text \<open>
  Stated over the constructors of JSON values, with none of the functions of the check. A value has
  the types its constructor gives it, and every type the check has no meaning for.
\<close>

inductive has_json_type :: "json \<Rightarrow> string \<Rightarrow> bool" where
  null: "has_json_type JNull ''null''"
| boolean: "has_json_type (JBool b) ''boolean''"
| string: "has_json_type (JStr x) ''string''"
| integer: "has_json_type (JInt i) ''integer''"
| whole_number: "has_json_type (JInt i) ''number''"
| number: "has_json_type (JFloat q) ''number''"
| array: "has_json_type (JList xs) ''array''"
| object: "has_json_type (JDict d) ''object''"
| unknown: "t \<notin> {''null'', ''boolean'', ''string'', ''integer'', ''number'', ''array'', ''object''} \<Longrightarrow> has_json_type v t"

text \<open>\<open>==\<close> of Python: the numbers, with \<open>False\<close> and \<open>True\<close> among them as 0 and 1, are equal by value;
  lists are equal element by element, objects key by key in any order.\<close>

inductive rational_value :: "json \<Rightarrow> rat \<Rightarrow> bool" where
  "rational_value (JBool False) 0"
| "rational_value (JBool True) 1"
| "rational_value (JInt i) (of_int i)"
| "rational_value (JFloat (Fin q)) q"

inductive equal_values :: "json \<Rightarrow> json \<Rightarrow> bool" where
  null: "equal_values JNull JNull"
| string: "equal_values (JStr x) (JStr x)"
| number: "rational_value v q \<Longrightarrow> rational_value w q \<Longrightarrow> equal_values v w"
| infinite: "x = PosInf \<or> x = NegInf \<Longrightarrow> equal_values (JFloat x) (JFloat x)"
| list: "list_all2 equal_values xs ys \<Longrightarrow> equal_values (JList xs) (JList ys)"
| dict: "length d = length e \<Longrightarrow> \<forall>k v. (k, v) \<in> set d \<longrightarrow> (\<exists>w. map_of e k = Some w \<and> equal_values v w) \<Longrightarrow>
     equal_values (JDict d) (JDict e)"

text \<open>A member of an \<open>enum\<close>: a bool is only itself there, at the top of the value.\<close>

inductive enum_member :: "json \<Rightarrow> json \<Rightarrow> bool" where
  boolean: "enum_member (JBool b) (JBool b)"
| other: "(\<And>b. m \<noteq> JBool b) \<Longrightarrow> (\<And>b. v \<noteq> JBool b) \<Longrightarrow> equal_values m v \<Longrightarrow> enum_member m v"

text \<open>What a schema says: the alternatives, the members, the types, the keys it requires, the properties
  it declares, and whether it is closed to others.\<close>

definition lists_under :: "pydict \<Rightarrow> string \<Rightarrow> json list \<Rightarrow> bool" where
  "lists_under s k vs \<longleftrightarrow> map_of s k = Some (JList vs)"

definition lists_none :: "pydict \<Rightarrow> string \<Rightarrow> bool" where
  "lists_none s k \<longleftrightarrow> (\<forall>vs. map_of s k \<noteq> Some (JList vs))"

definition declares_type :: "pydict \<Rightarrow> string \<Rightarrow> bool" where
  "declares_type s t \<longleftrightarrow> map_of s ''type'' = Some (JStr t) \<or> (\<exists>ts. lists_under s ''type'' ts \<and> JStr t \<in> set ts)"

definition requires_key :: "pydict \<Rightarrow> string \<Rightarrow> bool" where
  "requires_key s k \<longleftrightarrow> (\<exists>names. lists_under s ''required'' names \<and> JStr k \<in> set names)"

definition declares_property :: "pydict \<Rightarrow> string \<Rightarrow> json \<Rightarrow> bool" where
  "declares_property s k p \<longleftrightarrow> (\<exists>ps. map_of s ''properties'' = Some (JDict ps) \<and> (k, p) \<in> set ps)"

definition closed_schema :: "pydict \<Rightarrow> bool" where
  "closed_schema s \<longleftrightarrow> map_of s ''additionalProperties'' = Some (JBool False)"

text \<open>One rule per way a value satisfies a schema.\<close>

inductive fits :: "pydict \<Rightarrow> json \<Rightarrow> bool" where
  alternative: "lists_under s ''anyOf'' branches \<Longrightarrow> JDict b \<in> set branches \<Longrightarrow> fits b v \<Longrightarrow> fits s v"
| member: "lists_none s ''anyOf'' \<Longrightarrow> lists_under s ''enum'' members \<Longrightarrow>
     m \<in> set members \<Longrightarrow> enum_member m v \<Longrightarrow> fits s v"
| untyped: "lists_none s ''anyOf'' \<Longrightarrow> lists_none s ''enum'' \<Longrightarrow> \<forall>t. \<not> declares_type s t \<Longrightarrow> fits s v"
| object: "lists_none s ''anyOf'' \<Longrightarrow> lists_none s ''enum'' \<Longrightarrow> declares_type s ''object'' \<Longrightarrow>
     \<forall>k. requires_key s k \<longrightarrow> k \<in> fst ` set d \<Longrightarrow>
     \<forall>k p w. declares_property s k (JDict p) \<longrightarrow> map_of d k = Some w \<longrightarrow> fits p w \<Longrightarrow>
     closed_schema s \<longrightarrow> (\<forall>k \<in> fst ` set d. \<exists>p. declares_property s k p) \<Longrightarrow>
     fits s (JDict d)"
| array: "lists_none s ''anyOf'' \<Longrightarrow> lists_none s ''enum'' \<Longrightarrow> declares_type s ''array'' \<Longrightarrow>
     \<forall>items. map_of s ''items'' = Some (JDict items) \<longrightarrow> (\<forall>x \<in> set xs. fits items x) \<Longrightarrow>
     fits s (JList xs)"
| scalar: "lists_none s ''anyOf'' \<Longrightarrow> lists_none s ''enum'' \<Longrightarrow>
     declares_type s t \<Longrightarrow> has_json_type v t \<Longrightarrow>
     \<not> (declares_type s ''object'' \<and> (\<exists>d. v = JDict d)) \<Longrightarrow>
     \<not> (declares_type s ''array'' \<and> (\<exists>xs. v = JList xs)) \<Longrightarrow>
     fits s v"

subsubsection \<open>The code's functions decide these relations\<close>

lemma has_json_type_iff: "has_json_type v t \<longleftrightarrow> matches_type t v"
  by (subst has_json_type.simps) (cases v; simp add: matches_type_def)

lemma rational_value_iff: "rational_value v q \<longleftrightarrow> num_value v = Some (Fin q)"
  by (cases v rule: num_value.cases) (auto simp: rational_value.simps)

lemma number_of_container [simp]:
  "\<not> rational_value JNull q" "\<not> rational_value (JStr x) q" "\<not> rational_value (JList xs) q" "\<not> rational_value (JDict d) q"
  by (simp_all add: rational_value_iff)

lemma equal_values_simps [simp]:
  "equal_values JNull w \<longleftrightarrow> w = JNull"
  "equal_values (JStr x) w \<longleftrightarrow> w = JStr x"
  "equal_values (JList xs) w \<longleftrightarrow> (\<exists>ys. w = JList ys \<and> list_all2 equal_values xs ys)"
  "equal_values (JDict d) w \<longleftrightarrow> (\<exists>e. w = JDict e \<and> length d = length e
     \<and> (\<forall>k v. (k, v) \<in> set d \<longrightarrow> (\<exists>w. map_of e k = Some w \<and> equal_values v w)))"
     apply (subst equal_values.simps, auto)[1]
    apply (subst equal_values.simps, auto)[1]
   apply (subst equal_values.simps, auto)[1]
  apply (subst equal_values.simps, auto)[1]
  done

lemma pf_eq_iff: "pf_eq a b \<longleftrightarrow> a = b \<and> a \<noteq> NaN"
  by (cases a; cases b) auto

lemma equal_values_number:
  "num_value v = Some a \<Longrightarrow> equal_values v w \<longleftrightarrow> (\<exists>b. num_value w = Some b \<and> pf_eq a b)"
  by (subst equal_values.simps; cases v; cases w; cases a) (auto simp: rational_value_iff pf_eq_iff)

lemma equal_values_iff:
  "py_eq v w \<longleftrightarrow> equal_values v w"
  "py_eq_list vs ws \<longleftrightarrow> list_all2 equal_values vs ws"
  "py_eq_items d e \<longleftrightarrow> (\<forall>k v. (k, v) \<in> set d \<longrightarrow> (\<exists>w. map_of e k = Some w \<and> equal_values v w))"
proof (induction v w and vs ws and d e rule: py_eq_py_eq_list_py_eq_items.induct)
  case (3 xs w)
  then show ?case by (cases w) auto
next
  case (4 d w)
  then show ?case by (cases w) auto
next
  case (7 x xs ys)
  then show ?case by (cases ys) auto
next
  case (9 k v d e)
  then show ?case by (cases "map_of e k") auto
qed (simp_all add: equal_values_number split: option.splits)

lemma enum_member_iff: "enum_member m v \<longleftrightarrow> same_value m v"
  by (cases m; cases v) (auto simp: enum_member.simps same_value_def equal_values_iff(1) equal_values_number)

lemma dget_value: "v \<noteq> JNull \<Longrightarrow> dget s k = v \<longleftrightarrow> map_of s k = Some v"
  by (auto simp: dget_def split: option.splits)

lemma lists_under_iff: "lists_under s k vs \<longleftrightarrow> as_list (dget s k) = Some vs"
  by (simp add: lists_under_def dget_value)

lemma lists_none_iff: "lists_none s k \<longleftrightarrow> as_list (dget s k) = None"
proof -
  have "as_list v = None \<longleftrightarrow> (\<forall>vs. v \<noteq> JList vs)" for v by (cases v) auto
  then show ?thesis by (simp add: lists_none_def dget_value)
qed

lemma declares_type_iff: "declares_type s t \<longleftrightarrow> t \<in> set (declared_types s)"
proof -
  have "t \<in> set (strs_of ts) \<longleftrightarrow> JStr t \<in> set ts" for ts
    by (force simp: strs_of_def List.map_filter_def)
  then show ?thesis
    by (auto simp: declares_type_def lists_under_def declared_types_def simp flip: dget_value split: json.splits)
qed

lemma requires_key_iff:
  "requires_key s k \<longleftrightarrow> (\<exists>names. dget s ''required'' = JList names \<and> JStr k \<in> set names)"
  by (simp add: requires_key_def lists_under_def dget_value)

lemma declares_property_iff: "declares_property s k p \<longleftrightarrow> (k, p) \<in> set (properties_of s)"
  unfolding declares_property_def properties_of_def
  by (cases "dget s ''properties''") (auto simp flip: dget_value)

lemma property_key_iff: "(\<exists>p. (k, p) \<in> set ps) \<longleftrightarrow> map_of ps k \<noteq> None"
  by (force simp: map_of_eq_None_iff)

lemma declares_key_iff: "(\<exists>p. declares_property s k p) \<longleftrightarrow> map_of (properties_of s) k \<noteq> None"
  unfolding declares_property_iff by (rule property_key_iff)

lemma closed_schema_iff: "closed_schema s \<longleftrightarrow> dget s ''additionalProperties'' = JBool False"
  by (simp add: closed_schema_def dget_value)

lemma items_iff: "map_of s ''items'' = Some (JDict q) \<longleftrightarrow> dget s ''items'' = JDict q"
  by (simp add: dget_value)

lemma given_key_iff: "k \<in> fst ` set d \<longleftrightarrow> map_of d k \<noteq> None"
  by (simp add: map_of_eq_None_iff)

lemma no_type_iff: "(\<forall>t. \<not> declares_type s t) \<longleftrightarrow> declared_types s = []"
  by (auto simp: declares_type_iff simp flip: ex_in_conv set_empty)

lemma dict_iff: "(\<exists>d. v = JDict d) \<longleftrightarrow> as_dict v \<noteq> None" and list_iff: "(\<exists>xs. v = JList xs) \<longleftrightarrow> as_list v \<noteq> None"
  by (cases v; simp)+

text \<open>The rules of \<open>fits\<close>, read with the functions of the check.\<close>

lemmas schema_iffs = no_type_iff lists_under_iff lists_none_iff items_iff has_json_type_iff enum_member_iff
  declares_type_iff list_iff

subsection \<open>The check is exact\<close>

lemma required_problems_Nil:
  "required_problems s d path = [] \<longleftrightarrow> (\<forall>k. requires_key s k \<longrightarrow> k \<in> fst ` set d)"
  unfolding requires_key_iff given_key_iff by (auto simp: required_problems_def split: json.splits)

lemma one_or_none: "(if b then [x] else []) = [] \<longleftrightarrow> \<not> b"
  by simp

lemma concat_map_Nil: "concat (map f xs) = [] \<longleftrightarrow> (\<forall>x \<in> set xs. f x = [])"
  by auto

lemma closed_problems_Nil:
  "closed_problems s d path = [] \<longleftrightarrow>
     (closed_schema s \<longrightarrow> (\<forall>k \<in> fst ` set d. \<exists>p. declares_property s k p))"
proof (cases "dget s ''additionalProperties'' = JBool False")
  case True
  then have "closed_problems s d path = concat (map (\<lambda>kv. if map_of (properties_of s) (fst kv) = None
      then [path @ ''.'' @ fst kv @ '' was returned, and the schema declares no such property.''] else []) d)"
    by (simp only: closed_problems_def refl if_True)
  then show ?thesis
    unfolding closed_schema_iff by (simp only: True concat_map_Nil one_or_none ball_simps simp_thms declares_key_iff)
next
  case False
  then show ?thesis unfolding closed_schema_iff by (simp only: closed_problems_def if_False simp_thms)
qed

lemma any_of_problems_Nil [simp]: "any_of_problems passed v path = [] \<longleftrightarrow> list_ex (\<lambda>b. b) passed"
  by (simp add: any_of_problems_def)

lemma fits_any_of: "as_list (dget s ''anyOf'') = Some bs \<Longrightarrow> fits s v \<longleftrightarrow> (\<exists>b. JDict b \<in> set bs \<and> fits b v)"
  by (subst fits.simps) (simp add: schema_iffs del: as_list_eq_Some)

lemma fits_enum: "as_list (dget s ''anyOf'') = None \<Longrightarrow> as_list (dget s ''enum'') = Some ms \<Longrightarrow>
    fits s v \<longleftrightarrow> (\<exists>m \<in> set ms. same_value m v)"
  by (subst fits.simps) (simp add: schema_iffs del: as_list_eq_Some, blast)

text \<open>The schemas that are checked by type.\<close>

definition by_type :: "pydict \<Rightarrow> bool" where
  "by_type s = (as_list (dget s ''anyOf'') = None \<and> as_list (dget s ''enum'') = None)"

lemma fits_untyped: "by_type s \<Longrightarrow> declared_types s = [] \<Longrightarrow> fits s v"
  by (rule fits.untyped) (simp_all add: by_type_def schema_iffs del: as_list_eq_Some)

lemma in_set_not_Nil: "x \<in> set xs \<Longrightarrow> xs \<noteq> []"
  by auto

lemma fits_object:
  assumes "by_type s" and o': "''object'' \<in> set (declared_types s)"
  shows "fits s (JDict d) \<longleftrightarrow> required_problems s d path = [] \<and> closed_problems s d path' = []
      \<and> (\<forall>k p w. (k, JDict p) \<in> set (properties_of s) \<longrightarrow> map_of d k = Some w \<longrightarrow> fits p w)"
proof -
  from assms(1) have n: "as_list (dget s ''anyOf'') = None" "as_list (dget s ''enum'') = None"
    by (simp_all add: by_type_def)
  show ?thesis
    unfolding required_problems_Nil closed_problems_Nil
    by (subst fits.simps) (simp add: n o' in_set_not_Nil [OF o'] schema_iffs declares_property_iff
        del: as_list_eq_Some, simp only: conj_ac)
qed

lemma fits_array:
  assumes "by_type s" and a: "''array'' \<in> set (declared_types s)"
  shows "fits s (JList xs) \<longleftrightarrow> (\<forall>items. dget s ''items'' = JDict items \<longrightarrow> (\<forall>x \<in> set xs. fits items x))"
proof -
  from assms(1) have n: "as_list (dget s ''anyOf'') = None" "as_list (dget s ''enum'') = None"
    by (simp_all add: by_type_def)
  show ?thesis by (subst fits.simps) (simp add: n a in_set_not_Nil [OF a] schema_iffs del: as_list_eq_Some)
qed

lemma fits_scalar: "by_type s \<Longrightarrow> declared_types s \<noteq> [] \<Longrightarrow>
    \<not> (''object'' \<in> set (declared_types s) \<and> as_dict v \<noteq> None) \<Longrightarrow>
    \<not> (''array'' \<in> set (declared_types s) \<and> as_list v \<noteq> None) \<Longrightarrow>
    fits s v \<longleftrightarrow> list_ex (\<lambda>t. matches_type t v) (declared_types s)"
  unfolding by_type_def list_ex_iff
  by (subst fits.simps) (cases v; simp add: schema_iffs del: as_list_eq_Some; blast)

lemma object_members_Nil:
  "concat (map (\<lambda>kp. case (as_dict (snd kp), map_of d (fst kp)) of
       (Some p, Some w) \<Rightarrow> f kp p w | _ \<Rightarrow> []) ps) = []
     \<longleftrightarrow> (\<forall>kp p w. kp \<in> set ps \<longrightarrow> as_dict (snd kp) = Some p \<longrightarrow> map_of d (fst kp) = Some w \<longrightarrow> f kp p w = [])"
  unfolding concat_map_Nil by (auto split: option.splits)

lemma ball_enumerate: "(\<forall>ix \<in> set (enumerate n xs). P (snd ix)) \<longleftrightarrow> (\<forall>x \<in> set xs. P x)"
  by (induction xs arbitrary: n) auto

lemma matches_container: "matches_type ''object'' (JDict d)" "matches_type ''array'' (JList xs)"
  by (simp_all add: matches_type_def)

lemma not_fits_mismatch:
  assumes "by_type s" and "declared_types s \<noteq> []" and "\<not> list_ex (\<lambda>t. matches_type t v) (declared_types s)"
  shows "\<not> fits s v"
proof
  assume "fits s v"
  then show False
  proof cases
    case (object d)
    with assms(3) matches_container show False unfolding list_ex_iff declares_type_iff by blast
  next
    case (array xs)
    with assms(3) matches_container show False unfolding list_ex_iff declares_type_iff by blast
  next
    case (scalar t)
    with assms(3) show False unfolding has_json_type_iff declares_type_iff list_ex_iff by blast
  qed (use assms in \<open>simp_all add: by_type_def schema_iffs del: as_list_eq_Some\<close>)
qed

subsubsection \<open>The check, case by case\<close>

lemma check_any_of:
  assumes "as_list (dget s ''anyOf'') = Some bs"
  shows "check_schema s v path = [] \<longleftrightarrow> (\<exists>b. JDict b \<in> set bs \<and> check_schema b v path = [])"
proof -
  have "list_ex (\<lambda>b. b) (map (\<lambda>b. case as_dict b of Some s \<Rightarrow> check_schema s v path = [] | None \<Rightarrow> False) bs)
      \<longleftrightarrow> (\<exists>b. JDict b \<in> set bs \<and> check_schema b v path = [])"
    by (fastforce simp: list_ex_iff split: option.splits)
  then show ?thesis by (subst check_schema.simps) (simp add: assms del: as_list_eq_Some)
qed

lemma check_enum:
  "as_list (dget s ''anyOf'') = None \<Longrightarrow> as_list (dget s ''enum'') = Some ms \<Longrightarrow>
     check_schema s v path = [] \<longleftrightarrow> (\<exists>m \<in> set ms. same_value m v)"
  by (subst check_schema.simps) (simp add: list_ex_iff del: as_list_eq_Some)

lemma check_untyped: "by_type s \<Longrightarrow> declared_types s = [] \<Longrightarrow> check_schema s v path = []"
  by (subst check_schema.simps) (simp add: by_type_def del: as_list_eq_Some)

lemma check_mismatch:
  "by_type s \<Longrightarrow> declared_types s \<noteq> [] \<Longrightarrow> \<not> list_ex (\<lambda>t. matches_type t v) (declared_types s) \<Longrightarrow>
     check_schema s v path \<noteq> []"
  by (subst check_schema.simps) (simp add: by_type_def del: as_list_eq_Some)

lemma check_object:
  assumes "by_type s" and "''object'' \<in> set (declared_types s)"
  shows "check_schema s (JDict d) path = required_problems s d path
      @ concat (map (\<lambda>kp. case (as_dict (snd kp), map_of d (fst kp)) of
            (Some p, Some w) \<Rightarrow> check_schema p w (path @ ''.'' @ fst kp) | _ \<Rightarrow> []) (properties_of s))
      @ closed_problems s d path"
proof -
  have "list_ex (\<lambda>t. matches_type t (JDict d)) (declared_types s)"
    using assms(2) matches_container unfolding list_ex_iff by blast
  then show ?thesis
    using assms in_set_not_Nil [OF assms(2)]
    by (subst check_schema.simps) (simp add: by_type_def Let_def del: as_list_eq_Some)
qed

lemma check_array:
  assumes "by_type s" and "''array'' \<in> set (declared_types s)"
  shows "check_schema s (JList xs) path = (case as_dict (dget s ''items'') of
      Some q \<Rightarrow> concat (map (\<lambda>ix. check_schema q (snd ix) (path @ ''['' @ show_nat (fst ix) @ '']'')) (enumerate 0 xs))
    | None \<Rightarrow> [])"
proof -
  have "list_ex (\<lambda>t. matches_type t (JList xs)) (declared_types s)"
    using assms(2) matches_container unfolding list_ex_iff by blast
  then show ?thesis
    using assms in_set_not_Nil [OF assms(2)]
    by (subst check_schema.simps) (simp add: by_type_def Let_def del: as_list_eq_Some as_dict_eq_Some)
qed

lemma check_scalar:
  assumes "by_type s" and "list_ex (\<lambda>t. matches_type t v) (declared_types s)"
    and "\<not> (''object'' \<in> set (declared_types s) \<and> as_dict v \<noteq> None)"
    and "\<not> (''array'' \<in> set (declared_types s) \<and> as_list v \<noteq> None)"
  shows "check_schema s v path = []"
proof -
  have "declared_types s \<noteq> []" using assms(2) by auto
  moreover have "(if ''object'' \<in> set (declared_types s) then as_dict v else None) = None"
    "(if ''array'' \<in> set (declared_types s) then as_list v else None) = None"
    using assms(3,4) by (cases v; simp)+
  ultimately show ?thesis
    using assms(1,2) by (subst check_schema.simps) (simp add: by_type_def Let_def del: as_list_eq_Some as_dict_eq_Some)
qed

lemma value_cases:
  obtains (obj) d where "v = JDict d" "''object'' \<in> set ts"
  | (arr) xs where "v = JList xs" "''array'' \<in> set ts"
  | (rest) "\<not> (''object'' \<in> set ts \<and> as_dict v \<noteq> None)" "\<not> (''array'' \<in> set ts \<and> as_list v \<noteq> None)"
  by (cases v) auto

text \<open>The branch, property or item a schema hands a value to.\<close>

lemmas schema_shrinks = any_of_shrinks property_shrinks items_shrinks

lemma schema_cases:
  obtains (any) bs where "as_list (dget s ''anyOf'') = Some bs"
  | (enum) ms where "as_list (dget s ''anyOf'') = None" "as_list (dget s ''enum'') = Some ms"
  | (untyped) "by_type s" "declared_types s = []"
  | (mismatch) "by_type s" "declared_types s \<noteq> []" "\<not> list_ex (\<lambda>t. matches_type t v) (declared_types s)"
  | (typed) "by_type s" "declared_types s \<noteq> []" "list_ex (\<lambda>t. matches_type t v) (declared_types s)"
proof (cases "by_type s")
  case True
  then show thesis using untyped mismatch typed by blast
next
  case False
  then consider bs where "as_list (dget s ''anyOf'') = Some bs"
    | ms where "as_list (dget s ''anyOf'') = None" "as_list (dget s ''enum'') = Some ms"
    unfolding by_type_def by (metis option.exhaust)
  then show thesis by cases (fact any, fact enum)
qed

lemma check_exact: "check_schema s v path = [] \<longleftrightarrow> fits s v"
proof (induction "json_size (JDict s)" arbitrary: s v path rule: less_induct)
  case less
  note ih = less.hyps
  show ?case
  proof (cases rule: schema_cases [where s = s and v = v])
    case any
    with ih [OF any_of_shrinks [OF any]] show ?thesis by (auto simp: check_any_of fits_any_of simp del: as_list_eq_Some)
  next
    case enum
    then show ?thesis by (simp add: check_enum fits_enum del: as_list_eq_Some)
  next
    case untyped
    then show ?thesis by (simp add: check_untyped fits_untyped)
  next
    case mismatch
    then show ?thesis by (simp add: check_mismatch not_fits_mismatch)
  next
    case typed
    show ?thesis
    proof (cases rule: value_cases [where v = v and ts = "declared_types s"])
      case (obj d)
      have "(\<forall>kp p w. kp \<in> set (properties_of s) \<longrightarrow> as_dict (snd kp) = Some p \<longrightarrow>
            map_of d (fst kp) = Some w \<longrightarrow> check_schema p w (path @ ''.'' @ fst kp) = [])
          \<longleftrightarrow> (\<forall>k p w. (k, JDict p) \<in> set (properties_of s) \<longrightarrow> map_of d k = Some w \<longrightarrow> fits p w)"
        using ih [OF property_shrinks] by fastforce
      then show ?thesis
        using fits_object [OF typed(1) obj(2), of d path path] obj(1)
        by (simp only: check_object [OF typed(1) obj(2)] append_is_Nil_conv object_members_Nil) blast
    next
      case (arr xs)
      show ?thesis
      proof (cases "as_dict (dget s ''items'')")
        case None
        then show ?thesis using fits_array [OF typed(1) arr(2)] arr(1) by (auto simp: check_array [OF typed(1) arr(2)])
      next
        case (Some q)
        have "check_schema s v path = [] \<longleftrightarrow> (\<forall>ix \<in> set (enumerate 0 xs). fits q (snd ix))"
          using ih [OF items_shrinks [OF Some]] Some
          by (simp only: arr(1) check_array [OF typed(1) arr(2)] option.case concat_map_Nil)
        also have "\<dots> \<longleftrightarrow> fits s v"
          using fits_array [OF typed(1) arr(2), of xs] arr(1) Some by (simp add: ball_enumerate)
        finally show ?thesis .
      qed
    next
      case rest
      then show ?thesis using typed by (simp add: check_scalar fits_scalar)
    qed
  qed
qed

end
