(* ===== verification/Runtime.thy ===== *)
theory Runtime
  imports Modes Attachments Events Structured
begin

section \<open>The runtime\<close>

text \<open>
  \<open>runtime.py\<close>: a turn from its prompt to its response. A turn runs in a \<open>world\<close>: the live session and its
  stores, the ledger of the run tree, and whatever the host adds. The client, the tools, the policies and
  the listeners are functions of the host on that world. \<open>loop_step\<close> is one round of the \<open>while True\<close> of
  \<open>_loop\<close>; \<open>agent_loop\<close> repeats it and is \<open>None\<close> where it would not end. \<open>resolve_approvals\<close>,
  \<open>invoke\<close>, \<open>turn\<close>, \<open>send\<close>, \<open>send_structured\<close> and \<open>record_approval\<close> are the methods of these names.
\<close>

record 's world = "'s live" +
  wd_ledger :: run_ledger

definition get_ledger :: "(('s, 'z) world_scheme, run_ledger) py" where
  "get_ledger w = (Inr (wd_ledger w), w)"

definition map_ledger :: "(run_ledger \<Rightarrow> run_ledger) \<Rightarrow> (('s, 'z) world_scheme, unit) py" where
  "map_ledger f w = (Inr (), w\<lparr>wd_ledger := f (wd_ledger w)\<rparr>)"

subsection \<open>Requests and responses\<close>

record llm_tool_call =
  lc_id :: string
  lc_name :: string
  lc_arguments :: pydict
  lc_result_id :: "string option"
  lc_reasoning_id :: "string option"
  lc_reasoning_summary :: "json list option"

definition call_input :: "llm_tool_call \<Rightarrow> tool_call_input" where
  "call_input c =
     \<lparr> tc_id = lc_id c, tc_name = lc_name c, tc_arguments = lc_arguments c, tc_result_id = lc_result_id c,
       tc_reasoning_id = lc_reasoning_id c, tc_reasoning_summary = lc_reasoning_summary c \<rparr>"

record 'w llm_request =
  lq_system_prompt :: string
  lq_messages :: "pydict list"
  lq_tools :: "'w tool list"
  lq_provider :: string
  lq_model :: string
  lq_provider_options :: pydict
  lq_schema :: "pydict option"
  lq_max_output_tokens :: "int option"

record llm_response =
  lp_text :: string
  lp_finish_reason :: string
  lp_tool_calls :: "llm_tool_call list"
  lp_cost_usd :: "pyfloat option"
  lp_additional_content :: pydict
  lp_structured :: json

type_synonym 'w llm_client = "'w llm_request \<Rightarrow> ('w, llm_response) py"

record pending_approval =
  pa_id :: string
  pa_tool :: string
  pa_arguments :: pydict
  pa_tool_call_id :: string

text \<open>\<open>ar_structured\<close> is set exactly in a \<open>StructuredAgentResponse\<close>.\<close>

record agent_response =
  ar_run_id :: string
  ar_text :: string
  ar_steps :: int
  ar_tool_calls :: "string list"
  ar_finish_reason :: string
  ar_pending_approvals :: "pending_approval list"
  ar_stopped_because :: "string option"
  ar_structured :: "json option"

record ('s, 'w) runtime =
  ru_client :: "'w llm_client"
  ru_modes :: mode_registries
  ru_tools :: "('s, 'w) registries"
  ru_authorizer :: "('s, 'w) authorizer option"
  ru_listeners :: "'w listeners"
  ru_config :: pydict
  ru_agents :: "(string \<times> pydict) list"
  ru_narrow :: bool

subsection \<open>Configuration\<close>

definition name_setting_ok :: "json \<Rightarrow> bool" where
  "name_setting_ok v = (v = JNull \<or> (case v of JStr s \<Rightarrow> s \<noteq> [] | _ \<Rightarrow> False))"

definition ceiling_setting_ok :: "json \<Rightarrow> bool" where
  "ceiling_setting_ok v = (v = JNull \<or> (case v of JInt i \<Rightarrow> 1 \<le> i | _ \<Rightarrow> False))"

definition lock_setting_ok :: "int \<Rightarrow> json option \<Rightarrow> bool" where
  "lock_setting_ok least v = (case v of None \<Rightarrow> True | Some (JInt i) \<Rightarrow> least \<le> i | Some _ \<Rightarrow> False)"

definition validate_runtime_config :: "pydict \<Rightarrow> unit pyres" where
  "validate_runtime_config config =
     (if \<not> name_setting_ok (dget config ''provider'') \<or> \<not> name_setting_ok (dget config ''model'')
      then Inl (ValueErr ''Agent provider/model defaults must be nonempty strings or null.'')
      else if \<not> ceiling_setting_ok (dget config ''max_steps_ceiling'')
           \<or> \<not> ceiling_setting_ok (dget config ''max_output_tokens_per_call'')
      then Inl (ValueErr ''Agent step/output ceilings must be positive integers or null.'')
      else if \<not> lock_setting_ok 1 (map_of config ''lock_ttl'') \<or> \<not> lock_setting_ok 0 (map_of config ''lock_wait'')
      then Inl (ValueErr ''Agent lock settings must be whole seconds with positive TTL and nonnegative wait.'')
      else Inr ())"

text \<open>The two switches for tool lists: narrowing is on unless widening is explicitly allowed.\<close>

definition narrow_setting :: "json \<Rightarrow> json \<Rightarrow> bool pyres" where
  "narrow_setting narrow widen =
     (case narrow of
        JNull \<Rightarrow> (case widen of JBool l \<Rightarrow> Inr (\<not> l)
                | _ \<Rightarrow> Inl (TypeErr ''allow_legacy_tool_list_widening must be a boolean''))
      | JBool n \<Rightarrow>
          (case widen of
             JBool l \<Rightarrow>
               if \<not> n
               then Inl (ValueErr (''narrow_requested_tools=False is no longer supported. Remove it; use ''
                 @ ''allow_legacy_tool_list_widening=True only to explicitly permit legacy tool-list widening.''))
               else if l
               then Inl (ValueErr ''narrow_requested_tools=True conflicts with allow_legacy_tool_list_widening=True.'')
               else Inr True
           | _ \<Rightarrow> Inl (TypeErr ''allow_legacy_tool_list_widening must be a boolean''))
      | _ \<Rightarrow> Inl (TypeErr ''narrow_requested_tools must be a boolean''))"

definition runtime_new ::
  "'w llm_client \<Rightarrow> mode_registries \<Rightarrow> ('s, 'w) registries \<Rightarrow> ('s, 'w) authorizer option \<Rightarrow> 'w listeners
     \<Rightarrow> pydict \<Rightarrow> (string \<times> pydict) list \<Rightarrow> json \<Rightarrow> json \<Rightarrow> ('s, 'w) runtime pyres" where
  "runtime_new client modes tools authorizer listeners config agents narrow widen =
     res_bind (narrow_setting narrow widen) (\<lambda>n.
     res_bind (validate_runtime_config config) (\<lambda>_.
     res_bind (res_map (\<lambda>(a, options). res_bind (validate_agent (Some a)) (\<lambda>_. validate_runtime_config options)) agents)
       (\<lambda>_. Inr
       \<lparr> ru_client = client, ru_modes = modes, ru_tools = tools, ru_authorizer = authorizer,
         ru_listeners = listeners, ru_config = config, ru_agents = agents, ru_narrow = n \<rparr>)))"

text \<open>\<open>_settings\<close>: the configuration with the agent's options over it.\<close>

definition settings :: "('s, 'w) runtime \<Rightarrow> 's session \<Rightarrow> pydict" where
  "settings ru se =
     foldl (\<lambda>d (k, v). dput k v d) (ru_config ru)
       (case se_agent se of
          None \<Rightarrow> []
        | Some a \<Rightarrow> (case map_of (ru_agents ru) a of None \<Rightarrow> [] | Some options \<Rightarrow> options))"

definition bounded_run :: "('s, 'w) runtime \<Rightarrow> 's session \<Rightarrow> run_context \<Rightarrow> run_ledger \<Rightarrow> run_context pyres" where
  "bounded_run ru se ctx L =
     (let options = settings ru se; b = rc_budget ctx;
          steps = as_int (dget options ''max_steps_ceiling'');
          output = as_int (dget options ''max_output_tokens_per_call'')
      in if steps = None \<and> output = None then Inr ctx
         else res_bind (run_budget_new
                (case steps of None \<Rightarrow> rb_max_steps b | Some s \<Rightarrow> min (rb_max_steps b) (rl_steps L + s))
                (rb_max_cost_usd b) (rb_max_seconds b)
                (case output of
                   None \<Rightarrow> rb_max_output b
                 | Some o' \<Rightarrow> Some (min (case rb_max_output b of None \<Rightarrow> o' | Some n \<Rightarrow> if n = 0 then o' else n) o')))
              (\<lambda>nb. Inr (ctx\<lparr>rc_budget := nb\<rparr>)))"

subsection \<open>The tools of a run\<close>

text \<open>\<open>_narrowed_tools\<close>: a list may only narrow what the mode offers.\<close>

definition narrowed_tools :: "string list \<Rightarrow> string list option \<Rightarrow> string list pyres" where
  "narrowed_tools cap requested =
     (case requested of
        None \<Rightarrow> Inr cap
      | Some names \<Rightarrow>
          if ''*'' \<in> set names then Inr cap
          else if ''*'' \<in> set cap then Inr names
          else (case find (\<lambda>n. n \<notin> set cap) names of
                  Some n \<Rightarrow> Inl (tool_not_available n cap)
                | None \<Rightarrow> Inr names))"

text \<open>\<open>requested or mode.tools\<close>\<close>

definition requested_or :: "string list option \<Rightarrow> string list \<Rightarrow> string list" where
  "requested_or requested cap =
     (case requested of None \<Rightarrow> cap | Some names \<Rightarrow> if names = [] then cap else names)"

text \<open>A task may be completed under a named agent only where a call policy is asked.\<close>

definition completion_guard ::
  "('s, 'w) runtime \<Rightarrow> string option \<Rightarrow> (string \<times> 'w tool) list \<Rightarrow> unit pyres" where
  "completion_guard ru agent tools =
     (let refused = Inl (harness_err UNSAFE_AUTHORIZATION_CONFIGURATION
            ''Named task completion requires enabled authorization and an explicit call policy.'')
      in if agent = None \<or> map_of tools completion_tool_name = None then Inr ()
         else case ru_authorizer ru of
                None \<Rightarrow> refused
              | Some A \<Rightarrow> res_bind (authorizer_for agent A) (\<lambda>A'.
                  if \<not> au_enabled A' \<or> au_call A' = None then refused else Inr ()))"

definition allowed_for ::
  "('s, 'w) runtime \<Rightarrow> 's session \<Rightarrow> 's session \<Rightarrow> (string \<times> 'w tool) list \<Rightarrow> ('w, 'w tool list) py" where
  "allowed_for ru se caller tools =
     (case ru_authorizer ru of None \<Rightarrow> act_return (map snd tools) | Some A \<Rightarrow> allowed_tools A se caller tools)"

text \<open>The rows of \<open>effective_tools\<close>: name, owner and source of each tool offered.\<close>

definition ownership_rows ::
  "(string \<times> 'w resolved_tool) list \<Rightarrow> 'w tool list \<Rightarrow> (string \<times> string \<times> string) list" where
  "ownership_rows detailed offered =
     map (\<lambda>t. case find (\<lambda>r. tl_name (rt_tool r) = tl_name t) (rev (map snd detailed)) of
             None \<Rightarrow> (tl_name t, [], [])
           | Some r \<Rightarrow> (tl_name t, rt_owner r, rt_source r)) offered"

definition offer ::
  "('s, ('s, 'z) world_scheme) runtime \<Rightarrow> 's session \<Rightarrow> agent_mode \<Rightarrow> string list option
     \<Rightarrow> (('s, 'z) world_scheme, ('s, 'z) world_scheme tool list \<times> (string \<times> string \<times> string) list) py" where
  "offer ru se mode requested =
     resolve_read_only se (am_name mode) (\<lambda>view.
       act_bind (act_lift (if se_agent se \<noteq> None \<or> ru_narrow ru then narrowed_tools (am_tools mode) requested
                           else Inr (requested_or requested (am_tools mode)))) (\<lambda>names.
       act_bind (resolve_detailed (ru_tools ru) None names (Some view)) (\<lambda>detailed.
         let tools = map (\<lambda>(n, r). (n, rt_tool r)) detailed
         in act_bind (act_lift (completion_guard ru (se_agent view) tools)) (\<lambda>_.
            act_bind (allowed_for ru view (writable_view view) tools) (\<lambda>offered.
              act_return (offered, ownership_rows detailed offered))))))"

definition effective_tools ::
  "env \<Rightarrow> ('s, ('s, 'z) world_scheme) runtime \<Rightarrow> 's session \<Rightarrow> string option
     \<Rightarrow> (('s, 'z) world_scheme, (string \<times> string \<times> string) list) py" where
  "effective_tools E ru se mode_name =
     act_bind (act_lift (modes_for (se_agent se) (ru_modes ru))) (\<lambda>M.
     act_bind (case mode_name of Some m \<Rightarrow> act_return (Some m) | None \<Rightarrow> session_mode E se) (\<lambda>name.
     act_bind (act_lift (resolve_mode M name)) (\<lambda>mode.
     act_bind (offer ru se mode None) (\<lambda>(_, rows). act_return rows))))"

subsection \<open>Calling a tool\<close>

definition result_text :: "json \<Rightarrow> string" where
  "result_text v = (case v of JStr s \<Rightarrow> s | _ \<Rightarrow> json_dumps_default v)"

definition tool_failed :: "tool_call_input \<Rightarrow> exn \<Rightarrow> pydict" where
  "tool_failed c e = tool_result_entry c (''The tool failed: '' @ exn_str e)"

definition invoke :: "'w tool list \<Rightarrow> tool_call_input \<Rightarrow> ('w, pydict) py" where
  "invoke offered c =
     (case find (\<lambda>t. tl_name t = tc_name c) offered of
        None \<Rightarrow> act_raise (tool_not_available (tc_name c) (map tl_name offered))
      | Some t \<Rightarrow>
          act_catch (act_bind (tl_handle t (tc_arguments c)) (\<lambda>v. act_return (tool_result_entry c (result_text v))))
            (\<lambda>e. if is_code e CALL_NOT_AUTHORIZED then act_raise e else act_return (tool_failed c e)))"

definition run_approved :: "'w tool list \<Rightarrow> tool_call_input \<Rightarrow> ('w, pydict) py" where
  "run_approved offered c =
     (if tc_name c \<notin> tl_name ` set offered
      then act_return (tool_result_entry c (''Not run: '' @ tc_name c @ '' is not available to this run.''))
      else act_catch (invoke offered c)
             (\<lambda>e. if is_code e CALL_NOT_AUTHORIZED
                  then act_return (tool_result_entry c (''Not run: this call to '' @ tc_name c @ '' is not authorized.''))
                  else act_raise e))"

fun invoke_all :: "'w tool list \<Rightarrow> tool_call_input list \<Rightarrow> ('w, pydict list) py" where
  "invoke_all offered [] = act_return []"
| "invoke_all offered (c # cs) =
     act_bind (invoke offered c) (\<lambda>r. act_bind (invoke_all offered cs) (\<lambda>rs. act_return (r # rs)))"

end
