(* ===== verification/RuntimeLoop.thy ===== *)
theory RuntimeLoop
  imports Runtime
begin

section \<open>Turns\<close>

text \<open>
  The rest of \<open>runtime.py\<close>: what a turn does with the thread. A \<open>thread_handle\<close> is the store and key of
  \<open>session.thread()\<close>. \<open>run_spec\<close> gathers the arguments \<open>_turn\<close> passes to \<open>_loop\<close> and that stay the same
  through its rounds.
\<close>

type_synonym 's thread_handle = "'s session_store \<times> string"

definition thread_rows :: "'s thread_handle \<Rightarrow> (('s, 'z) live_scheme, pydict list) py" where
  "thread_rows th =
     act_bind (on_store (thread_messages (fst th) (snd th))) (\<lambda>ms. act_return (map tm_message ms))"

definition write_rows :: "env \<Rightarrow> 's thread_handle \<Rightarrow> pydict list \<Rightarrow> string option \<Rightarrow> (('s, 'z) live_scheme, unit) py" where
  "write_rows E th rows run_id =
     act_bind (read_env (ev_now E)) (\<lambda>now.
     act_bind (on_store (thread_record (fst th) (snd th) rows run_id now)) (\<lambda>_. act_return ()))"

text \<open>\<open>str(uuid4())\<close>, from the 32 hexadecimal digits.\<close>

definition uuid_text :: "string \<Rightarrow> string" where
  "uuid_text h = take 8 h @ ''-'' @ take 4 (drop 8 h) @ ''-'' @ take 4 (drop 12 h) @ ''-'' @ take 4 (drop 16 h)
     @ ''-'' @ drop 20 h"

definition emit_event :: "('s, 'w) runtime \<Rightarrow> event \<Rightarrow> ('w, unit) py" where
  "emit_event ru ev = act_bind (emit ev (ru_listeners ru)) (\<lambda>_. act_return ())"

record ('s, 'w) run_spec =
  rs_session :: "'s session"
  rs_thread :: "'s thread_handle"
  rs_mode :: agent_mode
  rs_context :: run_context
  rs_run_id :: string
  rs_provider :: string
  rs_model :: string
  rs_offered :: "'w tool list"
  rs_schema :: "pydict option"

subsection \<open>Approvals\<close>

text \<open>\<open>{key(x): x for x in xs}\<close>\<close>

definition dict_by :: "string \<Rightarrow> pydict list \<Rightarrow> (json \<times> pydict) list" where
  "dict_by k xs = fold (\<lambda>x acc. AList.update (dget x k) x acc) xs []"

record unresolved_work =
  uw_calls :: "pydict list"
  uw_results :: "(json \<times> pydict) list"
  uw_decisions :: "(json \<times> pydict) list"
  uw_approval_ids :: "(json \<times> json) list"
  uw_scope :: "(string list \<times> bool) option"

definition calling_turn :: "pydict \<Rightarrow> bool" where
  "calling_turn row = (is_type ''assistant'' row \<and> truthy (dget row ''tool_calls''))"

text \<open>The last tool-calling turn of a view and the rows after it.\<close>

fun last_calling :: "pydict list \<Rightarrow> (pydict \<times> pydict list) option" where
  "last_calling [] = None"
| "last_calling (row # rows) =
     (case last_calling rows of
        Some r \<Rightarrow> Some r
      | None \<Rightarrow> if calling_turn row then Some (row, rows) else None)"

text \<open>\<open>_unresolved\<close> of the stored rows: the gated calls of the last tool-calling turn that have no result.\<close>

definition unresolved_of :: "agent_mode \<Rightarrow> pydict list \<Rightarrow> unresolved_work option pyres" where
  "unresolved_of mode rows =
     res_bind (thread_view rows) (\<lambda>view.
       case last_calling view of
         None \<Rightarrow> Inr None
       | Some (assistant, rest) \<Rightarrow>
           (let answered = (case find (is_type ''tool_result'') rest of None \<Rightarrow> [] | Some r \<Rightarrow> r);
                results = dict_by ''tool_call_id'' (dicts_in (dget answered ''tool_results''));
                decisions = dict_by ''approval_id'' (dicts_in (dget answered ''tool_approval_responses''));
                approval_ids = map (\<lambda>(k, r). (k, dget r ''approval_id''))
                  (dict_by ''tool_call_id'' (dicts_in (dget assistant ''tool_approval_requests'')));
                calls = filter (\<lambda>c. map_of results (dget c ''id'') = None
                     \<and> (map_of approval_ids (dget c ''id'') \<noteq> None \<or> needs_approval mode (str_of (dget c ''name''))))
                  (dicts_in (dget assistant ''tool_calls''))
            in if calls = [] then Inr None
               else res_bind (approval_tool_scope rows) (\<lambda>scope. Inr (Some
                 \<lparr> uw_calls = calls, uw_results = results, uw_decisions = decisions,
                   uw_approval_ids = approval_ids, uw_scope = scope \<rparr>))))"

definition unresolved ::
  "env \<Rightarrow> 's session \<Rightarrow> agent_mode \<Rightarrow> (('s, 'z) live_scheme, unresolved_work option) py" where
  "unresolved E se mode =
     act_bind (act_lift (session_thread E se)) (\<lambda>th.
     act_bind (thread_rows th) (\<lambda>rows. act_lift (unresolved_of mode rows)))"

text \<open>The call as \<open>resolve\<close> rebuilds it from its row.\<close>

definition stored_call :: "pydict \<Rightarrow> tool_call_input" where
  "stored_call row =
     \<lparr> tc_id = str_of (dget row ''id''), tc_name = str_of (dget row ''name''),
       tc_arguments = dict_or_empty (dget row ''arguments''), tc_result_id = as_str (dget row ''result_id''),
       tc_reasoning_id = None, tc_reasoning_summary = None \<rparr>"

definition decision_for :: "unresolved_work \<Rightarrow> pydict \<Rightarrow> pydict option" where
  "decision_for work row =
     (case map_of (uw_approval_ids work) (dget row ''id'') of
        None \<Rightarrow> None | Some a \<Rightarrow> if a = JNull then None else map_of (uw_decisions work) a)"

definition is_approved :: "pydict \<Rightarrow> bool" where
  "is_approved d = truthy (dget d ''approved'')"

definition denial_text :: "pydict \<Rightarrow> string" where
  "denial_text d =
     (case dget d ''reason'' of JStr s \<Rightarrow> if s = [] then ''User denied tool execution'' else s
      | _ \<Rightarrow> ''User denied tool execution'')"

text \<open>The loop of \<open>resolve\<close>: the entries to record and the names that ran, in order.\<close>

fun resolve_calls ::
  "'w tool list \<Rightarrow> unresolved_work \<Rightarrow> pydict list \<Rightarrow> ('w, pydict list \<times> string list) py" where
  "resolve_calls bounded work [] = act_return ([], [])"
| "resolve_calls bounded work (row # rows) =
     (let c = stored_call row; d = decision_for work row
      in act_bind
           (case d of
              Some x \<Rightarrow>
                if is_approved x then act_bind (run_approved bounded c) (\<lambda>r. act_return (r, [tc_name c]))
                else act_return (tool_result_entry c (denial_text x), [])
            | None \<Rightarrow> act_return (tool_result_entry c ''No approval response provided'', [])) (\<lambda>(entry, ran).
         act_bind (resolve_calls bounded work rows) (\<lambda>(entries, more). act_return (entry # entries, ran @ more))))"

definition scope_names :: "(string list \<times> bool) option \<Rightarrow> string list" where
  "scope_names scope = (case scope of None \<Rightarrow> [] | Some (names, _) \<Rightarrow> names)"

text \<open>The callback under the session lock.\<close>

definition resolve_work ::
  "env \<Rightarrow> 's session \<Rightarrow> agent_mode \<Rightarrow> string \<Rightarrow> ('s, 'z) world_scheme tool list
     \<Rightarrow> (('s, 'z) world_scheme, ('s, 'z) world_scheme tool list \<times> string list) py" where
  "resolve_work E se mode run_id offered =
     act_bind (unresolved E se mode) (\<lambda>work.
       case work of
         None \<Rightarrow> act_return (offered, [])
       | Some work \<Rightarrow>
           (let bounded = filter (\<lambda>t. tl_name t \<in> set (scope_names (uw_scope work))) offered
            in act_bind (resolve_calls bounded work (uw_calls work)) (\<lambda>(entries, ran).
               act_bind (act_lift (session_thread E se)) (\<lambda>th.
               act_bind (write_rows E th
                  [tool_result_row (map snd (uw_results work) @ entries) (map snd (uw_decisions work))] (Some run_id)) (\<lambda>_.
                 act_return (bounded, ran))))))"

definition RESOLUTION_LOCK_SECONDS :: json where "RESOLUTION_LOCK_SECONDS = JInt 300"
definition RESOLUTION_WAIT_SECONDS :: json where "RESOLUTION_WAIT_SECONDS = JInt 30"

definition resolve_approvals ::
  "env \<Rightarrow> ('s, ('s, 'z) world_scheme) runtime \<Rightarrow> 's session \<Rightarrow> agent_mode \<Rightarrow> string
     \<Rightarrow> ('s, 'z) world_scheme tool list
     \<Rightarrow> (('s, 'z) world_scheme, ('s, 'z) world_scheme tool list \<times> string list) py" where
  "resolve_approvals E ru se mode run_id offered =
     act_bind (unresolved E se mode) (\<lambda>work.
       if work = None then act_return (offered, [])
       else session_lock E se (resolve_work E se mode run_id offered)
              (dget_or (settings ru se) ''lock_ttl'' RESOLUTION_LOCK_SECONDS)
              (dget_or (settings ru se) ''lock_wait'' RESOLUTION_WAIT_SECONDS))"

definition record_approval ::
  "env \<Rightarrow> 's session \<Rightarrow> string \<Rightarrow> bool \<Rightarrow> string option \<Rightarrow> (('s, 'z) live_scheme, unit) py" where
  "record_approval E se approval_id approved reason =
     act_bind (session_run E se) (\<lambda>run.
     act_bind (act_lift (session_thread E se)) (\<lambda>th.
       write_rows E th [tool_result_row [] [decision_row approval_id approved reason]]
         (case run of None \<Rightarrow> None | Some r \<Rightarrow> as_str (dget r ''id''))))"

subsection \<open>The loop\<close>

definition finish ::
  "env \<Rightarrow> ('s, ('s, 'z) world_scheme) runtime \<Rightarrow> ('s, ('s, 'z) world_scheme) run_spec \<Rightarrow> string list \<Rightarrow> string
     \<Rightarrow> string \<Rightarrow> string option \<Rightarrow> (('s, 'z) world_scheme, agent_response) py" where
  "finish E ru rs called finish_reason text stopped_because =
     act_bind (complete_run E (rs_session rs) (rs_run_id rs) finish_reason called) (\<lambda>_.
     act_bind (act_lift (current_key E (rs_session rs))) (\<lambda>key.
     act_bind get_ledger (\<lambda>L.
     act_bind (read_env (ev_now E)) (\<lambda>now.
     act_bind (emit_event ru (RunFinished (rs_run_id rs) key finish_reason called (rl_steps L)
        (if 0 < rl_unmetered_runs L then None else Some (rl_cost_usd L)) now)) (\<lambda>_.
     act_bind get_ledger (\<lambda>L. act_return
       \<lparr> ar_run_id = rs_run_id rs, ar_text = text, ar_steps = rl_steps L, ar_tool_calls = called,
         ar_finish_reason = finish_reason, ar_pending_approvals = [], ar_stopped_because = stopped_because,
         ar_structured = None \<rparr>))))))"

definition assert_document :: "pydict \<Rightarrow> llm_response \<Rightarrow> unit pyres" where
  "assert_document schema response =
     (if lp_structured response = JNull then Inl (structured_unreadable (lp_text response))
      else (let problems = schema_problems schema (lp_structured response) (schema_name schema)
            in if problems \<noteq> [] then Inl (structured_schema_violation (lp_text response) problems) else Inr ()))"

fun new_requests :: "env \<Rightarrow> tool_call_input list \<Rightarrow> (('s, 'z) live_scheme, (tool_call_input \<times> string) list) py" where
  "new_requests E [] = act_return []"
| "new_requests E (c # cs) =
     act_bind (read_env (ev_uuid E)) (\<lambda>u.
     act_bind (new_requests E cs) (\<lambda>rest. act_return ((c, ''apr_'' @ u) # rest)))"

definition failed_finish :: "string \<Rightarrow> bool" where
  "failed_finish r = (r = ''error'' \<or> r = ''unknown'')"

definition request_of :: "('s, 'w) run_spec \<Rightarrow> pydict list \<Rightarrow> 'w llm_request" where
  "request_of rs messages =
     \<lparr> lq_system_prompt = am_system_prompt (rs_mode rs), lq_messages = messages, lq_tools = rs_offered rs,
       lq_provider = rs_provider rs, lq_model = rs_model rs,
       lq_provider_options = am_provider_options (rs_mode rs), lq_schema = rs_schema rs,
       lq_max_output_tokens = rb_max_output (rc_budget (rs_context rs)) \<rparr>"

text \<open>The row of an answer: its calls, its provider state with the document of a structured answer, the
  requests it waits for and, with them, the names of the tools that were offered.\<close>

definition answer_row ::
  "('s, 'w) run_spec \<Rightarrow> llm_response \<Rightarrow> tool_call_input list \<Rightarrow> (tool_call_input \<times> string) list \<Rightarrow> pydict" where
  "answer_row rs response calls requests =
     (let metadata = (if rs_schema rs \<noteq> None \<and> calls = []
            then dput ''structured'' (lp_structured response) (lp_additional_content response)
            else lp_additional_content response);
          row = assistant_row (lp_text response) calls metadata
            (map (\<lambda>(c, a). request_row a (tc_id c)) requests)
      in if requests = [] then row
         else dput ''harness_tool_names'' (JList (map (JStr \<circ> tl_name) (rs_offered rs))) row)"

text \<open>How a round ends: with the response, or with what the next round starts from.\<close>

datatype round_end = Done agent_response | Again string "string list"

text \<open>The end of a round whose answer calls no tool.\<close>

definition answer_end ::
  "env \<Rightarrow> ('s, ('s, 'z) world_scheme) runtime \<Rightarrow> ('s, ('s, 'z) world_scheme) run_spec \<Rightarrow> string list
     \<Rightarrow> llm_response \<Rightarrow> (('s, 'z) world_scheme, round_end) py" where
  "answer_end E ru rs called response =
     act_bind (case rs_schema rs of
                 None \<Rightarrow> act_return () | Some schema \<Rightarrow> act_lift (assert_document schema response)) (\<lambda>_.
     act_bind (finish E ru rs called (lp_finish_reason response) (lp_text response) None) (\<lambda>finished.
       act_return (Done (if rs_schema rs = None then finished
         else finished\<lparr>ar_structured := Some (lp_structured response)\<rparr>))))"

definition pending_of :: "tool_call_input \<times> string \<Rightarrow> pending_approval" where
  "pending_of r =
     \<lparr> pa_id = snd r, pa_tool = tc_name (fst r), pa_arguments = tc_arguments (fst r),
       pa_tool_call_id = tc_id (fst r) \<rparr>"

text \<open>The end of a round whose answer calls tools: those that need nobody run, then the run stops for a
  person if any call needs one.\<close>

definition calls_end ::
  "env \<Rightarrow> ('s, ('s, 'z) world_scheme) run_spec \<Rightarrow> string list \<Rightarrow> llm_response \<Rightarrow> tool_call_input list
     \<Rightarrow> tool_call_input list \<Rightarrow> (tool_call_input \<times> string) list \<Rightarrow> (('s, 'z) world_scheme, round_end) py" where
  "calls_end E rs called response calls gated requests =
     (let free = filter (\<lambda>c. c \<notin> set gated) calls; called = called @ map tc_name free
      in act_bind (invoke_all (rs_offered rs) free) (\<lambda>results.
         act_bind (if results = [] then act_return ()
                   else write_rows E (rs_thread rs) [tool_result_row results []] (Some (rs_run_id rs))) (\<lambda>_.
         act_bind get_ledger (\<lambda>L. act_return
           (if requests = [] then Again (lp_text response) called
            else Done \<lparr> ar_run_id = rs_run_id rs, ar_text = lp_text response, ar_steps = rl_steps L,
              ar_tool_calls = called, ar_finish_reason = ''awaiting_approval'',
              ar_pending_approvals = map pending_of requests,
              ar_stopped_because = None, ar_structured = None \<rparr>)))))"

text \<open>What a round does with the response: it is charged, recorded, and then acted on.\<close>

definition take_response ::
  "env \<Rightarrow> ('s, ('s, 'z) world_scheme) runtime \<Rightarrow> ('s, ('s, 'z) world_scheme) run_spec \<Rightarrow> string list
     \<Rightarrow> llm_response \<Rightarrow> (('s, 'z) world_scheme, round_end) py" where
  "take_response E ru rs called response =
     (let calls = map call_input (lp_tool_calls response);
          failed = failed_finish (lp_finish_reason response);
          gated = (if failed then [] else filter (\<lambda>c. needs_approval (rs_mode rs) (tc_name c)) calls)
      in act_bind (map_ledger (\<lambda>L. record_cost (lp_cost_usd response) (record_steps 1 L))) (\<lambda>_.
         act_bind (new_requests E gated) (\<lambda>requests.
         act_bind (write_rows E (rs_thread rs) [answer_row rs response calls requests] (Some (rs_run_id rs))) (\<lambda>_.
           if failed
           then act_bind (if calls = [] then act_return ()
                  else write_rows E (rs_thread rs) [tool_result_row (map (\<lambda>c. tool_result_entry c
                         (''Not run: model step failed ('' @ lp_finish_reason response @ '').'')) calls) []]
                       (Some (rs_run_id rs))) (\<lambda>_.
                act_raise (model_step_failed (if lp_finish_reason response = ''error'' then ''error'' else ''unknown'')))
           else if calls = [] then answer_end E ru rs called response
           else calls_end E rs called response calls gated requests))))"

text \<open>One round: the budget is asked before the client is.\<close>

definition loop_step ::
  "env \<Rightarrow> ('s, ('s, 'z) world_scheme) runtime \<Rightarrow> ('s, ('s, 'z) world_scheme) run_spec \<Rightarrow> string \<Rightarrow> string list
     \<Rightarrow> (('s, 'z) world_scheme, round_end) py" where
  "loop_step E ru rs text called =
     act_bind (read_env (ev_monotonic E)) (\<lambda>m.
     act_bind get_ledger (\<lambda>L.
       case exhaustion L (rc_budget (rs_context rs)) m of
         Some exhausted \<Rightarrow>
           act_bind (finish E ru rs called ''budget_exhausted'' text (Some exhausted)) (\<lambda>r. act_return (Done r))
       | None \<Rightarrow>
           act_bind (thread_rows (rs_thread rs)) (\<lambda>rows.
           act_bind (act_lift (thread_view rows)) (\<lambda>messages.
           act_bind (ru_client ru (request_of rs messages)) (\<lambda>response.
             take_response E ru rs called response)))))"

partial_function (option) agent_loop ::
  "env \<Rightarrow> ('s, ('s, 'z) world_scheme) runtime \<Rightarrow> ('s, ('s, 'z) world_scheme) run_spec \<Rightarrow> string \<Rightarrow> string list
     \<Rightarrow> ('s, 'z) world_scheme \<Rightarrow> (agent_response pyres \<times> ('s, 'z) world_scheme) option" where
  "agent_loop E ru rs text called w =
     (case loop_step E ru rs text called w of
        (Inl e, t) \<Rightarrow> Some (Inl e, t)
      | (Inr r, t) \<Rightarrow>
          (case r of Done response \<Rightarrow> Some (Inr response, t) | Again text' called' \<Rightarrow> agent_loop E ru rs text' called' t))"

end
