(* ===== verification/RuntimeTurn.thy ===== *)
theory RuntimeTurn
  imports RuntimeLoop
begin

section \<open>A whole turn\<close>

text \<open>
  \<open>_turn\<close>, \<open>send\<close> and \<open>send_structured\<close> of \<open>runtime.py\<close>. A turn without a context starts a ledger of its own;
  the ledger of a caller is put back when it ends. \<open>then_run\<close> sequences an effect and what may not end.
\<close>

definition then_run ::
  "('w, 'a) py \<Rightarrow> ('a \<Rightarrow> 'w \<Rightarrow> ('b pyres \<times> 'w) option) \<Rightarrow> 'w \<Rightarrow> ('b pyres \<times> 'w) option" where
  "then_run m f w = (case m w of (Inl e, t) \<Rightarrow> Some (Inl e, t) | (Inr x, t) \<Rightarrow> f x t)"

definition on_error ::
  "('w \<Rightarrow> ('b pyres \<times> 'w) option) \<Rightarrow> (exn \<Rightarrow> ('w, 'b) py) \<Rightarrow> 'w \<Rightarrow> ('b pyres \<times> 'w) option" where
  "on_error m handler w =
     (case m w of
        None \<Rightarrow> None
      | Some (Inl e, t) \<Rightarrow> Some (handler e t)
      | Some (Inr x, t) \<Rightarrow> Some (Inr x, t))"

definition nonempty_or :: "string option \<Rightarrow> json \<Rightarrow> string" where
  "nonempty_or own configured =
     (case own of
        Some s \<Rightarrow> if s \<noteq> [] then s else (case configured of JStr c \<Rightarrow> if c \<noteq> [] then c else ''unknown'' | _ \<Rightarrow> ''unknown'')
      | None \<Rightarrow> (case configured of JStr c \<Rightarrow> if c \<noteq> [] then c else ''unknown'' | _ \<Rightarrow> ''unknown''))"

definition nesting_error :: "run_context \<Rightarrow> exn" where
  "nesting_error ctx = run_not_permitted
     (''This run is nested '' @ show_int (rc_depth ctx) @ '' deep, at or past the ceiling. Nobody debugs a ''
      @ ''tree that deep, and a configuration that produced one is a mistake worth reporting rather than executing.'')"

text \<open>The context given, or the root of a new tree.\<close>

definition context_or_root ::
  "env \<Rightarrow> string \<Rightarrow> agent_mode \<Rightarrow> run_context option \<Rightarrow> (('s, 'z) world_scheme, run_context) py" where
  "context_or_root E run_id mode context =
     (case context of
        Some c \<Rightarrow> act_return c
      | None \<Rightarrow>
          act_bind (act_lift (run_budget_new (am_max_steps mode) None None None)) (\<lambda>b.
          act_bind (read_env (ev_monotonic E)) (\<lambda>m.
          act_bind (map_ledger (\<lambda>_. ledger_start run_id m)) (\<lambda>_. act_return (context_root b)))))"

text \<open>Everything before the \<open>try\<close>: what is refused here costs no run.\<close>

definition start_turn ::
  "env \<Rightarrow> ('s, ('s, 'z) world_scheme) runtime \<Rightarrow> 's session \<Rightarrow> string \<Rightarrow> run_context option \<Rightarrow> attachment list
     \<Rightarrow> pydict option \<Rightarrow> (('s, 'z) world_scheme, ('s, ('s, 'z) world_scheme) run_spec \<times> pydict list) py" where
  "start_turn E ru se prompt context attachments schema =
     act_bind (act_lift (admit_attachments prompt attachments)) (\<lambda>admitted.
     act_bind (act_lift (modes_for (se_agent se) (ru_modes ru))) (\<lambda>M.
     act_bind (session_mode E se) (\<lambda>name.
     act_bind (act_lift (resolve_mode M name)) (\<lambda>mode.
     act_bind (session_provider E se) (\<lambda>own_provider.
     act_bind (session_model E se) (\<lambda>own_model.
     act_bind (read_env (ev_uuid E)) (\<lambda>u.
       let run_id = uuid_text u;
           provider = nonempty_or own_provider (dget (settings ru se) ''provider'');
           model = nonempty_or own_model (dget (settings ru se) ''model'')
       in act_bind (context_or_root E run_id mode context) (\<lambda>ctx.
          act_bind get_ledger (\<lambda>L.
          act_bind (act_lift (bounded_run ru se ctx L)) (\<lambda>ctx.
          act_bind (act_lift (session_thread E se)) (\<lambda>th.
            if too_deep ctx then act_raise (nesting_error ctx)
            else act_bind (begin_run E se run_id (am_name mode) provider model) (\<lambda>_.
                 act_bind (act_lift (current_key E se)) (\<lambda>key.
                 act_bind (read_env (ev_now E)) (\<lambda>now.
                 act_bind (emit_event ru (RunStarted run_id key (am_name mode) provider model (rl_root_run_id L)
                    (rc_depth ctx) now)) (\<lambda>_. act_return
                   (\<lparr> rs_session = se, rs_thread = th, rs_mode = mode, rs_context = ctx, rs_run_id = run_id,
                      rs_provider = provider, rs_model = model, rs_offered = [], rs_schema = schema \<rparr>,
                    admitted))))))))))))))))"

definition legacy_offer ::
  "('s, ('s, 'z) world_scheme) runtime \<Rightarrow> 's session \<Rightarrow> agent_mode \<Rightarrow> string list option
     \<Rightarrow> (('s, 'z) world_scheme, ('s, 'z) world_scheme tool list) py" where
  "legacy_offer ru se mode tool_names =
     act_bind (resolve_tools (ru_tools ru) None (requested_or tool_names (am_tools mode)) (Some se)) (\<lambda>tools.
       allowed_for ru se se tools)"

text \<open>The offer of a run that may resume: within the scope stored with its pending approval.\<close>

definition within_scope ::
  "agent_mode \<Rightarrow> (string list \<times> bool) option \<Rightarrow> 'w tool list \<Rightarrow> 'w tool list" where
  "within_scope mode scope offered =
     (case scope of
        None \<Rightarrow> offered
      | Some (names, _) \<Rightarrow>
          filter (\<lambda>t. tl_name t \<in> set names \<and> (''*'' \<in> set (am_tools mode) \<or> tl_name t \<in> set (am_tools mode))) offered)"

definition user_row :: "string \<Rightarrow> pydict list \<Rightarrow> pydict" where
  "user_row prompt admitted =
     [(''type'', JStr ''user''), (''content'', JStr prompt)]
     @ (if admitted = [] then []
        else [(''additional_content'', JList (map JDict admitted @ [JDict [(''text'', JStr prompt)]])),
              (''additional_attributes'', JDict [])])"

text \<open>Inside the \<open>try\<close>, up to the loop: the offer, the pending approvals, the prompt.\<close>

definition open_turn ::
  "env \<Rightarrow> ('s, ('s, 'z) world_scheme) runtime \<Rightarrow> ('s, ('s, 'z) world_scheme) run_spec \<Rightarrow> string
     \<Rightarrow> string list option \<Rightarrow> pydict list
     \<Rightarrow> (('s, 'z) world_scheme, ('s, ('s, 'z) world_scheme) run_spec \<times> string list) py" where
  "open_turn E ru rs prompt tool_names admitted =
     act_bind (if se_agent (rs_session rs) = None \<and> \<not> ru_narrow ru
               then legacy_offer ru (rs_session rs) (rs_mode rs) tool_names
               else act_bind (offer ru (rs_session rs) (rs_mode rs) tool_names) (\<lambda>(ts, _). act_return ts)) (\<lambda>offered.
     act_bind (thread_rows (rs_thread rs)) (\<lambda>rows.
     act_bind (act_lift (approval_tool_scope rows)) (\<lambda>scope.
     act_bind (resolve_approvals E ru (rs_session rs) (rs_mode rs) (rs_run_id rs)
                (within_scope (rs_mode rs) scope offered)) (\<lambda>(offered, called).
     act_bind (if prompt = [] then act_return ()
               else write_rows E (rs_thread rs) [user_row prompt admitted] (Some (rs_run_id rs))) (\<lambda>_.
       act_return (rs\<lparr>rs_offered := offered\<rparr>, called))))))"

text \<open>The text of a failure for the run row and the event: the code of an error that holds a document.\<close>

definition failure_text :: "exn \<Rightarrow> string" where
  "failure_text e = (case e of HarnessErr h \<Rightarrow> if he_document h \<noteq> None then he_code h else exn_str e | _ \<Rightarrow> exn_str e)"

definition fail_turn ::
  "env \<Rightarrow> ('s, ('s, 'z) world_scheme) runtime \<Rightarrow> ('s, ('s, 'z) world_scheme) run_spec \<Rightarrow> exn
     \<Rightarrow> (('s, 'z) world_scheme, agent_response) py" where
  "fail_turn E ru rs e =
     act_bind (fail_run E (rs_session rs) (rs_run_id rs) (failure_text e)) (\<lambda>_.
     act_bind (act_lift (current_key E (rs_session rs))) (\<lambda>key.
     act_bind get_ledger (\<lambda>L.
     act_bind (read_env (ev_now E)) (\<lambda>now.
     act_bind (emit_event ru (RunFailed (rs_run_id rs) key (failure_text e) (rl_steps L) now)) (\<lambda>_.
       act_raise e)))))"

definition run_turn ::
  "env \<Rightarrow> ('s, ('s, 'z) world_scheme) runtime \<Rightarrow> ('s, ('s, 'z) world_scheme) run_spec \<Rightarrow> string
     \<Rightarrow> string list option \<Rightarrow> pydict list
     \<Rightarrow> ('s, 'z) world_scheme \<Rightarrow> (agent_response pyres \<times> ('s, 'z) world_scheme) option" where
  "run_turn E ru rs prompt tool_names admitted =
     on_error (then_run (open_turn E ru rs prompt tool_names admitted) (\<lambda>(rs', called). agent_loop E ru rs' [] called))
       (fail_turn E ru rs)"

text \<open>A turn without a context makes a ledger object of its own (\<open>RunContext.root\<close>), which nobody else holds. The
  world has the one ledger of the running tree: \<open>start_turn\<close> puts the fresh one in its place, and when the turn
  has ended the one that was there is there again.\<close>

definition own_ledger ::
  "run_context option \<Rightarrow> (('s, 'z) world_scheme \<Rightarrow> ('a \<times> ('s, 'z) world_scheme) option)
     \<Rightarrow> ('s, 'z) world_scheme \<Rightarrow> ('a \<times> ('s, 'z) world_scheme) option" where
  "own_ledger context m w =
     (case context of
        Some _ \<Rightarrow> m w
      | None \<Rightarrow> map_option (\<lambda>(r, t). (r, t\<lparr>wd_ledger := wd_ledger w\<rparr>)) (m w))"

definition turn ::
  "env \<Rightarrow> ('s, ('s, 'z) world_scheme) runtime \<Rightarrow> 's session \<Rightarrow> string \<Rightarrow> string list option \<Rightarrow> run_context option
     \<Rightarrow> attachment list \<Rightarrow> pydict option
     \<Rightarrow> ('s, 'z) world_scheme \<Rightarrow> (agent_response pyres \<times> ('s, 'z) world_scheme) option" where
  "turn E ru se prompt tool_names context attachments schema =
     own_ledger context
       (then_run (start_turn E ru se prompt context attachments schema) (\<lambda>(rs, admitted).
          run_turn E ru rs prompt tool_names admitted))"

definition send ::
  "env \<Rightarrow> ('s, ('s, 'z) world_scheme) runtime \<Rightarrow> 's session \<Rightarrow> string \<Rightarrow> string list option \<Rightarrow> run_context option
     \<Rightarrow> attachment list
     \<Rightarrow> ('s, 'z) world_scheme \<Rightarrow> (agent_response pyres \<times> ('s, 'z) world_scheme) option" where
  "send E ru se prompt tool_names context attachments = turn E ru se prompt tool_names context attachments None"

text \<open>\<open>assert isinstance(response, StructuredAgentResponse)\<close>\<close>

definition send_structured ::
  "env \<Rightarrow> ('s, ('s, 'z) world_scheme) runtime \<Rightarrow> 's session \<Rightarrow> string \<Rightarrow> pydict \<Rightarrow> string list option
     \<Rightarrow> run_context option \<Rightarrow> attachment list
     \<Rightarrow> ('s, 'z) world_scheme \<Rightarrow> (agent_response pyres \<times> ('s, 'z) world_scheme) option" where
  "send_structured E ru se prompt schema tool_names context attachments w =
     map_option (\<lambda>(r, t). (res_bind r (\<lambda>x. if ar_structured x = None then Inl AssertionErr else Inr x), t))
       (turn E ru se prompt tool_names context attachments (Some schema) w)"

end
