(* ===== verification/Harness.thy ===== *)
theory Harness
  imports RuntimeTurn
begin

section \<open>The harness and its subagents\<close>

text \<open>
  \<open>harness.py\<close>: the entry point, which resolves the stores and opens sessions. \<open>subagent_runner.py\<close>: a
  declared subagent as a tool of its parent. The slot manager is the state of the calls that resolve a
  store. \<open>subagent_run\<close> takes \<open>send\<close>, the method of the runtime that runs the child, and \<open>open_session\<close>,
  the harness's \<open>_pending(...).session(...)\<close>, as arguments: any tool that runs a tree of runs is of this form.
\<close>

record 's harness =
  ph_manager :: "'s store_manager"
  ph_ttl :: "pyfloat option"
  ph_adapters :: "actor adapters"
  ph_max_addresses :: "int option"
  ph_default_scope :: string
  ph_default_task_list :: string
  ph_agents :: "(string \<times> pydict) list"

definition validate_harness_config :: "pydict \<Rightarrow> unit pyres" where
  "validate_harness_config config =
     (let ttl = dget config ''ttl_seconds''; scope = dget config ''default_scope''; tasks = dget config ''default_task_list''
      in if ttl \<noteq> JNull \<and> (case ttl of JInt i \<Rightarrow> i < 0 | _ \<Rightarrow> True)
         then Inl (ValueErr ''Agent ephemeral TTL must be nonnegative whole seconds or null.'')
         else if (scope \<noteq> JNull \<and> as_str scope = None)
              \<or> (tasks \<noteq> JNull \<and> (case tasks of JStr s \<Rightarrow> s = [] | _ \<Rightarrow> True))
         then Inl (ValueErr ''Agent scope/list defaults must be valid strings.'')
         else Inr ())"

definition harness_new ::
  "'s store_manager \<Rightarrow> pyfloat option \<Rightarrow> actor adapters \<Rightarrow> json \<Rightarrow> string \<Rightarrow> string \<Rightarrow> (string \<times> pydict) list
     \<Rightarrow> 's harness pyres" where
  "harness_new manager ttl adapters max_addresses default_scope default_task_list agents =
     res_bind (validate_harness_config
        [(''default_scope'', JStr default_scope), (''default_task_list'', JStr default_task_list)]) (\<lambda>_.
     res_bind (res_map (\<lambda>(a, options). res_bind (validate_agent (Some a)) (\<lambda>_. validate_harness_config options)) agents) (\<lambda>_.
     res_bind (address_limit max_addresses) (\<lambda>limit. Inr
       \<lparr> ph_manager = manager, ph_ttl = ttl, ph_adapters = adapters, ph_max_addresses = limit,
         ph_default_scope = default_scope, ph_default_task_list = default_task_list, ph_agents = agents \<rparr>)))"

definition agent_options :: "'s harness \<Rightarrow> string option \<Rightarrow> pydict" where
  "agent_options h agent =
     (case agent of None \<Rightarrow> [] | Some a \<Rightarrow> (case map_of (ph_agents h) a of None \<Rightarrow> [] | Some options \<Rightarrow> options))"

definition limit_json :: "int option \<Rightarrow> json" where
  "limit_json limit = (case limit of None \<Rightarrow> JNull | Some n \<Rightarrow> JInt n)"

subsection \<open>Opening a session\<close>

record pending_session =
  pe_participant :: participant
  pe_ttl :: "pyfloat option"
  pe_agent :: "string option"
  pe_actor :: "actor option"
  pe_default_scope :: json

definition pending_session :: "'s harness \<Rightarrow> participant \<Rightarrow> string option \<Rightarrow> actor option \<Rightarrow> pending_session pyres" where
  "pending_session h p agent actor =
     res_bind (validate_agent agent) (\<lambda>_. Inr
       \<lparr> pe_participant = p,
         pe_ttl = (case map_of (agent_options h agent) ''ttl_seconds'' of None \<Rightarrow> ph_ttl h | Some v \<Rightarrow> as_num v),
         pe_agent = agent, pe_actor = actor,
         pe_default_scope = dget_or (agent_options h agent) ''default_scope'' (JStr (ph_default_scope h)) \<rparr>)"

definition as_actor :: "actor \<Rightarrow> pending_session \<Rightarrow> pending_session pyres" where
  "as_actor actor pe =
     (if is_ref (pe_participant pe) then Inl (TypeErr ''Typed participants require a registered actor adapter.'')
      else Inr (pe\<lparr>pe_actor := Some actor\<rparr>))"

definition actor_of :: "actor adapters \<Rightarrow> pending_session \<Rightarrow> actor pyres" where
  "actor_of adapters pe =
     (case pe_participant pe of
        Ref r \<Rightarrow> adapters_actor adapters r (pe_actor pe)
      | Plain t i \<Rightarrow> Inr (case pe_actor pe of None \<Rightarrow> TheParticipant (Plain t i) | Some a \<Rightarrow> a))"

text \<open>\<open>session(scope)\<close>: the stores are resolved here, the durable one first.\<close>

definition open_pending ::
  "env \<Rightarrow> 's harness \<Rightarrow> pending_session \<Rightarrow> string option \<Rightarrow> ('s store_manager, 's session) py" where
  "open_pending E h pe scope =
     act_bind (act_lift (actor_of (ph_adapters h) pe)) (\<lambda>actor.
     act_bind (manager_slot SLOT_DURABLE) (\<lambda>durable.
     act_bind (manager_slot SLOT_EPHEMERAL) (\<lambda>ephemeral.
     act_bind (act_lift
       (if pe_agent pe \<noteq> None \<or> is_ref (pe_participant pe)
        then res_bind (address_index_new (ev_sha256 E) durable (limit_json (ph_max_addresses h))) (\<lambda>ix. Inr (Some (ix, durable)))
        else Inr None)) (\<lambda>index.
       case (case scope of Some s \<Rightarrow> JStr s | None \<Rightarrow> pe_default_scope pe) of
         JStr s \<Rightarrow> act_lift (session_new E (pe_participant pe) s ephemeral durable (pe_ttl pe) (pe_agent pe)
                     (Some actor) index JNull)
       | _ \<Rightarrow> act_raise (TypeErr ''Harness addresses require UTF-8 scopes.'')))))"

definition harness_session ::
  "env \<Rightarrow> 's harness \<Rightarrow> participant \<Rightarrow> string option \<Rightarrow> actor option \<Rightarrow> string option \<Rightarrow> ('s store_manager, 's session) py" where
  "harness_session E h p agent actor scope =
     act_bind (act_lift (pending_session h p agent actor)) (\<lambda>pe. open_pending E h pe scope)"

subsection \<open>Shared threads and task lists\<close>

text \<open>The store of a shared resource: announced to the index under a named agent.\<close>

definition shared_store ::
  "env \<Rightarrow> 's harness \<Rightarrow> session_address \<Rightarrow> string option \<Rightarrow> string \<Rightarrow> 's session_store \<Rightarrow> 's session_store pyres" where
  "shared_store E h a agent kind durable =
     (if agent = None then Inr durable
      else res_bind (address_index_new (ev_sha256 E) durable (limit_json (ph_max_addresses h))) (\<lambda>ix.
           Inr (indexed_store ix durable a ''durable'' kind durable)))"

definition harness_tasks ::
  "env \<Rightarrow> 's harness \<Rightarrow> string option \<Rightarrow> string option \<Rightarrow> ('s store_manager, 's session_store \<times> task_source) py" where
  "harness_tasks E h list_name agent =
     (let name = (case list_name of
            Some l \<Rightarrow> l
          | None \<Rightarrow> py_str (dget_or (agent_options h agent) ''default_task_list'' (JStr (ph_default_task_list h))))
      in act_bind (act_lift (session_address_new None (''task-list:'' @ name) agent)) (\<lambda>a.
         act_bind (manager_slot SLOT_DURABLE) (\<lambda>durable.
         act_bind (act_lift (shared_store E h a agent ''tasks'' durable)) (\<lambda>S.
         act_bind (act_lift (task_source_new S
            (if agent = None then name @ '':tasks'' else ''agent-list:'' @ index_key (ev_sha256 E) a @ '':tasks'')
            (JInt DEFAULT_LEASE_SECONDS) (JInt 5))) (\<lambda>src. act_return (S, src))))))"

definition shared_thread ::
  "env \<Rightarrow> 's harness \<Rightarrow> string \<Rightarrow> string option \<Rightarrow> ('s store_manager, 's thread_handle) py" where
  "shared_thread E h scope agent =
     act_bind (act_lift (session_address_new None scope agent)) (\<lambda>a.
     act_bind (manager_slot SLOT_DURABLE) (\<lambda>durable.
     act_bind (act_lift (shared_store E h a agent ''thread'' durable)) (\<lambda>S.
       act_return (S, ''thread:'' @ thread_key (ev_sha256 E) a))))"

text \<open>\<open>find_shared\<close> and \<open>effective_tools\<close> also look into a store: their state is the manager's and the store's,
  or that of the runtime, which may be absent.\<close>

definition find_shared ::
  "env \<Rightarrow> 's harness \<Rightarrow> string \<Rightarrow> string option \<Rightarrow> ('s store_manager \<times> 's, 's thread_handle option) py" where
  "find_shared E h scope agent = (\<lambda>(m, s).
     case shared_thread E h scope agent m of
       (Inl e, m) \<Rightarrow> (Inl e, (m, s))
     | (Inr (S, k), m) \<Rightarrow>
         (case thread_exists S k s of
            (Inl e, s) \<Rightarrow> (Inl e, (m, s))
          | (Inr there, s) \<Rightarrow> (Inr (if there then Some (S, k) else None), (m, s))))"

definition harness_effective_tools ::
  "env \<Rightarrow> 's harness \<Rightarrow> ('s, ('s, 'z) world_scheme) runtime option \<Rightarrow> string option \<Rightarrow> string \<Rightarrow> participant
     \<Rightarrow> string option \<Rightarrow> ('s store_manager \<times> ('s, 'z) world_scheme, (string \<times> string \<times> string) list) py" where
  "harness_effective_tools E h runtime agent mode p scope = (\<lambda>(m, w).
     case runtime of
       None \<Rightarrow> (Inl (ValueErr ''Tool inspection requires a configured Harness runtime.''), (m, w))
     | Some ru \<Rightarrow>
         (case harness_session E h p agent None scope m of
            (Inl e, m) \<Rightarrow> (Inl e, (m, w))
          | (Inr se, m) \<Rightarrow> (case in_session None (effective_tools E ru se (Some mode)) w of (r, w) \<Rightarrow> (r, (m, w)))))"

subsection \<open>The view of one agent\<close>

text \<open>\<open>AgentHarness\<close>: the harness with a valid agent name, which each of its calls hands on.\<close>

record 's agent_harness =
  ag_harness :: "'s harness"
  ag_agent :: "string option"

definition for_agent :: "'s harness \<Rightarrow> string option \<Rightarrow> 's agent_harness pyres" where
  "for_agent h agent = res_bind (validate_agent agent) (\<lambda>_. Inr \<lparr> ag_harness = h, ag_agent = agent \<rparr>)"

definition agent_for :: "'s agent_harness \<Rightarrow> participant \<Rightarrow> pending_session pyres" where
  "agent_for a p = pending_session (ag_harness a) p (ag_agent a) None"

definition agent_effective_tools ::
  "env \<Rightarrow> 's agent_harness \<Rightarrow> ('s, ('s, 'z) world_scheme) runtime option \<Rightarrow> string \<Rightarrow> participant
     \<Rightarrow> string option \<Rightarrow> ('s store_manager \<times> ('s, 'z) world_scheme, (string \<times> string \<times> string) list) py" where
  "agent_effective_tools E a runtime mode p scope =
     harness_effective_tools E (ag_harness a) runtime (ag_agent a) mode p scope"

definition agent_tasks ::
  "env \<Rightarrow> 's agent_harness \<Rightarrow> string option \<Rightarrow> ('s store_manager, 's session_store \<times> task_source) py" where
  "agent_tasks E a list_name = harness_tasks E (ag_harness a) list_name (ag_agent a)"

definition agent_shared_thread :: "env \<Rightarrow> 's agent_harness \<Rightarrow> string \<Rightarrow> ('s store_manager, 's thread_handle) py" where
  "agent_shared_thread E a scope = shared_thread E (ag_harness a) scope (ag_agent a)"

definition agent_find_shared ::
  "env \<Rightarrow> 's agent_harness \<Rightarrow> string \<Rightarrow> ('s store_manager \<times> 's, 's thread_handle option) py" where
  "agent_find_shared E a scope = find_shared E (ag_harness a) scope (ag_agent a)"

subsection \<open>Subagents\<close>

record subagent_result =
  sr_subagent :: string
  sr_run_id :: string
  sr_parent_run_id :: string
  sr_outcome :: string
  sr_text :: string

definition refused :: "string \<Rightarrow> string \<Rightarrow> string \<Rightarrow> string \<Rightarrow> string \<Rightarrow> subagent_result" where
  "refused subagent run_id parent_run_id outcome reason =
     \<lparr> sr_subagent = subagent, sr_run_id = run_id, sr_parent_run_id = parent_run_id, sr_outcome = outcome,
       sr_text = ''The ['' @ subagent @ ''] subagent did not run: '' @ reason @ ''.'' \<rparr>"

definition completed_result :: "subagent \<Rightarrow> string \<Rightarrow> agent_response \<Rightarrow> subagent_result" where
  "completed_result a parent_run_id r =
     (case ar_stopped_because r of
        None \<Rightarrow> \<lparr> sr_subagent = sa_name a, sr_run_id = ar_run_id r, sr_parent_run_id = parent_run_id,
                 sr_outcome = ''completed'', sr_text = ar_text r \<rparr>
      | Some why \<Rightarrow> \<lparr> sr_subagent = sa_name a, sr_run_id = ar_run_id r, sr_parent_run_id = parent_run_id,
                     sr_outcome = ''exhausted'',
                     sr_text = ''The ['' @ sa_name a @ ''] subagent stopped early: '' @ why @ ''. Partial answer: ''
                       @ ar_text r \<rparr>)"

text \<open>The child's defaults: its own mode, the provider and model of its parent.\<close>

definition child_defaults ::
  "env \<Rightarrow> 's session \<Rightarrow> 's session \<Rightarrow> subagent \<Rightarrow> string option \<Rightarrow> string option \<Rightarrow> (('s, 'z) live_scheme, unit) py" where
  "child_defaults E parent child a provider model =
     act_bind (if se_agent parent = None \<or> provider \<noteq> None
               then using_provider E child (nonempty_or provider JNull) else act_return ()) (\<lambda>_.
       if se_agent parent = None \<or> model \<noteq> None
       then using_model E child (nonempty_or model JNull) else act_return ())"

text \<open>\<open>SubagentRunner.run\<close>. The child's part runs in its own session object; reading the parent's provider
  and model goes through the parent's.\<close>

definition run_child ::
  "env \<Rightarrow> ('s session \<Rightarrow> string \<Rightarrow> run_context \<Rightarrow> (('s, 'z) world_scheme, agent_response) py)
     \<Rightarrow> subagent \<Rightarrow> 's session \<Rightarrow> 's session \<Rightarrow> run_context \<Rightarrow> string \<Rightarrow> string \<Rightarrow> string
     \<Rightarrow> string option \<Rightarrow> string option \<Rightarrow> (('s, 'z) world_scheme, subagent_result) py" where
  "run_child E send_child a parent child ctx run_id parent_run_id task provider model =
     act_bind (child_defaults E parent child a provider model) (\<lambda>_.
     act_catch (act_bind (send_child child task ctx) (\<lambda>r. act_return (completed_result a parent_run_id r)))
       (\<lambda>e. act_return (refused (sa_name a) run_id parent_run_id ''failed'' (exn_str e))))"

definition subagent_run ::
  "env \<Rightarrow> (participant \<Rightarrow> string option \<Rightarrow> actor \<Rightarrow> string \<Rightarrow> 's session pyres)
     \<Rightarrow> ('s session \<Rightarrow> string \<Rightarrow> run_context \<Rightarrow> (('s, 'z) world_scheme, agent_response) py)
     \<Rightarrow> subagent \<Rightarrow> 's session \<Rightarrow> run_context \<Rightarrow> string \<Rightarrow> string \<Rightarrow> (('s, 'z) world_scheme, subagent_result) py" where
  "subagent_run E open_session send_child a parent ctx parent_run_id task =
     act_bind (read_env (ev_uuid E)) (\<lambda>u.
     act_bind (read_env (ev_monotonic E)) (\<lambda>m.
     act_bind get_ledger (\<lambda>L.
       let run_id = ''run_'' @ take 12 u
       in case exhaustion L (rc_budget ctx) m of
            Some why \<Rightarrow> act_return (refused (sa_name a) run_id parent_run_id
                           (if rl_cancelled L then ''cancelled'' else ''exhausted'') why)
          | None \<Rightarrow>
              act_bind (read_env (ev_monotonic E)) (\<lambda>m'.
              act_bind (act_lift (for_child ctx a parent_run_id L m')) (\<lambda>child_ctx.
                if too_deep child_ctx
                then act_return (refused (sa_name a) run_id parent_run_id ''denied''
                       (''subagent nesting reached the maximum depth of '' @ show_int MAX_DEPTH))
                else act_bind (act_lift (open_session (se_participant parent) (se_agent parent) (se_actor parent)
                        (scope_under a (current_scope parent)))) (\<lambda>child.
                     act_bind (in_session None
                        (act_bind (using_mode E child (sa_mode a)) (\<lambda>_. get_cached))) (\<lambda>cache.
                     act_bind (session_provider E parent) (\<lambda>provider.
                     act_bind (session_model E parent) (\<lambda>model.
                       in_session cache
                         (run_child E send_child a parent child child_ctx run_id parent_run_id task provider model))))))))))"

text \<open>\<open>SubagentTool\<close>\<close>

definition subagent_tool ::
  "env \<Rightarrow> (participant \<Rightarrow> string option \<Rightarrow> actor \<Rightarrow> string \<Rightarrow> 's session pyres)
     \<Rightarrow> ('s session \<Rightarrow> string \<Rightarrow> run_context \<Rightarrow> (('s, 'z) world_scheme, agent_response) py)
     \<Rightarrow> subagent \<Rightarrow> 's session \<Rightarrow> run_context \<Rightarrow> string \<Rightarrow> ('s, 'z) world_scheme tool" where
  "subagent_tool E open_session send_child a parent ctx parent_run_id =
     \<lparr> tl_name = sa_name a,
       tl_handle = (\<lambda>args.
         if se_agent parent \<noteq> None \<and> list_ex (\<lambda>kv. fst kv \<noteq> ''task'') args
         then act_raise (run_not_permitted (''Named subagent input may contain only task. Identity changes require ''
                @ ''an explicit host-owned delegation binding.''))
         else act_bind (subagent_run E open_session send_child a parent ctx parent_run_id
                (case dget args ''task'' of JStr t \<Rightarrow> t | _ \<Rightarrow> [])) (\<lambda>r. act_return (JStr (sr_text r)))) \<rparr>"

end
