(* ===== verification/RunLaws.thy ===== *)
theory RunLaws
  imports Harness
begin

section \<open>What runs do to the ledger\<close>

text \<open>
  \<open>acts R m P\<close> says of a piece of code that it takes the ledger of the tree along the relation \<open>R\<close>, however it
  ends, and that what it returns satisfies \<open>P\<close>. The interface \<open>ledger_relation\<close> asks of \<open>R\<close> to be reflexive
  and transitive: then the session's own code, which never touches the ledger, acts along it.
  \<open>runtime_along R ru\<close> assumes it of what the host supplies (tools, factories, providers, policies, listeners);
  the client is handed no ledger and leaves it as it is. The instances are equality, the order of the
  steps, and \<open>tree_spend\<close> of a context.
\<close>

definition acts ::
  "(run_ledger \<Rightarrow> run_ledger \<Rightarrow> bool) \<Rightarrow> (('s, 'z) world_scheme, 'a) py \<Rightarrow> ('a \<Rightarrow> bool) \<Rightarrow> bool" where
  "acts R m P =
     (\<forall>w. R (wd_ledger w) (wd_ledger (snd (m w))) \<and> (\<forall>x. fst (m w) = Inr x \<longrightarrow> P x))"

definition tool_along :: "(run_ledger \<Rightarrow> run_ledger \<Rightarrow> bool) \<Rightarrow> ('s, 'z) world_scheme tool \<Rightarrow> bool" where
  "tool_along R t = (\<forall>args. acts R (tl_handle t args) (\<lambda>_. True))"

definition registry_along ::
  "(run_ledger \<Rightarrow> run_ledger \<Rightarrow> bool) \<Rightarrow> ('s, ('s, 'z) world_scheme) registry \<Rightarrow> bool" where
  "registry_along R X =
     ((\<forall>(n, t) \<in> set (tr_tools X). tool_along R t)
      \<and> (\<forall>(n, f) \<in> set (tr_factories X). \<forall>se. acts R (f se) (tool_along R))
      \<and> (\<forall>(n, p, x) \<in> set (tr_providers X). \<forall>se. acts R (p se) (\<lambda>ts. \<forall>t \<in> set ts. tool_along R t)))"

definition policies_along ::
  "(run_ledger \<Rightarrow> run_ledger \<Rightarrow> bool) \<Rightarrow> ('s, ('s, 'z) world_scheme) offer_policy option
     \<Rightarrow> ('s, ('s, 'z) world_scheme) call_policy option \<Rightarrow> bool" where
  "policies_along R on_offer on_call =
     ((\<forall>p. on_offer = Some p \<longrightarrow> (\<forall>se t. acts R (p se t) (\<lambda>_. True)))
      \<and> (\<forall>p. on_call = Some p \<longrightarrow> (\<forall>se t args. acts R (p se t args) (\<lambda>_. True))))"

definition authorizer_along ::
  "(run_ledger \<Rightarrow> run_ledger \<Rightarrow> bool) \<Rightarrow> ('s, ('s, 'z) world_scheme) authorizer \<Rightarrow> bool" where
  "authorizer_along R A =
     (policies_along R (au_offer A) (au_call A)
      \<and> (\<forall>(a, x) \<in> set (au_agents A).
           (\<forall>p. ao_offer x = Some p \<longrightarrow> policies_along R p None) \<and> (\<forall>p. ao_call x = Some p \<longrightarrow> policies_along R None p)))"

definition runtime_along ::
  "(run_ledger \<Rightarrow> run_ledger \<Rightarrow> bool) \<Rightarrow> ('s, ('s, 'z) world_scheme) runtime \<Rightarrow> bool" where
  "runtime_along R ru =
     ((\<forall>q. acts (=) (ru_client ru q) (\<lambda>_. True))
      \<and> (\<forall>(i, f) \<in> set (ru_listeners ru). \<forall>ev. acts R (f ev) (\<lambda>_. True))
      \<and> registry_along R (rs_root (ru_tools ru)) \<and> (\<forall>X \<in> ran (rs_agents (ru_tools ru)). registry_along R X)
      \<and> (\<forall>A. ru_authorizer ru = Some A \<longrightarrow> authorizer_along R A))"

named_theorems acts_rules \<open>how the pieces of a program act on the ledger\<close>

locale ledger_relation =
  fixes R :: "run_ledger \<Rightarrow> run_ledger \<Rightarrow> bool"
  assumes refl: "R L L"
    and trans: "R L M \<Longrightarrow> R M N \<Longrightarrow> R L N"
begin

lemma actsI:
  "(\<And>w r t. m w = (r, t) \<Longrightarrow> R (wd_ledger w) (wd_ledger t) \<and> (\<forall>x. r = Inr x \<longrightarrow> P x)) \<Longrightarrow> acts R m P"
  unfolding acts_def by (metis prod.collapse)

lemma actsD: "acts R m P \<Longrightarrow> m w = (r, t) \<Longrightarrow> R (wd_ledger w) (wd_ledger t) \<and> (\<forall>x. r = Inr x \<longrightarrow> P x)"
  unfolding acts_def by (metis fst_conv snd_conv)

lemma acts_weaken: "acts R m P \<Longrightarrow> (\<And>x. P x \<Longrightarrow> Q x) \<Longrightarrow> acts R m Q"
  unfolding acts_def by blast

lemma acts_return: "P x \<Longrightarrow> acts R (act_return x) P"
  by (simp add: acts_def act_return_def refl)

lemma acts_raise: "acts R (act_raise e) P"
  by (simp add: acts_def act_raise_def refl)

lemma acts_lift: "(\<And>x. r = Inr x \<Longrightarrow> P x) \<Longrightarrow> acts R (act_lift r) P"
  by (simp add: acts_def act_lift_def refl)

lemma acts_bind:
  assumes "acts R m P" and "\<And>x. P x \<Longrightarrow> acts R (f x) Q"
  shows "acts R (act_bind m f) Q"
proof (rule actsI)
  fix w r t assume run: "act_bind m f w = (r, t)"
  obtain r1 t1 where m: "m w = (r1, t1)" by force
  note m' = actsD [OF assms(1) m]
  show "R (wd_ledger w) (wd_ledger t) \<and> (\<forall>x. r = Inr x \<longrightarrow> Q x)"
  proof (cases r1)
    case (Inl e)
    with run m m' show ?thesis by (auto simp: act_bind_def)
  next
    case (Inr x)
    with run m have "f x t1 = (r, t)" by (simp add: act_bind_def)
    with actsD [OF assms(2)] m' Inr show ?thesis by (blast intro: trans)
  qed
qed

lemma acts_catch:
  assumes "acts R m P" and "\<And>e. acts R (h e) P" shows "acts R (act_catch m h) P"
proof (rule actsI)
  fix w r t assume run: "act_catch m h w = (r, t)"
  obtain r1 t1 where m: "m w = (r1, t1)" by force
  note m' = actsD [OF assms(1) m]
  show "R (wd_ledger w) (wd_ledger t) \<and> (\<forall>x. r = Inr x \<longrightarrow> P x)"
  proof (cases r1)
    case (Inl e)
    with run m have "h e t1 = (r, t)" by (simp add: act_catch_def)
    with actsD [OF assms(2)] m' show ?thesis by (blast intro: trans)
  next
    case (Inr x)
    with run m m' show ?thesis by (auto simp: act_catch_def)
  qed
qed

lemma acts_finally:
  assumes "acts R m P" and "acts R c (\<lambda>_. True)" shows "acts R (act_finally m c) P"
proof (rule actsI)
  fix w r t assume run: "act_finally m c w = (r, t)"
  obtain r1 t1 where m: "m w = (r1, t1)" by force
  obtain r2 t2 where c: "c t1 = (r2, t2)" by force
  from actsD [OF assms(1) m] actsD [OF assms(2) c]
  have "R (wd_ledger w) (wd_ledger t2)" "\<forall>x. r1 = Inr x \<longrightarrow> P x" by (blast intro: trans)+
  with run m c show "R (wd_ledger w) (wd_ledger t) \<and> (\<forall>x. r = Inr x \<longrightarrow> P x)"
    by (auto simp: act_finally_def split: sum.splits)
qed

lemma acts_in_session:
  assumes "acts R m P" shows "acts R (in_session cache m) P"
proof (rule actsI)
  fix w r t assume run: "in_session cache m w = (r, t)"
  obtain r1 t1 where m: "m (w\<lparr>lv_cached := cache\<rparr>) = (r1, t1)" by force
  have "wd_ledger (w\<lparr>lv_cached := cache\<rparr>) = wd_ledger w" by simp
  with actsD [OF assms m] run m show "R (wd_ledger w) (wd_ledger t) \<and> (\<forall>x. r = Inr x \<longrightarrow> P x)"
    by (auto simp: in_session_def)
qed

lemma acts_primitives [acts_rules]:
  "acts R (on_store q) (\<lambda>_. True)" "acts R (read_env f) (\<lambda>_. True)"
  "acts R (set_cached d) (\<lambda>_. True)" "acts R get_cached (\<lambda>_. True)" "acts R get_ledger (\<lambda>_. True)"
  by (auto simp: acts_def on_store_def read_env_def set_cached_def get_cached_def get_ledger_def refl split: prod.split)

lemma acts_seq [acts_rules]:
  "acts R m (\<lambda>_. True) \<Longrightarrow> (\<And>x. acts R (f x) Q) \<Longrightarrow> acts R (act_bind m f) Q"
  by (rule acts_bind)

lemma acts_any: "acts R m P \<Longrightarrow> acts R m (\<lambda>_. True)"
  by (auto intro: acts_weaken)

lemma acts_quiet [acts_rules]:
  "acts R (act_return x) (\<lambda>_. True)" "acts R (act_lift r) (\<lambda>_. True)"
  by (auto intro: acts_return acts_lift)

lemma acts_cases [acts_rules]:
  "(x = None \<Longrightarrow> acts R m P) \<Longrightarrow> (\<And>y. x = Some y \<Longrightarrow> acts R (f y) P) \<Longrightarrow> acts R (case x of None \<Rightarrow> m | Some y \<Rightarrow> f y) P"
  "(b \<Longrightarrow> acts R m P) \<Longrightarrow> (\<not> b \<Longrightarrow> acts R n P) \<Longrightarrow> acts R (if b then m else n) P"
  "(\<And>y z. q = (y, z) \<Longrightarrow> acts R (g y z) P) \<Longrightarrow> acts R (case q of (y, z) \<Rightarrow> g y z) P"
  "acts R (h v) P \<Longrightarrow> acts R (Let v h) P"
  by (auto split: option.split prod.split)

lemmas acts_basic [acts_rules] = acts_raise acts_finally acts_catch acts_in_session

subsection \<open>The session\<close>

lemma acts_session_state [acts_rules]: "acts R (session_state E se) (\<lambda>_. True)"
  unfolding session_state_def by (intro acts_rules)

lemma acts_session_write [acts_rules]: "acts R (session_write E se k v) (\<lambda>_. True)"
  unfolding session_write_def by (intro acts_rules)

lemma acts_session_reads [acts_rules]:
  "acts R (session_mode E se) (\<lambda>_. True)" "acts R (session_model E se) (\<lambda>_. True)"
  "acts R (session_provider E se) (\<lambda>_. True)" "acts R (session_run E se) (\<lambda>_. True)"
  unfolding session_mode_def session_model_def session_provider_def session_run_def read_str_def
  by (intro acts_rules)+

lemma acts_session_writes [acts_rules]:
  "acts R (using_mode E se m) (\<lambda>_. True)" "acts R (using_model E se m) (\<lambda>_. True)"
  "acts R (using_provider E se m) (\<lambda>_. True)" "acts R (begin_run E se i m p q) (\<lambda>_. True)"
  unfolding using_mode_def using_model_def using_provider_def begin_run_def by (intro acts_rules)+

lemma acts_finish_run [acts_rules]: "acts R (finish_run E se i st extra) (\<lambda>_. True)"
  unfolding finish_run_def by (intro acts_rules)

lemma acts_ended_run [acts_rules]:
  "acts R (complete_run E se i f calls) (\<lambda>_. True)" "acts R (fail_run E se i t) (\<lambda>_. True)"
  unfolding complete_run_def fail_run_def by (intro acts_rules)+

lemma acts_session_lock:
  assumes "acts R m P" shows "acts R (session_lock E se m ttl wait) P"
  unfolding session_lock_def by (intro acts_rules assms)

lemma acts_resolve_read_only: "(\<And>v. acts R (f v) P) \<Longrightarrow> acts R (resolve_read_only se mode f) P"
  unfolding resolve_read_only_def by (intro acts_rules)

lemma acts_thread [acts_rules]:
  "acts R (thread_rows th) (\<lambda>_. True)" "acts R (write_rows E th rows i) (\<lambda>_. True)"
  "acts R (unresolved E se mode) (\<lambda>_. True)" "acts R (new_requests E calls) (\<lambda>_. True)"
proof -
  show *: "acts R (thread_rows th) (\<lambda>_. True)" for th
    unfolding thread_rows_def by (intro acts_rules)
  show "acts R (write_rows E th rows i) (\<lambda>_. True)"
    unfolding write_rows_def by (intro acts_rules)
  show "acts R (unresolved E se mode) (\<lambda>_. True)"
    unfolding unresolved_def by (intro acts_rules *)
  show "acts R (new_requests E calls) (\<lambda>_. True)"
    by (induction calls) (auto intro!: acts_rules)
qed

subsection \<open>The offer\<close>

definition tools_along :: "(string \<times> ('s, 'z) world_scheme tool) list \<Rightarrow> bool" where
  "tools_along ts = (\<forall>t \<in> snd ` set ts. tool_along R t)"

lemma tools_along_update: "tools_along ts \<Longrightarrow> tool_along R t \<Longrightarrow> tools_along (AList.update k t ts)"
  unfolding tools_along_def by (induction ts) auto

lemma tools_along_of: "tools_along ts \<Longrightarrow> map_of ts k = Some t \<Longrightarrow> tool_along R t"
  unfolding tools_along_def by (force dest: map_of_SomeD)

lemma take_provided_along:
  "take_provided X x ts acc = Inr acc' \<Longrightarrow> \<forall>t \<in> set ts. tool_along R t \<Longrightarrow> tools_along (fst acc)
     \<Longrightarrow> tools_along (fst acc')"
  by (induction X x ts acc rule: take_provided.induct)
    (auto simp: tools_along_update split: option.splits if_splits)

lemma acts_ask_providers:
  "\<forall>(n, p, x) \<in> set ps. \<forall>se. acts R (p se) (\<lambda>ts. \<forall>t \<in> set ts. tool_along R t) \<Longrightarrow> tools_along (fst acc)
     \<Longrightarrow> acts R (ask_providers X se ps acc) (\<lambda>r. tools_along (fst r))"
proof (induction ps arbitrary: acc)
  case Nil
  then show ?case by (auto intro!: acts_return)
next
  case (Cons p ps)
  obtain n f x where p: "p = (n, f, x)" by (metis prod_cases3)
  have "acts R (f se) (\<lambda>ts. \<forall>t \<in> set ts. tool_along R t)" using Cons.prems p by auto
  moreover have "acts R (act_bind (act_lift (take_provided X x ts acc)) (ask_providers X se ps)) (\<lambda>r. tools_along (fst r))"
    if "\<forall>t \<in> set ts. tool_along R t" for ts
    by (rule acts_bind [where P = "\<lambda>r. tools_along (fst r)"], rule acts_lift)
      (use that Cons in \<open>auto intro: take_provided_along\<close>)
  ultimately show ?case unfolding p ask_providers.simps by (rule acts_bind)
qed

lemma acts_resolve_names:
  "tools_along (tr_tools X) \<Longrightarrow> tools_along provided
     \<Longrightarrow> \<forall>(n, f) \<in> set (tr_factories X). \<forall>se. acts R (f se) (tool_along R)
     \<Longrightarrow> tools_along (map (\<lambda>(n, r). (n, rt_tool r)) acc)
     \<Longrightarrow> acts R (resolve_names X se available provided metadata names acc)
           (\<lambda>rs. tools_along (map (\<lambda>(n, r). (n, rt_tool r)) rs))"
proof (induction names arbitrary: metadata acc)
  case Nil
  then show ?case by (auto intro: acts_return)
next
  case (Cons name names)
  have built: "acts R (f s) (tool_along R)" if "map_of (tr_factories X) name = Some f" for f s
    using that Cons.prems by (auto dest!: map_of_SomeD)
  have on: "acts R (resolve_names X se available provided md names
        (AList.update k \<lparr>rt_tool = t, rt_owner = a, rt_source = b\<rparr> acc))
      (\<lambda>rs. tools_along (map (\<lambda>(n, r). (n, rt_tool r)) rs))" if "tool_along R t" for md k t a b
  proof -
    have "map (\<lambda>(n, r). (n, rt_tool r)) (AList.update k \<lparr>rt_tool = t, rt_owner = a, rt_source = b\<rparr> acc)
        = AList.update k t (map (\<lambda>(n, r). (n, rt_tool r)) acc)" by (induction acc) auto
    with that Cons show ?thesis by (simp add: tools_along_update)
  qed
  show ?case
    unfolding resolve_names.simps
    by (intro acts_cases acts_raise acts_bind [OF built] acts_seq [OF acts_quiet(2)] on;
        (assumption | use Cons.prems in \<open>blast intro: tools_along_of\<close>))
qed

lemma acts_resolve_here:
  assumes "registry_along R X"
  shows "acts R (resolve_here X names se) (\<lambda>rs. tools_along (map (\<lambda>(n, r). (n, rt_tool r)) rs))"
proof -
  have asked: "acts R (case se of None \<Rightarrow> act_return ([], tr_metadata X)
        | Some s \<Rightarrow> ask_providers X s (tr_providers X) ([], tr_metadata X)) (\<lambda>r. tools_along (fst r))"
    using assms by (intro acts_cases acts_ask_providers acts_return) (auto simp: registry_along_def tools_along_def)
  have "tools_along (tr_tools X)" using assms by (auto simp: registry_along_def tools_along_def)
  with assms show ?thesis
    unfolding resolve_here_def
    by (intro acts_bind [OF asked] acts_cases acts_resolve_names) (auto simp: registry_along_def tools_along_def)
qed

lemma registry_new_along: "registry_new agent refuse = Inr X \<Longrightarrow> registry_along R X"
  by (auto simp: registry_new_def registry_along_def)

lemma registry_for_along:
  assumes "registry_for agent Rs = Inr X" and "registry_along R (rs_root Rs)"
    and "\<forall>X \<in> ran (rs_agents Rs). registry_along R X"
  shows "registry_along R X"
  using assms by (auto simp: registry_for_def intro: registry_new_along ranI split: option.splits)

lemma acts_resolve_detailed:
  assumes "registry_along R (rs_root Rs)" "\<forall>X \<in> ran (rs_agents Rs). registry_along R X"
  shows "acts R (resolve_detailed Rs agent names se) (\<lambda>rs. tools_along (map (\<lambda>(n, r). (n, rt_tool r)) rs))"
proof -
  have found: "acts R (act_lift (registry_for agent Rs)) (registry_along R)" for agent
    by (rule acts_lift) (rule registry_for_along [OF _ assms])
  show ?thesis
    unfolding resolve_detailed_def
    by (intro acts_bind [OF found] acts_cases acts_raise acts_resolve_here)
qed

lemma acts_resolve_tools:
  assumes "registry_along R (rs_root Rs)" "\<forall>X \<in> ran (rs_agents Rs). registry_along R X"
  shows "acts R (resolve_tools Rs agent names se) tools_along"
  unfolding resolve_tools_def by (intro acts_bind [OF acts_resolve_detailed [OF assms]] acts_return)

lemma authorizer_for_policies:
  assumes "authorizer_for (Some a) A = Inr A'"
  obtains x where "map_of (au_agents A) a = Some x \<or> ao_offer x = None \<and> ao_call x = None"
    "au_offer A' = (case ao_offer x of None \<Rightarrow> au_offer A | Some p \<Rightarrow> p)"
    "au_call A' = (case ao_call x of None \<Rightarrow> au_call A | Some p \<Rightarrow> p)"
proof -
  let ?x = "case map_of (au_agents A) a of None \<Rightarrow> \<lparr>ao_enabled = None, ao_offer = None, ao_call = None\<rparr> | Some x \<Rightarrow> x"
  have "map_of (au_agents A) a = Some ?x \<or> ao_offer ?x = None \<and> ao_call ?x = None" by (simp split: option.split)
  moreover have "au_offer A' = (case ao_offer ?x of None \<Rightarrow> au_offer A | Some p \<Rightarrow> p)
      \<and> au_call A' = (case ao_call ?x of None \<Rightarrow> au_call A | Some p \<Rightarrow> p)"
    using assms by (auto simp: authorizer_for_def authorizer_new_def Let_def split: json.splits if_splits)
  ultimately show ?thesis using that by blast
qed

lemma authorizer_of_along:
  assumes "authorizer_of A se = Inr A'" and A: "authorizer_along R A"
  shows "policies_along R (au_offer A') (au_call A')"
proof -
  from assms(1) have "A' = A \<or> authorizer_for (se_agent se) A = Inr A'"
    by (simp add: authorizer_of_def split: if_splits)
  moreover have "authorizer_for None A = Inr A' \<Longrightarrow> A' = A"
    by (simp add: authorizer_for_def)
  ultimately consider "A' = A" | a where "authorizer_for (Some a) A = Inr A'"
    by (cases "se_agent se") auto
  then show ?thesis
  proof cases
    case 1
    with A show ?thesis by (simp add: authorizer_along_def)
  next
    case (2 a)
    then obtain x where x: "map_of (au_agents A) a = Some x \<or> ao_offer x = None \<and> ao_call x = None"
      "au_offer A' = (case ao_offer x of None \<Rightarrow> au_offer A | Some p \<Rightarrow> p)"
      "au_call A' = (case ao_call x of None \<Rightarrow> au_call A | Some p \<Rightarrow> p)" by (rule authorizer_for_policies)
    have "ao_offer x = Some p \<Longrightarrow> policies_along R p None" "ao_call x = Some q \<Longrightarrow> policies_along R None q" for p q
      using A x(1) by (auto simp: authorizer_along_def dest!: map_of_SomeD)
    with A x(2,3) show ?thesis
      by (cases "ao_offer x"; cases "ao_call x") (simp_all add: authorizer_along_def policies_along_def)
  qed
qed

lemma acts_authorizer_of:
  "authorizer_along R A \<Longrightarrow> acts R (act_lift (authorizer_of A se)) (\<lambda>A'. policies_along R (au_offer A') (au_call A'))"
  by (rule acts_lift) (rule authorizer_of_along)

lemma acts_allows_call:
  assumes "authorizer_along R A" shows "acts R (allows_call A se t args) (\<lambda>_. True)"
  unfolding allows_call_def
  by (intro acts_bind [OF acts_authorizer_of [OF assms]] acts_cases acts_quiet) (auto simp: policies_along_def)

lemma authorized_tool_along: "authorizer_along R A \<Longrightarrow> tool_along R t \<Longrightarrow> tool_along R (authorized_tool A se t)"
  unfolding tool_along_def authorized_tool_def
  by (auto intro!: acts_seq acts_cases acts_raise acts_allows_call)

text \<open>A wrapped tool asks the authorizer that made the offer, which has the same policies.\<close>

lemma authorizer_of_self_along:
  assumes "authorizer_of A se = Inr A'" and "authorizer_along R A" shows "authorizer_along R A'"
proof -
  have "policies_along R (au_offer A') (au_call A')" using assms by (rule authorizer_of_along)
  moreover have "A' = A \<or> au_agents A' = []"
    using assms(1) by (auto simp: authorizer_of_def authorizer_for_def authorizer_new_def Let_def
        split: option.splits if_splits json.splits)
  ultimately show ?thesis using assms(2) by (auto simp: authorizer_along_def)
qed

lemma acts_offer_loop:
  assumes A: "authorizer_along R A"
  shows "\<forall>t \<in> set ts. tool_along R t \<Longrightarrow> acts R (offer_loop A se caller ts) (\<lambda>ts. \<forall>t \<in> set ts. tool_along R t)"
proof (induction ts)
  case Nil
  then show ?case by (simp add: acts_return)
next
  case (Cons t ts)
  have "acts R (offer_loop A se caller ts) (\<lambda>ts. \<forall>t \<in> set ts. tool_along R t)" using Cons by simp
  moreover have "acts R (act_return (if ok then authorized_tool A caller t # rest else rest))
      (\<lambda>ts. \<forall>t \<in> set ts. tool_along R t)" if "\<forall>t \<in> set rest. tool_along R t" for ok rest
    using that A Cons.prems by (auto intro!: acts_return authorized_tool_along)
  moreover have "acts R (case au_offer A of None \<Rightarrow> act_return True | Some policy \<Rightarrow> policy se t) (\<lambda>_. True)"
    using A by (intro acts_cases acts_quiet) (auto simp: authorizer_along_def policies_along_def)
  ultimately show ?case unfolding offer_loop.simps by (intro acts_seq acts_bind)
qed

lemma acts_allowed_tools:
  assumes "authorizer_along R A" "tools_along ts"
  shows "acts R (allowed_tools A se caller ts) (\<lambda>ts. \<forall>t \<in> set ts. tool_along R t)"
proof -
  have found: "acts R (act_lift (authorizer_of A se)) (authorizer_along R)"
    by (rule acts_lift) (rule authorizer_of_self_along [OF _ assms(1)])
  show ?thesis
    unfolding allowed_tools_def
    by (intro acts_bind [OF found] acts_cases acts_return acts_offer_loop) (use assms(2) in \<open>auto simp: tools_along_def\<close>)
qed

lemma acts_allowed_for:
  assumes "runtime_along R ru" "tools_along ts"
  shows "acts R (allowed_for ru se caller ts) (\<lambda>ts. \<forall>t \<in> set ts. tool_along R t)"
  unfolding allowed_for_def
  by (intro acts_cases acts_return acts_allowed_tools)
    (use assms in \<open>auto simp: runtime_along_def tools_along_def\<close>)

lemma acts_offer:
  assumes "runtime_along R ru"
  shows "acts R (offer ru se mode requested) (\<lambda>r. \<forall>t \<in> set (fst r). tool_along R t)"
proof -
  have found: "acts R (resolve_detailed (ru_tools ru) None names s) (\<lambda>rs. tools_along (map (\<lambda>(n, r). (n, rt_tool r)) rs))"
    for names s
    using assms by (intro acts_resolve_detailed) (simp_all add: runtime_along_def)
  show ?thesis
    unfolding offer_def Let_def
    by (intro acts_resolve_read_only acts_seq [OF acts_quiet(2)] acts_bind [OF found]
        acts_bind [OF acts_allowed_for [OF assms]] acts_return) auto
qed

lemma acts_legacy_offer:
  assumes "runtime_along R ru"
  shows "acts R (legacy_offer ru se mode names) (\<lambda>ts. \<forall>t \<in> set ts. tool_along R t)"
  unfolding legacy_offer_def
  by (intro acts_bind [OF acts_resolve_tools] acts_allowed_for assms) (use assms in \<open>simp_all add: runtime_along_def\<close>)

subsection \<open>Calls and events\<close>

lemma acts_invoke:
  assumes "\<forall>t \<in> set offered. tool_along R t" shows "acts R (invoke offered c) (\<lambda>_. True)"
proof -
  have "tool_along R t" if "find P offered = Some t" for P t
    using assms find_SomeD [OF that] by blast
  then show ?thesis
    unfolding invoke_def by (intro acts_rules) (auto simp: tool_along_def)
qed

lemma acts_calls:
  assumes "\<forall>t \<in> set offered. tool_along R t"
  shows "acts R (run_approved offered c) (\<lambda>_. True)" "acts R (invoke_all offered cs) (\<lambda>_. True)"
    "acts R (resolve_calls offered work rows) (\<lambda>_. True)"
proof -
  note inv = acts_invoke [OF assms]
  show run: "acts R (run_approved offered c) (\<lambda>_. True)" for c
    unfolding run_approved_def by (intro acts_rules inv)
  show "acts R (invoke_all offered cs) (\<lambda>_. True)"
    by (induction cs) (auto intro!: acts_rules inv)
  show "acts R (resolve_calls offered work rows) (\<lambda>_. True)"
    by (induction rows) (auto simp: Let_def intro!: acts_seq acts_cases acts_quiet run)
qed

lemma acts_emit_event:
  fixes ru :: "('s, ('s, 'z) world_scheme) runtime"
  assumes "runtime_along R ru" shows "acts R (emit_event ru ev) (\<lambda>_. True)"
proof -
  have "R (wd_ledger w) (wd_ledger (heard ev ls w))"
    if "\<forall>(i, f) \<in> set ls. \<forall>ev. acts R (f ev) (\<lambda>_. True)" for ls and w :: "('s, 'z) world_scheme"
    using that
  proof (induction ls arbitrary: w)
    case Nil
    then show ?case by (simp add: heard_def refl)
  next
    case (Cons l ls)
    obtain i f where l: "l = (i, f)" by force
    have "R (wd_ledger w) (wd_ledger (snd (f ev w)))" using Cons.prems l by (auto simp: acts_def)
    with Cons.IH [of "snd (f ev w)"] Cons.prems l show ?case by (auto simp: heard_def intro: trans)
  qed
  with assms have "R (wd_ledger w) (wd_ledger (heard ev (ru_listeners ru) w))" for w
    by (simp add: runtime_along_def)
  then have "acts R (emit ev (ru_listeners ru)) (\<lambda>_. True)"
    unfolding acts_def by (metis emit_run snd_conv)
  then show ?thesis unfolding emit_event_def by (intro acts_rules)
qed

lemma acts_resolve_work:
  assumes "\<forall>t \<in> set offered. tool_along R t"
  shows "acts R (resolve_work E se mode i offered) (\<lambda>r. \<forall>t \<in> set (fst r). tool_along R t)"
proof -
  have calls: "acts R (resolve_calls (filter P offered) work rows) (\<lambda>_. True)" for P work rows
    using assms by (intro acts_calls) auto
  show ?thesis
    unfolding resolve_work_def
    by (intro acts_seq acts_cases acts_return acts_thread acts_quiet calls) (use assms in auto)
qed

lemma acts_resolve_approvals:
  assumes "\<forall>t \<in> set offered. tool_along R t"
  shows "acts R (resolve_approvals E ru se mode i offered) (\<lambda>r. \<forall>t \<in> set (fst r). tool_along R t)"
  unfolding resolve_approvals_def
  by (intro acts_seq acts_cases acts_return acts_thread acts_session_lock acts_resolve_work assms)
    (use assms in auto)

lemma acts_finish:
  assumes "runtime_along R ru" shows "acts R (finish E ru rs called why text stopped) (\<lambda>_. True)"
  unfolding finish_def by (intro acts_rules acts_emit_event assms)

lemma acts_fail_turn:
  assumes "runtime_along R ru" shows "acts R (fail_turn E ru rs e) (\<lambda>_. True)"
  unfolding fail_turn_def by (intro acts_rules acts_emit_event assms)

lemma acts_open_turn:
  assumes "runtime_along R ru"
  shows "acts R (open_turn E ru rs prompt names admitted)
    (\<lambda>r. (\<forall>t \<in> set (rs_offered (fst r)). tool_along R t) \<and> rs_context (fst r) = rs_context rs)"
proof -
  have offered: "acts R (if se_agent (rs_session rs) = None \<and> \<not> ru_narrow ru
               then legacy_offer ru (rs_session rs) (rs_mode rs) names
               else act_bind (offer ru (rs_session rs) (rs_mode rs) names) (\<lambda>(ts, _). act_return ts))
      (\<lambda>ts. \<forall>t \<in> set ts. tool_along R t)"
    by (intro acts_cases acts_legacy_offer acts_bind [OF acts_offer] acts_return assms) auto
  have resolved: "acts R (resolve_approvals E ru (rs_session rs) (rs_mode rs) (rs_run_id rs)
        (within_scope (rs_mode rs) scope ts)) (\<lambda>r. \<forall>t \<in> set (fst r). tool_along R t)"
    if "\<forall>t \<in> set ts. tool_along R t" for ts scope
    using that by (intro acts_resolve_approvals) (auto simp: within_scope_def split: option.splits)
  show ?thesis
    unfolding open_turn_def
    by (intro acts_bind [OF offered] acts_seq [OF acts_thread(1)] acts_seq [OF acts_quiet(2)]
        acts_bind [OF resolved] acts_cases acts_seq acts_thread acts_quiet acts_return) auto
qed

end

interpretation same: ledger_relation "(=)"
  by unfold_locales auto

lemma keeps_iff: "acts (=) m P \<longleftrightarrow> (\<forall>w. wd_ledger (snd (m w)) = wd_ledger w \<and> (\<forall>x. fst (m w) = Inr x \<longrightarrow> P x))"
  by (auto simp: acts_def)

end
