(* ===== verification/BudgetProps.thy ===== *)
theory BudgetProps
  imports Budgets
begin

section \<open>What a run tree may spend\<close>

text \<open>
  The properties of \<open>subagents.py\<close>: the ceilings of nested budgets and the ledger a whole tree
  shares.
\<close>

text \<open>\<open>RunBudget(max_steps=n)\<close>: a ceiling on steps and no other limit.\<close>

definition steps_budget :: "int \<Rightarrow> run_budget" where
  "steps_budget n = \<lparr> rb_max_steps = n, rb_max_cost_usd = None, rb_max_seconds = None, rb_max_output = None \<rparr>"

lemma steps_budget_simps [simp]:
  "rb_max_steps (steps_budget n) = n" "rb_max_cost_usd (steps_budget n) = None"
  "rb_max_seconds (steps_budget n) = None" "rb_max_output (steps_budget n) = None"
  by (simp_all add: steps_budget_def)

lemma nested_steps_budget:
  "nested_within (steps_budget a) (steps_budget b) L m = Inr (steps_budget (min b (rl_steps L + a)))"
  by (simp add: nested_within_def run_budget_new_def lesser_def steps_budget_def)

subsection \<open>The properties\<close>

text \<open>C19: whatever the shape of a run tree (how many children, how deep, in which order, with whatever
  budgets they declare, cancelled or not), the steps on its ledger never pass the ceiling of its root:
  a fresh tree takes at most as many steps as the root's budget has.\<close>

theorem tree_never_passes_root_ceiling:
  assumes "tree_spend (context_root b) (ledger_start r m) L"
  shows "rl_steps L \<le> max 0 (rb_max_steps b)"
  using tree_spend_steps [OF assms] by (simp add: context_root_def ledger_start_def)

theorem tree_never_passes_root_ceiling_witness:
  "rl_steps (record_cost None (record_steps 1 (ledger_start ''r'' 0))) \<le> max 0 2"
proof -
  let ?b = "steps_budget 2"
  have "tree_spend (context_root ?b) (ledger_start ''r'' 0) (record_cost None (record_steps 1 (ledger_start ''r'' 0)))"
    by (rule tree_spend.step [where m = 0 and usd = None], simp add: exhaustion_def context_root_def ledger_start_def,
        rule tree_spend.stop)
  from tree_never_passes_root_ceiling [OF this] show ?thesis by simp
qed

text \<open>C20: a child gets exactly the lesser of what it declares and what its parent has left. Measured
  from the moment it starts, its allowance of steps, of money and of whole seconds is the minimum of
  the two, and its output ceiling is the smaller of the two; where one of them sets no limit the
  other's limit is the child's, and where neither does there is none. A cost limit that is infinite or
  not a number goes by Python's comparison: the parent's limit stands unless the child's own, counted
  from what the tree has spent, is below it.\<close>

theorem child_allowance_is_lesser:
  assumes "nested_within self parent L m = Inr b"
  shows "rb_max_steps b - rl_steps L = min (rb_max_steps self) (rb_max_steps parent - rl_steps L)
       \<and> (case (rb_max_cost_usd self, rb_max_cost_usd parent) of
            (None, c) \<Rightarrow> rb_max_cost_usd b = c
          | (Some x, None) \<Rightarrow> rb_max_cost_usd b = Some (pf_add (rl_cost_usd L) x)
          | (Some x, Some c) \<Rightarrow> rb_max_cost_usd b
              = Some (if pf_lt (pf_add (rl_cost_usd L) x) c then pf_add (rl_cost_usd L) x else c))
       \<and> (\<forall>q x c. rl_cost_usd L = Fin q \<and> rb_max_cost_usd self = Some (Fin x) \<and> rb_max_cost_usd parent = Some (Fin c)
            \<longrightarrow> rb_max_cost_usd b = Some (Fin (q + min x (c - q))))
       \<and> (case (rb_max_seconds self, rb_max_seconds parent) of
            (None, s) \<Rightarrow> rb_max_seconds b = s
          | (Some x, None) \<Rightarrow> rb_max_seconds b = Some (rat_trunc (m - rl_started_at L) + x)
          | (Some x, Some s) \<Rightarrow> rb_max_seconds b
               = Some (rat_trunc (m - rl_started_at L) + min x (s - rat_trunc (m - rl_started_at L))))
       \<and> (case (rb_max_output self, rb_max_output parent) of
            (None, p) \<Rightarrow> rb_max_output b = p
          | (Some n, None) \<Rightarrow> rb_max_output b = Some n
          | (Some n, Some p) \<Rightarrow> rb_max_output b = Some (if p = 0 then n else min n p))"
proof (intro conjI)
  show "rb_max_steps b - rl_steps L = min (rb_max_steps self) (rb_max_steps parent - rl_steps L)"
    using nested_max_steps [OF assms] by simp
  show "case (rb_max_cost_usd self, rb_max_cost_usd parent) of
      (None, c) \<Rightarrow> rb_max_cost_usd b = c
    | (Some x, None) \<Rightarrow> rb_max_cost_usd b = Some (pf_add (rl_cost_usd L) x)
    | (Some x, Some c) \<Rightarrow> rb_max_cost_usd b
        = Some (if pf_lt (pf_add (rl_cost_usd L) x) c then pf_add (rl_cost_usd L) x else c)"
    using assms by (auto simp: budget_defs lesser_def pf_min_def split: option.splits if_splits)
  show "\<forall>q x c. rl_cost_usd L = Fin q \<and> rb_max_cost_usd self = Some (Fin x) \<and> rb_max_cost_usd parent = Some (Fin c)
      \<longrightarrow> rb_max_cost_usd b = Some (Fin (q + min x (c - q)))"
    using assms by (auto simp: budget_defs lesser_def pf_min_def min_def split: option.splits if_splits)
  show "case (rb_max_seconds self, rb_max_seconds parent) of
      (None, s) \<Rightarrow> rb_max_seconds b = s
    | (Some x, None) \<Rightarrow> rb_max_seconds b = Some (rat_trunc (m - rl_started_at L) + x)
    | (Some x, Some s) \<Rightarrow> rb_max_seconds b
         = Some (rat_trunc (m - rl_started_at L) + min x (s - rat_trunc (m - rl_started_at L)))"
    using assms by (auto simp: budget_defs lesser_def elapsed_seconds_def split: option.splits if_splits)
  show "case (rb_max_output self, rb_max_output parent) of
      (None, p) \<Rightarrow> rb_max_output b = p
    | (Some n, None) \<Rightarrow> rb_max_output b = Some n
    | (Some n, Some p) \<Rightarrow> rb_max_output b = Some (if p = 0 then n else min n p)"
    using assms by (auto simp: budget_defs min_def split: option.splits if_splits)
qed

theorem child_allowance_is_lesser_witness:
  "\<exists>b. nested_within \<lparr>rb_max_steps = 8, rb_max_cost_usd = None, rb_max_seconds = None, rb_max_output = Some 900\<rparr>
         \<lparr>rb_max_steps = 5, rb_max_cost_usd = None, rb_max_seconds = None, rb_max_output = Some 700\<rparr>
         (record_steps 3 (ledger_start ''r'' 0)) 0 = Inr b
     \<and> rb_max_steps b - 3 = min 8 (5 - 3) \<and> rb_max_output b = Some 700"
proof -
  let ?s = "\<lparr>rb_max_steps = 8, rb_max_cost_usd = None, rb_max_seconds = None, rb_max_output = Some 900\<rparr>"
  let ?p = "\<lparr>rb_max_steps = 5, rb_max_cost_usd = None, rb_max_seconds = None, rb_max_output = Some 700\<rparr>"
  obtain b where b: "nested_within ?s ?p (record_steps 3 (ledger_start ''r'' 0)) 0 = Inr b"
    using nested_within_ok [of ?s ?p "record_steps 3 (ledger_start ''r'' 0)" 0] by (auto simp: budget_valid_def)
  with child_allowance_is_lesser [OF b] show ?thesis by (simp add: ledger_start_def)
qed

text \<open>A child may take a step only while its parent may. Whatever the ledger has become since the
  child was made, the child's budget is exhausted whenever the parent's is: no nesting escapes the
  parent's steps, money, wall clock, cancellation or the refusal to spend unmetered money.\<close>

theorem child_may_only_while_parent_may:
  assumes "nested_within self parent L0 m0 = Inr b" and "exhaustion L parent m \<noteq> None"
    and "rb_max_cost_usd parent \<noteq> Some NaN" "rb_max_cost_usd self \<noteq> Some NaN" "\<exists>q. rl_cost_usd L0 = Fin q"
  shows "exhaustion L b m \<noteq> None"
proof
  assume "exhaustion L b m = None"
  from child_may_parent_may [OF assms(1) this assms(3-5)] assms(2) show False by contradiction
qed

theorem child_may_only_while_parent_may_witness:
  "exhaustion (record_steps 5 (ledger_start ''r'' 0)) (steps_budget 5) 0 \<noteq> None"
proof -
  let ?p = "steps_budget 5"
  let ?s = "steps_budget 8"
  have "nested_within ?s ?p (ledger_start ''r'' 0) 0 = Inr ?p"
    by (simp add: nested_steps_budget ledger_start_def)
  moreover have "exhaustion (record_steps 5 (ledger_start ''r'' 0)) ?p 0 \<noteq> None"
    by (rule exhaustion_steps) (simp add: ledger_start_def)
  ultimately show ?thesis by (rule child_may_only_while_parent_may) (simp_all add: ledger_start_def)
qed

text \<open>A budget gives out exactly when it should. \<open>exhaustion\<close> is silent exactly when the tree is
  not cancelled, has a step left, has money left with every run metered (a run of unknown cost under a
  cost cap stops the tree: the cap cannot be enforced), and is inside its wall clock.\<close>

theorem exhaustion_is_exact:
  "exhaustion L b m = None \<longleftrightarrow>
     \<not> rl_cancelled L \<and> rl_steps L < rb_max_steps b
     \<and> (\<forall>c. rb_max_cost_usd b = Some c \<longrightarrow> rl_unmetered_runs L \<le> 0 \<and> \<not> pf_le c (rl_cost_usd L))
     \<and> (\<forall>s. rb_max_seconds b = Some s \<longrightarrow> elapsed_seconds L m < of_int s)"
  by (rule exhaustion_None_iff)

theorem exhaustion_is_exact_witness:
  "exhaustion (record_cost None (ledger_start ''r'' 0))
     \<lparr>rb_max_steps = 5, rb_max_cost_usd = Some (Fin 1), rb_max_seconds = None, rb_max_output = None\<rparr> 0 \<noteq> None"
  by (subst exhaustion_is_exact) (simp add: ledger_start_def record_cost_def)

text \<open>Cancelling a tree stops all of it. After a cancellation no run of the tree, at any depth,
  records another step, and nothing in the tree lifts the cancellation.\<close>

theorem cancelled_tree_takes_no_step:
  assumes "tree_spend c (ledger_cancel reason L) L'"
  shows "rl_steps L' = rl_steps L \<and> rl_cancelled L'"
  using tree_spend_cancelled [OF assms] by simp

theorem cancelled_tree_takes_no_step_witness:
  "rl_steps (ledger_cancel ''stop'' (ledger_start ''r'' 0)) = rl_steps (ledger_start ''r'' 0)"
  using cancelled_tree_takes_no_step [OF tree_spend.stop, of "''stop''" "ledger_start ''r'' 0"] by simp

end
