(* ===== verification/RunTree.thy ===== *)
theory RunTree
  imports RunLaws BudgetProps
begin

section \<open>What the loop spends\<close>

text \<open>
  The loop and the turn act on the ledger along any relation that allows one recorded step while the run's
  own budget is not exhausted (\<open>spending\<close>). Two instances: \<open>tree_spend ctx\<close>, so that a whole turn under a
  context is a walk of its run tree, and the order of the steps, which grows at every round, so that the
  loop ends.
\<close>

subsection \<open>Effects that end or do not\<close>

definition moves :: "(run_ledger \<Rightarrow> run_ledger \<Rightarrow> bool) \<Rightarrow> (('s, 'z) world_scheme \<Rightarrow> ('a \<times> ('s, 'z) world_scheme) option) \<Rightarrow> bool" where
  "moves R m = (\<forall>w r t. m w = Some (r, t) \<longrightarrow> R (wd_ledger w) (wd_ledger t))"

lemma keeps_bind:
  assumes "acts (=) m P" and "\<And>x t. P x \<Longrightarrow> wd_ledger t = L \<Longrightarrow> R L (wd_ledger (snd (f x t)))"
    and "wd_ledger w = L" and "R L L"
  shows "R L (wd_ledger (snd (act_bind m f w)))"
proof -
  obtain r t where m: "m w = (r, t)" by force
  with assms(1) have "wd_ledger t = wd_ledger w" "\<forall>x. r = Inr x \<longrightarrow> P x"
    unfolding acts_def by (metis snd_conv, metis fst_conv)
  with m assms(2-4) show ?thesis by (cases r) (auto simp: act_bind_def)
qed

lemmas keeps_bind_at = keeps_bind [where P = "\<lambda>_. True", OF _ _]

lemma keepsD: "acts (=) m P \<Longrightarrow> m w = (r, t) \<Longrightarrow> wd_ledger t = wd_ledger w"
  unfolding keeps_iff by (metis snd_conv)

lemma agent_loop_induct [consumes 1, case_names raised finished again]:
  assumes "agent_loop E ru rs text called w = Some out"
    and "\<And>text called w e t. loop_step E ru rs text called w = (Inl e, t) \<Longrightarrow> P text called w (Inl e, t)"
    and "\<And>text called w r t. loop_step E ru rs text called w = (Inr (Done r), t) \<Longrightarrow> P text called w (Inr r, t)"
    and "\<And>text called w text' called' t out. loop_step E ru rs text called w = (Inr (Again text' called'), t)
           \<Longrightarrow> P text' called' t out \<Longrightarrow> P text called w out"
  shows "P text called w out"
proof -
  have "E = E \<longrightarrow> ru = ru \<longrightarrow> rs = rs \<longrightarrow> P text called w out"
  proof (rule agent_loop.raw_induct [where P = "\<lambda>E' ru' rs' text called w out.
      E' = E \<longrightarrow> ru' = ru \<longrightarrow> rs' = rs \<longrightarrow> P text called w out", OF _ assms(1)], intro impI)
    fix go E' ru' rs' tx called w out
    assume ih: "\<And>E' ru' rs' tx called w out. go E' ru' rs' tx called w = Some out \<Longrightarrow>
        E' = E \<longrightarrow> ru' = ru \<longrightarrow> rs' = rs \<longrightarrow> P tx called w out"
      and run: "(case loop_step E' ru' rs' tx called w of (Inl e, t) \<Rightarrow> Some (Inl e, t)
        | (Inr (Done response), t) \<Rightarrow> Some (Inr response, t)
        | (Inr (Again text' called'), t) \<Rightarrow> go E' ru' rs' text' called' t) = Some out"
      and eqs: "E' = E" "ru' = ru" "rs' = rs"
    show "P tx called w out"
    proof (cases "loop_step E ru rs tx called w")
      case (Pair q t)
      show ?thesis
      proof (cases q)
        case (Inl e)
        with Pair run eqs assms(2) show ?thesis by auto
      next
        case (Inr z)
        with Pair run eqs assms(3,4) ih show ?thesis by (cases z) auto
      qed
    qed
  qed
  then show ?thesis by simp
qed

context ledger_relation
begin

lemma acts_then_run:
  assumes "acts R m P" and "\<And>x. P x \<Longrightarrow> moves R (f x)" shows "moves R (then_run m f)"
  unfolding moves_def
proof (intro allI impI)
  fix w r t assume run: "then_run m f w = Some (r, t)"
  obtain r1 t1 where m: "m w = (r1, t1)" by force
  note m' = actsD [OF assms(1) m]
  show "R (wd_ledger w) (wd_ledger t)"
  proof (cases r1)
    case (Inl e)
    with run m m' show ?thesis by (auto simp: then_run_def)
  next
    case (Inr x)
    with run m have "f x t1 = Some (r, t)" by (simp add: then_run_def)
    with assms(2) [of x] m' Inr have "R (wd_ledger t1) (wd_ledger t)" by (auto simp: moves_def)
    with m' show ?thesis by (blast intro: trans)
  qed
qed

lemma moves_on_error:
  assumes "moves R m" and "\<And>e. acts R (h e) (\<lambda>_. True)" shows "moves R (on_error m h)"
  unfolding moves_def
proof (intro allI impI)
  fix w r t assume run: "on_error m h w = Some (r, t)"
  then obtain r1 t1 where m: "m w = Some (r1, t1)" by (auto simp: on_error_def split: option.splits)
  with assms(1) have m': "R (wd_ledger w) (wd_ledger t1)" by (auto simp: moves_def)
  show "R (wd_ledger w) (wd_ledger t)"
  proof (cases r1)
    case (Inl e)
    with run m have "h e t1 = (r, t)" by (simp add: on_error_def)
    with actsD [OF assms(2)] m' show ?thesis by (blast intro: trans)
  next
    case (Inr x)
    with run m m' show ?thesis by (simp add: on_error_def)
  qed
qed

end

subsection \<open>The loop\<close>

text \<open>A budget that gives out whenever another does.\<close>

definition no_looser :: "run_budget \<Rightarrow> run_budget \<Rightarrow> bool" where
  "no_looser b c = (\<forall>L m. exhaustion L b m = None \<longrightarrow> exhaustion L c m = None)"

locale spending = ledger_relation +
  fixes b :: run_budget
  assumes step: "exhaustion L b m = None \<Longrightarrow> R L (record_cost usd (record_steps 1 L))"
begin

lemma acts_answer_end:
  assumes "runtime_along R ru" shows "acts R (answer_end E ru rs called response) (\<lambda>_. True)"
  unfolding answer_end_def by (intro acts_rules acts_finish assms)

lemma acts_calls_end:
  assumes "\<forall>t \<in> set (rs_offered rs). tool_along R t"
  shows "acts R (calls_end E rs called response calls gated requests) (\<lambda>_. True)"
  unfolding calls_end_def by (intro acts_rules acts_calls assms)

lemma take_response_after:
  assumes ru: "runtime_along R ru" and ts: "\<forall>t \<in> set (rs_offered rs). tool_along R t"
  shows "\<exists>usd. R (record_cost usd (record_steps 1 (wd_ledger w)))
    (wd_ledger (snd (take_response E ru rs called response w)))"
proof -
  let ?charge = "\<lambda>L. record_cost (lp_cost_usd response) (record_steps 1 L)"
  have "\<exists>rest. take_response E ru rs called response = act_bind (map_ledger ?charge) rest
      \<and> (\<forall>x. acts R (rest x) (\<lambda>_. True))"
    unfolding take_response_def Let_def
    by (intro exI conjI, rule HOL.refl, intro allI acts_rules acts_answer_end acts_calls_end ru ts)
  then obtain rest where rest: "take_response E ru rs called response = act_bind (map_ledger ?charge) rest"
    "\<And>x. acts R (rest x) (\<lambda>_. True)" by blast
  let ?w = "w\<lparr>wd_ledger := ?charge (wd_ledger w)\<rparr>"
  have "R (wd_ledger ?w) (wd_ledger (snd (rest () ?w)))"
    using rest(2) unfolding acts_def by blast
  then show ?thesis
    unfolding rest(1) by (auto simp: act_bind_def map_ledger_def)
qed

lemma take_response_along:
  assumes "runtime_along R ru" and "\<forall>t \<in> set (rs_offered rs). tool_along R t"
    and "exhaustion (wd_ledger w) b m = None"
  shows "R (wd_ledger w) (wd_ledger (snd (take_response E ru rs called response w)))"
  using take_response_after [OF assms(1,2)] step [OF assms(3)] by (blast intro: trans)

lemma loop_step_along:
  fixes ru :: "('s, ('s, 'z) world_scheme) runtime"
  assumes ru: "runtime_along R ru" and ts: "\<forall>t \<in> set (rs_offered rs). tool_along R t"
    and b: "no_looser (rc_budget (rs_context rs)) b"
  shows "acts R (loop_step E ru rs text called) (\<lambda>_. True)"
  unfolding acts_def
proof (intro allI conjI impI)
  fix w :: "('s, 'z) world_scheme"
  have client: "acts (=) (ru_client ru q) (\<lambda>_. True)" for q using ru by (simp add: runtime_along_def)
  have fin: "acts R (finish E ru rs called why text st) (\<lambda>_. True)" for why st by (rule acts_finish [OF ru])
  let ?m = "ev_monotonic E (lv_reads w)" and ?w = "w\<lparr>lv_reads := Suc (lv_reads w)\<rparr>"
  have w: "wd_ledger ?w = wd_ledger w" by simp
  show "R (wd_ledger w) (wd_ledger (snd (loop_step E ru rs text called w)))"
  proof (cases "exhaustion (wd_ledger w) (rc_budget (rs_context rs)) ?m")
    case None
    let ?go = "act_bind (thread_rows (rs_thread rs)) (\<lambda>rows.
        act_bind (act_lift (thread_view rows)) (\<lambda>messages.
        act_bind (ru_client ru (request_of rs messages)) (take_response E ru rs called)))"
    have last: "R (wd_ledger w) (wd_ledger (snd (take_response E ru rs called x t)))"
      if "wd_ledger t = wd_ledger w" for x t
      using take_response_along [OF ru ts, of t ?m] None b that by (simp add: no_looser_def)
    have "R (wd_ledger w) (wd_ledger (snd (?go ?w)))"
      by (intro keeps_bind_at [where R = R] same.acts_thread(1) same.acts_quiet(2) client refl w last)
    moreover have "loop_step E ru rs text called w = ?go ?w"
      using None by (simp add: loop_step_def act_bind_def read_env_def get_ledger_def)
    ultimately show ?thesis by simp
  next
    case (Some why)
    have "acts R (act_bind (finish E ru rs called ''budget_exhausted'' text (Some why)) (\<lambda>r. act_return (Done r))) (\<lambda>_. True)"
      by (intro acts_seq fin acts_quiet)
    then have "R (wd_ledger ?w) (wd_ledger (snd (act_bind (finish E ru rs called ''budget_exhausted'' text (Some why))
        (\<lambda>r. act_return (Done r)) ?w)))" unfolding acts_def by blast
    with Some show ?thesis by (simp add: loop_step_def act_bind_def read_env_def get_ledger_def)
  qed
qed simp

lemma agent_loop_along:
  assumes "runtime_along R ru" and "\<forall>t \<in> set (rs_offered rs). tool_along R t" and "no_looser (rc_budget (rs_context rs)) b"
  shows "moves R (agent_loop E ru rs text called)"
  unfolding moves_def
proof (intro allI impI)
  fix w r t assume "agent_loop E ru rs text called w = Some (r, t)"
  then have "R (wd_ledger w) (wd_ledger (snd (r, t)))"
  proof (induction rule: agent_loop_induct)
    case (again tx called w text' called' t out)
    from actsD [OF loop_step_along [OF assms] again.hyps] again.IH show ?case by (blast intro: trans)
  qed (use actsD [OF loop_step_along [OF assms]] in auto)
  then show "R (wd_ledger w) (wd_ledger t)" by simp
qed

lemma loop_step_again:
  fixes w :: "('s, 'z) world_scheme"
  assumes ru: "runtime_along R ru" and ts: "\<forall>t \<in> set (rs_offered rs). tool_along R t"
    and run: "loop_step E ru rs text called w = (Inr (Again text' called'), t)"
  shows "\<exists>usd. rl_steps (wd_ledger w) < rb_max_steps (rc_budget (rs_context rs))
      \<and> R (record_cost usd (record_steps 1 (wd_ledger w))) (wd_ledger t)"
proof -
  let ?m = "ev_monotonic E (lv_reads w)" and ?w = "w\<lparr>lv_reads := Suc (lv_reads w)\<rparr>"
  have none: "exhaustion (wd_ledger w) (rc_budget (rs_context rs)) ?m = None"
    using run by (auto simp: loop_step_def act_bind_def act_return_def read_env_def get_ledger_def
        split: option.splits prod.splits sum.splits)
  let ?go = "act_bind (thread_rows (rs_thread rs)) (\<lambda>rows.
        act_bind (act_lift (thread_view rows)) (\<lambda>messages.
        act_bind (ru_client ru (request_of rs messages)) (take_response E ru rs called)))"
  have "?go ?w = (Inr (Again text' called'), t)"
    using run none by (simp add: loop_step_def act_bind_def read_env_def get_ledger_def)
  then obtain rows w1 messages w2 response w3
    where reads: "thread_rows (rs_thread rs) ?w = (Inr rows, w1)" "act_lift (thread_view rows) w1 = (Inr messages, w2)"
      "ru_client ru (request_of rs messages) w2 = (Inr response, w3)"
      and last: "take_response E ru rs called response w3 = (Inr (Again text' called'), t)"
    by (auto simp: act_bind_def split: prod.splits sum.splits)
  have client: "acts (=) (ru_client ru q) (\<lambda>_. True)" for q using ru by (simp add: runtime_along_def)
  have "wd_ledger w3 = wd_ledger w2" by (rule keepsD [OF client reads(3)])
  also have "\<dots> = wd_ledger w1" by (rule keepsD [OF same.acts_quiet(2) reads(2)])
  also have "\<dots> = wd_ledger ?w" by (rule keepsD [OF same.acts_thread(1) reads(1)])
  finally have w3: "wd_ledger w3 = wd_ledger w" by simp
  obtain usd where "R (record_cost usd (record_steps 1 (wd_ledger w3)))
      (wd_ledger (snd (take_response E ru rs called response w3)))"
    using take_response_after [OF ru ts] by blast
  then show ?thesis
    using last w3 exhaustion_None_steps [OF none] by (intro exI [of _ usd]) simp
qed

end

subsection \<open>Its end\<close>

interpretation steps: spending "\<lambda>L M. rl_steps L \<le> rl_steps M" b for b
  by unfold_locales auto

text \<open>The steps a run may still take bound its rounds.\<close>

lemma agent_loop_ends:
  assumes "runtime_along (\<lambda>L M. rl_steps L \<le> rl_steps M) ru"
    and "\<forall>t \<in> set (rs_offered rs). tool_along (\<lambda>L M. rl_steps L \<le> rl_steps M) t"
  shows "\<exists>out. agent_loop E ru rs text called w = Some out"
proof (induction "nat (rb_max_steps (rc_budget (rs_context rs)) - rl_steps (wd_ledger w))"
    arbitrary: "text" called w rule: less_induct)
  case less
  show ?case
  proof (cases "loop_step E ru rs text called w")
    case (Pair q t)
    show ?thesis
    proof (cases q)
      case (Inl e)
      with Pair show ?thesis by (simp add: agent_loop.simps)
    next
      case (Inr z)
      show ?thesis
      proof (cases z)
        case (Done r)
        with Pair Inr show ?thesis by (simp add: agent_loop.simps)
      next
        case (Again tx called')
        with Pair Inr have step: "loop_step E ru rs text called w = (Inr (Again tx called'), t)" by simp
        from steps.loop_step_again [OF assms this] obtain usd
          where "rl_steps (wd_ledger w) < rb_max_steps (rc_budget (rs_context rs))"
            "rl_steps (record_cost usd (record_steps 1 (wd_ledger w))) \<le> rl_steps (wd_ledger t)" by blast
        then have "nat (rb_max_steps (rc_budget (rs_context rs)) - rl_steps (wd_ledger t))
            < nat (rb_max_steps (rc_budget (rs_context rs)) - rl_steps (wd_ledger w))" by simp
        from less [OF this] step show ?thesis by (simp add: agent_loop.simps [of E ru rs "text"])
      qed
    qed
  qed
qed

subsection \<open>The turn\<close>

text \<open>The runtime's own ceilings only narrow the budget of the context.\<close>

lemma bounded_run_no_looser:
  assumes "bounded_run ru se ctx L = Inr ctx'" shows "no_looser (rc_budget ctx') (rc_budget ctx)"
proof -
  have "rc_budget ctx' = rc_budget ctx
      \<or> (rb_max_steps (rc_budget ctx') \<le> rb_max_steps (rc_budget ctx)
         \<and> rb_max_cost_usd (rc_budget ctx') = rb_max_cost_usd (rc_budget ctx)
         \<and> rb_max_seconds (rc_budget ctx') = rb_max_seconds (rc_budget ctx))"
    using assms by (auto simp: bounded_run_def run_budget_new_def Let_def split: if_splits option.splits)
  then show ?thesis by (auto simp: no_looser_def exhaustion_None_iff)
qed

lemma bounded_run_depth: "bounded_run ru se ctx L = Inr ctx' \<Longrightarrow> rc_depth ctx' = rc_depth ctx"
  by (auto simp: bounded_run_def Let_def split: if_splits option.splits)

context ledger_relation
begin

lemma acts_start_turn:
  assumes ru: "runtime_along R ru"
  shows "acts R (start_turn E ru se prompt (Some ctx) attachments schema)
    (\<lambda>r. no_looser (rc_budget (rs_context (fst r))) (rc_budget ctx) \<and> rs_schema (fst r) = schema)"
proof -
  have bounded: "acts R (act_lift (bounded_run ru se c L)) (\<lambda>c. no_looser (rc_budget c) (rc_budget ctx))"
    if "c = ctx" for c L
    using that by (intro acts_lift) (auto intro: bounded_run_no_looser)
  have root: "acts R (context_or_root E i mode (Some ctx)) (\<lambda>c. c = ctx)" for i mode
    by (simp add: context_or_root_def acts_return)
  note quiet = acts_seq [OF acts_quiet(2)]
  show ?thesis
    unfolding start_turn_def Let_def
    by (intro acts_bind [OF bounded] quiet acts_seq [OF acts_session_reads(1)] acts_seq [OF acts_session_reads(2)]
        acts_seq [OF acts_session_reads(3)] acts_seq [OF acts_primitives(2)] acts_bind [OF root]
        acts_seq [OF acts_primitives(5)] acts_cases acts_raise acts_seq [OF acts_session_writes(4)]
        acts_seq [OF acts_emit_event [OF ru]] acts_return) simp_all
qed

end

context spending
begin

lemma run_turn_along:
  assumes "runtime_along R ru" and "no_looser (rc_budget (rs_context rs)) b"
  shows "moves R (run_turn E ru rs prompt names admitted)"
proof -
  have "moves R (case r of (rs', called) \<Rightarrow> agent_loop E ru rs' [] called)"
    if "(\<forall>t \<in> set (rs_offered (fst r)). tool_along R t) \<and> rs_context (fst r) = rs_context rs" for r
    using that assms by (cases r) (simp add: agent_loop_along)
  then show ?thesis
    unfolding run_turn_def
    by (intro moves_on_error acts_then_run [OF acts_open_turn] acts_fail_turn assms) simp_all
qed

lemma turn_along:
  assumes "runtime_along R ru" and "rc_budget ctx = b"
  shows "moves R (turn E ru se prompt names (Some ctx) attachments schema)"
proof -
  have "moves R (then_run (start_turn E ru se prompt (Some ctx) attachments schema)
      (\<lambda>(rs, admitted). run_turn E ru rs prompt names admitted))"
    using assms by (intro acts_then_run [OF acts_start_turn]) (auto intro: run_turn_along split: prod.splits)
  then show ?thesis by (simp add: turn_def own_ledger_def moves_def)
qed

end

interpretation tree: spending "tree_spend ctx" "rc_budget ctx" for ctx
  by unfold_locales (auto intro: tree_spend.intros tree_spend_trans)

end
