(* ===== verification/RunResults.thy ===== *)
theory RunResults
  imports RunTree
begin

section \<open>What a turn answers\<close>

text \<open>
  \<open>returns m Q\<close>: what \<open>m\<close> returns, and the world it returns in, satisfies \<open>Q\<close>. Here: the steps of a response
  are those of the ledger, its document was checked against the schema, and a turn always ends.
\<close>

definition returns :: "('w, 'a) py \<Rightarrow> ('a \<Rightarrow> 'w \<Rightarrow> bool) \<Rightarrow> bool" where
  "returns m Q = (\<forall>w x t. m w = (Inr x, t) \<longrightarrow> Q x t)"

named_theorems returns_rules \<open>what the pieces of a program return\<close>

lemma returnsD: "returns m Q \<Longrightarrow> m w = (Inr x, t) \<Longrightarrow> Q x t"
  unfolding returns_def by blast

lemma returns_seq: "(\<And>x. returns (f x) Q) \<Longrightarrow> returns (act_bind m f) Q"
  unfolding returns_def act_bind_def by (auto split: prod.splits sum.splits)

lemma returns_bind: "returns m (\<lambda>x _. P x) \<Longrightarrow> (\<And>x. P x \<Longrightarrow> returns (f x) Q) \<Longrightarrow> returns (act_bind m f) Q"
  unfolding returns_def act_bind_def by (fastforce split: prod.splits sum.splits)

lemma returns_return: "(\<And>w. Q x w) \<Longrightarrow> returns (act_return x) Q"
  by (simp add: returns_def act_return_def)

lemma returns_raise: "returns (act_raise e) Q"
  by (simp add: returns_def act_raise_def)

lemma returns_lift: "(\<And>x w. r = Inr x \<Longrightarrow> Q x w) \<Longrightarrow> returns (act_lift r) Q"
  by (simp add: returns_def act_lift_def)

lemma returns_ledger: "(\<And>w. Q (f (wd_ledger w)) w) \<Longrightarrow> returns (act_bind get_ledger (\<lambda>L. act_return (f L))) Q"
  by (simp add: returns_def act_bind_def get_ledger_def act_return_def)

lemma returns_cases:
  "(x = None \<Longrightarrow> returns m Q) \<Longrightarrow> (\<And>y. x = Some y \<Longrightarrow> returns (f y) Q) \<Longrightarrow> returns (case x of None \<Rightarrow> m | Some y \<Rightarrow> f y) Q"
  "(b \<Longrightarrow> returns m Q) \<Longrightarrow> (\<not> b \<Longrightarrow> returns n Q) \<Longrightarrow> returns (if b then m else n) Q"
  "(\<And>y z. q = (y, z) \<Longrightarrow> returns (g y z) Q) \<Longrightarrow> returns (case q of (y, z) \<Rightarrow> g y z) Q"
  by (auto split: option.split prod.split)

subsection \<open>The response\<close>

text \<open>What holds of every response: its steps are the ledger's, and a document in it was asked for, is there,
  passed the check, and belongs to a run that was not stopped.\<close>

definition response_ok :: "pydict option \<Rightarrow> agent_response \<Rightarrow> ('s, 'z) world_scheme \<Rightarrow> bool" where
  "response_ok schema r w =
     (ar_steps r = rl_steps (wd_ledger w)
      \<and> (case ar_structured r of
           None \<Rightarrow> True
         | Some v \<Rightarrow> v \<noteq> JNull \<and> ar_pending_approvals r = [] \<and> ar_stopped_because r = None
             \<and> (case schema of None \<Rightarrow> False | Some s \<Rightarrow> schema_problems s v (schema_name s) = [])))"

lemma finish_returns:
  "returns (finish E ru rs called why text stopped)
     (\<lambda>r w. ar_steps r = rl_steps (wd_ledger w) \<and> ar_structured r = None \<and> ar_pending_approvals r = []
        \<and> ar_stopped_because r = stopped)"
  unfolding finish_def by (intro returns_seq returns_ledger) simp_all

lemma assert_document_ok:
  "assert_document schema response = Inr u \<Longrightarrow>
     lp_structured response \<noteq> JNull \<and> schema_problems schema (lp_structured response) (schema_name schema) = []"
  by (auto simp: assert_document_def Let_def split: if_splits)

lemma returns_then:
  "returns m P \<Longrightarrow> (\<And>x w. P x w \<Longrightarrow> Q (f x) w) \<Longrightarrow> returns (act_bind m (\<lambda>x. act_return (f x))) Q"
  unfolding returns_def act_bind_def act_return_def by (fastforce split: prod.splits sum.splits)

definition round_ok :: "pydict option \<Rightarrow> round_end \<Rightarrow> ('s, 'z) world_scheme \<Rightarrow> bool" where
  "round_ok schema z w = (case z of Done r \<Rightarrow> response_ok schema r w | Again _ _ \<Rightarrow> True)"

lemma answer_end_returns: "returns (answer_end E ru rs called response) (round_ok (rs_schema rs))"
proof -
  have checked: "returns (case rs_schema rs of None \<Rightarrow> act_return () | Some s \<Rightarrow> act_lift (assert_document s response))
      (\<lambda>x _. case rs_schema rs of None \<Rightarrow> True | Some s \<Rightarrow> lp_structured response \<noteq> JNull
         \<and> schema_problems s (lp_structured response) (schema_name s) = [])"
    by (intro returns_cases returns_return returns_lift) (auto dest: assert_document_ok)
  show ?thesis
    unfolding answer_end_def
    by (intro returns_bind [OF checked] returns_then [OF finish_returns])
      (auto simp: round_ok_def response_ok_def split: option.splits)
qed

lemma calls_end_returns: "returns (calls_end E rs called response calls gated requests) (round_ok schema)"
  unfolding calls_end_def Let_def
  by (intro returns_seq returns_ledger) (simp add: round_ok_def response_ok_def)

lemma take_response_returns: "returns (take_response E ru rs called response) (round_ok (rs_schema rs))"
  unfolding take_response_def Let_def
  by (intro returns_seq returns_cases returns_raise answer_end_returns calls_end_returns)

lemma loop_step_returns: "returns (loop_step E ru rs text called) (round_ok (rs_schema rs))"
  unfolding loop_step_def
  by (intro returns_seq returns_cases returns_then [OF finish_returns] take_response_returns)
    (simp add: round_ok_def response_ok_def)

lemma agent_loop_response:
  assumes "agent_loop E ru rs text called w = Some (Inr r, t)"
  shows "response_ok (rs_schema rs) r t"
proof -
  have "agent_loop E ru rs tx called w = Some out \<Longrightarrow> fst out = Inr r \<Longrightarrow> response_ok (rs_schema rs) r (snd out)"
    for tx called w out
  proof (induction rule: agent_loop_induct)
    case (finished tx called w q t)
    from returnsD [OF loop_step_returns finished.hyps] finished.prems show ?case by (simp add: round_ok_def)
  qed auto
  from this [OF assms] show ?thesis by simp
qed

text \<open>A turn: what it starts from decides the schema, and its loop the response.\<close>

lemma start_turn_returns:
  "returns (start_turn E ru se prompt context attachments schema) (\<lambda>r _. rs_schema (fst r) = schema)"
  unfolding start_turn_def Let_def by (intro returns_seq returns_cases returns_raise returns_return) simp

lemma open_turn_returns:
  "returns (open_turn E ru rs prompt names admitted)
     (\<lambda>r _. rs_schema (fst r) = rs_schema rs \<and> rs_context (fst r) = rs_context rs \<and> rs_mode (fst r) = rs_mode rs)"
  unfolding open_turn_def by (intro returns_seq returns_cases returns_return) simp

lemma then_runD: "then_run m f w = Some (Inr y, t) \<Longrightarrow> \<exists>x u. m w = (Inr x, u) \<and> f x u = Some (Inr y, t)"
  by (auto simp: then_run_def split: prod.splits sum.splits)

lemma fail_turn_raises: "fst (fail_turn E ru rs e w) \<noteq> Inr x"
  by (auto simp: fail_turn_def act_bind_def act_raise_def split: prod.splits sum.splits)

lemma run_turn_response:
  assumes "run_turn E ru rs prompt names admitted w = Some (Inr r, t)"
  shows "response_ok (rs_schema rs) r t"
proof -
  from assms have "then_run (open_turn E ru rs prompt names admitted) (\<lambda>(rs', called). agent_loop E ru rs' [] called) w
      = Some (Inr r, t)"
    using fail_turn_raises [of E ru rs _ _ r]
    by (auto simp: run_turn_def on_error_def split: option.splits sum.splits prod.splits) (metis fst_conv)+
  then obtain x u where "open_turn E ru rs prompt names admitted w = (Inr x, u)"
    "agent_loop E ru (fst x) [] (snd x) u = Some (Inr r, t)" by (auto dest!: then_runD)
  with returnsD [OF open_turn_returns] agent_loop_response show ?thesis by metis
qed

subsection \<open>A turn with a tree of its own\<close>

interpretation inv: ledger_relation "\<lambda>L M. I L \<longrightarrow> I M" for I
  by unfold_locales auto

lemma returns_bind_keep:
  assumes m: "returns m (\<lambda>x w. P x \<and> I (wd_ledger w))" and f: "\<And>x. P x \<Longrightarrow> acts (\<lambda>L M. I L \<longrightarrow> I M) (f x) Q"
  shows "returns (act_bind m f) (\<lambda>y w. Q y \<and> I (wd_ledger w))"
  unfolding returns_def
proof (intro allI impI)
  fix w y t assume "act_bind m f w = (Inr y, t)"
  then obtain x u where x: "m w = (Inr x, u)" and y: "f x u = (Inr y, t)"
    by (auto simp: act_bind_def split: prod.splits sum.splits)
  from returnsD [OF m x] have P: "P x" and I: "I (wd_ledger u)" by simp_all
  from I inv.actsD [OF f [OF P] y] show "Q y \<and> I (wd_ledger t)" by simp
qed

lemma act_bind_InrE:
  assumes "act_bind m f w = (Inr y, t)" obtains x u where "m w = (Inr x, u)" "f x u = (Inr y, t)"
  using assms by (auto simp: act_bind_def split: prod.splits sum.splits)

lemma act_lift_InrE: assumes "act_lift r w = (Inr x, t)" obtains "r = Inr x" "t = w"
  using assms by (auto simp: act_lift_def)

lemma start_turn_mode:
  assumes "start_turn E ru se prompt context attachments schema w = (Inr (rs, admitted), t)"
  shows "\<exists>M name u. modes_for (se_agent se) (ru_modes ru) = Inr M \<and> session_mode E se w = (Inr name, u)
    \<and> resolve_mode M name = Inr (rs_mode rs)"
  using assms unfolding start_turn_def Let_def
  by (auto elim!: act_bind_InrE act_lift_InrE simp: act_raise_def act_return_def split: if_splits)

lemma bounded_run_steps:
  "bounded_run ru se ctx L = Inr ctx' \<Longrightarrow> rb_max_steps (rc_budget ctx') \<le> rb_max_steps (rc_budget ctx)"
  by (auto simp: bounded_run_def run_budget_new_def Let_def split: if_splits option.splits)

lemma start_own_turn:
  assumes ru: "runtime_along (=) ru" and n: "0 \<le> n"
  shows "returns (start_turn E ru se prompt None attachments schema)
    (\<lambda>r w. rb_max_steps (rc_budget (rs_context (fst r))) \<le> am_max_steps (rs_mode (fst r)) \<and> rl_steps (wd_ledger w) \<le> n)"
proof -
  let ?I = "\<lambda>L. rl_steps L \<le> n"
  have root: "returns (context_or_root E i mode None)
      (\<lambda>c w. rb_max_steps (rc_budget c) = am_max_steps mode \<and> ?I (wd_ledger w))" for i mode
    using n by (auto simp: returns_def context_or_root_def act_bind_def act_lift_def read_env_def map_ledger_def
        act_return_def run_budget_new_def context_root_def ledger_start_def)
  have bounded: "acts (\<lambda>L M. ?I L \<longrightarrow> ?I M) (act_lift (bounded_run ru se c L))
      (\<lambda>c'. rb_max_steps (rc_budget c') \<le> am_max_steps mode)" if "rb_max_steps (rc_budget c) = am_max_steps mode" for c L mode
    using that by (intro inv.acts_lift) (auto dest: bounded_run_steps)
  have emit: "acts (\<lambda>L M. ?I L \<longrightarrow> ?I M) (emit_event ru ev) (\<lambda>_. True)" for ev
    using same.acts_emit_event [OF ru, of ev] by (auto simp: acts_def)
  show ?thesis
    unfolding start_turn_def Let_def
    by (intro returns_bind_keep [OF root] returns_seq inv.acts_seq [OF inv.acts_primitives(5)] inv.acts_bind [OF bounded]
        inv.acts_seq [OF inv.acts_quiet(2)] inv.acts_cases inv.acts_raise inv.acts_seq [OF inv.acts_session_writes(4)]
        inv.acts_seq [OF inv.acts_primitives(2)] inv.acts_seq [OF emit] inv.acts_return) simp_all
qed

end
