(* ===== verification/AgentTree.thy ===== *)
theory AgentTree
  imports RunResults
begin

section \<open>Trees of agents\<close>

text \<open>
  \<open>SubagentRunner\<close> closed over its runtime. A runner has one \<open>AgentRuntime\<close> for good, \<open>self._runtime\<close>; the host
  makes tools of its subagents with \<open>runner.tool(subagent, parent, context, run_id)\<close>, each bound to the session,
  the context and the run it was made with, and registers them beside its own tools in the registry of that
  same runtime. So a child that is offered such a tool calls \<open>self._runtime.send\<close> again from inside a
  \<open>send\<close> of the same runtime. \<open>runtime_at n\<close> is that runtime with room for \<open>n\<close> more nested calls on Python's stack:
  without any, \<open>send\<close> raises \<open>RecursionError\<close>, which the runner's \<open>except Exception\<close> frames as a failed subagent.
  The bounds proved hold for every \<open>n\<close>. All contexts belong to one tree and share its ledger.
\<close>

definition recursion_error :: exn where
  "recursion_error = OtherErr ''maximum recursion depth exceeded''"

text \<open>\<open>self._runtime.send(child, task, context=child_context)\<close>; a send that does not end would have no outcome,
  and \<open>runner_send_ends\<close> shows that there is none.\<close>

definition runner_send ::
  "env \<Rightarrow> ('s, ('s, 'z) world_scheme) runtime
     \<Rightarrow> 's session \<Rightarrow> string \<Rightarrow> run_context \<Rightarrow> (('s, 'z) world_scheme, agent_response) py" where
  "runner_send E ru child task ctx w =
     (case send E ru child task None (Some ctx) [] w of Some out \<Rightarrow> out | None \<Rightarrow> (Inl AssertionErr, w))"

text \<open>\<open>runtime.tools.register_many([...])\<close> by the host.\<close>

definition with_tools ::
  "('s, 'w) runtime \<Rightarrow> 'w tool list \<Rightarrow> ('s, 'w) runtime" where
  "with_tools ru ts =
     ru\<lparr>ru_tools := (ru_tools ru)\<lparr>rs_root := snd (register_many ts None (rs_root (ru_tools ru)))\<rparr>\<rparr>"

type_synonym 's made_tool = "subagent \<times> 's session \<times> run_context \<times> string"

definition made_tools ::
  "env \<Rightarrow> (participant \<Rightarrow> string option \<Rightarrow> actor \<Rightarrow> string \<Rightarrow> 's session pyres)
     \<Rightarrow> ('s session \<Rightarrow> string \<Rightarrow> run_context \<Rightarrow> (('s, 'z) world_scheme, agent_response) py)
     \<Rightarrow> 's made_tool list \<Rightarrow> ('s, 'z) world_scheme tool list" where
  "made_tools E open_session runtime_send made =
     map (\<lambda>(a, parent, ctx, run_id). subagent_tool E open_session runtime_send a parent ctx run_id) made"

fun runtime_at ::
  "env \<Rightarrow> (participant \<Rightarrow> string option \<Rightarrow> actor \<Rightarrow> string \<Rightarrow> 's session pyres)
     \<Rightarrow> ('s, ('s, 'z) world_scheme) runtime \<Rightarrow> 's made_tool list \<Rightarrow> nat \<Rightarrow> ('s, ('s, 'z) world_scheme) runtime" where
  "runtime_at E open_session ru made 0 =
     with_tools ru (made_tools E open_session (\<lambda>child task ctx. act_raise recursion_error) made)"
| "runtime_at E open_session ru made (Suc n) =
     with_tools ru (made_tools E open_session (runner_send E (runtime_at E open_session ru made n)) made)"

subsection \<open>Monotony in the relation\<close>

lemma acts_mono:
  assumes "acts R m P" "\<And>L M. R L M \<Longrightarrow> S L M" "\<And>x. P x \<Longrightarrow> Q x" shows "acts S m Q"
  using assms unfolding acts_def by blast

lemma tool_along_mono: "tool_along R t \<Longrightarrow> (\<And>L M. R L M \<Longrightarrow> S L M) \<Longrightarrow> tool_along S t"
  unfolding tool_along_def by (blast intro: acts_mono)

lemma registry_along_mono:
  assumes X: "registry_along R X" and RS: "\<And>L M. R L M \<Longrightarrow> S L M" shows "registry_along S X"
  unfolding registry_along_def
proof (intro conjI ballI)
  fix p assume p: "p \<in> set (tr_tools X)"
  show "case p of (n, t) \<Rightarrow> tool_along S t"
  proof (cases p)
    case (Pair n t)
    with X p have "tool_along R t" by (auto simp: registry_along_def)
    with RS Pair show ?thesis by (auto intro: tool_along_mono)
  qed
next
  fix p assume p: "p \<in> set (tr_factories X)"
  show "case p of (n, f) \<Rightarrow> \<forall>se. acts S (f se) (tool_along S)"
  proof (cases p)
    case (Pair n f)
    with X p have "acts R (f se) (tool_along R)" for se by (auto simp: registry_along_def)
    with RS Pair show ?thesis by (auto intro: acts_mono tool_along_mono)
  qed
next
  fix p assume p: "p \<in> set (tr_providers X)"
  show "case p of (n, f, x) \<Rightarrow> \<forall>se. acts S (f se) (\<lambda>ts. \<forall>t \<in> set ts. tool_along S t)"
  proof (cases p)
    case (fields n f x)
    with X p have "acts R (f se) (\<lambda>ts. \<forall>t \<in> set ts. tool_along R t)" for se by (auto simp: registry_along_def)
    then have "acts S (f se) (\<lambda>ts. \<forall>t \<in> set ts. tool_along S t)" for se
      by (rule acts_mono) (use RS in \<open>blast intro: tool_along_mono\<close>)+
    with fields show ?thesis by simp
  qed
qed

lemma policies_along_mono: "policies_along R p q \<Longrightarrow> (\<And>L M. R L M \<Longrightarrow> S L M) \<Longrightarrow> policies_along S p q"
  unfolding policies_along_def by (blast intro: acts_mono)

lemma authorizer_along_mono:
  assumes "authorizer_along R A" "\<And>L M. R L M \<Longrightarrow> S L M" shows "authorizer_along S A"
  using assms policies_along_mono [OF _ assms(2)] unfolding authorizer_along_def by fast

lemma runtime_along_mono:
  assumes ru: "runtime_along R ru" and RS: "\<And>L M. R L M \<Longrightarrow> S L M" shows "runtime_along S ru"
proof -
  have "acts S (f ev) (\<lambda>_. True)" if "(i, f) \<in> set (ru_listeners ru)" for i f ev
  proof -
    from ru that have "acts R (f ev) (\<lambda>_. True)" by (auto simp: runtime_along_def)
    then show ?thesis by (rule acts_mono) (use RS in auto)
  qed
  with ru RS show ?thesis
    unfolding runtime_along_def by (auto intro: registry_along_mono authorizer_along_mono)
qed

subsection \<open>Every turn ends\<close>

lemma run_turn_ends:
  assumes "runtime_along (\<lambda>L M. rl_steps L \<le> rl_steps M) ru"
  shows "\<exists>out. run_turn E ru rs prompt names admitted w = Some out"
proof -
  obtain q t where open_t: "open_turn E ru rs prompt names admitted w = (q, t)" by force
  have "\<exists>out. then_run (open_turn E ru rs prompt names admitted) (\<lambda>(rs', called). agent_loop E ru rs' [] called) w = Some out"
  proof (cases q)
    case (Inl e)
    with open_t show ?thesis by (simp add: then_run_def)
  next
    case (Inr x)
    obtain rs' called where x: "x = (rs', called)" by force
    from steps.actsD [OF steps.acts_open_turn [OF assms] open_t] Inr x
    have "\<forall>t \<in> set (rs_offered rs'). tool_along (\<lambda>L M. rl_steps L \<le> rl_steps M) t" by simp
    from agent_loop_ends [OF assms this] open_t Inr x show ?thesis by (simp add: then_run_def)
  qed
  then show ?thesis by (auto simp: run_turn_def on_error_def split: sum.split)
qed

lemma turn_ends:
  assumes "runtime_along (\<lambda>L M. rl_steps L \<le> rl_steps M) ru"
  shows "\<exists>out. turn E ru se prompt names context attachments schema w = Some out"
proof -
  have "\<exists>out. then_run (start_turn E ru se prompt context attachments schema)
      (\<lambda>(rs, admitted). run_turn E ru rs prompt names admitted) w = Some out"
    using run_turn_ends [OF assms] by (auto simp: then_run_def split: prod.split sum.split)
  then show ?thesis by (auto simp: turn_def own_ledger_def split: option.split)
qed

text \<open>A host whose own tools walk along the run tree of the context makes a \<open>send\<close> that does: the abstract trees of
  \<open>Budgets\<close> cover the loop of the runtime.\<close>

lemma send_walks_tree:
  assumes "runtime_along (tree_spend ctx) ru" and "send E ru se prompt names (Some ctx) attachments w = Some (r, t)"
  shows "tree_spend ctx (wd_ledger w) (wd_ledger t)"
  using tree.turn_along [OF assms(1) HOL.refl] assms(2) by (auto simp: send_def moves_def)

subsection \<open>Subagents\<close>

context ledger_relation
begin

text \<open>A run of a subagent moves the ledger as the sends it may make do: those under a child of its context.\<close>

lemma acts_subagent_run:
  assumes send: "\<And>child task c L m. for_child ctx a pid L m = Inr c \<Longrightarrow> acts R (send_child child task c) (\<lambda>_. True)"
  shows "acts R (subagent_run E open_session send_child a parent ctx pid task) (\<lambda>_. True)"
proof -
  have made: "acts R (act_lift (for_child ctx a pid L m)) (\<lambda>c. for_child ctx a pid L m = Inr c)" for L m
    by (rule acts_lift)
  have child: "acts R (run_child E send_child a parent child c i pid task p q) (\<lambda>_. True)"
    if "for_child ctx a pid L m = Inr c" for L m child c i p q
    unfolding run_child_def child_defaults_def
    by (intro acts_seq acts_catch acts_cases acts_quiet acts_session_writes send [OF that])
  show ?thesis
    unfolding subagent_run_def Let_def
    by (intro acts_seq [OF acts_primitives(2)] acts_seq [OF acts_primitives(5)] acts_cases acts_quiet
        acts_bind [OF made] acts_seq [OF acts_quiet(2)] acts_seq [OF acts_in_session]
        acts_session_writes acts_primitives(4) acts_seq [OF acts_session_reads(3)] acts_seq [OF acts_session_reads(2)]
        acts_seq [OF acts_session_writes(1)] acts_in_session child)
qed

lemma subagent_tool_along:
  assumes "\<And>child task c L m. for_child ctx a pid L m = Inr c \<Longrightarrow> acts R (send_child child task c) (\<lambda>_. True)"
  shows "tool_along R (subagent_tool E open_session send_child a parent ctx pid)"
  unfolding tool_along_def subagent_tool_def
  by (auto intro!: acts_cases acts_raise acts_seq acts_quiet acts_subagent_run assms)

end

subsection \<open>Registering tools\<close>

lemma update_set: "set (AList.update k v xs) \<subseteq> insert (k, v) (set xs)"
  by (induction xs) auto

lemma delete_set: "set (AList.delete k xs) \<subseteq> set xs"
  by (auto simp: AList.delete_eq)

lemma claim_name_form:
  assumes "claim_name name owner src old X = Inr Y"
  shows "tr_tools Y \<in> {tr_tools X, AList.delete name (tr_tools X)}
       \<and> tr_factories Y \<in> {tr_factories X, AList.delete name (tr_factories X)} \<and> tr_providers Y = tr_providers X"
proof (cases old)
  case None
  with assms show ?thesis
    by (cases "map_of (tr_metadata X) name") (auto simp: claim_name_def Let_def split: if_splits)
next
  case (Some o')
  with assms have "map_option fst (map_of (tr_metadata X) name) = Some o'"
    by (cases "map_option fst (map_of (tr_metadata X) name) = Some o'") (simp_all add: claim_name_def Let_def)
  with Some assms show ?thesis by (auto simp: claim_name_def Let_def)
qed

lemma claim_name_tools:
  assumes "claim_name name owner src old X = Inr Y"
  shows "set (tr_tools Y) \<subseteq> set (tr_tools X)" "set (tr_factories Y) \<subseteq> set (tr_factories X)"
    "tr_providers Y = tr_providers X"
  using claim_name_form [OF assms] delete_set [of name "tr_tools X"] delete_set [of name "tr_factories X"] by auto

lemma claim_name_along: "claim_name name owner src old X = Inr Y \<Longrightarrow> registry_along R X \<Longrightarrow> registry_along R Y"
  unfolding registry_along_def by (frule claim_name_tools(1), frule claim_name_tools(2), drule claim_name_tools(3)) fastforce

lemma register_along:
  assumes "register t owner X = Inr Y" "registry_along R X" "tool_along R t" shows "registry_along R Y"
proof -
  obtain Z label where Z: "claim_name (tl_name t) owner ''static'' None X = Inr Z"
    and Y: "Y = Z\<lparr>tr_tools := AList.update (tl_name t) t (tr_tools Z),
          tr_static_owners := AList.update (tl_name t) label (tr_static_owners Z)\<rparr>"
    using assms(1) by (auto simp: register_def put_tool_def)
  have "registry_along R Z" using claim_name_along [OF Z assms(2)] .
  with assms(3) update_set [of "tl_name t" t "tr_tools Z"] show ?thesis
    unfolding Y registry_along_def by (fastforce dest: set_mp)
qed

lemma register_many_along:
  "registry_along R X \<Longrightarrow> \<forall>t \<in> set ts. tool_along R t \<Longrightarrow> registry_along R (snd (register_many ts owner X))"
  by (induction ts owner X rule: register_many.induct) (auto intro: register_along split: sum.split)

lemma with_tools_along:
  "runtime_along R ru \<Longrightarrow> \<forall>t \<in> set ts. tool_along R t \<Longrightarrow> runtime_along R (with_tools ru ts)"
  by (auto simp: runtime_along_def with_tools_def intro!: register_many_along)

subsection \<open>The steps of a tree\<close>

text \<open>What the whole tree may do to the ledger while no context in it has more than \<open>N\<close> steps.\<close>

definition within_steps :: "int \<Rightarrow> run_ledger \<Rightarrow> run_ledger \<Rightarrow> bool" where
  "within_steps N L M =
     (rl_steps L \<le> rl_steps M \<and> rl_steps M \<le> max N (rl_steps L)
      \<and> (rl_cancelled L \<longrightarrow> rl_cancelled M \<and> rl_steps M = rl_steps L))"

text \<open>What is asked of the host's own tools, policies and listeners: they may charge costs and cancel the tree, but
  take no steps for it and lift no cancellation.\<close>

definition leaves_steps :: "run_ledger \<Rightarrow> run_ledger \<Rightarrow> bool" where
  "leaves_steps L M = (rl_steps M = rl_steps L \<and> (rl_cancelled L \<longrightarrow> rl_cancelled M))"

interpretation within: ledger_relation "within_steps N" for N
  by unfold_locales (auto simp: within_steps_def)

lemma within_spending:
  assumes "rb_max_steps b \<le> N" shows "spending (within_steps N) b"
proof (unfold_locales, goal_cases)
  case (1 L m usd)
  then have "rl_steps L < rb_max_steps b" "\<not> rl_cancelled L" by (simp_all add: exhaustion_None_iff)
  with assms show ?case by (simp add: within_steps_def)
qed

lemma leaves_within: "leaves_steps L M \<Longrightarrow> within_steps N L M"
  by (auto simp: leaves_steps_def within_steps_def)

lemma for_child_steps: "for_child c a pid L m = Inr d \<Longrightarrow> rb_max_steps (rc_budget d) \<le> rb_max_steps (rc_budget c)"
  by (auto simp: for_child_def dest: nested_steps_le_parent split: sum.splits)

lemma runtime_ends: "runtime_along (within_steps N) ru \<Longrightarrow> \<exists>r t. send E ru se prompt names context attachments w = Some (r, t)"
proof -
  assume "runtime_along (within_steps N) ru"
  then have "runtime_along (\<lambda>L M. rl_steps L \<le> rl_steps M) ru"
    by (rule runtime_along_mono) (simp add: within_steps_def)
  from turn_ends [OF this] show ?thesis unfolding send_def by (metis prod.collapse)
qed

lemma send_within:
  assumes "runtime_along (within_steps N) ru" and "rb_max_steps (rc_budget ctx) \<le> N"
    and run: "send E ru se prompt names (Some ctx) attachments w = Some (r, t)"
  shows "within_steps N (wd_ledger w) (wd_ledger t)"
  using spending.turn_along [OF within_spending [OF assms(2)] assms(1) HOL.refl] run
  by (auto simp: send_def moves_def)

lemma runner_send_along:
  assumes "runtime_along (within_steps N) ru" and "rb_max_steps (rc_budget ctx) \<le> N"
  shows "acts (within_steps N) (runner_send E ru child task ctx) (\<lambda>_. True)"
proof (rule within.actsI)
  fix w r t assume run: "runner_send E ru child task ctx w = (r, t)"
  obtain r' t' where s: "send E ru child task None (Some ctx) [] w = Some (r', t')"
    using runtime_ends [OF assms(1)] by blast
  with run send_within [OF assms s] show "within_steps N (wd_ledger w) (wd_ledger t) \<and> (\<forall>x. r = Inr x \<longrightarrow> True)"
    by (simp add: runner_send_def)
qed

lemma made_tools_along:
  assumes made: "\<forall>(a, parent, c, i) \<in> set made. rb_max_steps (rc_budget c) \<le> N"
    and send: "\<And>child task c. rb_max_steps (rc_budget c) \<le> N \<Longrightarrow> acts (within_steps N) (runtime_send child task c) (\<lambda>_. True)"
  shows "\<forall>t \<in> set (made_tools E open_session runtime_send made). tool_along (within_steps N) t"
proof
  fix t assume "t \<in> set (made_tools E open_session runtime_send made)"
  then obtain a parent c i where t: "t = subagent_tool E open_session runtime_send a parent c i" and c: "rb_max_steps (rc_budget c) \<le> N"
    using made by (auto simp: made_tools_def)
  have "rb_max_steps (rc_budget d) \<le> N" if "for_child c a i L m = Inr d" for L m d
    using for_child_steps [OF that] c by simp
  then show "tool_along (within_steps N) t"
    unfolding t by (intro within.subagent_tool_along send)
qed

lemma runtime_at_along:
  assumes host: "runtime_along leaves_steps ru" and made: "\<forall>(a, parent, c, i) \<in> set made. rb_max_steps (rc_budget c) \<le> N"
  shows "runtime_along (within_steps N) (runtime_at E open_session ru made n)"
proof (induction n)
  case 0
  have "runtime_along (within_steps N) ru" using host leaves_within by (rule runtime_along_mono)
  then show ?case
    by (auto intro!: with_tools_along made_tools_along [OF made, THEN bspec] within.acts_raise)
next
  case (Suc n)
  have "runtime_along (within_steps N) ru" using host leaves_within by (rule runtime_along_mono)
  then show ?case
    by (auto intro!: with_tools_along made_tools_along [OF made, THEN bspec] runner_send_along [OF Suc])
qed

lemma runner_send_ends:
  assumes "runtime_along leaves_steps ru" and "\<forall>(a, parent, c, i) \<in> set made. rb_max_steps (rc_budget c) \<le> N"
  shows "\<exists>r t. send E (runtime_at E open_session ru made n) se prompt names context attachments w = Some (r, t)"
  by (rule runtime_ends [OF runtime_at_along [OF assms]])

end
