(* ===== verification/LoopLaws.thy ===== *)
theory LoopLaws
  imports RunResults
begin

section \<open>What the loop depends on\<close>

text \<open>
  Two runs whose rounds agree agree altogether (\<open>agent_loop_cong\<close>). With it: the client is only ever called
  while the run may spend (\<open>guarded_client\<close> changes nothing), and the handler of a tool that needs approval
  is never called by the loop (\<open>disarmed\<close> changes nothing).
\<close>

lemma agent_loop_le:
  assumes eq: "\<And>text called w. loop_step E ru rs text called w = loop_step F rv ss text called w"
    and run: "agent_loop E ru rs text called w = Some out"
  shows "agent_loop F rv ss text called w = Some out"
  using run
proof (induction rule: agent_loop_induct)
  case (raised tx called w e t)
  then show ?case by (simp add: agent_loop.simps eq)
next
  case (finished tx called w r t)
  then show ?case by (simp add: agent_loop.simps eq)
next
  case (again tx called w text' called' t out)
  then show ?case by (simp add: agent_loop.simps [of F rv ss tx] eq)
qed

lemma agent_loop_cong:
  assumes "\<And>text called w. loop_step E ru rs text called w = loop_step F rv ss text called w"
  shows "agent_loop E ru rs text called w = agent_loop F rv ss text called w"
proof (cases "agent_loop E ru rs text called w")
  case None
  moreover have "agent_loop F rv ss text called w = Some out \<Longrightarrow> agent_loop E ru rs text called w = Some out" for out
    by (rule agent_loop_le) (rule assms [symmetric])
  ultimately show ?thesis by (cases "agent_loop F rv ss text called w") auto
next
  case (Some out)
  with agent_loop_le [OF assms Some] show ?thesis by simp
qed

lemma bind_cong: "m = n \<Longrightarrow> (\<And>x. f x = g x) \<Longrightarrow> act_bind m f = act_bind n g"
  by (simp add: act_bind_def fun_eq_iff split: prod.split sum.split)

text \<open>Code that leaves the ledger alone, before a client that looks at it.\<close>

lemma bind_at:
  assumes "acts (=) m (\<lambda>_. True)" and "wd_ledger w = L"
    and "\<And>x t. wd_ledger t = L \<Longrightarrow> f x t = g x t"
  shows "act_bind m f w = act_bind m g w"
proof -
  obtain r t where m: "m w = (r, t)" by force
  with assms show ?thesis by (cases r) (auto simp: act_bind_def dest: keepsD)
qed

subsection \<open>The budget is asked first\<close>

definition guarded_client :: "run_budget \<Rightarrow> ('s, 'z) world_scheme llm_client \<Rightarrow> ('s, 'z) world_scheme llm_client" where
  "guarded_client b client q w =
     (if exhaustion (wd_ledger w) (b\<lparr>rb_max_seconds := None\<rparr>) 0 = None then client q w else (Inl AssertionErr, w))"

lemma guarded_client_runs:
  "exhaustion (wd_ledger w) b m = None \<Longrightarrow> guarded_client b client q w = client q w"
  by (simp add: guarded_client_def exhaustion_None_iff)

lemma ends_with_listeners:
  assumes "ru_listeners ru = ru_listeners rv"
  shows "finish E ru = finish E rv" "take_response E ru = take_response E rv"
proof -
  have emit: "emit_event ru = emit_event rv" using assms by (intro ext) (simp add: emit_event_def)
  show finish: "finish E ru = finish E rv" by (intro ext) (simp only: finish_def emit)
  have "answer_end E ru = answer_end E rv" by (intro ext) (simp only: answer_end_def finish)
  then show "take_response E ru = take_response E rv" by (intro ext) (simp only: take_response_def)
qed

lemma loop_step_guarded:
  "loop_step E (ru\<lparr>ru_client := guarded_client (rc_budget (rs_context rs)) (ru_client ru)\<rparr>) rs text called w
     = loop_step E ru rs text called w"
proof -
  let ?b = "rc_budget (rs_context rs)"
  let ?rv = "ru\<lparr>ru_client := guarded_client ?b (ru_client ru)\<rparr>"
  let ?L = "wd_ledger w" and ?w = "w\<lparr>lv_reads := Suc (lv_reads w)\<rparr>" and ?m = "ev_monotonic E (lv_reads w)"
  have same_end: "finish E ?rv = finish E ru" "take_response E ?rv = take_response E ru"
    by (rule ends_with_listeners, simp)+
  have w: "wd_ledger ?w = ?L" by simp
  show ?thesis
  proof (cases "exhaustion ?L ?b ?m")
    case None
    then have client: "act_bind (ru_client ?rv q) (take_response E ru rs called) t
        = act_bind (ru_client ru q) (take_response E ru rs called) t" if "wd_ledger t = ?L" for q t
      using that guarded_client_runs [of t ?b ?m "ru_client ru" q] by (simp add: act_bind_def)
    have "act_bind (thread_rows (rs_thread rs)) (\<lambda>rows. act_bind (act_lift (thread_view rows)) (\<lambda>messages.
          act_bind (ru_client ?rv (request_of rs messages)) (take_response E ru rs called))) ?w
      = act_bind (thread_rows (rs_thread rs)) (\<lambda>rows. act_bind (act_lift (thread_view rows)) (\<lambda>messages.
          act_bind (ru_client ru (request_of rs messages)) (take_response E ru rs called))) ?w"
      by (rule bind_at [OF same.acts_thread(1) w], rule bind_at [OF same.acts_quiet(2)], assumption, rule client)
    with None show ?thesis
      unfolding loop_step_def same_end by (simp add: act_bind_def read_env_def get_ledger_def)
  next
    case (Some why)
    then show ?thesis
      unfolding loop_step_def same_end by (simp add: act_bind_def read_env_def get_ledger_def)
  qed
qed

subsection \<open>Gated handlers\<close>

definition disarmed :: "(string \<Rightarrow> bool) \<Rightarrow> 'w tool \<Rightarrow> 'w tool" where
  "disarmed P t = (if P (tl_name t) then t\<lparr>tl_handle := (\<lambda>_. act_raise AssertionErr)\<rparr> else t)"

lemma disarmed_name [simp]: "tl_name (disarmed P t) = tl_name t"
  by (simp add: disarmed_def)

lemma name_disarmed: "tl_name \<circ> disarmed P = tl_name"
  by (simp add: fun_eq_iff)

lemma find_disarmed: "find (\<lambda>t. tl_name t = n) (map (disarmed P) ts) = map_option (disarmed P) (find (\<lambda>t. tl_name t = n) ts)"
  by (induction ts) auto

lemma invoke_disarmed: "\<not> P (tc_name c) \<Longrightarrow> invoke (map (disarmed P) ts) c = invoke ts c"
proof (cases "find (\<lambda>t. tl_name t = tc_name c) ts")
  case None
  then show ?thesis by (simp add: invoke_def find_disarmed name_disarmed)
next
  case (Some t)
  with find_SomeD [OF Some] show "\<not> P (tc_name c) \<Longrightarrow> ?thesis"
    by (simp add: invoke_def find_disarmed disarmed_def)
qed

lemma invoke_all_disarmed: "\<forall>c \<in> set cs. \<not> P (tc_name c) \<Longrightarrow> invoke_all (map (disarmed P) ts) cs = invoke_all ts cs"
  by (induction cs) (simp_all add: invoke_disarmed)

definition disarm_run :: "('s, 'w) run_spec \<Rightarrow> ('s, 'w) run_spec" where
  "disarm_run rs = rs\<lparr>rs_offered := map (disarmed (needs_approval (rs_mode rs))) (rs_offered rs)\<rparr>"

lemma disarm_run_simps [simp]:
  "rs_session (disarm_run rs) = rs_session rs" "rs_thread (disarm_run rs) = rs_thread rs"
  "rs_mode (disarm_run rs) = rs_mode rs" "rs_context (disarm_run rs) = rs_context rs"
  "rs_run_id (disarm_run rs) = rs_run_id rs" "rs_schema (disarm_run rs) = rs_schema rs"
  "rs_offered (disarm_run rs) = map (disarmed (needs_approval (rs_mode rs))) (rs_offered rs)"
  by (simp_all add: disarm_run_def)

lemma disarm_ends:
  "finish E ru (disarm_run rs) = finish E ru rs" "answer_end E ru (disarm_run rs) = answer_end E ru rs"
  "answer_row (disarm_run rs) = answer_row rs"
proof -
  show finish: "finish E ru (disarm_run rs) = finish E ru rs"
    by (intro ext) (simp only: finish_def disarm_run_simps)
  show "answer_end E ru (disarm_run rs) = answer_end E ru rs"
    by (intro ext) (simp only: answer_end_def disarm_run_simps finish)
  show "answer_row (disarm_run rs) = answer_row rs"
    by (intro ext) (simp only: answer_row_def disarm_run_simps list.map_comp comp_assoc name_disarmed)
qed

lemma calls_end_disarm:
  "(\<And>c. c \<in> set calls \<Longrightarrow> c \<notin> set gated \<Longrightarrow> \<not> needs_approval (rs_mode rs) (tc_name c)) \<Longrightarrow>
     calls_end E (disarm_run rs) called response calls gated requests = calls_end E rs called response calls gated requests"
  by (simp only: calls_end_def disarm_run_simps Let_def, subst invoke_all_disarmed, auto)

lemma take_response_disarm: "take_response E ru (disarm_run rs) called response = take_response E ru rs called response"
proof -
  let ?calls = "map call_input (lp_tool_calls response)"
  have "calls_end E (disarm_run rs) called response ?calls (filter (\<lambda>c. needs_approval (rs_mode rs) (tc_name c)) ?calls) requests
      = calls_end E rs called response ?calls (filter (\<lambda>c. needs_approval (rs_mode rs) (tc_name c)) ?calls) requests"
    for requests by (rule calls_end_disarm) auto
  then show ?thesis
    by (simp only: take_response_def Let_def disarm_run_simps disarm_ends if_False if_True cong: if_cong)
qed

text \<open>The client looks at the names of the tools it offers, not into their handlers.\<close>

definition reads_names_only :: "'w llm_client \<Rightarrow> bool" where
  "reads_names_only client =
     (\<forall>q ts. map tl_name ts = map tl_name (lq_tools q) \<longrightarrow> client (q\<lparr>lq_tools := ts\<rparr>) = client q)"

lemma request_disarm:
  assumes "reads_names_only client" shows "client (request_of (disarm_run rs) messages) = client (request_of rs messages)"
proof -
  have "request_of (disarm_run rs) messages = (request_of rs messages)\<lparr>lq_tools := rs_offered (disarm_run rs)\<rparr>"
    by (simp add: request_of_def disarm_run_def)
  moreover have "map tl_name (rs_offered (disarm_run rs)) = map tl_name (lq_tools (request_of rs messages))"
    by (simp add: request_of_def comp_def)
  ultimately show ?thesis using assms by (simp add: reads_names_only_def)
qed

lemma loop_step_disarm:
  assumes "reads_names_only (ru_client ru)"
  shows "loop_step E ru (disarm_run rs) text called = loop_step E ru rs text called"
  by (intro ext) (simp only: loop_step_def disarm_run_simps disarm_ends request_disarm [OF assms] take_response_disarm)

end
