(* ===== verification/ThreadProps.thy ===== *)
theory ThreadProps
  imports Threads
begin

section \<open>What a thread guarantees\<close>

text \<open>
  A history of a thread is a list of recordings and clearings, in the order the lock lets them in.
  \<open>thread_spec\<close> is what they mean on a plain list of messages; the stored document is that list with
  the positions 1, 2, 3 written in. The second half is about the view: \<open>thread_view\<close> settles in one
  pass, folds neighbouring result rows, and never shows one result twice.
\<close>

subsection \<open>Histories\<close>

datatype thread_call = RecordCall "pydict list" "string option" string | ClearCall

fun thread_doc :: "thread_call \<Rightarrow> pydict option \<Rightarrow> pydict option" where
  "thread_doc (RecordCall ms run stamp) d = (if ms = [] then d else body_doc (record_body ms run stamp) d)"
| "thread_doc ClearCall d = body_doc clear_body d"

type_synonym said = "pydict \<times> string option \<times> string"

fun thread_spec :: "thread_call \<Rightarrow> said list \<Rightarrow> said list" where
  "thread_spec (RecordCall ms run stamp) xs = xs @ map (\<lambda>m. (m, run, stamp)) ms"
| "thread_spec ClearCall xs = []"

definition numbered :: "said list \<Rightarrow> pydict list" where
  "numbered xs = map (\<lambda>(i, m, run, stamp). thread_entry (i + 1) m run stamp) (enumerate 0 xs)"

definition said_messages :: "said list \<Rightarrow> thread_message list" where
  "said_messages xs =
     map (\<lambda>(i, m, run, stamp). \<lparr> tm_position = int i + 1, tm_message = m, tm_run_id = run, tm_recorded_at = stamp \<rparr>)
       (enumerate 0 xs)"

text \<open>The document holds exactly the messages \<open>xs\<close>.\<close>

definition holds_said :: "pydict option \<Rightarrow> said list \<Rightarrow> bool" where
  "holds_said d xs =
     (case d of
        None \<Rightarrow> xs = []
      | Some s \<Rightarrow> dget s ''messages'' = JList (map JDict (numbered xs)) \<or> (dget s ''messages'' = JNull \<and> xs = []))"

lemma to_message_entry [simp]:
  "to_message (thread_entry n m run stamp)
     = Inr \<lparr> tm_position = int n, tm_message = m, tm_run_id = run, tm_recorded_at = stamp \<rparr>"
  by (cases run) (simp_all add: to_message_def thread_entry_def dget_Cons)

lemma existing_entries_list [simp]: "existing_entries (JList xs) = Inr (dicts_of xs)"
  by (simp add: existing_entries_def dicts_of_def List.map_filter_def)

lemma existing_entries_null [simp]: "existing_entries JNull = Inr []"
  by (simp add: existing_entries_def)

lemma length_numbered [simp]: "length (numbered xs) = length xs"
  by (simp add: numbered_def)

lemma numbered_Nil [simp]: "numbered [] = []"
  by (simp add: numbered_def)

lemma numbered_append:
  "numbered (xs @ map (\<lambda>m. (m, run, stamp)) ms) = numbered xs @ new_entries (length xs) ms run stamp"
proof -
  have "map (\<lambda>(i, m, run, stamp). thread_entry (i + 1) m run stamp) (enumerate n (map (\<lambda>m. (m, run, stamp)) ms))
      = map (\<lambda>(i, m). thread_entry (n + i + 1) m run stamp) (enumerate 0 ms)" for n
  proof -
    have "map (\<lambda>(i, m, run, stamp). thread_entry (i + 1) m run stamp) (enumerate (n + k) (map (\<lambda>m. (m, run, stamp)) ms))
        = map (\<lambda>(i, m). thread_entry (n + i + 1) m run stamp) (enumerate k ms)" for k
      by (induction ms arbitrary: k) (auto simp: add_Suc_right [symmetric] simp del: add_Suc_right)
    from this [of 0] show ?thesis by simp
  qed
  from this [of "length xs"] show ?thesis
    by (simp add: numbered_def new_entries_def enumerate_append_eq)
qed

lemma document_messages_said: "holds_said d xs \<Longrightarrow> document_messages d = Inr (said_messages xs)"
proof -
  have r: "res_map to_message (numbered xs) = Inr (said_messages xs)"
    by (auto simp: res_map_Inr_iff list_all2_conv_all_nth numbered_def said_messages_def split: prod.split)
  assume "holds_said d xs"
  then show ?thesis
    using r by (auto simp: holds_said_def document_messages_def said_messages_def split: option.splits)
qed

lemma record_body_said:
  assumes "holds_said d xs"
  shows "fst (record_body ms run stamp d) = Inr (drop (length xs) (said_messages (xs @ map (\<lambda>m. (m, run, stamp)) ms)))"
    and "holds_said (body_doc (record_body ms run stamp) d) (xs @ map (\<lambda>m. (m, run, stamp)) ms)"
proof -
  let ?ys = "xs @ map (\<lambda>m. (m, run, stamp)) ms"
  let ?s = "case d of None \<Rightarrow> [] | Some s \<Rightarrow> s"
  have e: "existing_entries (dget ?s ''messages'') = Inr (numbered xs)"
    using assms by (auto simp: holds_said_def split: option.splits)
  have "res_map to_message (new_entries (length xs) ms run stamp)
      = Inr (drop (length xs) (said_messages ?ys))"
    by (auto simp: res_map_Inr_iff list_all2_conv_all_nth new_entries_def said_messages_def nth_append
        nth_enumerate_eq split: prod.split)
  with e show "fst (record_body ms run stamp d) = Inr (drop (length xs) (said_messages ?ys))"
    by (simp add: record_body_def Let_def)
  show "holds_said (body_doc (record_body ms run stamp) d) ?ys"
    using e numbered_append [of xs run stamp ms] by (simp add: record_body_def body_doc_def holds_said_def Let_def)
qed

lemma clear_body_said: "holds_said (body_doc clear_body d) []"
  by (simp add: clear_body_def body_doc_def holds_said_def)

lemma thread_doc_said: "holds_said d xs \<Longrightarrow> holds_said (thread_doc c d) (thread_spec c xs)"
  by (cases c) (auto simp: record_body_said clear_body_said)

lemma thread_run_said: "holds_said d xs \<Longrightarrow> holds_said (fold thread_doc cs d) (fold thread_spec cs xs)"
  by (induction cs arbitrary: d xs) (auto simp: thread_doc_said)

text \<open>C27: a thread never loses or reorders a message. After any history of recordings and clearings,
  reading the thread gives exactly the messages recorded since the last clearing, in the order the
  lock let their recordings in, at the positions 1, 2, 3, ... with no gap and no duplicate; and each
  recording returned its own messages with the positions they keep.\<close>

theorem thread_positions_consecutive:
  assumes "holds_said d xs"
  shows "\<exists>ms. document_messages (fold thread_doc cs d) = Inr ms
       \<and> map tm_message ms = map fst (fold thread_spec cs xs)
       \<and> map tm_position ms = map int [1..<length ms + 1]
       \<and> (\<forall>new run stamp. fst (record_body new run stamp (fold thread_doc cs d))
            = Inr (drop (length ms) (said_messages (fold thread_spec cs xs @ map (\<lambda>m. (m, run, stamp)) new))))"
proof -
  let ?ys = "fold thread_spec cs xs"
  note h = thread_run_said [OF assms, of cs]
  have m: "map tm_message (said_messages ?ys) = map fst ?ys"
    by (rule nth_equalityI) (auto simp: said_messages_def nth_enumerate_eq split: prod.split)
  have p: "map tm_position (said_messages ?ys) = map int [1..<length (said_messages ?ys) + 1]"
    by (rule nth_equalityI) (auto simp: said_messages_def nth_enumerate_eq simp del: upt_Suc split: prod.split)
  have l: "length (said_messages ?ys) = length ?ys" by (simp add: said_messages_def)
  show ?thesis
    using document_messages_said [OF h] m p l record_body_said(1) [OF h] by auto
qed

theorem thread_positions_consecutive_witness:
  "\<exists>ms. document_messages (fold thread_doc [RecordCall [[(''a'', JNull)]] None ''t'', ClearCall,
      RecordCall [[(''b'', JNull)], [(''c'', JNull)]] None ''t''] None) = Inr ms
    \<and> map tm_message ms = [[(''b'', JNull)], [(''c'', JNull)]]"
  using thread_positions_consecutive [of None "[]" "[RecordCall [[(''a'', JNull)]] None ''t'', ClearCall,
      RecordCall [[(''b'', JNull)], [(''c'', JNull)]] None ''t'']"]
  by (force simp: holds_said_def)

subsection \<open>The view\<close>

text \<open>A row the view shows as it is, wherever it stands.\<close>

definition stable_row :: "pydict \<Rightarrow> bool" where
  "stable_row r = ((\<forall>view. normalise r view = (Some r, view)) \<and> map_of r ''type'' \<noteq> None)"

definition apart :: "pydict list \<Rightarrow> bool" where
  "apart view = successively (\<lambda>a b. \<not> (is_type ''tool_result'' a \<and> is_type ''tool_result'' b)) view"

lemma row_types [simp]:
  "is_type k (assistant_row c calls add reqs) \<longleftrightarrow> k = ''assistant''"
  "is_type k (tool_result_row es ds) \<longleftrightarrow> k = ''tool_result''"
  "map_of (assistant_row c calls add reqs) ''type'' = Some (JStr ''assistant'')"
  "map_of (tool_result_row es ds) ''type'' = Some (JStr ''tool_result'')"
  by (auto simp: is_type_def assistant_row_def tool_result_row_def dget_Cons)

lemma text_simps [simp]:
  "text_of (JStr t) = t" "nullable_text (null_or_str x) = x" "dict_or_empty (JDict d) = d"
  "dicts_in (JList (map JDict ds)) = ds"
  by (auto simp: text_of_def nullable_text_def dict_or_empty_def dicts_in_def null_or_str_def split: option.split)

lemma as_list_summary [simp]: "as_list (case x of None \<Rightarrow> JNull | Some xs \<Rightarrow> JList xs) = x"
  by (cases x) simp_all

lemma call_of_row [simp]: "call_of (call_row c) = c"
  by (simp add: call_of_def call_row_def dget_Cons)

lemma normal_entry_result [simp]: "normal_entry (result_entry i n a r x xs) = result_entry i n a r x xs"
  by (simp add: normal_entry_def result_entry_def dget_Cons)

lemma normal_entry_idem [simp]: "normal_entry (normal_entry e) = normal_entry e"
  by (simp add: normal_entry_def [of e])

lemma decision_of_row [simp]: "decision_of (decision_row i b r) = decision_row i b r"
  by (simp add: decision_of_def decision_row_def dget_Cons)

lemma decision_of_idem [simp]: "decision_of (decision_of v) = decision_of v"
  by (simp add: decision_of_def [of v])

lemma dicts_in_map [simp]:
  "dicts_in (JList (map (\<lambda>x. JDict (f x)) xs)) = map f xs" "dicts_in (JList (map (JDict \<circ> f) xs)) = map f xs"
  using text_simps(4) [of "map f xs"] by (simp_all add: comp_def del: text_simps)

lemma request_row_fields [simp]:
  "dget (request_row a b) ''approval_id'' = JStr a" "dget (request_row a b) ''tool_call_id'' = JStr b"
  by (simp_all add: request_row_def dget_Cons)

lemma assistant_row_fields [simp]:
  "dget (assistant_row c calls add reqs) ''content'' = JStr c"
  "dget (assistant_row c calls add reqs) ''tool_calls'' = JList (map (\<lambda>c. JDict (call_row c)) calls)"
  "dget (assistant_row c calls add reqs) ''additional_content'' = JDict add"
  "dget (assistant_row c calls add reqs) ''tool_approval_requests'' = JList (map JDict reqs)"
  by (simp_all add: assistant_row_def dget_Cons)

lemma tool_result_row_fields [simp]:
  "dget (tool_result_row es ds) ''tool_results'' = JList (map JDict es)"
  "dget (tool_result_row es ds) ''tool_approval_responses'' = JList (map JDict ds)"
  by (simp_all add: tool_result_row_def dget_Cons)

abbreviation requests_of :: "(string \<times> string) list \<Rightarrow> pydict list" where
  "requests_of reqs \<equiv> map (\<lambda>r. request_row (fst r) (snd r)) reqs"

lemma normal_assistant_row [simp]:
  "normal_assistant (assistant_row c calls add (requests_of reqs)) = assistant_row c calls add (requests_of reqs)"
  by (simp add: normal_assistant_def comp_def)

lemma normal_assistant_form:
  obtains c calls add reqs where "normal_assistant r = assistant_row c calls add (requests_of reqs)"
proof
  show "normal_assistant r = assistant_row (case dget r ''content'' of JStr s \<Rightarrow> s | _ \<Rightarrow> [])
      (map call_of (dicts_in (dget r ''tool_calls''))) (dict_or_empty (dget r ''additional_content''))
      (requests_of (map (\<lambda>q. (text_of (dget q ''approval_id''), text_of (dget q ''tool_call_id'')))
        (dicts_in (dget r ''tool_approval_requests''))))"
    by (simp add: normal_assistant_def comp_def)
qed

lemma normal_result_row:
  "list_all (\<lambda>e. normal_entry e = e) es \<Longrightarrow> list_all (\<lambda>d. decision_of d = d) ds \<Longrightarrow>
     normal_result (tool_result_row es ds) = tool_result_row es ds"
proof -
  assume "list_all (\<lambda>e. normal_entry e = e) es" "list_all (\<lambda>d. decision_of d = d) ds"
  then have "map normal_entry es = es" "map decision_of ds = ds"
    by (auto simp: list_all_iff intro: map_idI)
  then show ?thesis by (simp add: normal_result_def)
qed

lemma normal_result_form:
  obtains es ds where "normal_result r = tool_result_row es ds" "list_all (\<lambda>e. normal_entry e = e) es"
    "list_all (\<lambda>d. decision_of d = d) ds"
proof (cases "as_list (dget r ''tool_results'') \<noteq> None \<or> as_list (dget r ''tool_approval_responses'') \<noteq> None")
  case True
  then have "normal_result r = tool_result_row (map normal_entry (dicts_in (dget r ''tool_results'')))
      (map decision_of (dicts_in (dget r ''tool_approval_responses'')))"
    by (simp add: normal_result_def)
  then show thesis by (rule that) (simp_all add: list_all_iff)
next
  case False
  then have "normal_result r = tool_result_row [result_entry (text_of (dget r ''tool_call_id''))
      (text_of (dget r ''name'')) [] (text_of (dget r ''result'')) None []] []"
    by (simp add: normal_result_def)
  then show thesis by (rule that) simp_all
qed

lemma stable_assistant [simp]: "stable_row (assistant_row c calls add (requests_of reqs))"
  by (simp add: stable_row_def normalise_def)

lemma stable_result:
  "list_all (\<lambda>e. normal_entry e = e) es \<Longrightarrow> list_all (\<lambda>d. decision_of d = d) ds \<Longrightarrow> stable_row (tool_result_row es ds)"
  by (simp add: stable_row_def normalise_def normal_result_row)

lemma stable_assistant_form:
  assumes "stable_row r" and "is_type ''assistant'' r"
  obtains c calls add reqs where "r = assistant_row c calls add (requests_of reqs)"
proof -
  have n: "normal_assistant r = r" using assms by (simp add: stable_row_def normalise_def)
  show thesis by (rule normal_assistant_form [of r, unfolded n]) (rule that)
qed

lemma stable_result_form:
  assumes "stable_row r" and "is_type ''tool_result'' r"
  obtains es ds where "r = tool_result_row es ds" "list_all (\<lambda>e. normal_entry e = e) es"
    "list_all (\<lambda>d. decision_of d = d) ds"
proof -
  have n: "normal_result r = r" using assms by (simp add: stable_row_def normalise_def is_type_def)
  show thesis by (rule normal_result_form [of r, unfolded n]) (rule that)
qed

lemma add_requests_row:
  "add_requests as (assistant_row c calls add (requests_of reqs))
     = assistant_row c calls add (requests_of (reqs @ map (\<lambda>a. (text_of (dget a ''id''), text_of (dget a ''id''))) as))"
  by (simp add: add_requests_def assistant_row_def dput_def dget_Cons comp_def)

lemma add_requests_stable:
  assumes "stable_row r" and "is_type ''assistant'' r"
  shows "stable_row (add_requests as r)" and "is_type ''assistant'' (add_requests as r)"
proof -
  obtain c calls add reqs where r: "r = assistant_row c calls add (requests_of reqs)"
    using assms by (rule stable_assistant_form)
  show "stable_row (add_requests as r)" unfolding r add_requests_row by (rule stable_assistant)
  show "is_type ''assistant'' (add_requests as r)" unfolding r add_requests_row by simp
qed

lemma keyed_set: "set (keyed k es) \<subseteq> set es"
proof -
  have "set (map snd (fold (\<lambda>e acc. AList.update (dget e k) e acc) es acc)) \<subseteq> set es \<union> snd ` set acc" for acc
  proof (induction es arbitrary: acc)
    case Nil
    then show ?case by simp
  next
    case (Cons e es)
    have "snd ` set (AList.update (dget e k) e acc) \<subseteq> insert e (snd ` set acc)"
      by (induction acc) (auto simp: image_iff split: if_splits)
    with Cons [of "AList.update (dget e k) e acc"] show ?case by auto
  qed
  from this [of "[]"] show ?thesis by (simp add: keyed_def)
qed

lemma fold_rows_stable:
  assumes "stable_row a" "stable_row b" "is_type ''tool_result'' a" "is_type ''tool_result'' b"
  shows "stable_row (fold_rows a b) \<and> is_type ''tool_result'' (fold_rows a b)"
proof -
  obtain es ds where a: "a = tool_result_row es ds" "list_all (\<lambda>e. normal_entry e = e) es"
    "list_all (\<lambda>d. decision_of d = d) ds" using stable_result_form [OF assms(1,3)] by blast
  obtain es' ds' where b: "b = tool_result_row es' ds'" "list_all (\<lambda>e. normal_entry e = e) es'"
    "list_all (\<lambda>d. decision_of d = d) ds'" using stable_result_form [OF assms(2,4)] by blast
  have "list_all (\<lambda>e. normal_entry e = e) (keyed k (es @ es'))" for k
    using a b keyed_set [of k "es @ es'"] by (auto simp: list_all_iff)
  moreover have "list_all (\<lambda>d. decision_of d = d) (keyed k (ds @ ds'))" for k
    using a b keyed_set [of k "ds @ ds'"] by (auto simp: list_all_iff)
  ultimately show ?thesis using a b by (simp add: fold_rows_def stable_result)
qed

lemma normalise_stable:
  assumes "normalise r view = (Some n, view')" and "map_of n ''type'' \<noteq> None"
  shows "stable_row n \<and> view' = view"
proof -
  have "stable_row (normal_assistant r)" by (rule normal_assistant_form [of r]) simp
  moreover have "stable_row (normal_result r)" by (rule normal_result_form [of r]) (simp add: stable_result)
  moreover have "stable_row (tool_result_row [] [decision_of r])" by (rule stable_result) simp_all
  moreover have "stable_row r" if "\<not> is_type ''assistant'' r" "\<not> is_type ''tool_result'' r"
    "\<not> is_type ''tool_approval_request'' r" "\<not> is_type ''tool_approval_response'' r" "map_of r ''type'' \<noteq> None"
    using that by (simp add: stable_row_def normalise_def)
  ultimately show ?thesis using assms by (auto simp: normalise_def split: if_splits)
qed

lemma is_type_unique: "is_type a r \<Longrightarrow> is_type b r \<longleftrightarrow> a = b"
  by (auto simp: is_type_def)

lemma map_type_update_requests:
  "list_all stable_row view \<Longrightarrow>
     map (is_type k) (update_first (is_type ''assistant'') (add_requests as) view) = map (is_type k) view"
  by (induction view) (auto simp: add_requests_stable(2) is_type_unique [of "''assistant''"])

lemma normalise_request:
  assumes "normalise r view = (None, view')" and "list_all stable_row view" and "apart view"
  shows "list_all stable_row view' \<and> apart view'"
proof -
  let ?u = "update_first (is_type ''assistant'') (add_requests (dicts_in (dget r ''approvals'')))"
  have v: "view' = rev (?u (rev view))" using assms(1) by (simp add: normalise_def split: if_splits)
  have st: "list_all stable_row xs \<Longrightarrow> list_all stable_row (?u xs)" for xs
    by (induction xs) (auto simp: add_requests_stable)
  have "map (is_type ''tool_result'') view' = map (is_type ''tool_result'') view"
    using map_type_update_requests [of "rev view" "''tool_result''"] assms(2) by (simp add: v rev_map [symmetric])
  then have "apart view'"
    using assms(3) successively_map [of "\<lambda>a b. \<not> (a \<and> b)" "is_type ''tool_result''"] unfolding apart_def by metis
  with st [of "rev view"] assms(2) v show ?thesis by simp
qed

lemma apart_snoc: "apart (view @ [n]) \<longleftrightarrow>
    apart view \<and> (view = [] \<or> \<not> (is_type ''tool_result'' (last view) \<and> is_type ''tool_result'' n))"
  by (auto simp: apart_def successively_append_iff)

lemma view_loop_settles:
  "list_all stable_row view \<Longrightarrow> apart view \<Longrightarrow> view_loop view rows = Inr v \<Longrightarrow> list_all stable_row v \<and> apart v"
proof (induction rows arbitrary: view)
  case Nil
  then show ?case by simp
next
  case (Cons r rows)
  obtain o' view' where n: "normalise r view = (o', view')" by (cases "normalise r view")
  show ?case
  proof (cases o')
    case None
    with n Cons.prems(3) have l: "view_loop view' rows = Inr v" by simp
    from n None have "normalise r view = (None, view')" by simp
    from normalise_request [OF this Cons.prems(1,2)] Cons.IH [OF _ _ l] show ?thesis by simp
  next
    case (Some m)
    with n Cons.prems(3) obtain kind where k: "map_of m ''type'' = Some kind" by (auto split: option.splits)
    with normalise_stable [of r view m view'] n Some have m: "stable_row m" "view' = view" by auto
    show ?thesis
    proof (cases "kind = JStr ''tool_result'' \<and> view \<noteq> [] \<and> is_type ''tool_result'' (last view)")
      case True
      then obtain init a where v: "view = init @ [a]" by (metis append_butlast_last_id)
      with True k m Cons.prems(1) have "stable_row (fold_rows a m) \<and> is_type ''tool_result'' (fold_rows a m)"
        by (intro fold_rows_stable) (auto simp: is_type_def dget_def)
      with True v k n Some m Cons.prems Cons.IH [of "init @ [fold_rows a m]"] show ?thesis
        by (auto simp: apart_snoc)
    next
      case False
      with k have "view = [] \<or> \<not> (is_type ''tool_result'' (last view) \<and> is_type ''tool_result'' m)"
        by (auto simp: is_type_def dget_def)
      with False k n Some m Cons.prems Cons.IH [of "view @ [m]"] show ?thesis
        by (auto simp: apart_snoc)
    qed
  qed
qed

lemma view_loop_stable:
  "list_all stable_row rows \<Longrightarrow> apart (view @ rows) \<Longrightarrow> view_loop view rows = Inr (view @ rows)"
proof (induction rows arbitrary: view)
  case Nil
  then show ?case by simp
next
  case (Cons r rows)
  then obtain kind where k: "map_of r ''type'' = Some kind" and n: "normalise r view = (Some r, view)"
    by (auto simp: stable_row_def)
  have "apart ((view @ [r]) @ rows)" using Cons.prems(2) by simp
  then have "apart (view @ [r])" unfolding apart_def using successively_append_iff by blast
  then have "\<not> (kind = JStr ''tool_result'' \<and> view \<noteq> [] \<and> is_type ''tool_result'' (last view))"
    using k by (auto simp: apart_snoc is_type_def dget_def)
  with k n Cons show ?case by auto
qed

text \<open>The view is settled. No two result rows stand next to each other in it (so no tool output goes
  to a provider twice in two neighbouring rows), every row of it is in today's shape, and showing it
  again changes nothing: \<open>thread_view\<close> is idempotent.\<close>

theorem thread_view_idempotent:
  assumes "thread_view rows = Inr view"
  shows "apart view \<and> list_all stable_row view \<and> thread_view view = Inr view"
proof -
  have "list_all stable_row view \<and> apart view"
    using view_loop_settles [of "[]" rows view] assms by (simp add: thread_view_def apart_def)
  with view_loop_stable [of view "[]"] show ?thesis by (simp add: thread_view_def)
qed

theorem thread_view_idempotent_witness:
  "thread_view [tool_result_row [] [decision_row ''a'' True None]]
     = Inr [tool_result_row [] [decision_row ''a'' True None]]"
proof -
  let ?old = "[[(''type'', JStr ''tool_approval_response''), (''approval_id'', JStr ''a''), (''approved'', JBool True)]]"
  have "thread_view ?old = Inr [tool_result_row [] [decision_row ''a'' True None]]" by code_simp
  from thread_view_idempotent [OF this] show ?thesis by simp
qed

subsection \<open>Folding\<close>

lemma dedup_Nil: "dedup [] = []" by (simp add: dedup_def)
lemma dedup_snoc: "dedup (xs @ [x]) = (if x \<in> set xs then dedup xs else dedup xs @ [x])"
  by (simp add: dedup_def)
lemma dedup_facts: "distinct (dedup xs)" "set (dedup xs) = set xs"
  by (simp_all add: dedup_def)

lemma keyed_alist: 
  "map fst (fold (\<lambda>e acc. AList.update (dget e k) e acc) es []) = dedup (map (\<lambda>e. dget e k) es) \<and> 
   map_of (fold (\<lambda>e acc. AList.update (dget e k) e acc) es []) = (\<lambda>x. find (\<lambda>e. dget e k = x) (rev es)) \<and>
   list_all (\<lambda>(x, e). dget e k = x) (fold (\<lambda>e acc. AList.update (dget e k) e acc) es [])"
proof (induction es rule: rev_induct)
  case Nil
  show ?case by (simp add: dedup_Nil)
next
  case (snoc e es)
  let ?u = "\<lambda>e acc. AList.update (dget e k) e acc"
  let ?f = "fold ?u es []"
  have k: "map fst (AList.update (dget e k) e ?f) = (if dget e k \<in> set (map fst ?f) then map fst ?f else map fst ?f @ [dget e k])"
    using update_keys [of "dget e k" e ?f] by auto
  have l: "list_all (\<lambda>(x, e). dget e k = x) xs \<Longrightarrow> list_all (\<lambda>(x, e). dget e k = x) (AList.update (dget e k) e xs)" for xs
    by (induction xs) auto
  show ?case
  proof (intro conjI)
    show "map fst (fold ?u (es @ [e]) []) = dedup (map (\<lambda>e. dget e k) (es @ [e]))"
      using snoc k by (simp add: dedup_snoc dedup_facts)
    show "map_of (fold ?u (es @ [e]) []) = (\<lambda>x. find (\<lambda>e. dget e k = x) (rev (es @ [e])))"
      using snoc by (auto simp: update_conv' fun_eq_iff)
    show "list_all (\<lambda>(x, e). dget e k = x) (fold ?u (es @ [e]) [])"
      using snoc l by simp
  qed
qed

lemma keyed_facts:
  "map (\<lambda>e. dget e k) (keyed k es) = dedup (map (\<lambda>e. dget e k) es)"
  "find (\<lambda>e. dget e k = x) (keyed k es) = find (\<lambda>e. dget e k = x) (rev es)"
proof -
  let ?f = "fold (\<lambda>e acc. AList.update (dget e k) e acc) es []"
  note f = keyed_alist [of k es]
  have m: "map (\<lambda>e. dget e k) (map snd xs) = map fst xs" if "list_all (\<lambda>(x, e). dget e k = x) xs" for xs
    using that by (induction xs) auto
  have g: "find (\<lambda>e. dget e k = x) (map snd xs) = map_of xs x" if "list_all (\<lambda>(x, e). dget e k = x) xs" for xs
    using that by (induction xs) auto
  show "map (\<lambda>e. dget e k) (keyed k es) = dedup (map (\<lambda>e. dget e k) es)"
    using f m [of ?f] by (simp only: keyed_def)
  show "find (\<lambda>e. dget e k = x) (keyed k es) = find (\<lambda>e. dget e k = x) (rev es)"
    using f g [of ?f] by (simp only: keyed_def)
qed

lemma note_decisions_lookup:
  "note_decisions rs m i = (case m i of Some b \<Rightarrow> Some b
     | None \<Rightarrow> map_option (\<lambda>r. dget r ''approved'' = JBool True) (find (\<lambda>r. dget r ''approval_id'' = JStr i) rs))"
proof (induction rs arbitrary: m)
  case Nil
  then show ?case by (simp add: note_decisions_def split: option.split)
next
  case (Cons r rs)
  then show ?case
    by (cases "dget r ''approval_id''") (auto simp: note_decisions_def split: option.splits)
qed


text \<open>Folding keeps one result per call and one decision per approval. In the row that two
  neighbouring result rows become, every tool call id occurs once, at the place of its first
  occurrence, with the result that was written last, and so does every approval id with its decision.\<close>

theorem fold_keeps_latest_result:
  "\<exists>results decisions. fold_rows (tool_result_row es ds) (tool_result_row es' ds') = tool_result_row results decisions
     \<and> map (\<lambda>e. dget e ''tool_call_id'') results = dedup (map (\<lambda>e. dget e ''tool_call_id'') (es @ es'))
     \<and> distinct (map (\<lambda>e. dget e ''tool_call_id'') results)
     \<and> (\<forall>i. find (\<lambda>e. dget e ''tool_call_id'' = i) results = find (\<lambda>e. dget e ''tool_call_id'' = i) (rev (es @ es')))
     \<and> distinct (map (\<lambda>d. dget d ''approval_id'') decisions)
     \<and> (\<forall>i. find (\<lambda>d. dget d ''approval_id'' = i) decisions = find (\<lambda>d. dget d ''approval_id'' = i) (rev (ds @ ds')))"
  unfolding fold_rows_def tool_result_row_fields text_simps
  by (rule exI [of _ "keyed ''tool_call_id'' (es @ es')"], rule exI [of _ "keyed ''approval_id'' (ds @ ds')"])
    (simp only: keyed_facts dedup_facts simp_thms)

subsection \<open>Approval authority\<close>

text \<open>The responses of the rows after the one that asked, the last row first.\<close>

definition later_responses :: "pydict list \<Rightarrow> pydict list" where
  "later_responses post = concat (map (\<lambda>r. dicts_in (dget r ''tool_approval_responses''))
     (filter (is_type ''tool_result'') (rev post)))"

lemma note_decisions_append: "note_decisions (xs @ ys) m = note_decisions ys (note_decisions xs m)"
  by (simp add: note_decisions_def)

lemma scope_loop_found:
  "scope_loop rows m bs = Some s \<Longrightarrow>
     \<exists>post row pre. bs = post @ row # pre \<and> is_type ''assistant'' row
       \<and> (\<forall>p \<in> set post. \<not> is_type ''assistant'' p \<and> \<not> is_type ''user'' p)
       \<and> dicts_in (dget row ''tool_approval_requests'') \<noteq> []
       \<and> s = row_scope rows row (dicts_in (dget row ''tool_approval_requests''))
              (note_decisions (concat (map (\<lambda>r. dicts_in (dget r ''tool_approval_responses''))
                 (filter (is_type ''tool_result'') post))) m)"
proof (induction bs arbitrary: m)
  case Nil
  then show ?case by simp
next
  case (Cons r bs)
  let ?m = "note_decisions (dicts_in (dget r ''tool_approval_responses'')) m"
  consider (result) "is_type ''tool_result'' r" | (asks) "is_type ''assistant'' r"
    | (other) "\<not> is_type ''tool_result'' r" "\<not> is_type ''assistant'' r" by blast
  then show ?case
  proof cases
    case result
    with Cons.prems have "scope_loop rows ?m bs = Some s" by simp
    from Cons.IH [OF this] obtain post row pre where p: "bs = post @ row # pre" "is_type ''assistant'' row"
      "\<forall>p \<in> set post. \<not> is_type ''assistant'' p \<and> \<not> is_type ''user'' p"
      "dicts_in (dget row ''tool_approval_requests'') \<noteq> []"
      "s = row_scope rows row (dicts_in (dget row ''tool_approval_requests''))
        (note_decisions (concat (map (\<lambda>r. dicts_in (dget r ''tool_approval_responses''))
           (filter (is_type ''tool_result'') post))) ?m)" by blast
    with result show ?thesis
      by (intro exI [of _ "r # post"] exI [of _ row] exI [of _ pre])
        (simp add: note_decisions_append is_type_unique [OF result])
  next
    case asks
    with Cons.prems show ?thesis
      by (intro exI [of _ "[]"] exI [of _ r] exI [of _ bs])
        (simp add: is_type_unique [OF asks] note_decisions_def Let_def split: if_splits)
  next
    case other
    with Cons.prems have u: "\<not> is_type ''user'' r" and "scope_loop rows m bs = Some s" by (auto split: if_splits)
    from Cons.IH [OF this(2)] obtain post row pre where p: "bs = post @ row # pre" "is_type ''assistant'' row"
      "\<forall>p \<in> set post. \<not> is_type ''assistant'' p \<and> \<not> is_type ''user'' p"
      "dicts_in (dget row ''tool_approval_requests'') \<noteq> []"
      "s = row_scope rows row (dicts_in (dget row ''tool_approval_requests''))
        (note_decisions (concat (map (\<lambda>r. dicts_in (dget r ''tool_approval_responses''))
           (filter (is_type ''tool_result'') post))) m)" by blast
    with other u show ?thesis
      by (intro exI [of _ "r # post"] exI [of _ row] exI [of _ pre]) simp
  qed
qed

lemma row_scope_facts:
  assumes "row_scope rows row requests decisions = (names, legacy)"
  shows "distinct names" and "\<forall>n \<in> set names. n \<noteq> [] \<and> n \<noteq> ''*''"
    and "\<not> legacy \<Longrightarrow> \<exists>c \<in> set rows. is_type ''assistant'' c \<and> (\<exists>xs. dget c ''harness_tool_names'' = JList xs
           \<and> list_all is_tool_name xs \<and> names = dedup (map str_of xs))"
    and "legacy \<Longrightarrow> names = dedup (approved_names row requests decisions)"
proof -
  have t: "list_all is_tool_name xs \<Longrightarrow> \<forall>n \<in> set (dedup (map str_of xs)). n \<noteq> [] \<and> n \<noteq> ''*''" for xs
    by (auto simp: dedup_facts list_all_iff is_tool_name_def str_of_def split: json.splits)
  have a: "\<forall>n \<in> set (dedup (approved_names row requests decisions)). n \<noteq> [] \<and> n \<noteq> ''*''"
    by (auto simp: dedup_facts approved_names_def Let_def is_tool_name_def str_of_def split: json.splits)
  show "distinct names" "\<forall>n \<in> set names. n \<noteq> [] \<and> n \<noteq> ''*''"
    "legacy \<Longrightarrow> names = dedup (approved_names row requests decisions)"
    using assms t a by (auto simp: row_scope_def Let_def dedup_facts(1) split: json.splits if_splits)
  show "\<exists>c \<in> set rows. is_type ''assistant'' c \<and> (\<exists>xs. dget c ''harness_tool_names'' = JList xs
      \<and> list_all is_tool_name xs \<and> names = dedup (map str_of xs))" if "\<not> legacy"
    using assms that
    by (auto simp: row_scope_def Let_def is_stored_candidate_def split: json.splits if_splits option.splits
        dest!: find_SomeD)
qed

text \<open>C28: stored authority is what was stored or what was approved, never more. When a scope is found,
  the last assistant turn of the view asked for approval and no user turn follows it; the names are
  distinct, none is blank or the wildcard; and they are the list stored with an assistant row of the
  thread or, failing that, names of calls of that very turn whose approval the latest later response
  grants with \<open>approved\<close> being exactly true.\<close>

theorem approval_scope_is_granted:
  assumes "approval_tool_scope rows = Inr (Some (names, legacy))" and "thread_view rows = Inr view"
  shows "distinct names \<and> (\<forall>n \<in> set names. n \<noteq> [] \<and> n \<noteq> ''*'')
       \<and> (\<exists>pre row post. view = pre @ row # post \<and> is_type ''assistant'' row
            \<and> (\<forall>p \<in> set post. \<not> is_type ''assistant'' p \<and> \<not> is_type ''user'' p)
            \<and> (if legacy
               then \<forall>n \<in> set names. \<exists>c \<in> set (dicts_in (dget row ''tool_calls'')).
                      \<exists>q \<in> set (dicts_in (dget row ''tool_approval_requests'')).
                      \<exists>d. dget c ''name'' = JStr n \<and> dget q ''tool_call_id'' = dget c ''id''
                        \<and> find (\<lambda>r. dget r ''approval_id'' = JStr (str_of (dget q ''approval_id'')))
                            (later_responses post) = Some d
                        \<and> dget d ''approved'' = JBool True
               else \<exists>c \<in> set rows. is_type ''assistant'' c
                      \<and> (\<exists>xs. dget c ''harness_tool_names'' = JList xs \<and> names = dedup (map str_of xs))))"
proof -
  from assms have "scope_loop rows Map.empty (rev view) = Some (names, legacy)"
    by (simp add: approval_tool_scope_def)
  from scope_loop_found [OF this] obtain post row pre where p: "rev view = post @ row # pre"
    "is_type ''assistant'' row" "\<forall>p \<in> set post. \<not> is_type ''assistant'' p \<and> \<not> is_type ''user'' p"
    and s: "row_scope rows row (dicts_in (dget row ''tool_approval_requests''))
        (note_decisions (later_responses (rev post)) Map.empty) = (names, legacy)"
    by (auto simp: later_responses_def)
  have v: "view = rev pre @ row # rev post" using p(1) by (metis rev_append rev_rev_ident rev.simps(2) append.assoc append_Cons append_Nil)
  note f = row_scope_facts [OF s]
  have g: "\<exists>c \<in> set (dicts_in (dget row ''tool_calls'')). \<exists>q \<in> set (dicts_in (dget row ''tool_approval_requests'')).
      \<exists>d. dget c ''name'' = JStr n \<and> dget q ''tool_call_id'' = dget c ''id''
        \<and> find (\<lambda>r. dget r ''approval_id'' = JStr (str_of (dget q ''approval_id''))) (later_responses (rev post)) = Some d
        \<and> dget d ''approved'' = JBool True" if "legacy" "n \<in> set names" for n
  proof -
    from f(4) [OF that(1)] that(2) obtain c q where c: "c \<in> set (dicts_in (dget row ''tool_calls''))"
      "n = str_of (dget c ''name'')" "is_tool_name (dget c ''name'')"
      and q: "q \<in> set (dicts_in (dget row ''tool_approval_requests''))" "dget q ''tool_call_id'' = dget c ''id''"
      "note_decisions (later_responses (rev post)) Map.empty (str_of (dget q ''approval_id'')) = Some True"
      by (auto simp: dedup_facts approved_names_def Let_def)
    from c have "dget c ''name'' = JStr n" by (auto simp: is_tool_name_def str_of_def split: json.splits)
    moreover from q(3) obtain d where "find (\<lambda>r. dget r ''approval_id'' = JStr (str_of (dget q ''approval_id'')))
        (later_responses (rev post)) = Some d" "dget d ''approved'' = JBool True"
      by (auto simp: note_decisions_lookup)
    ultimately show ?thesis using c(1) q by blast
  qed
  show ?thesis
    using f(1,2) f(3) g p(2,3) v
    by (intro conjI exI [of _ "rev pre"] exI [of _ row] exI [of _ "rev post"]) auto
qed

theorem approval_scope_is_granted_witness:
  "\<exists>rows. approval_tool_scope rows = Inr (Some ([''send''], True)) \<and> set [''send''] \<subseteq> {n. n \<noteq> [] \<and> n \<noteq> ''*''}"
proof -
  let ?rows = "[assistant_row [] [\<lparr>tc_id = ''c1'', tc_name = ''send'', tc_arguments = [], tc_result_id = None,
      tc_reasoning_id = None, tc_reasoning_summary = None\<rparr>] [] [request_row ''a1'' ''c1''],
    tool_result_row [] [decision_row ''a1'' True None]]"
  have "approval_tool_scope ?rows = Inr (Some ([''send''], True))" by code_simp
  moreover have "thread_view ?rows = Inr ?rows" by code_simp
  ultimately show ?thesis using approval_scope_is_granted by blast
qed

end
