(* ===== verification/ApprovalLaws.thy ===== *)
theory ApprovalLaws
  imports RunResults ThreadProps
begin

section \<open>Resolving approvals\<close>

text \<open>
  What \<open>resolve_calls\<close> runs and records, and what the row it leaves does to the next reading of the thread:
  after it, \<open>unresolved_of\<close> finds nothing to do.
\<close>

subsection \<open>What runs\<close>

text \<open>A call is decided when an approval was asked for it under an id and a decision is stored under that id; it is
  approved when the decision says so. Stated of the stored rows, without the code's functions.\<close>

definition decision_on :: "unresolved_work \<Rightarrow> pydict \<Rightarrow> pydict \<Rightarrow> bool" where
  "decision_on work row d \<longleftrightarrow>
     (\<exists>a. map_of (uw_approval_ids work) (dget row ''id'') = Some a \<and> a \<noteq> JNull \<and> map_of (uw_decisions work) a = Some d)"

definition approved_call :: "unresolved_work \<Rightarrow> pydict \<Rightarrow> bool" where
  "approved_call work row \<longleftrightarrow> (\<exists>d. decision_on work row d \<and> truthy (dget d ''approved''))"

lemma decision_for_iff: "decision_for work row = Some d \<longleftrightarrow> decision_on work row d"
  by (auto simp: decision_for_def decision_on_def split: option.splits)

lemma approved_call_iff: "approved_call work row \<longleftrightarrow> (case decision_for work row of None \<Rightarrow> False | Some d \<Rightarrow> is_approved d)"
  by (auto simp: approved_call_def is_approved_def simp flip: decision_for_iff split: option.split)

text \<open>The reason of a denial, as the model is told it.\<close>

definition denial_reason :: "pydict \<Rightarrow> string" where
  "denial_reason d = (if \<exists>c s. dget d ''reason'' = JStr (c # s) then str_of (dget d ''reason'') else ''User denied tool execution'')"

lemma denial_text_eq: "denial_text d = denial_reason d"
  by (cases "dget d ''reason''") (auto simp: denial_text_def denial_reason_def str_of_def neq_Nil_conv)

text \<open>One approved call by itself: the tool of that name among the bounded ones has its handler called, once,
  in the world the call finds; without such a tool nothing is called.\<close>

definition named_tool :: "'w tool list \<Rightarrow> pydict \<Rightarrow> 'w tool option" where
  "named_tool bounded row = find (\<lambda>t. tl_name t = str_of (dget row ''name'')) bounded"

definition handler_effect :: "'w tool list \<Rightarrow> pydict \<Rightarrow> 'w \<Rightarrow> 'w" where
  "handler_effect bounded row v =
     (case named_tool bounded row of None \<Rightarrow> v | Some t \<Rightarrow> snd (tl_handle t (dict_or_empty (dget row ''arguments'')) v))"

text \<open>What the model is told of it.\<close>

definition approved_answer :: "'w tool list \<Rightarrow> pydict \<Rightarrow> 'w \<Rightarrow> string" where
  "approved_answer bounded row v =
     (case named_tool bounded row of
        None \<Rightarrow> ''Not run: '' @ str_of (dget row ''name'') @ '' is not available to this run.''
      | Some t \<Rightarrow>
          (case fst (tl_handle t (dict_or_empty (dget row ''arguments'')) v) of
             Inr (JStr x) \<Rightarrow> x
           | Inr x \<Rightarrow> json_dumps_default x
           | Inl e \<Rightarrow> if is_code e CALL_NOT_AUTHORIZED
                      then ''Not run: this call to '' @ str_of (dget row ''name'') @ '' is not authorized.''
                      else ''The tool failed: '' @ exn_str e))"

lemma find_named: "find (\<lambda>t. tl_name t = n) ts = None \<longleftrightarrow> n \<notin> tl_name ` set ts"
  by (auto simp: find_None_iff)

lemma run_approved_exact:
  "run_approved bounded (stored_call row) v
     = (Inr (tool_result_entry (stored_call row) (approved_answer bounded row v)), handler_effect bounded row v)"
proof -
  let ?c = "stored_call row"
  have c: "tc_name ?c = str_of (dget row ''name'')" "tc_arguments ?c = dict_or_empty (dget row ''arguments'')"
    by (simp_all add: stored_call_def)
  show ?thesis
  proof (cases "named_tool bounded row")
    case None
    then have "tc_name ?c \<notin> tl_name ` set bounded" unfolding c named_tool_def by (rule find_named [THEN iffD1])
    then have "run_approved bounded ?c v
        = act_return (tool_result_entry ?c (''Not run: '' @ tc_name ?c @ '' is not available to this run.'')) v"
      unfolding run_approved_def by (rule if_P [THEN fun_cong])
    then show ?thesis unfolding handler_effect_def approved_answer_def None by (simp add: act_return_def c)
  next
    case (Some t)
    then have f: "find (\<lambda>t. tl_name t = tc_name ?c) bounded = Some t" by (simp add: named_tool_def c)
    then have n: "tc_name ?c \<in> tl_name ` set bounded" using find_named [of "tc_name ?c" bounded] by auto
    obtain r u where h: "tl_handle t (tc_arguments ?c) v = (r, u)" by (cases "tl_handle t (tc_arguments ?c) v")
    show ?thesis
    proof (cases r)
      case (Inl e)
      then show ?thesis using Some f n h
        by (simp add: run_approved_def invoke_def handler_effect_def approved_answer_def tool_failed_def
            act_catch_def act_bind_def act_return_def act_raise_def c)
    next
      case (Inr x)
      then show ?thesis using Some f n h
        by (cases x) (simp_all add: run_approved_def invoke_def handler_effect_def approved_answer_def result_text_def
            act_catch_def act_bind_def act_return_def act_raise_def c)
    qed
  qed
qed

text \<open>The world after the approved ones among some calls, in their order.\<close>

definition after_calls :: "'w tool list \<Rightarrow> unresolved_work \<Rightarrow> pydict list \<Rightarrow> 'w \<Rightarrow> 'w" where
  "after_calls bounded work rows w =
     fold (handler_effect bounded) (filter (approved_call work) rows) w"

definition call_answer :: "'w tool list \<Rightarrow> unresolved_work \<Rightarrow> pydict \<Rightarrow> 'w \<Rightarrow> string" where
  "call_answer bounded work row v =
     (case decision_for work row of
        None \<Rightarrow> ''No approval response provided''
      | Some d \<Rightarrow> if is_approved d then approved_answer bounded row v else denial_text d)"

lemma after_calls_Cons:
  "after_calls bounded work (row # rows) w = after_calls bounded work rows
     (if approved_call work row then handler_effect bounded row w else w)"
  by (simp add: after_calls_def)

lemma map_by_position:
  "map f [0 ..< length (x # xs)] = f 0 # map (\<lambda>k. f (Suc k)) [0 ..< length xs]"
proof -
  have "[0 ..< length (x # xs)] = 0 # map Suc [0 ..< length xs]"
    by (simp only: length_Cons upt_conv_Cons zero_less_Suc map_Suc_upt)
  then show ?thesis by (simp only: list.map map_map comp_def)
qed

lemma resolve_calls_exact:
  "resolve_calls bounded work rows w =
     (Inr (map (\<lambda>k. tool_result_entry (stored_call (rows ! k))
                (call_answer bounded work (rows ! k) (after_calls bounded work (take k rows) w))) [0 ..< length rows],
           map (\<lambda>row. tc_name (stored_call row)) (filter (approved_call work) rows)),
      after_calls bounded work rows w)"
proof (induction rows arbitrary: w)
  case Nil
  then show ?case by (simp add: act_return_def after_calls_def)
next
  case (Cons row rows)
  let ?v = "if approved_call work row then handler_effect bounded row w else w"
  have one: "(case decision_for work row of
              Some x \<Rightarrow>
                if is_approved x then act_bind (run_approved bounded (stored_call row)) (\<lambda>r. act_return (r, [tc_name (stored_call row)]))
                else act_return (tool_result_entry (stored_call row) (denial_text x), [])
            | None \<Rightarrow> act_return (tool_result_entry (stored_call row) ''No approval response provided'', [])) w
      = (Inr (tool_result_entry (stored_call row) (call_answer bounded work row w),
              if approved_call work row then [tc_name (stored_call row)] else []), ?v)"
    by (simp add: call_answer_def approved_call_iff run_approved_exact act_bind_def act_return_def split: option.split)
  show ?case
    unfolding resolve_calls.simps Let_def act_bind_def one map_by_position
    by (simp add: Cons.IH after_calls_Cons act_return_def del: upt_Suc) (simp add: after_calls_def)
qed

text \<open>The answers, case by case.\<close>

lemma call_answers:
  "approved_call work row \<Longrightarrow> call_answer bounded work row v = approved_answer bounded row v"
  "decision_on work row d \<Longrightarrow> \<not> approved_call work row \<Longrightarrow> call_answer bounded work row v = denial_reason d"
  "\<nexists>d. decision_on work row d \<Longrightarrow> call_answer bounded work row v = ''No approval response provided''"
proof -
  show "approved_call work row \<Longrightarrow> call_answer bounded work row v = approved_answer bounded row v"
    by (simp add: call_answer_def approved_call_iff split: option.splits)
  show "call_answer bounded work row v = denial_reason d" if "decision_on work row d" "\<not> approved_call work row"
    using that by (simp add: call_answer_def approved_call_iff denial_text_eq flip: decision_for_iff)
  show "call_answer bounded work row v = ''No approval response provided''" if "\<nexists>d. decision_on work row d"
    using that by (cases "decision_for work row") (simp_all add: call_answer_def decision_for_iff)
qed

lemma resolve_calls_run:
  assumes "resolve_calls bounded work rows w = (Inr (entries, names), t)"
  shows "list_all2 (\<lambda>row e. \<exists>out. e = tool_result_entry (stored_call row) out) rows entries"
  using assms by (auto simp: resolve_calls_exact list_all2_conv_all_nth)

subsection \<open>The view of one more result row\<close>

lemma view_loop_append:
  "view_loop v (xs @ ys) = res_bind (view_loop v xs) (\<lambda>v'. view_loop v' ys)"
  by (induction v xs rule: view_loop.induct) (auto split: prod.split option.split)

lemma last_calling_split:
  "last_calling view = Some (a, rest) \<Longrightarrow>
     \<exists>init. view = init @ a # rest \<and> calling_turn a \<and> (\<forall>r \<in> set rest. \<not> calling_turn r)"
proof (induction view arbitrary: a rest)
  case (Cons r rows)
  show ?case
  proof (cases "last_calling rows")
    case None
    have "\<forall>r \<in> set rows. \<not> calling_turn r" using None
      by (induction rows) (auto split: option.splits if_splits)
    with None Cons.prems show ?thesis by (intro exI [of _ "[]"]) (auto split: if_splits)
  next
    case (Some q)
    with Cons obtain init where "rows = init @ a # rest" "calling_turn a" "\<forall>r \<in> set rest. \<not> calling_turn r" by auto
    then show ?thesis by (intro exI [of _ "r # init"]) simp
  qed
qed simp

lemma last_calling_at:
  "calling_turn a \<Longrightarrow> \<forall>r \<in> set rest. \<not> calling_turn r \<Longrightarrow> last_calling (init @ a # rest) = Some (a, rest)"
proof (induction init)
  case Nil
  have "last_calling rest = None" using Nil(2) by (induction rest) auto
  with Nil show ?case by simp
qed simp

lemma view_with_results:
  assumes view: "thread_view rows = Inr view" and x: "stable_row x" "is_type ''tool_result'' x"
    and last: "last_calling view = Some (a, rest)" "rest = [] \<or> (\<exists>r. rest = [r] \<and> is_type ''tool_result'' r)"
  shows "\<exists>view'. thread_view (rows @ [x]) = Inr view'
      \<and> last_calling view' = Some (a, [if rest = [] then x else fold_rows (hd rest) x])"
proof -
  obtain init where v: "view = init @ a # rest" "calling_turn a" using last_calling_split [OF last(1)] by blast
  have stable: "list_all stable_row view"
    using view_loop_settles [of "[]" rows view] view by (simp add: thread_view_def apart_def)
  have n: "normalise x view = (Some x, view)" and kind: "map_of x ''type'' = Some (JStr ''tool_result'')"
    using x by (auto simp: stable_row_def is_type_def dget_def split: option.splits)
  have a: "\<not> is_type ''tool_result'' a" using v(2) by (simp add: calling_turn_def is_type_def)
  have res: "\<not> calling_turn x" "\<And>r. is_type ''tool_result'' r \<Longrightarrow> \<not> calling_turn (fold_rows r x)"
    using x(2) by (auto simp: calling_turn_def is_type_def fold_rows_def tool_result_row_def dget_Cons)
  show ?thesis
  proof (cases "rest = []")
    case True
    with v a n kind have "view_loop view [x] = Inr (init @ a # [x])" by simp
    with view True v(2) res(1) show ?thesis
      by (intro exI [of _ "init @ a # [x]"]) (simp add: thread_view_def view_loop_append last_calling_at)
  next
    case False
    with last(2) obtain r where r: "rest = [r]" "is_type ''tool_result'' r" by auto
    with v n kind have "view_loop view [x] = Inr (init @ a # [fold_rows r x])" by (simp add: butlast_append)
    with view r v(2) res(2) [OF r(2)] show ?thesis
      by (intro exI [of _ "init @ a # [fold_rows r x]"]) (simp add: thread_view_def view_loop_append last_calling_at)
  qed
qed

lemma dict_by_has: "map_of (dict_by k xs) v \<noteq> None \<longleftrightarrow> v \<in> (\<lambda>e. dget e k) ` set xs"
proof -
  have "map fst (dict_by k xs) = dedup (map (\<lambda>e. dget e k) xs)"
    using keyed_alist [of k xs] by (simp add: dict_by_def)
  then have "fst ` set (dict_by k xs) = (\<lambda>e. dget e k) ` set xs"
    by (metis dedup_facts(2) list.set_map)
  then show ?thesis by (simp add: map_of_eq_None_iff)
qed

lemma keyed_ids: "(\<lambda>e. dget e k) ` set (keyed k xs) = (\<lambda>e. dget e k) ` set xs"
  using keyed_facts(1) [of k xs] by (metis dedup_facts(2) list.set_map)

lemma view_stable: "thread_view rows = Inr view \<Longrightarrow> list_all stable_row view"
  using view_loop_settles [of "[]" rows view] by (simp add: thread_view_def apart_def)

lemma stable_calls:
  assumes "stable_row a" "calling_turn a" "c \<in> set (dicts_in (dget a ''tool_calls''))"
  shows "dget c ''id'' = JStr (tc_id (stored_call c))"
proof -
  obtain t calls add reqs where "a = assistant_row t calls add (requests_of reqs)"
    by (rule stable_assistant_form [OF assms(1)]) (use assms(2) in \<open>simp_all add: calling_turn_def\<close>)
  with assms(3) show ?thesis by (auto simp: stored_call_def str_of_def call_row_def dget_Cons)
qed

lemma stable_result_entries:
  assumes "stable_row r" "is_type ''tool_result'' r"
  shows "list_all (\<lambda>e. normal_entry e = e) (dicts_in (dget r ''tool_results''))"
    "list_all (\<lambda>d. decision_of d = d) (dicts_in (dget r ''tool_approval_responses''))"
proof -
  obtain es ds where "r = tool_result_row es ds" "list_all (\<lambda>e. normal_entry e = e) es"
    "list_all (\<lambda>d. decision_of d = d) ds" using assms by (rule stable_result_form)
  then show "list_all (\<lambda>e. normal_entry e = e) (dicts_in (dget r ''tool_results''))"
    "list_all (\<lambda>d. decision_of d = d) (dicts_in (dget r ''tool_approval_responses''))" by simp_all
qed

lemma dict_by_values: "snd ` set (dict_by k xs) \<subseteq> set xs"
  using keyed_set [of k xs] by (simp add: keyed_def dict_by_def)

lemma dict_by_ids: "(\<lambda>e. dget e k) ` snd ` set (dict_by k xs) = (\<lambda>e. dget e k) ` set xs"
  using keyed_ids [of k xs] by (simp add: keyed_def dict_by_def)

text \<open>The results and decisions a turn has, after its calls.\<close>

definition answered_row :: "pydict list \<Rightarrow> pydict" where
  "answered_row rest = (case find (is_type ''tool_result'') rest of None \<Rightarrow> [] | Some r \<Rightarrow> r)"

lemma unresolved_ofD:
  assumes "unresolved_of mode rows = Inr (Some work)" and "thread_view rows = Inr view"
    and "last_calling view = Some (a, rest)"
  shows "uw_results work = dict_by ''tool_call_id'' (dicts_in (dget (answered_row rest) ''tool_results''))"
    "uw_decisions work = dict_by ''approval_id'' (dicts_in (dget (answered_row rest) ''tool_approval_responses''))"
    "uw_approval_ids work = map (\<lambda>(k, r). (k, dget r ''approval_id''))
       (dict_by ''tool_call_id'' (dicts_in (dget a ''tool_approval_requests'')))"
    "uw_calls work = filter (\<lambda>c. map_of (uw_results work) (dget c ''id'') = None
         \<and> (map_of (uw_approval_ids work) (dget c ''id'') \<noteq> None \<or> needs_approval mode (str_of (dget c ''name''))))
       (dicts_in (dget a ''tool_calls''))"
  using assms by (auto simp: unresolved_of_def Let_def answered_row_def split: if_splits)

lemma unresolved_of_none:
  assumes "thread_view rows = Inr view" "last_calling view = Some (a, rest)"
    and "\<And>c. c \<in> set (dicts_in (dget a ''tool_calls'')) \<Longrightarrow>
       map_of (map (\<lambda>(k, r). (k, dget r ''approval_id''))
         (dict_by ''tool_call_id'' (dicts_in (dget a ''tool_approval_requests'')))) (dget c ''id'') \<noteq> None
       \<or> needs_approval mode (str_of (dget c ''name'')) \<Longrightarrow>
       map_of (dict_by ''tool_call_id'' (dicts_in (dget (answered_row rest) ''tool_results''))) (dget c ''id'') \<noteq> None"
  shows "unresolved_of mode rows = Inr None"
proof -
  have "filter (\<lambda>c. map_of (dict_by ''tool_call_id'' (dicts_in (dget (answered_row rest) ''tool_results''))) (dget c ''id'') = None
      \<and> (map_of (map (\<lambda>(k, r). (k, dget r ''approval_id''))
           (dict_by ''tool_call_id'' (dicts_in (dget a ''tool_approval_requests'')))) (dget c ''id'') \<noteq> None
         \<or> needs_approval mode (str_of (dget c ''name''))))
      (dicts_in (dget a ''tool_calls'')) = []"
    unfolding filter_empty_conv using assms(3) by blast
  with assms(1,2) show ?thesis
    by (simp add: unresolved_of_def Let_def answered_row_def split: option.splits)
qed

lemma row_after_ids:
  "(\<lambda>e. dget e ''tool_call_id'') ` set es \<subseteq> (\<lambda>e. dget e ''tool_call_id'') ` set (dicts_in (dget (answered_row
     [if rest = [] then tool_result_row es ds else fold_rows (hd rest) (tool_result_row es ds)]) ''tool_results''))"
  by (simp add: answered_row_def fold_rows_def keyed_ids image_Un)

lemma resolution_settles:
  assumes work: "unresolved_of mode rows = Inr (Some work)" and view: "thread_view rows = Inr view"
    and tail: "last_calling view = Some (a, rest)" "rest = [] \<or> (\<exists>r. rest = [r] \<and> is_type ''tool_result'' r)"
    and entries: "list_all2 (\<lambda>row e. \<exists>out. e = tool_result_entry (stored_call row) out) (uw_calls work) entries"
  shows "unresolved_of mode (rows @ [tool_result_row (map snd (uw_results work) @ entries) (map snd (uw_decisions work))])
    = Inr None"
proof -
  let ?es = "map snd (uw_results work) @ entries" and ?ds = "map snd (uw_decisions work)"
  let ?x = "tool_result_row ?es ?ds"
  let ?id = "\<lambda>e. dget e ''tool_call_id''"
  note stable = view_stable [OF view]
  have split: "\<exists>init. view = init @ a # rest \<and> calling_turn a" using last_calling_split [OF tail(1)] by blast
  with stable have a: "stable_row a" "calling_turn a" by auto
  note work' = unresolved_ofD [OF work view tail(1)]
  have "list_all (\<lambda>e. normal_entry e = e) (dicts_in (dget (answered_row rest) ''tool_results''))
      \<and> list_all (\<lambda>d. decision_of d = d) (dicts_in (dget (answered_row rest) ''tool_approval_responses''))"
  proof (cases "rest = []")
    case True
    then show ?thesis by (simp add: answered_row_def dicts_in_def dget_def)
  next
    case False
    with tail(2) obtain r where r: "rest = [r]" "is_type ''tool_result'' r" by blast
    with stable split have "stable_row r" by auto
    with r stable_result_entries show ?thesis by (simp add: answered_row_def)
  qed
  then have old: "list_all (\<lambda>e. normal_entry e = e) (map snd (uw_results work))"
    "list_all (\<lambda>d. decision_of d = d) ?ds"
    using dict_by_values unfolding work'(1,2) list_all_iff by fastforce+
  have new: "list_all (\<lambda>e. normal_entry e = e) entries"
    using entries by (induction rule: list_all2_induct) (auto simp: tool_result_entry_def)
  have x: "stable_row ?x" using old new by (intro stable_result) auto
  obtain view' where v': "thread_view (rows @ [?x]) = Inr view'"
    "last_calling view' = Some (a, [if rest = [] then ?x else fold_rows (hd rest) ?x])"
    using view_with_results [OF view x _ tail] by auto
  show ?thesis
  proof (rule unresolved_of_none [OF v'])
    fix c assume c: "c \<in> set (dicts_in (dget a ''tool_calls''))"
      and gated: "map_of (map (\<lambda>(k, r). (k, dget r ''approval_id''))
         (dict_by ''tool_call_id'' (dicts_in (dget a ''tool_approval_requests'')))) (dget c ''id'') \<noteq> None
       \<or> needs_approval mode (str_of (dget c ''name''))"
    have "dget c ''id'' \<in> ?id ` set ?es"
    proof (cases "map_of (uw_results work) (dget c ''id'') = None")
      case True
      with c gated work'(3,4) have "c \<in> set (uw_calls work)" by auto
      with entries obtain e out where "e \<in> set entries" "e = tool_result_entry (stored_call c) out"
        by (auto simp: list_all2_conv_all_nth in_set_conv_nth) (metis nth_mem)
      then show ?thesis
        using stable_calls [OF a c] by (force simp: tool_result_entry_def result_entry_def dget_Cons)
    next
      case False
      then have "dget c ''id'' \<in> ?id ` set (dicts_in (dget (answered_row rest) ''tool_results''))"
        using dict_by_has work'(1) by metis
      also have "\<dots> = ?id ` set (map snd (uw_results work))"
        unfolding work'(1) set_map by (rule dict_by_ids [symmetric])
      finally show ?thesis by (simp only: set_append image_Un Un_iff simp_thms)
    qed
    then have "dget c ''id'' \<in> ?id ` set (dicts_in (dget (answered_row [if rest = [] then ?x else fold_rows (hd rest) ?x]) ''tool_results''))"
      by (rule set_mp [OF row_after_ids])
    then show "map_of (dict_by ''tool_call_id''
        (dicts_in (dget (answered_row [if rest = [] then ?x else fold_rows (hd rest) ?x]) ''tool_results''))) (dget c ''id'') \<noteq> None"
      using dict_by_has by blast
  qed
qed

end
