(* ===== verification/StructuredProps.thy ===== *)
theory StructuredProps
  imports Structured
begin

section \<open>What the schema check guarantees\<close>

text \<open>The properties of \<open>structured.py\<close>, against the relation \<open>fits\<close> of \<open>Structured\<close>.\<close>

text \<open>C29: the verdict is exact. \<open>schema_problems\<close> returns no problem, under any name, exactly when the
  document satisfies the schema as \<open>fits\<close> says, a relation of its own over the constructors of JSON
  values: a fitting alternative of \<open>anyOf\<close>; else a member of \<open>enum\<close>, where a bool is only itself and
  anything else is compared by Python's \<open>==\<close>, which inside lists and objects takes \<open>true\<close> for \<open>1\<close>;
  else, if any type is declared, a value of a declared type (\<open>true\<close> and \<open>false\<close> are booleans only, an
  integer is a number, a type name without a meaning passes), an object with its required keys, fitting
  declared properties and nothing else if the schema is closed, an array with fitting items. The check
  ends on every schema.\<close>

theorem schema_verdict_exact:
  "schema_problems schema document name = [] \<longleftrightarrow> fits schema document"
  by (simp add: schema_problems_def check_exact)

theorem schema_verdict_exact_witness:
  "schema_problems [(''type'', JStr ''number'')] (JBool True) ''document'' \<noteq> []"
proof -
  have "\<not> fits [(''type'', JStr ''number'')] (JBool True)"
    by (subst fits.simps)
      (auto simp: lists_under_def declares_type_def has_json_type.simps)
  then show ?thesis by (simp add: schema_verdict_exact)
qed

text \<open>Every miss is named, not only the first. For a schema checked by type, a document that is an
  object gets a problem for each required key it lacks and, when the schema is closed, for each key
  the schema does not declare, besides all the problems of each declared property it has; a document
  that is an array gets all the problems of each of its items, under the item's index.\<close>

theorem schema_names_every_miss:
  assumes "by_type schema"
  shows "(''object'' \<in> set (declared_types schema) \<longrightarrow>
           (\<forall>names k. dget schema ''required'' = JList names \<longrightarrow> JStr k \<in> set names \<longrightarrow> map_of d k = None \<longrightarrow>
              path @ ''.'' @ k @ '' is required and missing.'' \<in> set (schema_problems schema (JDict d) path))
         \<and> (\<forall>k. dget schema ''additionalProperties'' = JBool False \<longrightarrow> map_of d k \<noteq> None \<longrightarrow>
              map_of (properties_of schema) k = None \<longrightarrow>
              path @ ''.'' @ k @ '' was returned, and the schema declares no such property.''
                \<in> set (schema_problems schema (JDict d) path))
         \<and> (\<forall>k p w. (k, JDict p) \<in> set (properties_of schema) \<longrightarrow> map_of d k = Some w \<longrightarrow>
              set (schema_problems p w (path @ ''.'' @ k)) \<subseteq> set (schema_problems schema (JDict d) path)))
       \<and> (''array'' \<in> set (declared_types schema) \<longrightarrow>
           (\<forall>items i. dget schema ''items'' = JDict items \<longrightarrow> i < length xs \<longrightarrow>
              set (schema_problems items (xs ! i) (path @ ''['' @ show_nat i @ '']''))
                \<subseteq> set (schema_problems schema (JList xs) path)))"
proof (intro conjI impI allI, goal_cases)
  case (1 names k)
  then have "path @ ''.'' @ k @ '' is required and missing.'' \<in> set (required_problems schema d path)"
    by (auto simp: required_problems_def intro!: bexI [of _ "JStr k"])
  then show ?case by (simp only: schema_problems_def check_object [OF assms 1(1)] set_append Un_iff simp_thms)
next
  case (2 k)
  then obtain v where "(k, v) \<in> set d" by (auto dest: map_of_SomeD)
  with 2 have "path @ ''.'' @ k @ '' was returned, and the schema declares no such property.''
      \<in> set (closed_problems schema d path)"
    by (auto simp: closed_problems_def intro!: bexI [of _ "(k, v)"])
  then show ?case by (simp only: schema_problems_def check_object [OF assms 2(1)] set_append Un_iff simp_thms)
next
  case (3 k p w)
  then show ?case
    unfolding schema_problems_def check_object [OF assms 3(1)] by (force simp: set_concat)
next
  case (4 items i)
  then have "(i, xs ! i) \<in> set (enumerate 0 xs)" by (simp add: in_set_enumerate_eq)
  with 4 show ?case
    unfolding schema_problems_def check_array [OF assms 4(1)] by (force simp: set_concat)
qed

theorem schema_names_every_miss_witness:
  "''plan.goal is required and missing.'' \<in> set (schema_problems
     [(''type'', JStr ''object''), (''required'', JList [JStr ''goal'', JStr ''steps''])] (JDict []) ''plan'')
   \<and> ''plan.steps is required and missing.'' \<in> set (schema_problems
     [(''type'', JStr ''object''), (''required'', JList [JStr ''goal'', JStr ''steps''])] (JDict []) ''plan'')"
proof -
  let ?s = "[(''type'', JStr ''object''), (''required'', JList [JStr ''goal'', JStr ''steps''])]"
  have "by_type ?s" and t: "declared_types ?s = [''object'']"
    and r: "dget ?s ''required'' = JList [JStr ''goal'', JStr ''steps'']"
    by (simp_all add: by_type_def dget_Cons declared_types_def)
  from conjunct1 [OF schema_names_every_miss [OF this(1)], of "[]" "''plan''"] t r show ?thesis by simp
qed

text \<open>The comparison of an enum member is strict about booleans at the top only: inside a list or an
  object, Python's \<open>==\<close> takes \<open>true\<close> for \<open>1\<close>.\<close>

lemma enum_nested_bool_passes:
  "schema_problems [(''enum'', JList [JList [JInt 1]])] (JList [JBool True]) ''document'' = []
   \<and> schema_problems [(''enum'', JList [JInt 1])] (JBool True) ''document'' \<noteq> []"
  unfolding schema_problems_def
  by (simp add: check_enum dget_Cons same_value_def del: as_list_eq_Some)

end
