(* ===== verification/SessionProps.thy ===== *)
theory SessionProps
  imports Sessions
begin

section \<open>What a session remembers\<close>

text \<open>
  The calls of \<open>session.py\<close> that change the ephemeral half of a session are the steps of a history
  (\<open>session_step\<close>), each made under the session's lock by an object of its own: another worker, another
  process, whatever it had cached. \<open>spec_step\<close> says what each does to what a session shows: its mode,
  model, provider and run. \<open>locked_run\<close> says that a step under the lock acts on the stored document as the
  specification does on what it shows, and the property of the theory is its fold over a history. Without
  the lock a step works on the cache of its object (\<open>late_finish_overwrites\<close>).
\<close>

subsection \<open>Steps and their specification\<close>

datatype session_step =
    UseMode string
  | UseModel string
  | UseProvider string
  | BeginRun string string string string
  | CompleteRun string string "string list"
  | FailRun string string
  | ForgetState

fun do_step :: "env \<Rightarrow> 's session \<Rightarrow> session_step \<Rightarrow> (('s, 'z) live_scheme, unit) py" where
  "do_step E se (UseMode mode) = using_mode E se mode"
| "do_step E se (UseModel model) = using_model E se model"
| "do_step E se (UseProvider provider) = using_provider E se provider"
| "do_step E se (BeginRun run_id mode provider model) = begin_run E se run_id mode provider model"
| "do_step E se (CompleteRun run_id reason tools) = complete_run E se run_id reason tools"
| "do_step E se (FailRun run_id failure) = fail_run E se run_id failure"
| "do_step E se ForgetState = session_forget E se"

text \<open>What a session shows, and the number of readings of the clock so far.\<close>

record shown =
  sh_mode :: "string option"
  sh_model :: "string option"
  sh_provider :: "string option"
  sh_run :: "pydict option"

definition shown_by :: "pydict \<Rightarrow> shown" where
  "shown_by d = \<lparr> sh_mode = as_str (dget d ''mode''), sh_model = as_str (dget d ''model''),
     sh_provider = as_str (dget d ''provider''), sh_run = run_of d \<rparr>"

definition superseded :: "pydict option \<Rightarrow> string \<Rightarrow> bool" where
  "superseded current run_id = (case current of None \<Rightarrow> False | Some r \<Rightarrow> dget r ''id'' \<noteq> JStr run_id)"

definition spec_finish :: "env \<Rightarrow> string \<Rightarrow> string \<Rightarrow> pydict \<Rightarrow> nat \<times> shown \<Rightarrow> nat \<times> shown" where
  "spec_finish E run_id status extra = (\<lambda>(n, v).
     if superseded (sh_run v) run_id then (n, v)
     else (Suc n, v\<lparr>sh_run := Some (finished_run (sh_run v) run_id status (ev_now E n) extra)\<rparr>))"

fun spec_step :: "env \<Rightarrow> session_step \<Rightarrow> nat \<times> shown \<Rightarrow> nat \<times> shown" where
  "spec_step E (UseMode mode) (n, v) = (n, v\<lparr>sh_mode := Some mode\<rparr>)"
| "spec_step E (UseModel model) (n, v) = (n, v\<lparr>sh_model := Some model\<rparr>)"
| "spec_step E (UseProvider provider) (n, v) = (n, v\<lparr>sh_provider := Some provider\<rparr>)"
| "spec_step E (BeginRun run_id mode provider model) (n, v) =
     (Suc n, v\<lparr>sh_run := Some [(''id'', JStr run_id), (''status'', JStr ''running''), (''mode'', JStr mode),
        (''provider'', JStr provider), (''model'', JStr model), (''started_at'', JStr (ev_now E n))]\<rparr>)"
| "spec_step E (CompleteRun run_id reason tools) nv =
     spec_finish E run_id ''completed'' [(''finish_reason'', JStr reason), (''tool_calls'', JList (map JStr tools))] nv"
| "spec_step E (FailRun run_id failure) nv = spec_finish E run_id ''failed'' [(''failure'', JStr failure)] nv"
| "spec_step E ForgetState (n, v) = (n, shown_by [])"

text \<open>A history: who makes each step, with what in its cache.\<close>

fun run_history ::
  "env \<Rightarrow> json \<Rightarrow> json \<Rightarrow> ('s session \<times> pydict option \<times> session_step) list \<Rightarrow> (('s, 'z) live_scheme, unit) py" where
  "run_history E ttl wait [] = act_return ()"
| "run_history E ttl wait ((se, cache, step) # rest) =
     act_bind (in_session cache (session_lock E se (do_step E se step) ttl wait)) (\<lambda>_. run_history E ttl wait rest)"

text \<open>An object that opens the session \<open>k\<close> of the store \<open>S\<close>, lock and state alike.\<close>

definition opens_session :: "env \<Rightarrow> 's session_store \<Rightarrow> string \<Rightarrow> 's session \<Rightarrow> bool" where
  "opens_session E S k se =
     (current_key E se = Inr k \<and> \<not> se_resolution_only se \<and> se_ephemeral se = S \<and> se_lock_store se = S
      \<and> outlives_put (se_ttl se) \<and> se_resolved_mode se = None)"

lemma shown_by_dput [simp]:
  "shown_by (dput ''mode'' (JStr s) d) = (shown_by d)\<lparr>sh_mode := Some s\<rparr>"
  "shown_by (dput ''model'' (JStr s) d) = (shown_by d)\<lparr>sh_model := Some s\<rparr>"
  "shown_by (dput ''provider'' (JStr s) d) = (shown_by d)\<lparr>sh_provider := Some s\<rparr>"
  by (simp_all add: shown_by_def run_of_def)

lemma shown_by_run: "as_str (dget r ''id'') \<noteq> None \<Longrightarrow> shown_by (dput ''run'' (JDict r) d) = (shown_by d)\<lparr>sh_run := Some r\<rparr>"
  by (simp add: shown_by_def run_of_def)

lemma finished_run_id:
  assumes "\<forall>(k, v) \<in> set extra. k \<noteq> ''id''"
  shows "dget (finished_run current run_id status now extra) ''id'' = JStr run_id"
proof -
  have "dget (foldl (\<lambda>d (k, v). dput k v d) d extra) ''id'' = dget d ''id''" for d
    using assms by (induction extra arbitrary: d) auto
  then show ?thesis by (simp add: finished_run_def)
qed

subsection \<open>A step under the lock\<close>

context timed_store_laws
begin

definition doc_of :: "string \<Rightarrow> 'a \<Rightarrow> pydict" where
  "doc_of k s = (case view s (loc (k @ '':ephemeral'')) of None \<Rightarrow> [] | Some d \<Rightarrow> d)"

text \<open>From a store in a lawful state, with nothing stale in the cache, a piece of code turns what the session
  shows and the number of readings as \<open>f\<close> says, and touches no other document and no lock.\<close>

definition acts_as ::
  "string \<Rightarrow> (nat \<times> shown \<Rightarrow> nat \<times> shown) \<Rightarrow> (('a, 'z) live_scheme, unit) py \<Rightarrow> ('a, 'z) live_scheme \<Rightarrow> bool" where
  "acts_as k f m w =
     (\<exists>c t n. m w = (Inr (), w\<lparr>lv_cached := c, lv_store := t, lv_reads := n\<rparr>) \<and> inv t
        \<and> held t = held (lv_store w)
        \<and> (\<forall>p. p \<noteq> loc (k @ '':ephemeral'') \<longrightarrow> view t p = view (lv_store w) p)
        \<and> (n, shown_by (doc_of k t)) = f (lv_reads w, shown_by (doc_of k (lv_store w))))"

definition fresh :: "string \<Rightarrow> ('a, 'z) live_scheme \<Rightarrow> bool" where
  "fresh k w = (inv (lv_store w) \<and> lv_cached w \<in> {None, Some (doc_of k (lv_store w))})"

lemma doc_of_view: "view t = view s \<Longrightarrow> doc_of k t = doc_of k s"
  by (simp add: doc_of_def)

lemma ephemeral_key_of: "opens_session E S k se \<Longrightarrow> ephemeral_key E se = Inr (k @ '':ephemeral'')"
  by (simp add: ephemeral_key_def opens_session_def)

lemma state_read:
  assumes se: "opens_session E S k se" and w: "fresh k w"
  obtains t where "session_state E se w = (Inr (doc_of k (lv_store w)), w\<lparr>lv_cached := Some (doc_of k (lv_store w)), lv_store := t\<rparr>)"
    "inv t" "view t = view (lv_store w)" "held t = held (lv_store w)"
proof (cases "lv_cached w")
  case (Some d)
  with w have "session_state E se w = (Inr (doc_of k (lv_store w)), w\<lparr>lv_cached := Some (doc_of k (lv_store w)), lv_store := lv_store w\<rparr>)"
    by (simp add: session_state_def get_cached_def act_bind_def act_return_def fresh_def)
  then show thesis using w by (intro that [of "lv_store w"]) (auto simp: fresh_def)
next
  case None
  obtain t where t: "ss_get S (k @ '':ephemeral'') (lv_store w) = (Inr (view (lv_store w) (loc (k @ '':ephemeral''))), t)"
    "inv t" "view t = view (lv_store w)" "held t = held (lv_store w)"
    using get_law w unfolding fresh_def by blast
  have "session_state E se w = (Inr (doc_of k (lv_store w)), w\<lparr>lv_cached := Some (doc_of k (lv_store w)), lv_store := t\<rparr>)"
    using se None t(1) by (simp add: session_state_def get_cached_def set_cached_def on_store_def ephemeral_key_of
        act_bind_def act_lift_def act_return_def doc_of_def Let_def opens_session_def)
  with t that show thesis by blast
qed

lemma write_acts:
  assumes se: "opens_session E S k se" and w: "fresh k w"
    and f: "f (lv_reads w, shown_by (doc_of k (lv_store w))) = (lv_reads w, shown_by (dput key v (doc_of k (lv_store w))))"
  shows "acts_as k f (session_write E se key v) w"
proof -
  let ?d = "doc_of k (lv_store w)" and ?p = "loc (k @ '':ephemeral'')"
  obtain t where r: "session_state E se w = (Inr ?d, w\<lparr>lv_cached := Some ?d, lv_store := t\<rparr>)"
    and t: "inv t" "view t = view (lv_store w)" "held t = held (lv_store w)"
    by (rule state_read [OF se w])
  obtain u where p: "ss_put S (k @ '':ephemeral'') (dput key v ?d) (se_ttl se) t = (Inr (), u)"
    and u: "inv u" "view u = (view t)(?p \<mapsto> dput key v ?d)" "held u = held t"
    using timed_put_law [OF t(1)] se unfolding opens_session_def by blast
  have "session_write E se key v w = (Inr (), w\<lparr>lv_cached := Some (dput key v ?d), lv_store := u\<rparr>)"
    using se r p by (simp add: session_write_def assert_writable_def opens_session_def ephemeral_key_of [OF se]
        act_bind_def act_lift_def on_store_def set_cached_def)
  moreover have "doc_of k u = dput key v ?d" using u by (simp add: doc_of_def)
  ultimately show ?thesis using t u f unfolding acts_as_def
    by (intro exI [of _ "Some (dput key v ?d)"] exI [of _ u] exI [of _ "lv_reads w"]) simp
qed

lemma clock_acts:
  assumes "acts_as k (\<lambda>(n, v). f (n - 1, v)) (m (ev_now E (lv_reads w))) (w\<lparr>lv_reads := Suc (lv_reads w)\<rparr>)"
  shows "acts_as k f (act_bind (read_env (ev_now E)) m) w"
  using assms by (auto simp: acts_as_def read_env_def act_bind_def)

lemma fresh_read: "fresh k (w\<lparr>lv_reads := n\<rparr>) = fresh k w"
  by (simp add: fresh_def)

lemma finish_acts:
  assumes se: "opens_session E S k se" and w: "fresh k w" and extra: "\<forall>(k, v) \<in> set extra. k \<noteq> ''id''"
  shows "acts_as k (spec_finish E run_id status extra) (finish_run E se run_id status extra) w"
proof -
  let ?d = "doc_of k (lv_store w)"
  obtain t where r: "session_state E se w = (Inr ?d, w\<lparr>lv_cached := Some ?d, lv_store := t\<rparr>)"
    and t: "inv t" "view t = view (lv_store w)" "held t = held (lv_store w)"
    by (rule state_read [OF se w])
  let ?w = "w\<lparr>lv_cached := Some ?d, lv_store := t\<rparr>"
  have run: "sh_run (shown_by ?d) = run_of ?d" by (simp add: shown_by_def)
  have same: "doc_of k t = ?d" using t(2) by (rule doc_of_view)
  have f: "fresh k ?w" using t by (simp add: fresh_def same)
  show ?thesis
  proof (cases "superseded (run_of ?d) run_id")
    case True
    then have "finish_run E se run_id status extra w = (Inr (), ?w)"
      using r by (simp add: finish_run_def session_run_def superseded_def act_bind_def act_return_def)
    with t True show ?thesis unfolding acts_as_def
      by (intro exI [of _ "Some ?d"] exI [of _ t] exI [of _ "lv_reads w"]) (simp add: spec_finish_def run same)
  next
    case False
    let ?r = "finished_run (run_of ?d) run_id status (ev_now E (lv_reads w)) extra"
    have "finish_run E se run_id status extra w = act_bind (read_env (ev_now E)) (\<lambda>finished.
        session_write E se ''run'' (JDict (finished_run (run_of ?d) run_id status finished extra))) ?w"
      using False r by (simp add: finish_run_def session_run_def superseded_def act_bind_def act_return_def)
    moreover have "acts_as k (spec_finish E run_id status extra) (act_bind (read_env (ev_now E)) (\<lambda>finished.
        session_write E se ''run'' (JDict (finished_run (run_of ?d) run_id status finished extra)))) ?w"
      using False f t
      by (intro clock_acts write_acts [OF se])
        (simp_all add: fresh_read spec_finish_def run same shown_by_run finished_run_id [OF extra])
    ultimately show ?thesis using t by (simp add: acts_as_def same)
  qed
qed

lemma forget_acts:
  assumes se: "opens_session E S k se" and w: "fresh k w"
  shows "acts_as k (\<lambda>(n, v). (n, shown_by [])) (session_forget E se) w"
proof -
  let ?p = "loc (k @ '':ephemeral'')"
  obtain u where p: "ss_forget S (k @ '':ephemeral'') (lv_store w) = (Inr (), u)"
    and u: "inv u" "view u = (view (lv_store w))(?p := None)" "held u = held (lv_store w)"
    using forget_law w unfolding fresh_def by blast
  have "session_forget E se w = (Inr (), w\<lparr>lv_cached := None, lv_store := u\<rparr>)"
    using se p by (simp add: session_forget_def assert_writable_def opens_session_def ephemeral_key_of [OF se]
        act_bind_def act_lift_def on_store_def set_cached_def)
  with u show ?thesis unfolding acts_as_def
    by (intro exI [of _ None] exI [of _ u] exI [of _ "lv_reads w"]) (simp add: doc_of_def)
qed

lemma step_acts:
  assumes se: "opens_session E S k se" and w: "fresh k w"
  shows "acts_as k (spec_step E step) (do_step E se step) w"
proof (cases step)
  case (BeginRun run_id mode provider model)
  then show ?thesis using w unfolding BeginRun do_step.simps begin_run_def
    by (intro clock_acts write_acts [OF se])
      (simp_all add: fresh_read shown_by_run dget_Cons)
next
  case (CompleteRun run_id reason tools)
  then show ?thesis using finish_acts [OF se w, of "[(''finish_reason'', JStr reason), (''tool_calls'', JList (map JStr tools))]" run_id "''completed''"]
    by (simp add: complete_run_def acts_as_def)
next
  case (FailRun run_id failure)
  then show ?thesis using finish_acts [OF se w, of "[(''failure'', JStr failure)]" run_id "''failed''"]
    by (simp add: fail_run_def acts_as_def)
next
  case ForgetState
  then show ?thesis using forget_acts [OF se w] by (simp add: acts_as_def)
qed (use write_acts [OF se w] in \<open>simp_all add: using_mode_def using_model_def using_provider_def\<close>)

lemma locked_acts:
  assumes se: "opens_session E S k se" and inv: "inv (lv_store w)" and free: "loc k \<notin> held (lv_store w)"
    and args: "lock_args_ok ttl wait"
    and body: "\<And>w. fresh k w \<Longrightarrow> acts_as k f m w"
  shows "acts_as k f (session_lock E se m ttl wait) w"
proof -
  obtain t where a: "ss_acquire S k ttl wait (lv_store w) = (Inr (), t)" and t: "inv t"
    "view t = view (lv_store w)" "held t = insert (loc k) (held (lv_store w))"
    using acquire_free [OF inv args free] by blast
  let ?w = "w\<lparr>lv_store := t, lv_cached := None\<rparr>"
  have same: "doc_of k t = doc_of k (lv_store w)" using t(2) by (rule doc_of_view)
  have "fresh k ?w" using t(1) by (simp add: fresh_def)
  from body [OF this] obtain c u n where m: "m ?w = (Inr (), ?w\<lparr>lv_cached := c, lv_store := u, lv_reads := n\<rparr>)"
    and u: "inv u" "held u = held t" "\<forall>p. p \<noteq> loc (k @ '':ephemeral'') \<longrightarrow> view u p = view t p"
      "(n, shown_by (doc_of k u)) = f (lv_reads w, shown_by (doc_of k t))"
    by (auto simp: acts_as_def)
  have "loc k \<in> held u" using u t by simp
  then obtain v where r: "ss_release S k u = (Inr (), v)" and v: "inv v" "view v = view u" "held v = held u - {loc k}"
    using release_law [OF u(1)] by blast
  have "session_lock E se m ttl wait w = (Inr (), w\<lparr>lv_cached := c, lv_store := v, lv_reads := n\<rparr>)"
    using se a m r by (simp add: session_lock_def assert_writable_def opens_session_def act_bind_def act_lift_def
        on_store_def set_cached_def act_finally_def)
  moreover have "doc_of k v = doc_of k u" using v(2) by (rule doc_of_view)
  ultimately show ?thesis using t u v same free unfolding acts_as_def
    by (intro exI [of _ c] exI [of _ v] exI [of _ n]) simp
qed

lemma locked_history:
  assumes "\<forall>(se, cache, step) \<in> set hist. opens_session E S k se" "inv (lv_store w)" "loc k \<notin> held (lv_store w)"
    "lock_args_ok ttl wait"
  shows "acts_as k (fold (\<lambda>(se, cache, step). spec_step E step) hist) (run_history E ttl wait hist) w"
  using assms
proof (induction E ttl wait hist arbitrary: w rule: run_history.induct)
  case (1 E ttl wait)
  then show ?case
    by (auto simp: acts_as_def act_return_def intro!: exI [of _ "lv_cached w"] exI [of _ "lv_store w"] exI [of _ "lv_reads w"])
next
  case (2 E ttl wait se cache step rest)
  have "acts_as k (spec_step E step) (session_lock E se (do_step E se step) ttl wait) (w\<lparr>lv_cached := cache\<rparr>)"
    using 2 by (intro locked_acts step_acts) auto
  then obtain c t n where m: "session_lock E se (do_step E se step) ttl wait (w\<lparr>lv_cached := cache\<rparr>)
      = (Inr (), w\<lparr>lv_cached := c, lv_store := t, lv_reads := n\<rparr>)"
    and t: "inv t" "held t = held (lv_store w)" "\<forall>p. p \<noteq> loc (k @ '':ephemeral'') \<longrightarrow> view t p = view (lv_store w) p"
      "(n, shown_by (doc_of k t)) = spec_step E step (lv_reads w, shown_by (doc_of k (lv_store w)))"
    by (auto simp: acts_as_def)
  let ?w = "w\<lparr>lv_store := t, lv_reads := n\<rparr>"
  have "acts_as k (fold (\<lambda>(se, cache, step). spec_step E step) rest) (run_history E ttl wait rest) ?w"
    using 2 t by (intro "2.IH") auto
  moreover have "run_history E ttl wait ((se, cache, step) # rest) w = run_history E ttl wait rest ?w"
    using m by (simp add: act_bind_def in_session_def)
  ultimately show ?case using t by (auto simp: acts_as_def)
qed

text \<open>What an object with an empty cache reads.\<close>

lemma readers:
  assumes se: "opens_session E S k se" and inv: "inv (lv_store w)"
  shows "fst (in_session None (session_mode E se) w) = Inr (sh_mode (shown_by (doc_of k (lv_store w))))
    \<and> fst (in_session None (session_model E se) w) = Inr (sh_model (shown_by (doc_of k (lv_store w))))
    \<and> fst (in_session None (session_provider E se) w) = Inr (sh_provider (shown_by (doc_of k (lv_store w))))
    \<and> fst (in_session None (session_run E se) w) = Inr (sh_run (shown_by (doc_of k (lv_store w))))"
proof -
  have "fresh k (w\<lparr>lv_cached := None\<rparr>)" using inv by (simp add: fresh_def)
  from state_read [OF se this] obtain t where
    "session_state E se (w\<lparr>lv_cached := None\<rparr>) = (Inr (doc_of k (lv_store w)), w\<lparr>lv_cached := Some (doc_of k (lv_store w)), lv_store := t\<rparr>)"
    by auto
  with se show ?thesis
    by (simp add: in_session_def session_mode_def session_model_def session_provider_def session_run_def read_str_def
        act_bind_def act_return_def opens_session_def shown_by_def)
qed

text \<open>Without the lock \<open>_finish_run\<close> asks the cache of its object, which may be that of a run another worker
  has replaced since: the late worker's state overwrites the stored one, the run in flight included.\<close>

lemma late_finish_overwrites:
  assumes se: "opens_session E S k se" and inv: "inv (lv_store w)"
    and cached: "lv_cached w = Some d" "run_of d = Some r" "dget r ''id'' = JStr run_id"
  shows "\<exists>t. fail_run E se run_id failure w = (Inr (), t)
    \<and> doc_of k (lv_store t) = dput ''run'' (JDict (finished_run (Some r) run_id ''failed'' (ev_now E (lv_reads w))
         [(''failure'', JStr failure)])) d"
proof -
  let ?d = "dput ''run'' (JDict (finished_run (Some r) run_id ''failed'' (ev_now E (lv_reads w)) [(''failure'', JStr failure)])) d"
  obtain u where "ss_put S (k @ '':ephemeral'') ?d (se_ttl se) (lv_store w) = (Inr (), u)"
    and u: "view u = (view (lv_store w))(loc (k @ '':ephemeral'') \<mapsto> ?d)"
    using timed_put_law [OF inv] se unfolding opens_session_def by blast
  then have "fail_run E se run_id failure w = (Inr (), w\<lparr>lv_cached := Some ?d, lv_store := u, lv_reads := Suc (lv_reads w)\<rparr>)"
    using se cached by (simp add: fail_run_def finish_run_def session_run_def session_state_def get_cached_def read_env_def
        session_write_def assert_writable_def opens_session_def ephemeral_key_of [OF se] act_bind_def act_lift_def
        act_return_def on_store_def set_cached_def)
  with u show ?thesis by (simp add: doc_of_def)
qed

end

subsection \<open>A session of the in-memory store\<close>

definition example_env :: env where
  "example_env = \<lparr> ev_sha1 = (\<lambda>t. ''s1''), ev_sha256 = (\<lambda>t. ''s256''), ev_monotonic = (\<lambda>_. 0), ev_now = (\<lambda>_. ''now''),
     ev_uuid = (\<lambda>_. replicate 32 (CHR ''7'')) \<rparr>"

definition example_session :: "mem_state session" where
  "example_session =
     \<lparr> se_participant = Plain ''user'' (JStr ''7''), se_scope = ''chat'', se_legacy = True,
       se_address = \<lparr> ad_type = Some ''user'', ad_id = Some ''7'', ad_scope = ''chat'', ad_agent = None \<rparr>,
       se_actor = TheParticipant (Plain ''user'' (JStr ''7'')), se_index = None, se_raw_durable = memory_store,
       se_ephemeral = memory_store, se_durable = memory_store, se_lock_store = memory_store, se_ttl = None,
       se_resolution_only = False, se_resolved_mode = None \<rparr>"

text \<open>It is the session the constructor makes.\<close>

lemma example_session_new:
  "session_new example_env (Plain ''user'' (JStr ''7'')) ''chat'' memory_store memory_store None None None None JNull
     = Inr example_session"
  by (simp add: session_new_def example_session_def session_address_new_def validate_agent_def wrapped_def)

subsection \<open>The property\<close>

text \<open>C17: what is set under the lock is what every worker reads. Any history of steps of one session, each made
  under its lock by an object with whatever in its cache, goes through and leaves the session showing
  what \<open>spec_step\<close> makes of what it showed before: an object opened afterwards reads exactly that mode,
  model, provider and run, a run that was replaced is not brought back by a late report, and no other
  document and no lock is touched.\<close>

theorem locked_history_is_read_back:
  assumes "timed_store_laws S loc view held ok" and "ok (lv_store w)" and "loc k \<notin> held (lv_store w)"
    and "lock_args_ok ttl wait"
    and "\<forall>(se, cache, step) \<in> set hist. opens_session E S k se" and "opens_session E S k reader"
    and "before = shown_by (case view (lv_store w) (loc (k @ '':ephemeral'')) of None \<Rightarrow> [] | Some d \<Rightarrow> d)"
    and "after = snd (fold (\<lambda>(se, cache, step). spec_step E step) hist (lv_reads w, before))"
  shows "\<exists>t. run_history E ttl wait hist w = (Inr (), t)
    \<and> fst (in_session None (session_mode E reader) t) = Inr (sh_mode after)
    \<and> fst (in_session None (session_model E reader) t) = Inr (sh_model after)
    \<and> fst (in_session None (session_provider E reader) t) = Inr (sh_provider after)
    \<and> fst (in_session None (session_run E reader) t) = Inr (sh_run after)
    \<and> held (lv_store t) = held (lv_store w)
    \<and> (\<forall>p. p \<noteq> loc (k @ '':ephemeral'') \<longrightarrow> view (lv_store t) p = view (lv_store w) p)"
proof -
  note L = timed_store_laws.locked_history [OF assms(1) assms(5,2-4)]
  have before: "before = shown_by (timed_store_laws.doc_of loc view k (lv_store w))"
    by (simp add: timed_store_laws.doc_of_def [OF assms(1)] assms(7))
  from L obtain c u n where run: "run_history E ttl wait hist w = (Inr (), w\<lparr>lv_cached := c, lv_store := u, lv_reads := n\<rparr>)"
    and u: "ok u" "held u = held (lv_store w)" "\<forall>p. p \<noteq> loc (k @ '':ephemeral'') \<longrightarrow> view u p = view (lv_store w) p"
      "(n, shown_by (timed_store_laws.doc_of loc view k u)) = fold (\<lambda>(se, cache, step). spec_step E step) hist (lv_reads w, before)"
    unfolding timed_store_laws.acts_as_def [OF assms(1)] before by blast
  have "after = shown_by (timed_store_laws.doc_of loc view k u)" using u(4) assms(8) by (metis snd_conv)
  with run u timed_store_laws.readers [OF assms(1,6), of "w\<lparr>lv_cached := c, lv_store := u, lv_reads := n\<rparr>"]
  show ?thesis by auto
qed

theorem locked_history_is_read_back_witness:
  "\<exists>t :: mem_state live. run_history example_env (JInt 10) (JInt 5)
       [(example_session, None, BeginRun ''r1'' ''chat'' ''p'' ''m''),
        (example_session, Some [], BeginRun ''r2'' ''chat'' ''p'' ''m''),
        (example_session, Some [(''run'', JDict [(''id'', JStr ''r1'')])], FailRun ''r1'' ''late''),
        (example_session, None, UseMode ''plan'')]
       \<lparr> lv_cached = None, lv_store = \<lparr> ms_entries = [], ms_locks = {}, ms_now = 0 \<rparr>, lv_reads = 0 \<rparr> = (Inr (), t)
     \<and> fst (in_session None (session_mode example_env example_session) t) = Inr (Some ''plan'')
     \<and> fst (in_session None (session_run example_env example_session) t)
        = Inr (Some [(''id'', JStr ''r2''), (''status'', JStr ''running''), (''mode'', JStr ''chat''), (''provider'', JStr ''p''),
                     (''model'', JStr ''m''), (''started_at'', JStr ''now'')])"
proof -
  let ?h = "[(example_session, None, BeginRun ''r1'' ''chat'' ''p'' ''m''),
        (example_session, Some [], BeginRun ''r2'' ''chat'' ''p'' ''m''),
        (example_session, Some [(''run'', JDict [(''id'', JStr ''r1'')])], FailRun ''r1'' ''late''),
        (example_session, None, UseMode ''plan'')]"
  let ?w = "\<lparr> lv_cached = None, lv_store = \<lparr> ms_entries = [], ms_locks = {}, ms_now = 0 \<rparr>, lv_reads = 0 \<rparr> :: mem_state live"
  have opens: "opens_session example_env memory_store ''session:s1:7:chat'' example_session"
    by (simp add: opens_session_def example_session_def current_key_def current_address_def session_address_new_def
        validate_agent_def session_key_def example_env_def outlives_put_def)
  have first: "shown_by (case mem_view (lv_store ?w) (''session:s1:7:chat'' @ '':ephemeral'') of None \<Rightarrow> [] | Some d \<Rightarrow> d) = shown_by []"
    by (simp add: mem_view_def)
  have after: "snd (fold (\<lambda>(se, cache, step). spec_step example_env step) ?h (lv_reads ?w, shown_by []))
      = \<lparr> sh_mode = Some ''plan'', sh_model = None, sh_provider = None, sh_run = Some
           [(''id'', JStr ''r2''), (''status'', JStr ''running''), (''mode'', JStr ''chat''), (''provider'', JStr ''p''),
            (''model'', JStr ''m''), (''started_at'', JStr ''now'')] \<rparr>"
    by (simp add: spec_finish_def superseded_def shown_by_def run_of_def dget_Cons example_env_def)
  note run = locked_history_is_read_back [OF mem_timed.timed_store_laws_axioms,
      where w = ?w and k = "''session:s1:7:chat''" and hist = ?h and E = example_env and reader = example_session
        and before = "shown_by []" and ttl = "JInt 10" and wait = "JInt 5"]
  have "lock_args_ok (JInt 10) (JInt 5)" "\<forall>(se, cache, step) \<in> set ?h. opens_session example_env memory_store ''session:s1:7:chat'' se"
    using opens by (simp_all add: lock_args_ok_def finite_num_def)
  from run [OF TrueI _ this opens first [symmetric] after [symmetric]] show ?thesis by auto
qed

end
