(* ===== verification/RunExample.thy ===== *)
theory RunExample
  imports RunResults ThreadProps StructuredProps SessionProps
begin

section \<open>A turn, run in the kernel\<close>

text \<open>
  A small host: one mode with one gated tool, an in-memory store, no listeners and two clients. The turns
  below run through every part of the model, from the session's address to the rows of its thread, by
  rewriting alone. The properties of turns use them as their instances.
\<close>

definition example_modes :: mode_registries where
  "example_modes =
     \<lparr> ms_root = \<lparr> mr_agent = None, mr_refuse_duplicates = False,
         mr_config = [(''modes'', JDict [(''chat'', JDict
           [(''system_prompt'', JStr ''Be brief.''), (''tools'', JList [JStr ''wipe'']), (''max_steps'', JInt 3),
            (''requires_approval'', JList [JStr ''wipe''])])])],
         mr_owners = [(''chat'', ''legacy'')] \<rparr>,
       ms_agents = (\<lambda>_. None) \<rparr>"

definition chat_mode :: agent_mode where
  "chat_mode =
     \<lparr> am_name = ''chat'', am_system_prompt = ''Be brief.'', am_tools = [''wipe''], am_skills = [], am_max_steps = 3,
       am_subagents = [], am_requires_approval = [''wipe''], am_provider_options = [] \<rparr>"

definition wipe_tool :: "mem_state world tool" where
  "wipe_tool = \<lparr> tl_name = ''wipe'', tl_handle = (\<lambda>args. act_return (JStr ''wiped'')) \<rparr>"

definition example_tools :: "(mem_state, mem_state world) registries" where
  "example_tools =
     \<lparr> rs_root = \<lparr> tr_agent = None, tr_refuse_duplicates = False, tr_tools = [(''wipe'', wipe_tool)],
         tr_factories = [], tr_metadata = [(''wipe'', ''legacy'', ''static'')], tr_static_owners = [(''wipe'', ''legacy'')],
         tr_factory_owners = [], tr_providers = [] \<rparr>,
       rs_agents = (\<lambda>_. None) \<rparr>"

definition example_response :: "llm_tool_call list \<Rightarrow> llm_response" where
  "example_response calls =
     \<lparr> lp_text = ''ok'', lp_finish_reason = ''stop'', lp_tool_calls = calls, lp_cost_usd = None,
       lp_additional_content = [], lp_structured = JInt 4 \<rparr>"

definition wipe_call :: llm_tool_call where
  "wipe_call =
     \<lparr> lc_id = ''c1'', lc_name = ''wipe'', lc_arguments = [], lc_result_id = None, lc_reasoning_id = None,
       lc_reasoning_summary = None \<rparr>"

text \<open>A client that answers, and one that asks for the gated tool.\<close>

definition answering :: "mem_state world llm_client" where
  "answering q = act_return (example_response [])"

definition asking :: "mem_state world llm_client" where
  "asking q = act_return (example_response [wipe_call])"

definition example_runtime :: "mem_state world llm_client \<Rightarrow> (mem_state, mem_state world) runtime" where
  "example_runtime client =
     \<lparr> ru_client = client, ru_modes = example_modes, ru_tools = example_tools, ru_authorizer = None,
       ru_listeners = [], ru_config = [], ru_agents = [], ru_narrow = True \<rparr>"

definition example_world :: "mem_state world" where
  "example_world =
     \<lparr> lv_cached = None, lv_store = \<lparr> ms_entries = [], ms_locks = {}, ms_now = 0 \<rparr>, lv_reads = 0,
       wd_ledger = ledger_start ''none'' 0 \<rparr>"

definition integer_schema :: pydict where "integer_schema = [(''type'', JStr ''integer'')]"

subsection \<open>Equations of its parts\<close>

lemma example_env_simps [simp]:
  "ev_monotonic example_env = (\<lambda>_. 0)" "ev_now example_env = (\<lambda>_. ''now'')"
  "ev_uuid example_env = (\<lambda>_. replicate 32 (CHR ''7''))"
  by (simp_all add: example_env_def)

lemma example_session_simps [simp]:
  "se_agent example_session = None" "se_resolved_mode example_session = None"
  "assert_writable example_session = Inr ()" "se_ephemeral example_session = memory_store"
  "se_durable example_session = memory_store" "se_ttl example_session = None"
  "current_key example_env example_session = Inr ''session:s1:7:chat''"
  "ephemeral_key example_env example_session = Inr ''session:s1:7:chat:ephemeral''"
  "session_thread example_env example_session = Inr (memory_store, ''session:s1:7:chat:thread'')"
  by (simp_all add: example_session_def se_agent_def assert_writable_def current_key_def current_address_def
      session_address_new_def session_key_def example_env_def ephemeral_key_def session_thread_def validate_agent_def)

lemma memory_store_simps [simp]:
  "ss_get memory_store = mem_get" "ss_put memory_store = mem_put" "ss_forget memory_store = mem_forget"
  "ss_acquire memory_store = mem_acquire" "ss_release memory_store = mem_release"
  by (simp_all add: memory_store_def)

lemma chat_mode_simps [simp]:
  "am_name chat_mode = ''chat''" "am_max_steps chat_mode = 3" "am_tools chat_mode = [''wipe'']"
  "am_requires_approval chat_mode = [''wipe'']" "am_system_prompt chat_mode = ''Be brief.''"
  "am_provider_options chat_mode = []"
  by (simp_all add: chat_mode_def)

lemma example_mode [simp]:
  "modes_for None example_modes = Inr (ms_root example_modes)"
  "resolve_mode (ms_root example_modes) None = Inr chat_mode"
  by (simp add: modes_for_def validate_agent_def) code_simp

lemma example_runtime_simps [simp]:
  "ru_client (example_runtime c) = c" "ru_modes (example_runtime c) = example_modes"
  "ru_tools (example_runtime c) = example_tools" "ru_authorizer (example_runtime c) = None"
  "ru_narrow (example_runtime c) = True" "settings (example_runtime c) example_session = []"
  by (simp_all add: example_runtime_def settings_def)

lemma example_emit [simp]: "emit_event (example_runtime c) ev = act_return ()"
  by (simp add: example_runtime_def emit_event_def emit_def act_bind_def act_return_def fun_eq_iff)

lemma integer_fits [simp]: "schema_problems integer_schema (JInt 4) name = []"
  by (simp add: schema_problems_def check_exact)
    (simp add: integer_schema_def fits_scalar by_type_def dget_Cons declared_types_def matches_type_def)

lemma example_offer [simp]:
  "offer (example_runtime c) example_session chat_mode None w = (Inr ([wipe_tool], [(''wipe'', ''legacy'', ''static'')]), w)"
  by (simp add: offer_def resolve_read_only_def in_session_def act_bind_def act_lift_def act_return_def narrowed_tools_def
      read_only_view_def resolve_detailed_def registry_for_def example_tools_def validate_agent_def se_agent_def
      example_session_def resolve_here_def sorted_names_def allowed_for_def completion_guard_def
      completion_tool_name_def ownership_rows_def wipe_tool_def Let_def)

subsection \<open>The runs\<close>

text \<open>The argument of an effect is evaluated before its continuation.\<close>

lemma act_bind_cong: "s = s' \<Longrightarrow> act_bind m f s = act_bind m f s'"
  by simp

lemmas effect_eqs = act_bind_def act_return_def act_raise_def act_lift_def act_finally_def act_catch_def
  on_store_def read_env_def set_cached_def get_cached_def get_ledger_def map_ledger_def Let_def then_run_def on_error_def

lemmas store_eqs = mem_get_def mem_put_def mem_expired_def mem_acquire_def mem_release_def with_lock_def
  read_compute_write_def locked_update_def

lemmas session_eqs = session_mode_def read_str_def session_state_def session_provider_def session_model_def
  session_write_def session_run_def run_of_def begin_run_def finish_run_def finished_run_def complete_run_def dput_def
  dget_Cons

lemmas thread_eqs = thread_rows_def thread_messages_def document_messages_def thread_record_def record_body_def
  existing_entries_def new_entries_def thread_entry_def to_message_def dicts_of_def List.map_filter_simps
  thread_view_def normalise_def is_type_def approval_tool_scope_def write_rows_def

lemmas turn_eqs = turn_def own_ledger_def start_turn_def admit_attachments_def context_or_root_def context_root_def
  run_budget_new_def bounded_run_def too_deep_def MAX_DEPTH_def nonempty_or_def run_turn_def open_turn_def
  resolve_approvals_def unresolved_def unresolved_of_def within_scope_def user_row_def

lemmas loop_eqs = agent_loop.simps loop_step_def request_of_def take_response_def answer_end_def calls_end_def finish_def
  exhaustion_def answer_row_def assert_document_def failed_finish_def needs_approval_def ledger_start_def record_cost_def
  record_steps_def example_response_def

lemmas run_eqs = effect_eqs store_eqs session_eqs thread_eqs turn_eqs loop_eqs

lemma answering_turn:
  "\<exists>t. turn example_env (example_runtime answering) example_session ''2+2?'' None None [] (Some integer_schema) example_world
     = Some (Inr \<lparr> ar_run_id = uuid_text (replicate 32 (CHR ''7'')), ar_text = ''ok'', ar_steps = 1, ar_tool_calls = [],
         ar_finish_reason = ''stop'', ar_pending_approvals = [], ar_stopped_because = None,
         ar_structured = Some (JInt 4) \<rparr>, t)"
  by (simp add: run_eqs answering_def example_world_def cong: act_bind_cong)

lemma asking_turn:
  "\<exists>t. turn example_env (example_runtime asking) example_session ''2+2?'' None None [] (Some integer_schema) example_world
     = Some (Inr \<lparr> ar_run_id = uuid_text (replicate 32 (CHR ''7'')), ar_text = ''ok'', ar_steps = 1, ar_tool_calls = [],
         ar_finish_reason = ''awaiting_approval'',
         ar_pending_approvals = [\<lparr> pa_id = ''apr_'' @ replicate 32 (CHR ''7''), pa_tool = ''wipe'', pa_arguments = [], pa_tool_call_id = ''c1''\<rparr>],
         ar_stopped_because = None, ar_structured = None \<rparr>, t)"
  by (simp add: run_eqs asking_def example_world_def wipe_call_def call_input_def pending_of_def cong: act_bind_cong)

subsection \<open>A thread that waits for a person\<close>

definition chat_run :: "(mem_state, mem_state world) run_spec" where
  "chat_run =
     \<lparr> rs_session = example_session, rs_thread = (memory_store, ''session:s1:7:chat:thread''), rs_mode = chat_mode,
       rs_context = context_root (steps_budget 3), rs_run_id = ''r'', rs_provider = ''unknown'', rs_model = ''unknown'',
       rs_offered = [wipe_tool], rs_schema = None \<rparr>"

definition wipe_input :: tool_call_input where "wipe_input = call_input wipe_call"

text \<open>The call, its request and the names offered; then the decision of a person.\<close>

definition asking_row :: pydict where
  "asking_row = assistant_row ''ok'' [wipe_input] [] [request_row ''apr'' ''c1'']"

definition approved_rows :: "pydict list" where
  "approved_rows = [dput ''harness_tool_names'' (JList [JStr ''wipe'']) asking_row,
     tool_result_row [] [decision_row ''apr'' True None]]"

definition approved_work :: unresolved_work where
  "approved_work =
     \<lparr> uw_calls = [call_row wipe_input], uw_results = [],
       uw_decisions = [(JStr ''apr'', decision_row ''apr'' True None)], uw_approval_ids = [(JStr ''c1'', JStr ''apr'')],
       uw_scope = Some ([''wipe''], False) \<rparr>"

lemma approved_view: "thread_view approved_rows = Inr [asking_row, tool_result_row [] [decision_row ''apr'' True None]]"
  by code_simp

lemma approved_scope: "approval_tool_scope approved_rows = Inr (Some ([''wipe''], False))"
  by code_simp

lemma approved_rows_work: "unresolved_of chat_mode approved_rows = Inr (Some approved_work)"
  by code_simp

lemma approved_last: "last_calling [asking_row, tool_result_row [] [decision_row ''apr'' True None]]
    = Some (asking_row, [tool_result_row [] [decision_row ''apr'' True None]])"
  by code_simp

end
