(* ===== verification/TurnProps.thy ===== *)
theory TurnProps
  imports AgentTree LoopLaws ApprovalLaws RunExample
begin

section \<open>What a turn guarantees\<close>

text \<open>
  The properties of \<open>runtime.py\<close> and \<open>subagent_runner.py\<close>. The witnesses run the small host of \<open>RunExample\<close>.
\<close>

subsection \<open>Lemmas\<close>

lemma resolve_mode_steps: "resolve_mode M name = Inr m \<Longrightarrow> 1 \<le> am_max_steps m"
  by (auto simp: resolve_mode_def Let_def split: option.splits json.splits if_splits)

lemma steps_below:
  "rb_max_steps b \<le> n \<Longrightarrow> spending (\<lambda>L M. rl_steps L \<le> n \<longrightarrow> rl_steps M \<le> n) b"
  by unfold_locales (auto dest!: exhaustion_None_steps)

lemma own_turn_steps:
  assumes ru: "runtime_along (=) ru" and run: "turn E ru se prompt names None attachments schema w = Some (Inr r, t)"
    and mode: "modes_for (se_agent se) (ru_modes ru) = Inr M" "session_mode E se w = (Inr name, u)"
      "resolve_mode M name = Inr m"
  shows "ar_steps r \<le> am_max_steps m \<and> wd_ledger t = wd_ledger w"
proof -
  let ?n = "am_max_steps m" and ?R = "\<lambda>L M. rl_steps L \<le> am_max_steps m \<longrightarrow> rl_steps M \<le> am_max_steps m"
  from run obtain t' where t: "t = t'\<lparr>wd_ledger := wd_ledger w\<rparr>"
    and turn: "then_run (start_turn E ru se prompt None attachments schema)
      (\<lambda>(rs, admitted). run_turn E ru rs prompt names admitted) w = Some (Inr r, t')"
    by (auto simp: turn_def own_ledger_def)
  then obtain rs admitted t1 where start: "start_turn E ru se prompt None attachments schema w = (Inr (rs, admitted), t1)"
    and body: "run_turn E ru rs prompt names admitted t1 = Some (Inr r, t')" by (auto dest!: then_runD)
  from start_turn_mode [OF start] mode have m: "rs_mode rs = m" by auto
  have "0 \<le> ?n" using resolve_mode_steps [OF mode(3)] by simp
  from returnsD [OF start_own_turn [OF ru this] start] m
  have b: "rb_max_steps (rc_budget (rs_context rs)) \<le> ?n" and t1: "rl_steps (wd_ledger t1) \<le> ?n" by simp_all
  have "runtime_along ?R ru" using ru by (rule runtime_along_mono) simp
  then have "moves ?R (run_turn E ru rs prompt names admitted)"
    by (rule spending.run_turn_along [OF steps_below [OF b]]) (simp add: no_looser_def)
  with body t1 have "rl_steps (wd_ledger t') \<le> ?n" by (auto simp: moves_def)
  moreover from run_turn_response [OF body] have "ar_steps r = rl_steps (wd_ledger t')" by (simp add: response_ok_def)
  ultimately show ?thesis using t by simp
qed

lemma turn_response:
  assumes "turn E ru se prompt names context attachments schema w = Some (Inr r, t)" and "ar_structured r = Some v"
  shows "\<exists>s. schema = Some s \<and> v \<noteq> JNull \<and> fits s v \<and> ar_pending_approvals r = [] \<and> ar_stopped_because r = None"
proof -
  from assms(1) obtain t' where "then_run (start_turn E ru se prompt context attachments schema)
      (\<lambda>(rs, admitted). run_turn E ru rs prompt names admitted) w = Some (Inr r, t')"
    by (cases "context") (auto simp: turn_def own_ledger_def)
  then obtain rs admitted t1 where start: "start_turn E ru se prompt context attachments schema w = (Inr (rs, admitted), t1)"
    and body: "run_turn E ru rs prompt names admitted t1 = Some (Inr r, t')" by (auto dest!: then_runD)
  from returnsD [OF start_turn_returns start] have "rs_schema rs = schema" by simp
  with run_turn_response [OF body] assms(2) show ?thesis
    by (auto simp: response_ok_def schema_problems_def check_exact split: option.splits)
qed

lemma example_along: "runtime_along (=) (example_runtime answering)"
  by (auto simp: runtime_along_def registry_along_def tool_along_def example_runtime_def example_tools_def
      wipe_tool_def answering_def ran_def intro: same.acts_quiet)

subsection \<open>The properties\<close>

text \<open>C30: a whole tree of agents stays inside its budget, and ends. Take a runtime with subagent tools in its
  registry, each made by a runner on that same runtime, however they name each other and however deep their
  sends nest before Python refuses to go deeper. If no context among theirs and the caller's own allows more than
  \<open>N\<close> steps, then every \<open>send\<close> under the caller's context returns a response or an error, as every \<open>send\<close> a runner
  makes on the way does; all the runs it made together, its own and those of every subagent below it, leave at most
  \<open>N\<close> steps on the shared ledger (or what was there before, if that is more); and in a tree that is cancelled
  they take none and stay cancelled. The host's own tools, policies and listeners are asked only to record no
  steps and to lift no cancellation.\<close>

theorem agent_tree_stays_in_budget:
  assumes "runtime_along leaves_steps ru"
    and "\<forall>(a, parent, c, i) \<in> set made. rb_max_steps (rc_budget c) \<le> N" and "rb_max_steps (rc_budget ctx) \<le> N"
  shows "(\<exists>r t. send E (runtime_at E open_session ru made n) se prompt names (Some ctx) attachments w = Some (r, t)
         \<and> rl_steps (wd_ledger w) \<le> rl_steps (wd_ledger t)
         \<and> rl_steps (wd_ledger t) \<le> max N (rl_steps (wd_ledger w))
         \<and> (rl_cancelled (wd_ledger w) \<longrightarrow> rl_cancelled (wd_ledger t) \<and> rl_steps (wd_ledger t) = rl_steps (wd_ledger w)))
     \<and> (\<forall>k child task c v. send E (runtime_at E open_session ru made k) child task None (Some c) [] v \<noteq> None)"
proof -
  obtain r t where run: "send E (runtime_at E open_session ru made n) se prompt names (Some ctx) attachments w = Some (r, t)"
    using runner_send_ends [OF assms(1,2)] by blast
  from send_within [OF runtime_at_along [OF assms(1,2)] assms(3) run] run
    runner_send_ends [OF assms(1,2)] show ?thesis
    unfolding within_steps_def by (metis option.distinct(1))
qed

theorem agent_tree_stays_in_budget_witness:
  "\<exists>r t. send example_env (runtime_at example_env (\<lambda>_ _ _ _. Inr example_session) (example_runtime answering)
       [(\<lparr>sa_name = ''helper'', sa_description = [], sa_mode = ''chat'', sa_budget = steps_budget 2, sa_scope_suffix = None\<rparr>,
         example_session, context_root (steps_budget 5), ''r'')] 3)
     example_session ''go'' None (Some (context_root (steps_budget 4))) [] example_world = Some (r, t)
   \<and> rl_steps (wd_ledger t) \<le> 5"
proof -
  have "runtime_along leaves_steps (example_runtime answering)"
    by (rule runtime_along_mono [OF example_along]) (simp add: leaves_steps_def)
  from conjunct1 [OF agent_tree_stays_in_budget [OF this, where N = 5 and w = example_world and E = example_env and n = 3
      and se = example_session and prompt = "''go''" and names = None and attachments = "[]"
      and ctx = "context_root (steps_budget 4)" and open_session = "\<lambda>_ _ _ _. Inr example_session"
      and made = "[(\<lparr>sa_name = ''helper'', sa_description = [], sa_mode = ''chat'', sa_budget = steps_budget 2, sa_scope_suffix = None\<rparr>,
         example_session, context_root (steps_budget 5), ''r'')]"]]
  have "\<exists>r t. send example_env (runtime_at example_env (\<lambda>_ _ _ _. Inr example_session) (example_runtime answering)
       [(\<lparr>sa_name = ''helper'', sa_description = [], sa_mode = ''chat'', sa_budget = steps_budget 2, sa_scope_suffix = None\<rparr>,
         example_session, context_root (steps_budget 5), ''r'')] 3)
     example_session ''go'' None (Some (context_root (steps_budget 4))) [] example_world = Some (r, t)
   \<and> rl_steps (wd_ledger t) \<le> max 5 (rl_steps (wd_ledger example_world))"
    by (simp only: context_root_def steps_budget_simps list.set ball_simps prod.case run_budget.simps run_context.simps
        order.refl simp_thms) auto
  then show ?thesis by (simp add: example_world_def ledger_start_def)
qed

text \<open>C32: every turn ends. If nothing the host supplies lowers the steps of the ledger, a turn, with a context
  or with a tree of its own, structured or not, returns or raises: the loop cannot go on for ever.\<close>

theorem every_turn_ends:
  assumes "runtime_along (\<lambda>L M. rl_steps L \<le> rl_steps M) ru"
  shows "\<exists>r t. turn E ru se prompt names context attachments schema w = Some (r, t)"
  using turn_ends [OF assms] by (metis prod.collapse)

theorem every_turn_ends_witness:
  "\<exists>r t. turn example_env (example_runtime answering) example_session ''go'' None None [] None example_world = Some (r, t)"
  by (rule every_turn_ends) (rule runtime_along_mono [OF example_along], simp)

text \<open>C36: a turn of its own takes at most the steps of the session's mode, and spends nothing of a tree that is
  already running: it makes a fresh context with a fresh ledger, so the ledger that was there is what is there
  afterwards. (The code makes another object and drops it; here \<open>own_ledger\<close> puts the fresh ledger in place and
  takes it away again.)\<close>

theorem own_turn_within_mode:
  assumes "runtime_along (=) ru" and "turn E ru se prompt names None attachments schema w = Some (Inr r, t)"
    and "modes_for (se_agent se) (ru_modes ru) = Inr M" "session_mode E se w = (Inr name, u)"
      "resolve_mode M name = Inr m"
  shows "ar_steps r \<le> am_max_steps m \<and> wd_ledger t = wd_ledger w"
  using assms by (rule own_turn_steps)

theorem own_turn_within_mode_witness:
  "\<exists>r t. turn example_env (example_runtime answering) example_session ''2+2?'' None None [] (Some integer_schema) example_world
     = Some (Inr r, t) \<and> ar_steps r \<le> 3 \<and> wd_ledger t = wd_ledger example_world"
proof -
  obtain r t where run: "turn example_env (example_runtime answering) example_session ''2+2?'' None None []
      (Some integer_schema) example_world = Some (Inr r, t)" using answering_turn by blast
  have "session_mode example_env example_session example_world
      = (Inr None, example_world\<lparr>lv_cached := Some []\<rparr>)"
    by (simp add: run_eqs example_world_def dget_def)
  from own_turn_within_mode [OF example_along run _ this, of "ms_root example_modes" chat_mode] run
  show ?thesis by simp
qed

text \<open>C33: a structured answer fits its schema. The document \<open>send_structured\<close> returns is there, satisfies the
  schema the caller gave, and comes from a run that neither waits for a person nor was stopped.\<close>

theorem structured_answer_fits:
  assumes "send_structured E ru se prompt schema names context attachments w = Some (Inr r, t)"
  shows "\<exists>v. ar_structured r = Some v \<and> v \<noteq> JNull \<and> fits schema v
    \<and> ar_pending_approvals r = [] \<and> ar_stopped_because r = None"
proof -
  obtain v where "turn E ru se prompt names context attachments (Some schema) w = Some (Inr r, t)"
    "ar_structured r = Some v"
    using assms by (auto simp: send_structured_def split: if_splits)
  with turn_response show ?thesis by fastforce
qed

theorem structured_answer_fits_witness:
  "\<exists>r t. send_structured example_env (example_runtime answering) example_session ''2+2?'' integer_schema None None []
       example_world = Some (Inr r, t) \<and> ar_pending_approvals r = []"
proof -
  obtain r t where "send_structured example_env (example_runtime answering) example_session ''2+2?'' integer_schema
      None None [] example_world = Some (Inr r, t)"
    using answering_turn by (auto simp: send_structured_def)
  with structured_answer_fits [OF this] show ?thesis by blast
qed

text \<open>A structured run that is stopped cannot be resumed through its caller. Where the turn itself ends well,
  with approvals to ask a person for or with a budget that ran out, \<open>send_structured\<close> does not return that
  response: its assertion fails, the pending approval ids are lost to the caller, and the state of the turn
  stays.\<close>

theorem stopped_structured_run_asserts:
  assumes "turn E ru se prompt names context attachments (Some schema) w = Some (Inr r, t)"
    and "ar_pending_approvals r \<noteq> [] \<or> ar_stopped_because r \<noteq> None"
  shows "send_structured E ru se prompt schema names context attachments w = Some (Inl AssertionErr, t)"
proof (cases "ar_structured r")
  case None
  with assms show ?thesis by (simp add: send_structured_def)
next
  case (Some v)
  with turn_response [OF assms(1)] assms(2) show ?thesis by auto
qed

theorem stopped_structured_run_asserts_witness:
  "\<exists>t. send_structured example_env (example_runtime asking) example_session ''2+2?'' integer_schema None None []
     example_world = Some (Inl AssertionErr, t)"
proof -
  obtain r t where "turn example_env (example_runtime asking) example_session ''2+2?'' None None []
      (Some integer_schema) example_world = Some (Inr r, t)" "ar_pending_approvals r \<noteq> []"
    using asking_turn by fastforce
  with stopped_structured_run_asserts show ?thesis by blast
qed

text \<open>C34: a tool that needs approval does not run in the loop. For a client that sees the tools by their names,
  the whole loop of a run, its answers, rows, events and failures, is the same whatever the handlers of the
  gated tools do: none of them is ever called, before the decision of a person or without it.\<close>

theorem gated_handlers_wait:
  assumes "reads_names_only (ru_client ru)"
  shows "agent_loop E ru (disarm_run rs) text called w = agent_loop E ru rs text called w"
  by (rule agent_loop_cong) (simp add: loop_step_disarm [OF assms])

theorem gated_handlers_wait_witness:
  "agent_loop example_env (example_runtime asking) (disarm_run chat_run) [] [] example_world
     = agent_loop example_env (example_runtime asking) chat_run [] [] example_world"
  by (rule gated_handlers_wait) (simp add: reads_names_only_def asking_def)

text \<open>C35: the budget is asked first. The loop behaves exactly as with a client that refuses every call on a tree
  that is cancelled, out of steps or out of (metered) money: no step is bought that may not be taken. The
  refusal covers what the ledger alone shows, not the wall clock.\<close>

theorem budget_before_client:
  "agent_loop E (ru\<lparr>ru_client := guarded_client (rc_budget (rs_context rs)) (ru_client ru)\<rparr>) rs text called w
     = agent_loop E ru rs text called w"
  by (rule agent_loop_cong) (rule loop_step_guarded)



end
