(* ===== verification/Spec2Isabelle.thy ===== *)
theory Spec2Isabelle
  imports Doctor FileRaces IndexProps Skills TaskFileProps TurnProps
begin

text \<open>
  \<open>prism_harness\<close> is the layer between an application and its language model: it gives every participant
  sessions with a stored conversation, runs turns of a model with tools under budgets and approvals, lets agents
  delegate to subagents, and hands out durable task lists to workers. Its state is in stores, in memory or in
  files shared by processes of one host. This library models its Python sources (\<open>src/prism_harness/\<close>)
  function by function and proves what they promise.

  \<^bold>\<open>Parts and theories.\<close> In the order in which they build on each other:
  \<^item> \<open>Prelude\<close>, \<open>Pyvalue\<close>, \<open>PyText\<close>, \<open>Errors\<close>: calls that read and write a state and return or raise; the values of
    JSON with Python's equality, order, printing and dictionaries; \<open>errors.py\<close>.
  \<^item> \<open>JsonText\<close>, \<open>JsonParse\<close>: \<open>json.dumps\<close> writes texts that are prefix free, and \<open>json.loads\<close> reads back what it
    writes (\<open>loads_dumps\<close>); UTF-8 decoding.
  \<^item> \<open>Stores\<close> (\<open>stores/base.py\<close>, \<open>memory.py\<close>, \<open>manager.py\<close>): the store contract as a record of operations, its laws
    as the locale \<open>session_store_laws\<close>, and the in-memory store, which satisfies them.
    \<open>FallibleStores\<close>: the weaker contract of a store whose calls may fail.
  \<^item> \<open>Interleaving\<close>, \<open>Disk\<close>: programs of system calls, interleaved at every call with the others and with what
    happens to processes; a rely-guarantee logic for them as the locale \<open>rely_guarantee\<close>; the disk and what each call
    may do to it, failing and tearing included (\<open>disk_pool\<close>).
  \<^item> \<open>FileStore\<close>, \<open>FileAtomic\<close>, \<open>FileProps\<close>, \<open>FileRaces\<close> (\<open>stores/file.py\<close>, \<open>_file_state_io.py\<close>): the file store as such
    programs; no reader ever sees half a document, what is put is got, and two interleavings that callers have to avoid.
  \<^item> \<open>OwnerRecord\<close>, \<open>OwnerLock\<close>, \<open>LockWorld\<close>, \<open>LockSteps\<close>, \<open>LockRelease\<close>, \<open>LockTake\<close>, \<open>LockAlone\<close>, \<open>LockHeld\<close>,
    \<open>LockShape\<close>, \<open>LockProps\<close>
    (\<open>stores/_file_owner_lock.py\<close>, \<open>_file_lock_identity.py\<close>, \<open>_file_lock_read.py\<close>): the lock between processes, its
    records, the world of processes that it trusts, the invariant that its every call keeps, and what follows:
    mutual exclusion, recovery of what the dead left, and the end of every wait.
  \<^item> \<open>Budgets\<close>, \<open>BudgetProps\<close> (\<open>subagents.py\<close>): what a run may spend and has spent, with the budgets of its children.
  \<^item> \<open>Tasks\<close>, \<open>TaskSpec\<close>, \<open>TaskRefine\<close>, \<open>TaskRuns\<close>, \<open>TaskProps\<close> (\<open>tasks.py\<close>): task lists with claims and leases; an
    abstract specification, one refinement lemma per callback, histories of calls and their properties.
  \<^item> \<open>LockedUpdate\<close>, \<open>UpdateWork\<close>, \<open>UpdateRuns\<close>, \<open>UpdateProps\<close>: the lock and the store composed. Attempts in any number
    of processes run the protocol of the lock and, in the place of its callback, a read and a write of the document;
    every call of each may fall between the calls of the others. The lock sees to it that only its holder works
    (\<open>UpdateRuns\<close>), so the rely-guarantee logic of the work (\<open>UpdateWork\<close>) may rely on the document standing still: the
    updates are serializable in the order of their renames, and linearizable.
  \<^item> \<open>TaskFiles\<close>, \<open>TaskFileProps\<close>: the calls on a task list as such updates; what they write can be stored, and the contract
    of the list holds for workers in processes that share nothing but the directory.
  \<^item> \<open>Threads\<close>, \<open>ThreadProps\<close> (\<open>thread.py\<close>, \<open>thread_rows.py\<close>): stored conversations and their view for a model.
  \<^item> \<open>Structured\<close>, \<open>StructuredProps\<close> (\<open>structured.py\<close>): documents against schemas, and a relation with
    rules of its own that says the same.
  \<^item> \<open>Addresses\<close> (\<open>address.py\<close>), \<open>AddressIndex\<close>, \<open>IndexRecovery\<close>, \<open>IndexProps\<close> (\<open>address_index.py\<close>): the names of what
    is stored, and the index of them with its journal, which survives a failure at any write.
  \<^item> \<open>Sessions\<close>, \<open>SessionProps\<close> (\<open>session.py\<close>): the two halves of a session; what histories of calls under its lock
    leave to be read, against a specification, and what a call outside the lock may overwrite.
  \<^item> \<open>Tools\<close> (\<open>tools.py\<close>, \<open>registration.py\<close>), \<open>Modes\<close>, \<open>Attachments\<close>, \<open>Events\<close>, \<open>Skills\<close>,
    \<open>Doctor\<close> (the files of these names).
  \<^item> \<open>Runtime\<close>, \<open>RuntimeLoop\<close>, \<open>RuntimeTurn\<close> (\<open>runtime.py\<close>), \<open>Harness\<close> (\<open>harness.py\<close>, \<open>subagent_runner.py\<close>),
    \<open>AgentTree\<close>: a turn from its prompt to its response, the entry point, and whole trees of agents: the runner closed
    over its one runtime, whose registry holds the tools the runner made (\<open>runtime_at n\<close>, with room for \<open>n\<close> more
    nested sends before Python raises \<open>RecursionError\<close>; what is proved holds for every \<open>n\<close>).
    \<open>RunLaws\<close>, \<open>RunTree\<close>, \<open>RunResults\<close>, \<open>LoopLaws\<close>, \<open>ApprovalLaws\<close> are the lemmas about them, \<open>RunExample\<close> a small
    host on which everything runs, \<open>TurnProps\<close> the properties.

  \<^bold>\<open>How the code is written down.\<close>
  \<^item> A Python call is a function from a state to its outcome and the next state; an exception is the value \<open>Inl e\<close>
    with the state as it was left, so that what a failure leaves behind is part of every statement. Every \<open>raise\<close>,
    early return and \<open>finally\<close> is a branch of the model, with the message the code gives.
  \<^item> A \<open>dict\<close> is an association list in insertion order; a string is the list of its UTF-8 bytes; an \<open>int\<close> is
    unbounded. A binary64 float is an exact rational, an infinity or NaN: rounding is not modelled.
  \<^item> The clocks, \<open>uuid4\<close> and \<open>secrets\<close> are readings given from outside, one after the other. What the host
    supplies (the client, tools, policies, listeners, the file system of skills) is a function that may change the
    state and raise. The digests of \<open>hashlib\<close> are parameters; where their collisions matter it is said so.
  \<^item> What is shared by reference in Python (the ledger of a run tree, a registry, the cache of a session) is one
    component of the state.
  \<^item> Code that runs beside other processes (the file store and its lock) is a program of system calls. The others,
    the death of processes and the failing of calls come between any two of them. It is POSIX: the Windows
    branches are left out. What is asked of the world is in the rules of \<open>world_event\<close> and \<open>work_sys\<close>: files of the
    protocol are touched by attempts only, a killed process makes no more calls, and a file that is there is never
    reported missing; any other failure is allowed.
  \<^item> The rounds of a waiting lock are counted (\<open>acquire_rounds n\<close>), for any \<open>n\<close>: a run that has made finitely many
    calls is one of some \<open>n\<close>. The safety properties hold for all \<open>n\<close>; \<open>abandoned_lock_is_taken\<close> needs two rounds and
    \<open>held_lock_is_left_alone\<close> as many as there are until the clock is at the deadline. The loop of an agent is a
    \<open>partial_function\<close> with no bound at all, and \<open>every_turn_ends\<close> proves that it returns.

  \<^bold>\<open>What is proved.\<close> The claims C1 to C40 stand in the theories named \<open>...Props\<close> (and in \<open>Addresses\<close>), each with an
  instance on which its hypotheses hold. Task lists: every history refines the specification, a live claim is
  exclusive, the work loop drains the list. The lock: one callback at a time over all interleavings, crashes and
  reused pids; progress and bounded waiting. The file store: atomic and durable up to the time to live. Both together:
  updates of a document from any number of processes take effect one after the other, nothing is lost and nothing
  happens twice, and no task is handed to two processes while its lease runs. Budgets and agents: no tree of runs
  passes the budget of its root, whatever its shape; and where the tools of a runner keep the contexts they were made
  with, as the code has it, no tree of agents passes the largest of these. Threads and approvals: consecutive
  positions, one run per approved call, no gated handler before its approval. The index: nothing is lost by a
  failure, every page is of a committed state.

  \<^bold>\<open>Not modelled.\<close> The Windows identity, readers and retries (calls of \<open>kernel32\<close> through \<open>ctypes\<close>); the making of the
  store's directory; the reset of module state after a fork, and what a fork in the middle of an attempt does;
  the warnings and log lines that the code prints; the export lists of the packages. The tools and tests beside the package are not part of it.
\<close>

end
